(* ===== verification/Prelude.thy ===== *)
theory Prelude
  imports Complex_Main "HOL-Library.Sublist"
begin

text \<open>
  Shared vocabulary of the development: how Go's basic types and the pieces of its standard
  library that the gateway uses everywhere are represented, with the lemmas about them.

  \<^item> \<open>time.Time\<close> and \<open>time.Duration\<close> are integers counting nanoseconds. Go's zero time
    (year 1) is \<open>0\<close>, so \<open>IsZero\<close> is a comparison with \<open>0\<close>. \<open>t.Sub(u)\<close> saturates at the
    bounds of an \<open>int64\<close>, which \<open>time_sub\<close> writes out. Monotonic readings are not kept.
  \<^item> \<open>int64\<close> arithmetic that can overflow goes through \<open>wrap64\<close>; counters that cannot
    reach the bound are plain \<open>int\<close>.
  \<^item> a Go pointer to an immutable value is an \<open>option\<close>; a Go string is a list of bytes.
  \<^item> \<open>float64\<close> values are exact rationals: no property here depends on rounding.
\<close>

named_theorems go_simps \<open>unfolding rules for the helpers of the Go standard library\<close>
named_theorems inv_intros \<open>introduction rules: an operation preserves the invariant of its component\<close>

section \<open>Time and machine integers\<close>

type_synonym time = int
type_synonym duration = int

abbreviation millisecond :: duration where "millisecond \<equiv> 1000000"
abbreviation second :: duration where "second \<equiv> 1000000000"
abbreviation minute :: duration where "minute \<equiv> 60000000000"
abbreviation hour :: duration where "hour \<equiv> 3600000000000"

definition max_int64 :: int where "max_int64 = 2 ^ 63 - 1"
definition min_int64 :: int where "min_int64 = - (2 ^ 63)"

definition in_int64 :: "int \<Rightarrow> bool" where
  "in_int64 x \<longleftrightarrow> min_int64 \<le> x \<and> x \<le> max_int64"

definition wrap64 :: "int \<Rightarrow> int" where
  "wrap64 x = (x + 2 ^ 63) mod 2 ^ 64 - 2 ^ 63"

definition time_sub :: "time \<Rightarrow> time \<Rightarrow> duration" where
  "time_sub t u = max min_int64 (min max_int64 (t - u))"

definition is_zero_time :: "time \<Rightarrow> bool" where
  "is_zero_time t \<longleftrightarrow> t = 0"

text \<open>\<open>d.Milliseconds()\<close> divides towards zero; durations here are measured, so not negative.\<close>

definition milliseconds :: "duration \<Rightarrow> int" where
  "milliseconds d = sgn d * (\<bar>d\<bar> div millisecond)"

text \<open>\<open>t.Truncate(d)\<close> rounds down to a multiple of \<open>d\<close> since the zero time.\<close>

definition truncate_time :: "time \<Rightarrow> duration \<Rightarrow> time" where
  "truncate_time t d = (if d \<le> 0 then t else t - t mod d)"

lemma wrap64_id: "in_int64 x \<Longrightarrow> wrap64 x = x"
  by (simp add: wrap64_def in_int64_def min_int64_def max_int64_def)

lemma wrap64_range [simp, intro]: "in_int64 (wrap64 x)"
proof -
  have "0 \<le> (x + 2 ^ 63) mod 2 ^ 64" "(x + 2 ^ 63) mod 2 ^ 64 < (2 ^ 64 :: int)"
    by (rule pos_mod_sign, simp) (rule pos_mod_bound, simp)
  then show ?thesis by (simp add: wrap64_def in_int64_def min_int64_def max_int64_def)
qed

lemma time_sub_le_iff: "d < max_int64 \<Longrightarrow> min_int64 \<le> d \<Longrightarrow> time_sub t u \<le> d \<longleftrightarrow> t - u \<le> d"
  by (auto simp: time_sub_def max_int64_def min_int64_def)

lemma time_sub_less_iff: "d \<le> max_int64 \<Longrightarrow> min_int64 < d \<Longrightarrow> time_sub t u < d \<longleftrightarrow> t - u < d"
  by (auto simp: time_sub_def max_int64_def min_int64_def)

lemma truncate_time_le: "0 < d \<Longrightarrow> truncate_time t d \<le> t"
  by (simp add: truncate_time_def)

lemma truncate_time_gt: "0 < d \<Longrightarrow> t - d < truncate_time t d"
  using pos_mod_bound [of d t] by (simp add: truncate_time_def)

lemma truncate_time_mono:
  assumes "0 < d" "t \<le> u"
  shows "truncate_time t d \<le> truncate_time u d"
proof -
  have *: "x - x mod d = d * (x div d)" for x :: int
    by (simp add: minus_mod_eq_mult_div)
  show ?thesis
    using assms zdiv_mono1 [of t u d] by (simp add: truncate_time_def *)
qed

section \<open>Strings\<close>

fun contains :: "'a list \<Rightarrow> 'a \<Rightarrow> bool" where
  "contains [] v = False"
| "contains (c # cs) v = (if c = v then True else contains cs v)"

lemma contains_iff [simp]: "contains xs v \<longleftrightarrow> v \<in> set xs"
  by (induction xs) auto

text \<open>\<open>strings.TrimSpace\<close>: the UTF-8 encodings of the runes with the White_Space property.\<close>

definition space_runes :: "string list" where
  "space_runes = map (map char_of)
     ([[9], [10], [11], [12], [13], [32], [194, 133], [194, 160], [225, 154, 128]]
      @ map (\<lambda>b. [226, 128, b]) [128, 129, 130, 131, 132, 133, 134, 135, 136, 137, 138, 168, 169, 175]
      @ [[226, 129, 159], [227, 128, 128 :: nat]])"

lemma space_runes_nonempty: "r \<in> set space_runes \<Longrightarrow> r \<noteq> []"
  by (auto simp: space_runes_def)

function trim_left :: "string \<Rightarrow> string" where
  "trim_left s = (case find (\<lambda>r. prefix r s) space_runes of
     None \<Rightarrow> s | Some r \<Rightarrow> trim_left (drop (length r) s))"
  by pat_completeness auto
termination
proof (relation "measure length", goal_cases)
  case (2 s r)
  then have "r \<in> set space_runes" "prefix r s"
    by (auto simp: find_Some_iff in_set_conv_nth)
  then have "r \<noteq> []" "length r \<le> length s"
    using space_runes_nonempty prefix_length_le by blast+
  then show ?case by (cases s; cases r) auto
qed simp

function trim_right :: "string \<Rightarrow> string" where
  "trim_right s = (case find (\<lambda>r. suffix r s) space_runes of
     None \<Rightarrow> s | Some r \<Rightarrow> trim_right (take (length s - length r) s))"
  by pat_completeness auto
termination
proof (relation "measure length", goal_cases)
  case (2 s r)
  then have "r \<in> set space_runes" "suffix r s"
    by (auto simp: find_Some_iff in_set_conv_nth)
  then have "r \<noteq> []" "length r \<le> length s"
    using space_runes_nonempty suffix_length_le by blast+
  then show ?case by (cases r) auto
qed simp

declare trim_left.simps [simp del] trim_right.simps [simp del]

definition trim_space :: "string \<Rightarrow> string" where
  "trim_space s = trim_right (trim_left s)"

lemma trim_space_nil [simp]: "trim_space [] = []"
proof -
  have "find (\<lambda>r. prefix r []) space_runes = None" "find (\<lambda>r. suffix r []) space_runes = None"
    by (auto simp: find_None_iff dest: space_runes_nonempty)
  then show ?thesis by (simp add: trim_space_def trim_left.simps trim_right.simps)
qed

text \<open>Strings that begin and end with a printable ASCII character other than the space are trimmed already.\<close>

definition graphic :: "char \<Rightarrow> bool" where
  "graphic c \<longleftrightarrow> 33 \<le> (of_char c :: nat) \<and> (of_char c :: nat) \<le> 126"

lemma space_runes_graphic: "r \<in> set space_runes \<Longrightarrow> c \<in> set r \<Longrightarrow> \<not> graphic c"
  by (auto simp: space_runes_def graphic_def)

lemma trim_space_graphic:
  assumes "graphic (hd s)" "graphic (last s)"
  shows "trim_space s = s"
proof (cases "s = []")
  case False
  have "\<not> prefix r s \<and> \<not> suffix r s" if r: "r \<in> set space_runes" for r
  proof -
    have ne: "r \<noteq> []" using space_runes_nonempty r by blast
    then have "\<not> graphic (hd r)" "\<not> graphic (last r)" using space_runes_graphic [OF r] by simp_all
    moreover have "prefix r s \<Longrightarrow> hd r = hd s" using ne by (auto simp: prefix_def)
    moreover have "suffix r s \<Longrightarrow> last r = last s" using ne by (auto simp: suffix_def)
    ultimately show ?thesis using assms by metis
  qed
  then have "find (\<lambda>r. prefix r s) space_runes = None" "find (\<lambda>r. suffix r s) space_runes = None"
    by (auto simp: find_None_iff)
  then show ?thesis by (simp add: trim_space_def trim_left.simps [of s] trim_right.simps [of s])
qed simp

text \<open>
  The number of runes Go decodes from a string: a well-formed UTF-8 sequence is one rune, and so is
  every byte that does not start one.
\<close>

definition continuation :: "nat \<Rightarrow> bool" where
  "continuation b \<longleftrightarrow> 128 \<le> b \<and> b \<le> 191"

fun rune_width :: "nat list \<Rightarrow> nat" where
  "rune_width (a # b # c # d # _) =
     (if 194 \<le> a \<and> a \<le> 223 \<and> continuation b then 2
      else if 224 \<le> a \<and> a \<le> 239 \<and> continuation b \<and> continuation c
              \<and> (a = 224 \<longrightarrow> 160 \<le> b) \<and> (a = 237 \<longrightarrow> b \<le> 159) then 3
      else if 240 \<le> a \<and> a \<le> 244 \<and> continuation b \<and> continuation c \<and> continuation d
              \<and> (a = 240 \<longrightarrow> 144 \<le> b) \<and> (a = 244 \<longrightarrow> b \<le> 143) then 4
      else 1)"
| "rune_width [a, b, c] =
     (if 194 \<le> a \<and> a \<le> 223 \<and> continuation b then 2
      else if 224 \<le> a \<and> a \<le> 239 \<and> continuation b \<and> continuation c
              \<and> (a = 224 \<longrightarrow> 160 \<le> b) \<and> (a = 237 \<longrightarrow> b \<le> 159) then 3
      else 1)"
| "rune_width [a, b] = (if 194 \<le> a \<and> a \<le> 223 \<and> continuation b then 2 else 1)"
| "rune_width _ = 1"

fun rune_count_from :: "nat \<Rightarrow> nat list \<Rightarrow> nat" where
  "rune_count_from skip [] = 0"
| "rune_count_from 0 (b # bs) = Suc (rune_count_from (rune_width (b # bs) - 1) bs)"
| "rune_count_from (Suc k) (b # bs) = rune_count_from k bs"

definition rune_count :: "string \<Rightarrow> nat" where
  "rune_count s = rune_count_from 0 (map of_char s)"

lemma rune_count_from_le: "rune_count_from k bs \<le> length bs"
  by (induction k bs rule: rune_count_from.induct) auto

lemma rune_count_le: "rune_count s \<le> length s"
  using rune_count_from_le [of 0 "map of_char s"] by (simp add: rune_count_def)

text \<open>
  \<open>strings.ToLower\<close> on ASCII, other bytes left alone. \<open>strings.EqualFold\<close> with an ASCII string folds
  two more runes onto ASCII letters: the long s (C5 BF) and the Kelvin sign (E2 84 AA).
\<close>

definition lower_char :: "char \<Rightarrow> char" where
  "lower_char c = (let n = of_char c :: nat in if 65 \<le> n \<and> n \<le> 90 then char_of (n + 32) else c)"

definition to_lower :: "string \<Rightarrow> string" where
  "to_lower = map lower_char"

function simple_fold :: "string \<Rightarrow> string" where
  "simple_fold [] = []"
| "simple_fold (c # cs) =
     (if take 2 (c # cs) = [CHR 0xC5, CHR 0xBF] then CHR ''s'' # simple_fold (drop 1 cs)
      else if take 3 (c # cs) = [CHR 0xE2, CHR 0x84, CHR 0xAA] then CHR ''k'' # simple_fold (drop 2 cs)
      else lower_char c # simple_fold cs)"
  by pat_completeness auto
termination by (relation "measure length") auto

definition equal_fold :: "string \<Rightarrow> string \<Rightarrow> bool" where
  "equal_fold a b \<longleftrightarrow> simple_fold a = simple_fold b"

definition has_prefix :: "'a list \<Rightarrow> 'a list \<Rightarrow> bool" where
  "has_prefix s p \<longleftrightarrow> prefix p s"

definition has_suffix :: "'a list \<Rightarrow> 'a list \<Rightarrow> bool" where
  "has_suffix s p \<longleftrightarrow> suffix p s"

definition trim_prefix :: "'a list \<Rightarrow> 'a list \<Rightarrow> 'a list" where
  "trim_prefix s p = (if prefix p s then drop (length p) s else s)"

definition trim_suffix :: "'a list \<Rightarrow> 'a list \<Rightarrow> 'a list" where
  "trim_suffix s p = (if suffix p s then take (length s - length p) s else s)"

text \<open>\<open>strings.Contains(s, sub)\<close>.\<close>

fun contains_str :: "'a list \<Rightarrow> 'a list \<Rightarrow> bool" where
  "contains_str [] sub = (sub = [])"
| "contains_str (c # cs) sub = (prefix sub (c # cs) \<or> contains_str cs sub)"

lemma contains_str_sublist: "contains_str s sub \<longleftrightarrow> sublist sub s"
  by (induction s) (auto simp: sublist_Cons_right)

lemma to_lower_length [simp]: "length (to_lower s) = length s"
  by (simp add: to_lower_def)

section \<open>Lists and options\<close>

lemma sum_list_map_filter_split:
  "sum_list (map f xs) = sum_list (map f (filter P xs)) + sum_list (map f (filter (\<lambda>x. \<not> P x) xs))"
  for f :: "'a \<Rightarrow> 'b::comm_monoid_add"
  by (induction xs) (auto simp: ac_simps)

lemma sorted_wrt_filter_map: "sorted_wrt R xs \<Longrightarrow> sorted_wrt R (filter P xs)"
  by (rule sorted_wrt_filter)

lemma sorted_wrt_take': "sorted_wrt R xs \<Longrightarrow> sorted_wrt R (take n xs)"
  by (rule sorted_wrt_take)

lemma finite_dom_upd [simp]: "finite (dom (m(k \<mapsto> v))) \<longleftrightarrow> finite (dom m)"
  by simp

end
