(* ===== verification/Core_Types.thy ===== *)
theory Core_Types
  imports Prelude
begin

text \<open>
  The data model of \<open>internal/core/types.go\<close>: upstreams, client keys, groups, request logs, token usage
  and balances, field by field, with the routing predicates \<open>Supports\<close>, \<open>UpstreamModel\<close> and
  \<open>Allows\<close>. Fields keep Go's order; a prefix names the struct (\<open>us_\<close> Upstream, \<open>ak_\<close> APIKey,
  \<open>gr_\<close> Group, \<open>at_\<close> Attempt, \<open>ut_\<close> Usage, \<open>rl_\<close> RequestLog, \<open>td_\<close> UpstreamToday,
  \<open>ba_\<close> Balance).
\<close>

section \<open>Protocols and balance transitions\<close>

definition ProtocolResponses :: string where "ProtocolResponses = ''responses''"
definition ProtocolMessages :: string where "ProtocolMessages = ''messages''"
definition ProtocolChat :: string where "ProtocolChat = ''chat''"

lemmas protocol_defs = ProtocolResponses_def ProtocolMessages_def ProtocolChat_def

datatype BalanceTransition = BalanceUnchanged | BalanceSuspended | BalanceResumed

definition BalanceReasonProtectionDisabled :: string where
  "BalanceReasonProtectionDisabled = ''protection_disabled''"

fun transition_text :: "BalanceTransition \<Rightarrow> string" where
  "transition_text BalanceUnchanged = ''''"
| "transition_text BalanceSuspended = ''suspended''"
| "transition_text BalanceResumed = ''resumed''"

definition BalanceTransitionMessage :: "string \<Rightarrow> BalanceTransition \<Rightarrow> string \<Rightarrow> string" where
  "BalanceTransitionMessage name transition reason =
     (if transition = BalanceSuspended then
        ''upstream '' @ name @ '' paused because available balance is exhausted''
      else if reason = BalanceReasonProtectionDisabled then
        ''upstream '' @ name @ '' resumed because balance protection was disabled''
      else ''upstream '' @ name @ '' resumed after balance recovery'')"

section \<open>Upstreams\<close>

record Upstream =
  us_config_version :: int
  us_id :: int
  us_name :: string
  us_kind :: string
  us_base_url :: string
  us_user_agent :: string
  us_api_key :: string
  us_access_token :: string
  us_user_id :: string
  us_enabled :: bool
  us_balance_protection :: bool
  us_balance_suspended :: bool
  us_zero_balance_checks :: int
  us_priority :: int
  us_protocols :: "string list"
  us_models :: "string list"
  us_models_locked :: bool
  us_model_aliases :: "(string \<times> string) list"
  us_pricing_profile_id :: "int option"
  us_connect_timeout :: duration
  us_first_byte_timeout :: duration
  us_idle_timeout :: duration
  us_failure_threshold :: int
  us_cooldown :: duration
  us_health_status :: string
  us_consecutive_failure :: int
  us_consecutive_success :: int
  us_recovery_started_at :: "time option"
  us_health_notified :: string
  us_circuit_open_until :: "time option"
  us_last_check_at :: "time option"
  us_last_error :: string

text \<open>A Go map that is iterated over is an association list with distinct keys. Indexing gives the zero value, here the empty string, for a missing key.\<close>

definition alias_of :: "Upstream \<Rightarrow> string \<Rightarrow> string" where
  "alias_of u model = (case map_of (us_model_aliases u) model of None \<Rightarrow> [] | Some m \<Rightarrow> m)"

definition circuit_open :: "Upstream \<Rightarrow> time \<Rightarrow> bool" where
  "circuit_open u now = (case us_circuit_open_until u of None \<Rightarrow> False | Some t \<Rightarrow> now < t)"

definition Supports :: "Upstream \<Rightarrow> string \<Rightarrow> string \<Rightarrow> time \<Rightarrow> bool" where
  "Supports u protocol model now =
     (if \<not> us_enabled u \<or> us_balance_suspended u \<or> circuit_open u now then False
      else if \<not> contains (us_protocols u) protocol then False
      else length (us_models u) = 0 \<or> contains (us_models u) model \<or> alias_of u model \<noteq> [])"

definition UpstreamModel :: "Upstream \<Rightarrow> string \<Rightarrow> string" where
  "UpstreamModel u model =
     (let mapped = trim_space (alias_of u model) in if mapped \<noteq> [] then mapped else model)"

lemma Supports_enabled: "Supports u p m now \<Longrightarrow> us_enabled u"
  by (auto simp: Supports_def split: if_splits)

lemma Supports_not_suspended: "Supports u p m now \<Longrightarrow> \<not> us_balance_suspended u"
  by (auto simp: Supports_def split: if_splits)

lemma Supports_circuit: "Supports u p m now \<Longrightarrow> us_circuit_open_until u = Some t \<Longrightarrow> t \<le> now"
  by (auto simp: Supports_def circuit_open_def split: if_splits)

lemma Supports_protocol: "Supports u p m now \<Longrightarrow> p \<in> set (us_protocols u)"
  by (auto simp: Supports_def split: if_splits)

lemmas Supports_dests = Supports_enabled Supports_not_suspended Supports_circuit Supports_protocol

section \<open>Client keys and groups\<close>

record APIKey =
  ak_id :: int
  ak_name :: string
  ak_group_id :: int
  ak_group_name :: string
  ak_group_enabled :: bool
  ak_prefix :: string
  ak_enabled :: bool
  ak_protocols :: "string list"
  ak_models :: "string list"
  ak_last_used :: "time option"
  ak_created_at :: time

record Group =
  gr_id :: int
  gr_name :: string
  gr_enabled :: bool
  gr_upstream_ids :: "int list"
  gr_upstreams :: "string list"
  gr_key_count :: int
  gr_created_at :: time
  gr_updated_at :: time

definition Allows :: "APIKey \<Rightarrow> string \<Rightarrow> string \<Rightarrow> bool" where
  "Allows k protocol model \<longleftrightarrow>
     ak_enabled k \<and> (length (ak_protocols k) = 0 \<or> contains (ak_protocols k) protocol)
     \<and> (length (ak_models k) = 0 \<or> contains (ak_models k) model)"

section \<open>Request records\<close>

record Attempt =
  at_failure_class :: string
  at_upstream_id :: int
  at_upstream_name :: string
  at_status_code :: int
  at_error :: string
  at_duration_ms :: int
  at_ttfb_ms :: "int option"
  at_ttft_ms :: "int option"

record Usage =
  ut_billable :: "int option"
  ut_input :: "int option"
  ut_output :: "int option"
  ut_cached :: "int option"
  ut_cache_creation :: "int option"
  ut_uncached :: "int option"

definition empty_usage :: Usage where
  "empty_usage = \<lparr>ut_billable = None, ut_input = None, ut_output = None, ut_cached = None,
     ut_cache_creation = None, ut_uncached = None\<rparr>"

record RequestLog =
  rl_request_id :: string
  rl_api_key_id :: int
  rl_group_id :: "int option"
  rl_upstream_id :: "int option"
  rl_protocol :: string
  rl_model :: string
  rl_status_code :: int
  rl_duration_ms :: int
  rl_ttfb_ms :: "int option"
  rl_ttft_ms :: "int option"
  rl_attempts :: "Attempt list"
  rl_usage :: Usage
  rl_cost_usd :: "rat option"
  rl_error_code :: string
  rl_client_ip :: string
  rl_created_at :: time

section \<open>Balances\<close>

record UpstreamToday =
  td_requests :: "int option"
  td_input :: "int option"
  td_output :: "int option"
  td_cache_read :: "int option"
  td_cache_write :: "int option"
  td_total :: "int option"
  td_cost :: "rat option"
  td_timezone :: "string option"

record Balance =
  ba_source :: string
  ba_today :: "UpstreamToday option"
  ba_currency_reported :: bool
  ba_status :: string
  ba_available :: "rat option"
  ba_used :: "rat option"
  ba_currency :: string
  ba_plan :: string
  ba_unlimited :: bool
  ba_error :: string
  ba_updated_at :: "time option"
  ba_last_success :: "time option"

definition empty_balance :: Balance where
  "empty_balance = \<lparr>ba_source = [], ba_today = None, ba_currency_reported = False, ba_status = [],
     ba_available = None, ba_used = None, ba_currency = [], ba_plan = [], ba_unlimited = False,
     ba_error = [], ba_updated_at = None, ba_last_success = None\<rparr>"

section \<open>Sample values used by the witnesses\<close>

definition sample_upstream :: Upstream where
  "sample_upstream = \<lparr>us_config_version = 1, us_id = 7, us_name = ''alpha'', us_kind = ''newapi'',
     us_base_url = ''https://a.example'', us_user_agent = [], us_api_key = ''k'',
     us_access_token = [], us_user_id = [], us_enabled = True, us_balance_protection = True,
     us_balance_suspended = False, us_zero_balance_checks = 0, us_priority = 1,
     us_protocols = [''chat''], us_models = [], us_models_locked = False,
     us_model_aliases = [], us_pricing_profile_id = None, us_connect_timeout = 0,
     us_first_byte_timeout = 0, us_idle_timeout = 0, us_failure_threshold = 3,
     us_cooldown = 60 * second, us_health_status = ''unknown'', us_consecutive_failure = 0,
     us_consecutive_success = 0, us_recovery_started_at = None, us_health_notified = ''healthy'',
     us_circuit_open_until = None, us_last_check_at = None, us_last_error = []\<rparr>"

end
