(* ===== verification/Gateway_Resources.thy ===== *)
theory Gateway_Resources
  imports Core_Types "HOL-Library.Multiset"
begin

text \<open>
  The resource accounting of the gateway: \<open>internal/gateway/limits.go\<close> (concurrency gate and per-key
  rate limiter), \<open>internal/gateway/resources.go\<close> (byte budgets, the growing response buffer, error
  classes) and the limit normalisation of \<open>newHandler\<close> in \<open>internal/gateway/handler.go\<close>.

  Each Go method runs under its mutex, so it is one function from state to state. A counter is an
  \<open>int\<close>: the invariants below keep it between \<open>0\<close> and its limit, far from the \<open>int64\<close> bounds.
\<close>

section \<open>Errors and contexts of the gateway\<close>

text \<open>
  What the gateway distinguishes of an error: the two sentinels it declares, its own timeouts, the
  context errors, and a transport error, which \<open>http.Client.Do\<close> wraps in a \<open>url.Error\<close>.
\<close>

datatype gw_error =
    ErrResponseBudget
  | ErrClientClosed string
  | UpstreamTimeout string
  | CtxCanceled
  | CtxDeadline
  | NetError bool string
  | UrlError gw_error
  | PlainError string

fun is_timeout :: "gw_error \<Rightarrow> bool" where
  "is_timeout (UpstreamTimeout s) = True"
| "is_timeout CtxDeadline = True"
| "is_timeout (NetError t s) = t"
| "is_timeout (UrlError e) = is_timeout e"
| "is_timeout _ = False"

fun is_client_closed :: "gw_error \<Rightarrow> bool" where
  "is_client_closed (ErrClientClosed s) = True"
| "is_client_closed (UrlError e) = is_client_closed e"
| "is_client_closed _ = False"

fun is_response_budget :: "gw_error \<Rightarrow> bool" where
  "is_response_budget ErrResponseBudget = True"
| "is_response_budget (UrlError e) = is_response_budget e"
| "is_response_budget _ = False"

fun is_canceled :: "gw_error \<Rightarrow> bool" where
  "is_canceled CtxCanceled = True"
| "is_canceled (UrlError e) = is_canceled e"
| "is_canceled _ = False"

text \<open>\<open>ctx.Err()\<close> of a request context.\<close>

datatype ctx_err = CtxLive | CtxErrCanceled | CtxErrDeadline

fun ctx_error :: "ctx_err \<Rightarrow> gw_error option" where
  "ctx_error CtxLive = None"
| "ctx_error CtxErrCanceled = Some CtxCanceled"
| "ctx_error CtxErrDeadline = Some CtxDeadline"

definition failureClass :: "ctx_err \<Rightarrow> gw_error \<Rightarrow> string" where
  "failureClass ctx err =
     (if ctx = CtxErrDeadline \<or> is_response_budget err then ''gateway''
      else if ctx = CtxErrCanceled \<or> is_client_closed err then ''client''
      else ''upstream'')"

text \<open>The write deadline of one downstream write, bounded by the request deadline.\<close>

definition downstream_deadline :: "time \<Rightarrow> time option \<Rightarrow> duration \<Rightarrow> time" where
  "downstream_deadline now ctx_end timeout =
     (let timeout = (if timeout \<le> 0 then 30 * second else timeout);
          deadline = now + timeout
      in case ctx_end of Some e \<Rightarrow> (if e < deadline then e else deadline) | None \<Rightarrow> deadline)"

lemma downstream_deadline_bounds:
  "downstream_deadline now (Some e) timeout \<le> e"
  "0 < timeout \<Longrightarrow> downstream_deadline now ce timeout \<le> now + timeout"
  by (auto simp: downstream_deadline_def Let_def split: option.splits)

section \<open>Limits\<close>

record Limits =
  lm_max_concurrent :: int
  lm_max_per_key :: int
  lm_max_per_minute :: int
  lm_max_duration :: duration
  lm_write_timeout :: duration
  lm_max_request_bytes :: int
  lm_max_response_bytes :: int

definition maxBodyBytes :: int where "maxBodyBytes = 32 * 2 ^ 20"

definition default_limits :: Limits where
  "default_limits = \<lparr>lm_max_concurrent = 256, lm_max_per_key = 32, lm_max_per_minute = 600,
     lm_max_duration = 15 * minute, lm_write_timeout = 30 * second,
     lm_max_request_bytes = 512 * 2 ^ 20, lm_max_response_bytes = 512 * 2 ^ 20\<rparr>"

definition pick_positive :: "int \<Rightarrow> int \<Rightarrow> int" where
  "pick_positive configured fallback = (if configured > 0 then configured else fallback)"

definition override_limits :: "Limits \<Rightarrow> Limits \<Rightarrow> Limits" where
  "override_limits c d = \<lparr>
     lm_max_concurrent = pick_positive (lm_max_concurrent c) (lm_max_concurrent d),
     lm_max_per_key = pick_positive (lm_max_per_key c) (lm_max_per_key d),
     lm_max_per_minute = pick_positive (lm_max_per_minute c) (lm_max_per_minute d),
     lm_max_duration = pick_positive (lm_max_duration c) (lm_max_duration d),
     lm_write_timeout = pick_positive (lm_write_timeout c) (lm_write_timeout d),
     lm_max_request_bytes = pick_positive (lm_max_request_bytes c) (lm_max_request_bytes d),
     lm_max_response_bytes = pick_positive (lm_max_response_bytes c) (lm_max_response_bytes d)\<rparr>"

definition cap_limits :: "Limits \<Rightarrow> Limits" where
  "cap_limits l = l\<lparr>
     lm_max_concurrent := (if lm_max_concurrent l > 10000 then 10000 else lm_max_concurrent l),
     lm_max_per_key := (if lm_max_per_key l > 1000 then 1000 else lm_max_per_key l),
     lm_max_per_minute := (if lm_max_per_minute l > 100000 then 100000 else lm_max_per_minute l),
     lm_max_duration := (if lm_max_duration l > 24 * hour then 24 * hour else lm_max_duration l)\<rparr>"

text \<open>\<open>newHandler\<close> looks at the first configured value only.\<close>

definition new_limits :: "Limits list \<Rightarrow> Limits" where
  "new_limits configured =
     cap_limits (case configured of [] \<Rightarrow> default_limits
                 | c # _ \<Rightarrow> override_limits c default_limits)"

definition limits_ok :: "Limits \<Rightarrow> bool" where
  "limits_ok l \<longleftrightarrow> 1 \<le> lm_max_concurrent l \<and> lm_max_concurrent l \<le> 10000
     \<and> 1 \<le> lm_max_per_key l \<and> lm_max_per_key l \<le> 1000
     \<and> 1 \<le> lm_max_per_minute l \<and> lm_max_per_minute l \<le> 100000
     \<and> 1 \<le> lm_max_duration l \<and> lm_max_duration l \<le> 24 * hour
     \<and> 1 \<le> lm_write_timeout l \<and> 1 \<le> lm_max_request_bytes l \<and> 1 \<le> lm_max_response_bytes l"

lemma new_limits_ok [inv_intros]: "limits_ok (new_limits configured)"
  by (auto simp: new_limits_def limits_ok_def cap_limits_def override_limits_def
      default_limits_def pick_positive_def split: list.split)

section \<open>The concurrency gate\<close>

record requestGate =
  rg_active :: int
  rg_by_key :: "int \<rightharpoonup> int"

definition empty_gate :: requestGate where
  "empty_gate = \<lparr>rg_active = 0, rg_by_key = Map.empty\<rparr>"

definition key_count :: "requestGate \<Rightarrow> int \<Rightarrow> int" where
  "key_count g k = (case rg_by_key g k of None \<Rightarrow> 0 | Some n \<Rightarrow> n)"

definition gate_acquire :: "requestGate \<Rightarrow> int \<Rightarrow> Limits \<Rightarrow> bool \<times> requestGate" where
  "gate_acquire g key limits =
     (if rg_active g \<ge> lm_max_concurrent limits \<or> key_count g key \<ge> lm_max_per_key limits
      then (False, g)
      else (True, g\<lparr>rg_active := rg_active g + 1,
                    rg_by_key := (rg_by_key g)(key \<mapsto> key_count g key + 1)\<rparr>))"

definition gate_release :: "requestGate \<Rightarrow> int \<Rightarrow> requestGate" where
  "gate_release g key =
     (let active = (if rg_active g > 0 then rg_active g - 1 else rg_active g);
          count = key_count g key - 1
      in g\<lparr>rg_active := active,
           rg_by_key := (if count > 0 then (rg_by_key g)(key \<mapsto> count)
                         else (rg_by_key g)(key := None))\<rparr>)"

text \<open>The abstract state: the multiset of keys whose requests are in flight.\<close>

definition gate_rep :: "requestGate \<Rightarrow> int multiset \<Rightarrow> bool" where
  "gate_rep g M \<longleftrightarrow> rg_active g = int (size M)
     \<and> rg_by_key g = (\<lambda>k. if count M k = 0 then None else Some (int (count M k)))"

lemma gate_rep_empty [inv_intros]: "gate_rep empty_gate {#}"
  by (simp add: gate_rep_def empty_gate_def)

lemma gate_rep_key_count: "gate_rep g M \<Longrightarrow> key_count g k = int (count M k)"
  by (simp add: gate_rep_def key_count_def)

lemma gate_acquire_rep:
  assumes "gate_rep g M"
  shows "fst (gate_acquire g k l) \<longleftrightarrow>
     int (size M) < lm_max_concurrent l \<and> int (count M k) < lm_max_per_key l"
    and "fst (gate_acquire g k l) \<Longrightarrow> gate_rep (snd (gate_acquire g k l)) (add_mset k M)"
  using assms gate_rep_key_count [OF assms, of k]
  by (auto simp: gate_acquire_def gate_rep_def fun_eq_iff count_eq_zero_iff)

lemma gate_release_rep:
  assumes "gate_rep g M" "k \<in># M"
  shows "gate_rep (gate_release g k) (M - {#k#})"
proof -
  have "0 < size M" "0 < count M k"
    using assms(2) by (auto simp: nonempty_has_size [symmetric])
  then show ?thesis
    using assms gate_rep_key_count [OF assms(1), of k]
    by (auto simp: gate_release_def gate_rep_def fun_eq_iff Let_def size_Diff_singleton of_nat_diff
        count_eq_zero_iff)
qed

section \<open>Admission: the interface of a counted resource\<close>

text \<open>
  What \<open>proxy\<close> and \<open>models\<close> rely on for the gate, and \<open>proxy\<close> and the response buffer for the
  byte budgets: a successful \<open>acq\<close> adds one request to those in flight and stays under the cap, a
  refused one changes nothing, and \<open>rel\<close> takes an admitted request out again.
\<close>

datatype 'r admission_event = Admit 'r | Leave 'r

locale admission =
  fixes used :: "'s \<Rightarrow> int"
    and weight :: "'r \<Rightarrow> int"
    and acq :: "'s \<Rightarrow> 'r \<Rightarrow> bool \<times> 's"
    and rel :: "'s \<Rightarrow> 'r \<Rightarrow> 's"
    and cap :: int
    and rep :: "'s \<Rightarrow> 'r multiset \<Rightarrow> bool"
  assumes weight_nonneg: "0 \<le> weight r"
    and rep_used: "rep s M \<Longrightarrow> used s = (\<Sum>r\<in>#M. weight r)"
    and acq_admits: "rep s M \<Longrightarrow> acq s r = (True, s') \<Longrightarrow> rep s' (add_mset r M)"
    and acq_capped: "rep s M \<Longrightarrow> acq s r = (True, s') \<Longrightarrow> used s \<le> cap \<Longrightarrow> used s' \<le> cap"
    and acq_refuses: "acq s r = (False, s') \<Longrightarrow> s' = s"
    and rel_leaves: "rep s M \<Longrightarrow> r \<in># M \<Longrightarrow> rep (rel s r) (M - {#r#})"
begin

text \<open>A release is only ever run for a request that was admitted (a \<open>defer\<close> after the acquire).\<close>

fun adm_step :: "'s \<times> 'r multiset \<Rightarrow> 'r admission_event \<Rightarrow> 's \<times> 'r multiset" where
  "adm_step (s, M) (Admit r) =
     (case acq s r of (ok, s') \<Rightarrow> (s', if ok then add_mset r M else M))"
| "adm_step (s, M) (Leave r) = (if r \<in># M then (rel s r, M - {#r#}) else (s, M))"

definition adm_ok :: "'s \<times> 'r multiset \<Rightarrow> bool" where
  "adm_ok p \<longleftrightarrow> rep (fst p) (snd p) \<and> used (fst p) \<le> cap"

lemma used_nonneg: "rep s M \<Longrightarrow> 0 \<le> used s"
proof -
  have "0 \<le> (\<Sum>r\<in>#M. weight r)" for M
    by (induction M) (auto simp: weight_nonneg)
  then show "rep s M \<Longrightarrow> 0 \<le> used s" by (simp add: rep_used)
qed

lemma adm_step_ok: "adm_ok p \<Longrightarrow> adm_ok (adm_step p e)"
proof (induction p e rule: adm_step.induct)
  case (1 s M r)
  then show ?case
    by (auto simp: adm_ok_def split: prod.splits dest: acq_admits acq_capped acq_refuses)
next
  case (2 s M r)
  show ?case
  proof (cases "r \<in># M")
    case True
    then have "(\<Sum>x\<in>#M. weight x) = weight r + (\<Sum>x\<in>#M - {#r#}. weight x)"
      by (auto dest!: multi_member_split)
    moreover have "rep (rel s r) (M - {#r#})" "used s = (\<Sum>x\<in>#M. weight x)" "used s \<le> cap"
      using True "2.prems" by (auto simp: adm_ok_def rel_leaves rep_used)
    ultimately show ?thesis
      using True weight_nonneg [of r] rep_used [of "rel s r"] by (simp add: adm_ok_def)
  qed (use "2.prems" in simp)
qed

lemma adm_run_ok: "adm_ok p \<Longrightarrow> adm_ok (fold (\<lambda>e p. adm_step p e) es p)"
  by (induction es arbitrary: p) (simp_all add: adm_step_ok)

lemma acq_then_rel:
  assumes "rep s M" "acq s r = (True, s')"
  shows "rep (rel s' r) M"
  using rel_leaves [OF acq_admits [OF assms], of r] by simp

end

interpretation gate: admission rg_active "\<lambda>_. 1" "\<lambda>g k. gate_acquire g k l" gate_release
  "lm_max_concurrent l" gate_rep for l :: Limits
proof (unfold_locales, goal_cases)
  case (3 s M r s')
  then show ?case using gate_acquire_rep(2) [of s M r l] by simp
next
  case (4 s M r s')
  then show ?case by (auto simp: gate_acquire_def split: if_splits)
next
  case (5 s r s')
  then show ?case by (auto simp: gate_acquire_def split: if_splits)
next
  case (6 s M r)
  then show ?case by (rule gate_release_rep)
qed (auto simp: gate_rep_def)

interpretation key_gate: admission "\<lambda>g. key_count g k" "\<lambda>k'. if k' = k then 1 else 0"
  "\<lambda>g k. gate_acquire g k l" gate_release "lm_max_per_key l" gate_rep for l :: Limits and k :: int
proof (unfold_locales, goal_cases)
  case (2 s M)
  have "(\<Sum>k'\<in>#M. if k' = k then 1 else 0 :: int) = int (count M k)"
    by (induction M) auto
  with 2 show ?case by (simp add: gate_rep_key_count)
next
  case (4 s M r s')
  then show ?case by (auto simp: gate_acquire_def key_count_def split: if_splits)
qed (auto intro: gate.acq_admits gate.rel_leaves gate.acq_refuses)

section \<open>Byte budgets\<close>

record byteBudget =
  bb_used :: int

definition budget_acquire :: "byteBudget \<Rightarrow> int \<Rightarrow> int \<Rightarrow> bool \<times> byteBudget" where
  "budget_acquire b n limit =
     (if n > limit - bb_used b then (False, b) else (True, b\<lparr>bb_used := bb_used b + n\<rparr>))"

definition budget_release :: "byteBudget \<Rightarrow> int \<Rightarrow> byteBudget" where
  "budget_release b n = b\<lparr>bb_used := bb_used b - n\<rparr>"

definition budget_current :: "byteBudget \<Rightarrow> int" where
  "budget_current b = bb_used b"

definition budget_rep :: "byteBudget \<Rightarrow> nat multiset \<Rightarrow> bool" where
  "budget_rep b M \<longleftrightarrow> bb_used b = (\<Sum>n\<in>#M. int n)"

lemma budget_release_acquire [simp]:
  "budget_acquire b n limit = (True, b') \<Longrightarrow> budget_release b' n = b"
  by (auto simp: budget_acquire_def budget_release_def split: if_splits)

lemma budget_acquire_refused: "budget_acquire b n limit = (False, b') \<Longrightarrow> b' = b"
  by (auto simp: budget_acquire_def split: if_splits)

lemma budget_acquire_used:
  "budget_acquire b n limit = (True, b') \<Longrightarrow> bb_used b' = bb_used b + n \<and> bb_used b' \<le> limit"
  by (auto simp: budget_acquire_def split: if_splits)

interpretation budget: admission bb_used int "\<lambda>b n. budget_acquire b (int n) limit"
  "\<lambda>b n. budget_release b (int n)" limit budget_rep for limit :: int
proof (unfold_locales, goal_cases)
  case (6 s M r)
  then show ?case
    by (auto simp: budget_rep_def budget_release_def dest!: multi_member_split)
qed (auto simp: budget_rep_def budget_acquire_def split: if_splits)

section \<open>The response buffer\<close>

text \<open>
  \<open>responseBuffer\<close> charges its capacity to a shared budget, the old and the new allocation
  together while it grows. A Go slice is its data and its capacity. A buffer without a budget
  (\<open>readResponse\<close>) has \<open>None\<close>. When \<open>needed\<close> is beyond \<open>maxBodyBytes\<close> the runtime picks
  a capacity on its own, at least \<open>needed\<close>; \<open>readResponse\<close> checks the size before it appends,
  so this case does not arise there.
\<close>

record responseBuffer =
  rb_data :: string
  rb_cap :: int
  rb_limit :: int
  rb_reserved :: int

definition empty_buffer :: "int \<Rightarrow> responseBuffer" where
  "empty_buffer limit = \<lparr>rb_data = [], rb_cap = 0, rb_limit = limit, rb_reserved = 0\<rparr>"

definition next_cap :: "int \<Rightarrow> int \<Rightarrow> int" where
  "next_cap needed cap = min maxBodyBytes (max needed (max 32768 (2 * cap)))"

definition rb_append ::
  "byteBudget option \<Rightarrow> responseBuffer \<Rightarrow> string \<Rightarrow> gw_error + (byteBudget option \<times> responseBuffer)" where
  "rb_append bud b chunk =
     (let needed = int (length (rb_data b)) + int (length chunk) in
      if needed > rb_cap b then
        (let nxt = next_cap needed (rb_cap b);
             grown = b\<lparr>rb_data := rb_data b @ chunk, rb_cap := max nxt needed\<rparr>
         in case bud of
              None \<Rightarrow> Inr (None, grown)
            | Some g \<Rightarrow>
                (case budget_acquire g nxt (rb_limit b) of
                   (False, g') \<Rightarrow> Inl ErrResponseBudget
                 | (True, g') \<Rightarrow>
                     Inr (Some (budget_release g' (rb_reserved b)), grown\<lparr>rb_reserved := nxt\<rparr>)))
      else Inr (bud, b\<lparr>rb_data := rb_data b @ chunk\<rparr>))"

definition rb_release :: "byteBudget option \<Rightarrow> responseBuffer \<Rightarrow> byteBudget option \<times> responseBuffer" where
  "rb_release bud b = (map_option (\<lambda>g. budget_release g (rb_reserved b)) bud,
     b\<lparr>rb_reserved := 0, rb_data := [], rb_cap := 0\<rparr>)"

text \<open>The buffer owns exactly its capacity of the budget, on top of what others hold.\<close>

definition rb_ok :: "int \<Rightarrow> byteBudget option \<Rightarrow> responseBuffer \<Rightarrow> bool" where
  "rb_ok others bud b \<longleftrightarrow>
     int (length (rb_data b)) \<le> rb_cap b \<and> 0 \<le> rb_reserved b \<and> rb_cap b \<le> maxBodyBytes \<and>
     (case bud of None \<Rightarrow> rb_reserved b = 0
      | Some g \<Rightarrow> bb_used g = others + rb_reserved b \<and> rb_reserved b = rb_cap b
                 \<and> bb_used g \<le> max others (rb_limit b))"

lemma rb_ok_empty [inv_intros]: "rb_ok (bb_used g) (Some g) (empty_buffer limit)"
  by (simp add: rb_ok_def empty_buffer_def maxBodyBytes_def)

lemma next_cap_bounds:
  "needed \<le> maxBodyBytes \<Longrightarrow> needed \<le> next_cap needed cap"
  "next_cap needed cap \<le> maxBodyBytes"
  by (auto simp: next_cap_def)

lemma rb_append_data:
  "rb_append bud b chunk = Inr (bud', b') \<Longrightarrow>
     rb_data b' = rb_data b @ chunk \<and> rb_limit b' = rb_limit b"
  by (auto simp: rb_append_def Let_def split: if_splits option.splits prod.splits bool.splits)

lemma rb_append_ok [inv_intros]:
  assumes "rb_ok others bud b" "rb_append bud b chunk = Inr (bud', b')"
    and fits: "int (length (rb_data b)) + int (length chunk) \<le> maxBodyBytes"
  shows "rb_ok others bud' b'"
proof (cases "int (length (rb_data b)) + int (length chunk) > rb_cap b")
  case False
  with assms show ?thesis by (auto simp: rb_append_def rb_ok_def Let_def split: option.splits)
next
  case True
  let ?n = "int (length (rb_data b)) + int (length chunk)"
  have nx: "?n \<le> next_cap ?n (rb_cap b)" "next_cap ?n (rb_cap b) \<le> maxBodyBytes"
    using next_cap_bounds [of ?n "rb_cap b"] fits by auto
  then have "max (next_cap ?n (rb_cap b)) ?n = next_cap ?n (rb_cap b)" by simp
  with True assms nx show ?thesis
    by (auto simp: rb_append_def rb_ok_def Let_def budget_release_def
        split: option.splits prod.splits bool.splits dest!: budget_acquire_used)
qed

text \<open>A refused growth leaves the budget and the buffer as they were; growth is charged double.\<close>

lemma rb_append_error: "rb_append bud b chunk = Inl e \<Longrightarrow> e = ErrResponseBudget \<and> bud \<noteq> None"
  by (auto simp: rb_append_def Let_def split: if_splits option.splits prod.splits bool.splits)

lemma rb_release_restores:
  "rb_ok others (Some g) b \<Longrightarrow> fst (rb_release (Some g) b) = Some (g\<lparr>bb_used := others\<rparr>)"
  by (simp add: rb_release_def rb_ok_def budget_release_def)

section \<open>Properties\<close>

fun gate_run ::
  "Limits \<Rightarrow> requestGate \<times> int multiset \<Rightarrow> int admission_event list \<Rightarrow> requestGate \<times> int multiset" where
  "gate_run l (g, M) [] = (g, M)"
| "gate_run l (g, M) (Admit k # es) =
     (case gate_acquire g k l of (ok, g') \<Rightarrow> gate_run l (g', if ok then add_mset k M else M) es)"
| "gate_run l (g, M) (Leave k # es) =
     gate_run l (if k \<in># M then (gate_release g k, M - {#k#}) else (g, M)) es"

lemma gate_run_fold: "gate_run l p es = fold (\<lambda>e p. gate.adm_step l p e) es p"
  by (induction l p es rule: gate_run.induct) (simp_all split: prod.split)

lemma gate_run_fold_key: "gate_run l p es = fold (\<lambda>e p. key_gate.adm_step l p e) es p"
  by (induction l p es rule: gate_run.induct) (simp_all split: prod.split)

text \<open>
  C1: the concurrency gate is exact. Whatever sequence of requests enters and leaves, the gate holds
  exactly the requests in flight (in total and per key), never more than the configured limits, and
  the next request of a key is admitted if and only if both limits leave room for it.
\<close>

theorem gate_exact:
  "case gate_run (new_limits cfg) (empty_gate, {#}) es of (g, M) \<Rightarrow>
     gate_rep g M
     \<and> int (size M) \<le> lm_max_concurrent (new_limits cfg)
     \<and> int (count M k) \<le> lm_max_per_key (new_limits cfg)
     \<and> fst (gate_acquire g k (new_limits cfg)) =
         (int (size M) < lm_max_concurrent (new_limits cfg)
          \<and> int (count M k) < lm_max_per_key (new_limits cfg))"
proof -
  let ?l = "new_limits cfg"
  obtain g M where r: "gate_run ?l (empty_gate, {#}) es = (g, M)" by fastforce
  have ok: "1 \<le> lm_max_concurrent ?l" "1 \<le> lm_max_per_key ?l"
    using new_limits_ok [of cfg] by (auto simp: limits_ok_def)
  have "gate.adm_ok ?l (empty_gate, {#})" "key_gate.adm_ok k ?l (empty_gate, {#})"
    using ok gate_rep_key_count [OF gate_rep_empty, of k]
    by (auto simp: gate.adm_ok_def key_gate.adm_ok_def gate_rep_empty, simp add: empty_gate_def)
  from gate.adm_run_ok [OF this(1), of es] key_gate.adm_run_ok [OF this(2), of es]
  have a: "gate_rep g M" "rg_active g \<le> lm_max_concurrent ?l" "key_count g k \<le> lm_max_per_key ?l"
    using r by (auto simp: gate_run_fold gate_run_fold_key gate.adm_ok_def key_gate.adm_ok_def)
  then show ?thesis
    using r gate_acquire_rep(1) [OF a(1), of k ?l] gate_rep_key_count [OF a(1), of k]
    by (simp add: gate_rep_def)
qed

text \<open>Appending the chunks of a response one after the other, stopping at the first refusal.\<close>

fun rb_append_all ::
  "byteBudget option \<Rightarrow> responseBuffer \<Rightarrow> string list \<Rightarrow> gw_error + (byteBudget option \<times> responseBuffer)" where
  "rb_append_all bud b [] = Inr (bud, b)"
| "rb_append_all bud b (c # cs) =
     (case rb_append bud b c of Inl e \<Rightarrow> Inl e | Inr (bud', b') \<Rightarrow> rb_append_all bud' b' cs)"

lemma rb_append_all_data:
  "rb_append_all bud b cs = Inr (bud', b') \<Longrightarrow> rb_data b' = rb_data b @ concat cs \<and> rb_limit b' = rb_limit b"
proof (induction bud b cs rule: rb_append_all.induct)
  case (2 bud b c cs)
  from "2.prems" obtain bud1 b1 where s: "rb_append bud b c = Inr (bud1, b1)"
    and rest: "rb_append_all bud1 b1 cs = Inr (bud', b')"
    by (auto split: sum.splits prod.splits)
  show ?case using "2.IH" [OF s refl rest] rb_append_data [OF s] by simp
qed simp

lemma rb_append_all_ok:
  assumes "rb_append_all bud b cs = Inr (bud', b')" "rb_ok others bud b"
    and "int (length (rb_data b)) + int (length (concat cs)) \<le> maxBodyBytes"
  shows "rb_ok others bud' b'"
  using assms
proof (induction bud b cs rule: rb_append_all.induct)
  case (2 bud b c cs)
  from "2.prems"(1) obtain bud1 b1 where s: "rb_append bud b c = Inr (bud1, b1)"
    and rest: "rb_append_all bud1 b1 cs = Inr (bud', b')"
    by (auto split: sum.splits prod.splits)
  have "rb_ok others bud1 b1"
    using "2.prems" rb_append_ok [OF _ s] by simp
  then show ?case
    using "2.IH" [OF s refl rest] rb_append_data [OF s] "2.prems"(3) by simp
qed simp

text \<open>
  Response memory is accounted for. A response buffered chunk by chunk (up to 32 MiB) holds the
  concatenation of the chunks; while it is held the shared budget is charged its whole capacity, which
  covers the data and stays within the limit; releasing it gives the budget back exactly what it was.
\<close>

theorem response_buffer_accounting:
  assumes "rb_append_all (Some g) (empty_buffer limit) cs = Inr (Some g', b)"
    and "int (length (concat cs)) \<le> maxBodyBytes"
  shows "rb_data b = concat cs \<and> bb_used g' = bb_used g + rb_cap b
    \<and> int (length (concat cs)) \<le> rb_cap b \<and> bb_used g' \<le> max (bb_used g) limit
    \<and> fst (rb_release (Some g') b) = Some g"
proof -
  have ok: "rb_ok (bb_used g) (Some g') b"
    using rb_append_all_ok [OF assms(1) rb_ok_empty] assms(2) by (simp add: empty_buffer_def)
  have d: "rb_data b = concat cs" "rb_limit b = limit"
    using rb_append_all_data [OF assms(1)] by (auto simp: empty_buffer_def)
  have "g'\<lparr>bb_used := bb_used g\<rparr> = g" by simp
  with ok d rb_release_restores [OF ok] show ?thesis by (auto simp: rb_ok_def)
qed

theorem response_buffer_accounting_witness:
  "\<exists>g' b. rb_append_all (Some \<lparr>bb_used = 5\<rparr>) (empty_buffer 100000) [''ab'', ''c''] = Inr (Some g', b)
     \<and> rb_data b = ''abc'' \<and> bb_used g' = 32773 \<and> fst (rb_release (Some g') b) = Some \<lparr>bb_used = 5\<rparr>"
proof -
  let ?b = "\<lparr>rb_data = ''abc'', rb_cap = 32768, rb_limit = 100000, rb_reserved = 32768\<rparr>"
  have r: "rb_append_all (Some \<lparr>bb_used = 5\<rparr>) (empty_buffer 100000) [''ab'', ''c'']
      = Inr (Some \<lparr>bb_used = 32773\<rparr>, ?b)"
    by (simp add: rb_append_def empty_buffer_def next_cap_def maxBodyBytes_def budget_acquire_def
        budget_release_def)
  have "rb_data ?b = concat [''ab'', ''c''] \<and> fst (rb_release (Some \<lparr>bb_used = 32773\<rparr>) ?b) = Some \<lparr>bb_used = 5\<rparr>"
    using response_buffer_accounting [OF r] by (simp add: maxBodyBytes_def)
  with r show ?thesis by auto
qed

end
