(* ===== verification/Incident.thy ===== *)
theory Incident
  imports Core_Types
begin

text \<open>
  The incident state machine of \<open>internal/ops/incident.go\<close>, shared by the alert engine and by the
  health notifications: confirmation streaks, cooldown, the reminder budget and the recovery window.
  \<open>Observe\<close> is composed of the stages of the Go method in its order. The lemmas after each
  stage say what it can change; the properties at the end are about whole runs of observations.
\<close>

section \<open>State and policy\<close>

record IncidentHistory =
  ih_active_since :: "time option"
  ih_notified_active :: "bool option"
  ih_last_firing_at :: "time option"
  ih_normal_since :: "time option"
  ih_retry_after :: "time option"
  ih_firing_streak :: int
  ih_recovery_streak :: int

record IncidentState =
  is_active :: bool
  is_value :: rat
  is_message :: string
  is_last_observed_at :: time
  is_last_notified_at :: "time option"
  is_notification_count :: int
  is_incident :: IncidentHistory

record IncidentPolicy =
  ip_firing_confirmations :: int
  ip_recovery_confirmations :: int
  ip_cooldown :: duration
  ip_stable_for :: duration
  ip_max_gap :: duration
  ip_max_notifications :: int
  ip_repeat :: bool

datatype Notification = NoNotification | Firing | Resolved

fun notification_text :: "Notification \<Rightarrow> string" where
  "notification_text NoNotification = ''''"
| "notification_text Firing = ''firing''"
| "notification_text Resolved = ''resolved''"

definition empty_history :: IncidentHistory where
  "empty_history = \<lparr>ih_active_since = None, ih_notified_active = None, ih_last_firing_at = None,
     ih_normal_since = None, ih_retry_after = None, ih_firing_streak = 0, ih_recovery_streak = 0\<rparr>"

text \<open>The zero value, which \<open>LoadState\<close> returns for a key without a stored state.\<close>

definition fresh_incident :: IncidentState where
  "fresh_incident = \<lparr>is_active = False, is_value = 0, is_message = [], is_last_observed_at = 0,
     is_last_notified_at = None, is_notification_count = 0, is_incident = empty_history\<rparr>"

section \<open>Observe\<close>

definition notified :: "IncidentState \<Rightarrow> bool" where
  "notified s = (ih_notified_active (is_incident s) = Some True)"

definition init_history :: "IncidentState \<Rightarrow> IncidentState" where
  "init_history s =
     (if ih_notified_active (is_incident s) = None then
        s\<lparr>is_incident := (is_incident s)\<lparr>
             ih_notified_active := Some (is_active s),
             ih_last_firing_at := (if is_active s then is_last_notified_at s
                                   else ih_last_firing_at (is_incident s))\<rparr>\<rparr>
      else s)"

definition reset_streaks :: "IncidentState \<Rightarrow> IncidentState" where
  "reset_streaks s = s\<lparr>is_incident := (is_incident s)\<lparr>ih_firing_streak := 0,
     ih_recovery_streak := 0, ih_normal_since := None\<rparr>\<rparr>"

definition check_gap :: "IncidentPolicy \<Rightarrow> time \<Rightarrow> IncidentState \<Rightarrow> IncidentState" where
  "check_gap p now s =
     (if ip_max_gap p > 0 \<and> \<not> is_zero_time (is_last_observed_at s)
         \<and> time_sub now (is_last_observed_at s) > ip_max_gap p
      then reset_streaks s else s)"

definition observe_active :: "IncidentPolicy \<Rightarrow> time \<Rightarrow> IncidentState \<Rightarrow> IncidentState" where
  "observe_active p now s =
     (let h = (is_incident s)\<lparr>ih_recovery_streak := 0, ih_normal_since := None\<rparr>;
          streak = (if ih_firing_streak h < ip_firing_confirmations p then ih_firing_streak h + 1
                    else ih_firing_streak h);
          h = h\<lparr>ih_firing_streak := streak\<rparr>
      in if streak \<ge> ip_firing_confirmations p
         then s\<lparr>is_active := True,
                is_incident := (if \<not> is_active s then h\<lparr>ih_active_since := Some now\<rparr> else h)\<rparr>
         else s\<lparr>is_incident := h\<rparr>)"

definition observe_normal :: "IncidentPolicy \<Rightarrow> time \<Rightarrow> IncidentState \<Rightarrow> IncidentState" where
  "observe_normal p now s =
     (let h = (is_incident s)\<lparr>ih_firing_streak := 0\<rparr>;
          since = (case ih_normal_since h of None \<Rightarrow> now | Some t \<Rightarrow> t);
          streak = (if ih_recovery_streak h < ip_recovery_confirmations p then ih_recovery_streak h + 1
                    else ih_recovery_streak h);
          h = h\<lparr>ih_normal_since := Some since, ih_recovery_streak := streak\<rparr>;
          active = (if streak \<ge> ip_recovery_confirmations p then False else is_active s);
          s = s\<lparr>is_active := active, is_incident := h\<rparr>
      in if \<not> active \<and> time_sub now since \<ge> ip_stable_for p
         then s\<lparr>is_notification_count := 0,
                is_incident := (if ip_stable_for p = 0 then h\<lparr>ih_last_firing_at := None\<rparr> else h)\<rparr>
         else s)"

definition decide :: "IncidentPolicy \<Rightarrow> time \<Rightarrow> bool \<Rightarrow> IncidentState \<Rightarrow> Notification" where
  "decide p now active s =
     (let h = is_incident s in
      if (case ih_retry_after h of None \<Rightarrow> False | Some r \<Rightarrow> now < r) then NoNotification
      else if \<not> is_active s \<and> \<not> active \<and> notified s then Resolved
      else if \<not> is_active s \<or> \<not> active
              \<or> ip_max_notifications p > 0 \<and> is_notification_count s \<ge> ip_max_notifications p
      then NoNotification
      else if (case ih_last_firing_at h of None \<Rightarrow> False
               | Some t \<Rightarrow> time_sub now t < ip_cooldown p \<or> notified s \<and> \<not> ip_repeat p)
      then NoNotification
      else Firing)"

definition prepare :: "IncidentPolicy \<Rightarrow> time \<Rightarrow> IncidentState \<Rightarrow> IncidentState" where
  "prepare p now s = (check_gap p now (init_history s))\<lparr>is_last_observed_at := now\<rparr>"

definition Observe ::
  "IncidentState \<Rightarrow> time \<Rightarrow> bool \<Rightarrow> bool \<Rightarrow> bool \<Rightarrow> IncidentPolicy \<Rightarrow> Notification \<times> IncidentState" where
  "Observe s now active ignore hold p =
     (let s1 = prepare p now s
      in if ignore \<or> hold then (NoNotification, reset_streaks s1)
         else let s2 = (if active then observe_active p now s1 else observe_normal p now s1)
              in (decide p now active s2, s2))"

definition Accepted :: "IncidentState \<Rightarrow> time \<Rightarrow> Notification \<Rightarrow> IncidentState" where
  "Accepted s now event =
     (let active = (event = Firing);
          h = (is_incident s)\<lparr>ih_notified_active := Some active, ih_retry_after := None\<rparr>
      in s\<lparr>is_last_notified_at := Some now,
           is_incident := (if active then h\<lparr>ih_last_firing_at := Some now\<rparr> else h),
           is_notification_count := (if active then is_notification_count s + 1
                                     else is_notification_count s)\<rparr>)"

definition EnqueueFailed :: "IncidentState \<Rightarrow> time \<Rightarrow> duration \<Rightarrow> IncidentState" where
  "EnqueueFailed s now cooldown =
     s\<lparr>is_incident := (is_incident s)\<lparr>ih_retry_after :=
         Some (now + (if cooldown < minute then minute else cooldown))\<rparr>\<rparr>"

section \<open>What each stage changes\<close>

lemma reset_streaks_simps [simp]:
  "is_active (reset_streaks s) = is_active s"
  "is_notification_count (reset_streaks s) = is_notification_count s"
  "is_last_observed_at (reset_streaks s) = is_last_observed_at s"
  "ih_notified_active (is_incident (reset_streaks s)) = ih_notified_active (is_incident s)"
  "ih_last_firing_at (is_incident (reset_streaks s)) = ih_last_firing_at (is_incident s)"
  "ih_retry_after (is_incident (reset_streaks s)) = ih_retry_after (is_incident s)"
  "ih_normal_since (is_incident (reset_streaks s)) = None"
  "ih_firing_streak (is_incident (reset_streaks s)) = 0"
  "ih_recovery_streak (is_incident (reset_streaks s)) = 0"
  by (simp_all add: reset_streaks_def)

definition notified_or_active :: "IncidentState \<Rightarrow> bool" where
  "notified_or_active s = (case ih_notified_active (is_incident s) of None \<Rightarrow> is_active s | Some b \<Rightarrow> b)"

lemma prepare_simps [simp]:
  "is_active (prepare p now s) = is_active s"
  "is_notification_count (prepare p now s) = is_notification_count s"
  "is_last_observed_at (prepare p now s) = now"
  "ih_notified_active (is_incident (prepare p now s)) = Some (notified_or_active s)"
  "ih_retry_after (is_incident (prepare p now s)) = ih_retry_after (is_incident s)"
  by (auto simp: prepare_def check_gap_def init_history_def notified_or_active_def split: option.split)

lemma prepare_last_firing:
  "ih_notified_active (is_incident s) \<noteq> None \<Longrightarrow>
     ih_last_firing_at (is_incident (prepare p now s)) = ih_last_firing_at (is_incident s)"
  by (auto simp: prepare_def check_gap_def init_history_def)

lemma prepare_streaks:
  "prepare p now s = (init_history s)\<lparr>is_last_observed_at := now\<rparr>
   \<or> prepare p now s = (reset_streaks (init_history s))\<lparr>is_last_observed_at := now\<rparr>"
  by (simp add: prepare_def check_gap_def)

lemma init_history_streaks [simp]:
  "ih_normal_since (is_incident (init_history s)) = ih_normal_since (is_incident s)"
  "ih_firing_streak (is_incident (init_history s)) = ih_firing_streak (is_incident s)"
  "ih_recovery_streak (is_incident (init_history s)) = ih_recovery_streak (is_incident s)"
  by (simp_all add: init_history_def)

lemma prepare_normal_since:
  "ih_normal_since (is_incident (prepare p now s)) \<in> {None, ih_normal_since (is_incident s)}"
  using prepare_streaks [of p now s] by auto

lemma prepare_firing_streak:
  "ih_firing_streak (is_incident (prepare p now s)) \<in> {0, ih_firing_streak (is_incident s)}"
  using prepare_streaks [of p now s] by auto

lemma prepare_recovery_streak:
  "ih_recovery_streak (is_incident (prepare p now s)) \<in> {0, ih_recovery_streak (is_incident s)}"
  using prepare_streaks [of p now s] by auto

lemma observe_active_simps [simp]:
  "is_notification_count (observe_active p now s) = is_notification_count s"
  "ih_notified_active (is_incident (observe_active p now s)) = ih_notified_active (is_incident s)"
  "ih_last_firing_at (is_incident (observe_active p now s)) = ih_last_firing_at (is_incident s)"
  "ih_retry_after (is_incident (observe_active p now s)) = ih_retry_after (is_incident s)"
  "ih_normal_since (is_incident (observe_active p now s)) = None"
  "ih_recovery_streak (is_incident (observe_active p now s)) = 0"
  "ih_firing_streak (is_incident (observe_active p now s)) =
     (if ih_firing_streak (is_incident s) < ip_firing_confirmations p
      then ih_firing_streak (is_incident s) + 1 else ih_firing_streak (is_incident s))"
  "is_active (observe_active p now s) \<longleftrightarrow> is_active s
     \<or> ip_firing_confirmations p \<le> ih_firing_streak (is_incident (observe_active p now s))"
  by (auto simp: observe_active_def Let_def)

definition since_or :: "time \<Rightarrow> IncidentState \<Rightarrow> time" where
  "since_or now s = (case ih_normal_since (is_incident s) of None \<Rightarrow> now | Some t \<Rightarrow> t)"

lemma observe_normal_simps [simp]:
  "ih_notified_active (is_incident (observe_normal p now s)) = ih_notified_active (is_incident s)"
  "ih_retry_after (is_incident (observe_normal p now s)) = ih_retry_after (is_incident s)"
  "ih_normal_since (is_incident (observe_normal p now s)) = Some (since_or now s)"
  "ih_firing_streak (is_incident (observe_normal p now s)) = 0"
  "ih_recovery_streak (is_incident (observe_normal p now s)) =
     (if ih_recovery_streak (is_incident s) < ip_recovery_confirmations p
      then ih_recovery_streak (is_incident s) + 1 else ih_recovery_streak (is_incident s))"
  "is_active (observe_normal p now s) \<longleftrightarrow> is_active s
     \<and> \<not> ip_recovery_confirmations p \<le> ih_recovery_streak (is_incident (observe_normal p now s))"
  by (auto simp: observe_normal_def since_or_def Let_def)

lemma observe_normal_last_firing:
  "ip_stable_for p \<noteq> 0 \<or> is_active (observe_normal p now s) \<Longrightarrow>
     ih_last_firing_at (is_incident (observe_normal p now s)) = ih_last_firing_at (is_incident s)"
  by (auto simp: observe_normal_def Let_def)

lemma observe_normal_count:
  "is_notification_count (observe_normal p now s) =
     (if \<not> is_active (observe_normal p now s) \<and> ip_stable_for p \<le> time_sub now (since_or now s)
      then 0 else is_notification_count s)"
  by (auto simp: observe_normal_def since_or_def Let_def)

lemma Observe_snd:
  "snd (Observe s now a ign hold p) =
     (if ign \<or> hold then reset_streaks (prepare p now s)
      else if a then observe_active p now (prepare p now s)
      else observe_normal p now (prepare p now s))"
  by (simp add: Observe_def Let_def)

lemma Observe_decide:
  "Observe s now active ign hold p = (n, s') \<Longrightarrow> n \<noteq> NoNotification \<Longrightarrow>
     \<not> ign \<and> \<not> hold \<and> decide p now active s' = n"
  by (auto simp: Observe_def Let_def split: if_splits)

lemma decide_Firing:
  assumes "decide p now active s = Firing"
  shows "active \<and> is_active s"
    and "ip_max_notifications p > 0 \<longrightarrow> is_notification_count s < ip_max_notifications p"
    and "ih_last_firing_at (is_incident s) = Some t \<longrightarrow>
           ip_cooldown p \<le> time_sub now t \<and> (notified s \<longrightarrow> ip_repeat p)"
    and "ih_retry_after (is_incident s) = Some r \<longrightarrow> r \<le> now"
  using assms by (auto simp: decide_def Let_def split: if_split_asm)

lemma decide_Resolved:
  assumes "decide p now active s = Resolved"
  shows "\<not> active \<and> \<not> is_active s \<and> notified s"
  using assms by (auto simp: decide_def Let_def split: if_split_asm)

lemma Observe_Firing:
  assumes "Observe s now active ign hold p = (Firing, s')"
  shows "active" "\<not> ign" "\<not> hold" "is_active s'"
    and "ip_max_notifications p > 0 \<Longrightarrow> is_notification_count s' < ip_max_notifications p"
    and "ih_last_firing_at (is_incident s') = Some t \<Longrightarrow>
           ip_cooldown p \<le> time_sub now t \<and> (notified s' \<longrightarrow> ip_repeat p)"
    and "ih_retry_after (is_incident s') = Some r \<Longrightarrow> r \<le> now"
  using Observe_decide [OF assms] decide_Firing [of p now active s'] by auto

lemma Observe_Resolved:
  assumes "Observe s now active ign hold p = (Resolved, s')"
  shows "\<not> active" "\<not> ign" "\<not> hold" "\<not> is_active s'" "notified s'"
  using Observe_decide [OF assms] decide_Resolved [of p now active s'] by auto

lemma Observe_ignored:
  "ign \<or> hold \<Longrightarrow> fst (Observe s now a ign hold p) = NoNotification
     \<and> is_active (snd (Observe s now a ign hold p)) = is_active s
     \<and> is_notification_count (snd (Observe s now a ign hold p)) = is_notification_count s"
  by (auto simp: Observe_snd) (auto simp: Observe_def)

lemma Observe_notified:
  "ih_notified_active (is_incident (snd (Observe s now a ign hold p))) = Some (notified_or_active s)"
  by (simp add: Observe_snd)

lemma Observe_count:
  "is_notification_count (snd (Observe s now a ign hold p)) \<in> {0, is_notification_count s}"
  by (simp add: Observe_snd observe_normal_count)

text \<open>
  The last firing time is forgotten only under a policy without a stability window; otherwise it
  is kept once the history is initialised.
\<close>

lemma Observe_last_firing:
  "ih_notified_active (is_incident s) \<noteq> None \<Longrightarrow>
     ip_stable_for p \<noteq> 0 \<or> a \<or> ign \<or> hold \<or> is_active (snd (Observe s now a ign hold p)) \<Longrightarrow>
     ih_last_firing_at (is_incident (snd (Observe s now a ign hold p)))
       = ih_last_firing_at (is_incident s)"
  by (auto simp: Observe_snd prepare_last_firing observe_normal_last_firing)

lemma Observe_normal_since:
  "ih_normal_since (is_incident (snd (Observe s now a ign hold p)))
     \<in> {None, Some now, ih_normal_since (is_incident s)}"
  using prepare_normal_since [of p now s] by (auto simp: Observe_snd since_or_def split: option.splits)

text \<open>The reminder budget is renewed only after a full stability window of normal observations.\<close>

lemma Observe_count_reset:
  assumes "is_notification_count (snd (Observe s now a ign hold p)) \<noteq> is_notification_count s"
  shows "\<not> a \<and> \<not> ign \<and> \<not> hold \<and> \<not> is_active (snd (Observe s now a ign hold p))"
    and "\<exists>t. (t = now \<or> ih_normal_since (is_incident s) = Some t) \<and> ip_stable_for p \<le> time_sub now t"
proof -
  let ?t = "since_or now (prepare p now s)"
  show "\<not> a \<and> \<not> ign \<and> \<not> hold \<and> \<not> is_active (snd (Observe s now a ign hold p))"
    using assms by (simp add: Observe_snd observe_normal_count split: if_split_asm)
  have "?t = now \<or> ih_normal_since (is_incident s) = Some ?t"
    using prepare_normal_since [of p now s] by (auto simp: since_or_def split: option.split)
  moreover have "ip_stable_for p \<le> time_sub now ?t"
    using assms by (simp add: Observe_snd observe_normal_count split: if_split_asm)
  ultimately show "\<exists>t. (t = now \<or> ih_normal_since (is_incident s) = Some t) \<and> ip_stable_for p \<le> time_sub now t"
    by blast
qed

text \<open>A breach is confirmed only when the firing streak reaches the policy's confirmations.\<close>

lemma Observe_activates:
  assumes "is_active (snd (Observe s now a ign hold p))" "\<not> is_active s"
  shows "ip_firing_confirmations p \<le> ih_firing_streak (is_incident (snd (Observe s now a ign hold p)))"
  using assms by (simp add: Observe_snd split: if_split_asm)

lemma Observe_firing_streak:
  "ih_firing_streak (is_incident (snd (Observe s now a ign hold p)))
     \<le> (if a \<and> \<not> ign \<and> \<not> hold then max 0 (ih_firing_streak (is_incident s)) + 1 else 0)"
  using prepare_firing_streak [of p now s] by (auto simp: Observe_snd)

lemma Observe_deactivates:
  assumes "\<not> is_active (snd (Observe s now a ign hold p))" "is_active s"
  shows "ip_recovery_confirmations p \<le> ih_recovery_streak (is_incident (snd (Observe s now a ign hold p)))"
  using assms by (simp add: Observe_snd split: if_split_asm)

lemma Observe_recovery_streak:
  "ih_recovery_streak (is_incident (snd (Observe s now a ign hold p)))
     \<le> (if \<not> a \<and> \<not> ign \<and> \<not> hold then max 0 (ih_recovery_streak (is_incident s)) + 1 else 0)"
  using prepare_recovery_streak [of p now s] by (auto simp: Observe_snd)

section \<open>Runs of observations\<close>

text \<open>
  A caller observes, and when a notification is due it either queues it (\<open>Accepted\<close>) or fails to
  (\<open>EnqueueFailed\<close> with the rule's cooldown): the core of \<open>Engine.handle\<close> and of the health
  monitor. \<open>ob_queued\<close> says which of the two happens, should one be due.
\<close>

record Obs =
  ob_now :: time
  ob_active :: bool
  ob_ignore :: bool
  ob_hold :: bool
  ob_queued :: bool

definition breach :: "Obs \<Rightarrow> bool" where
  "breach e \<longleftrightarrow> ob_active e \<and> \<not> ob_ignore e \<and> \<not> ob_hold e"

definition healthy_obs :: "Obs \<Rightarrow> bool" where
  "healthy_obs e \<longleftrightarrow> \<not> ob_active e \<and> \<not> ob_ignore e \<and> \<not> ob_hold e"

definition incident_step :: "IncidentPolicy \<Rightarrow> IncidentState \<Rightarrow> Obs \<Rightarrow> Notification \<times> IncidentState" where
  "incident_step p s e =
     (case Observe s (ob_now e) (ob_active e) (ob_ignore e) (ob_hold e) p of (n, s') \<Rightarrow>
        if n = NoNotification then (NoNotification, s')
        else if ob_queued e then (n, Accepted s' (ob_now e) n)
        else (NoNotification, EnqueueFailed s' (ob_now e) (ip_cooldown p)))"

text \<open>The queued notifications of a run, with their times.\<close>

fun incident_run ::
  "IncidentPolicy \<Rightarrow> IncidentState \<Rightarrow> Obs list \<Rightarrow> (Notification \<times> time) list \<times> IncidentState" where
  "incident_run p s [] = ([], s)"
| "incident_run p s (e # es) =
     (case incident_step p s e of (n, s') \<Rightarrow>
        case incident_run p s' es of (ns, s'') \<Rightarrow>
          (if n = NoNotification then ns else (n, ob_now e) # ns, s''))"

definition firings :: "(Notification \<times> time) list \<Rightarrow> time list" where
  "firings ns = map snd (filter (\<lambda>n. fst n = Firing) ns)"

lemma Accepted_simps [simp]:
  "is_active (Accepted s now n) = is_active s"
  "is_last_observed_at (Accepted s now n) = is_last_observed_at s"
  "ih_notified_active (is_incident (Accepted s now n)) = Some (n = Firing)"
  "ih_normal_since (is_incident (Accepted s now n)) = ih_normal_since (is_incident s)"
  "ih_firing_streak (is_incident (Accepted s now n)) = ih_firing_streak (is_incident s)"
  "ih_recovery_streak (is_incident (Accepted s now n)) = ih_recovery_streak (is_incident s)"
  "ih_last_firing_at (is_incident (Accepted s now n)) =
     (if n = Firing then Some now else ih_last_firing_at (is_incident s))"
  "is_notification_count (Accepted s now n) =
     (if n = Firing then is_notification_count s + 1 else is_notification_count s)"
  by (simp_all add: Accepted_def Let_def)

lemma EnqueueFailed_simps [simp]:
  "is_active (EnqueueFailed s now c) = is_active s"
  "is_last_observed_at (EnqueueFailed s now c) = is_last_observed_at s"
  "is_notification_count (EnqueueFailed s now c) = is_notification_count s"
  "ih_notified_active (is_incident (EnqueueFailed s now c)) = ih_notified_active (is_incident s)"
  "ih_normal_since (is_incident (EnqueueFailed s now c)) = ih_normal_since (is_incident s)"
  "ih_firing_streak (is_incident (EnqueueFailed s now c)) = ih_firing_streak (is_incident s)"
  "ih_recovery_streak (is_incident (EnqueueFailed s now c)) = ih_recovery_streak (is_incident s)"
  "ih_last_firing_at (is_incident (EnqueueFailed s now c)) = ih_last_firing_at (is_incident s)"
  by (simp_all add: EnqueueFailed_def)

lemma incident_step_cases:
  assumes "incident_step p s e = (n, s')"
  obtains (quiet) s1 where "n = NoNotification" "s1 = snd (Observe s (ob_now e) (ob_active e) (ob_ignore e) (ob_hold e) p)"
      "s' = s1 \<or> s' = EnqueueFailed s1 (ob_now e) (ip_cooldown p)"
  | (queued) s1 where "n \<noteq> NoNotification"
      "Observe s (ob_now e) (ob_active e) (ob_ignore e) (ob_hold e) p = (n, s1)"
      "s' = Accepted s1 (ob_now e) n"
  using assms by (auto simp: incident_step_def split: prod.splits if_splits)

lemma firings_Cons:
  "incident_step p s e = (n, s') \<Longrightarrow> firings (fst (incident_run p s (e # es))) =
     (if n = Firing then [ob_now e] else []) @ firings (fst (incident_run p s' es))"
  by (cases "incident_run p s' es") (simp add: firings_def)

declare incident_run.simps(2) [simp del]

subsection \<open>Spacing and budget\<close>

text \<open>An observation after which the incident is over, and a run without one.\<close>

definition recovers :: "IncidentPolicy \<Rightarrow> IncidentState \<Rightarrow> Obs \<Rightarrow> bool" where
  "recovers p s e \<longleftrightarrow> healthy_obs e \<and> \<not> is_active (snd (incident_step p s e))"

fun never_recovers :: "IncidentPolicy \<Rightarrow> IncidentState \<Rightarrow> Obs list \<Rightarrow> bool" where
  "never_recovers p s [] = True"
| "never_recovers p s (e # es) = (\<not> recovers p s e \<and> never_recovers p (snd (incident_step p s e)) es)"

text \<open>Times of consecutive firings are a cooldown apart, starting from the last one recorded.\<close>

fun spaced :: "duration \<Rightarrow> time option \<Rightarrow> time list \<Rightarrow> bool" where
  "spaced c prev [] = True"
| "spaced c prev (t # ts) =
     ((case prev of None \<Rightarrow> True | Some u \<Rightarrow> c \<le> time_sub t u) \<and> spaced c (Some t) ts)"

lemma incident_step_firing:
  assumes st: "incident_step p s e = (n, s')" and "ih_notified_active (is_incident s) \<noteq> None"
    and kept: "ip_stable_for p \<noteq> 0 \<or> \<not> recovers p s e"
  shows "ih_notified_active (is_incident s') \<noteq> None"
    and "ih_last_firing_at (is_incident s') =
           (if n = Firing then Some (ob_now e) else ih_last_firing_at (is_incident s))"
    and "n = Firing \<Longrightarrow> (case ih_last_firing_at (is_incident s) of None \<Rightarrow> True
           | Some u \<Rightarrow> ip_cooldown p \<le> time_sub (ob_now e) u)"
proof -
  let ?s1 = "snd (Observe s (ob_now e) (ob_active e) (ob_ignore e) (ob_hold e) p)"
  have "is_active s' = is_active ?s1" using st by (rule incident_step_cases) auto
  then have lf: "ih_last_firing_at (is_incident ?s1) = ih_last_firing_at (is_incident s)"
    using kept st by (intro Observe_last_firing [OF assms(2)]) (auto simp: recovers_def healthy_obs_def)
  from st have "ih_notified_active (is_incident s') \<noteq> None \<and>
    ih_last_firing_at (is_incident s') =
      (if n = Firing then Some (ob_now e) else ih_last_firing_at (is_incident s)) \<and>
    (n = Firing \<longrightarrow> (case ih_last_firing_at (is_incident s) of None \<Rightarrow> True
      | Some u \<Rightarrow> ip_cooldown p \<le> time_sub (ob_now e) u))"
  proof (cases rule: incident_step_cases)
    case (quiet s1)
    then show ?thesis using lf by (auto simp: Observe_notified)
  next
    case (queued s1)
    then show ?thesis
      using lf Observe_Firing(6) [of s "ob_now e" "ob_active e" "ob_ignore e" "ob_hold e" p s1]
      by (auto split: option.split)
  qed
  then show "ih_notified_active (is_incident s') \<noteq> None"
    and "ih_last_firing_at (is_incident s') =
           (if n = Firing then Some (ob_now e) else ih_last_firing_at (is_incident s))"
    and "n = Firing \<Longrightarrow> (case ih_last_firing_at (is_incident s) of None \<Rightarrow> True
           | Some u \<Rightarrow> ip_cooldown p \<le> time_sub (ob_now e) u)"
    by auto
qed

lemma incident_run_spaced:
  assumes "ih_notified_active (is_incident s) \<noteq> None" "ip_stable_for p \<noteq> 0 \<or> never_recovers p s es"
  shows "spaced (ip_cooldown p) (ih_last_firing_at (is_incident s)) (firings (fst (incident_run p s es)))"
  using assms
proof (induction es arbitrary: s)
  case Nil
  then show ?case by (simp add: firings_def)
next
  case (Cons e es)
  obtain n s' where st: "incident_step p s e = (n, s')" by fastforce
  have now: "ip_stable_for p \<noteq> 0 \<or> \<not> recovers p s e" "ip_stable_for p \<noteq> 0 \<or> never_recovers p s' es"
    using Cons.prems(2) st by auto
  note f = incident_step_firing [OF st Cons.prems(1) now(1)]
  show ?case using Cons.IH [OF f(1) now(2)] f(2,3) by (auto simp: firings_Cons [OF st])
qed

text \<open>
  The budget. While no observation lies a whole stability window after the first, the number of
  firings is bounded by what is left of the budget, however the observations flap: it cannot be renewed
  unless the metric had been normal since before, and then nothing of it is used up.
\<close>

definition budget_left :: "IncidentPolicy \<Rightarrow> IncidentState \<Rightarrow> int" where
  "budget_left p s = max 0 (ip_max_notifications p - is_notification_count s)"

definition not_renewable :: "time \<Rightarrow> IncidentState \<Rightarrow> bool" where
  "not_renewable t0 s \<longleftrightarrow> is_notification_count s = 0 \<or> (\<forall>t. ih_normal_since (is_incident s) = Some t \<longrightarrow> t0 \<le> t)"

definition in_window :: "IncidentPolicy \<Rightarrow> time \<Rightarrow> Obs list \<Rightarrow> bool" where
  "in_window p t0 es \<longleftrightarrow> (\<forall>e \<in> set es. t0 \<le> ob_now e \<and> ob_now e - t0 < ip_stable_for p)"

lemma in_window_Cons [simp]:
  "in_window p t0 (e # es) \<longleftrightarrow> t0 \<le> ob_now e \<and> ob_now e - t0 < ip_stable_for p \<and> in_window p t0 es"
  by (simp add: in_window_def)

lemma Observe_in_window:
  assumes "t0 \<le> now" "now - t0 < ip_stable_for p" "ip_stable_for p \<le> max_int64" "not_renewable t0 s"
  shows "is_notification_count (snd (Observe s now a ign hold p)) = is_notification_count s"
    "not_renewable t0 (snd (Observe s now a ign hold p))"
proof -
  let ?s1 = "snd (Observe s now a ign hold p)"
  show count: "is_notification_count ?s1 = is_notification_count s"
  proof (rule ccontr)
    assume c: "is_notification_count ?s1 \<noteq> is_notification_count s"
    from Observe_count_reset(2) [OF this]
    obtain t where t: "t = now \<or> ih_normal_since (is_incident s) = Some t" and le: "ip_stable_for p \<le> time_sub now t"
      by blast
    have "is_notification_count s \<noteq> 0" using c Observe_count [of s now a ign hold p] by auto
    then have "t0 \<le> t" using t assms(1,4) by (auto simp: not_renewable_def)
    moreover have "min_int64 < ip_stable_for p" using assms(1,2) by (simp add: min_int64_def)
    ultimately have "time_sub now t < ip_stable_for p" using assms(2,3) by (simp add: time_sub_less_iff)
    with le show False by simp
  qed
  show "not_renewable t0 ?s1"
    using Observe_normal_since [of s now a ign hold p] assms(1,4) count by (auto simp: not_renewable_def)
qed

lemma Observe_Firing_normal:
  "Observe s now a ign hold p = (Firing, s1) \<Longrightarrow> ih_normal_since (is_incident s1) = None"
  using Observe_Firing(1-3) [of s now a ign hold p s1] Observe_snd [of s now a ign hold p] by simp

lemma incident_run_budget:
  assumes "0 < ip_max_notifications p" "in_window p t0 es" "not_renewable t0 s" "ip_stable_for p \<le> max_int64"
  shows "int (length (firings (fst (incident_run p s es)))) \<le> budget_left p s"
  using assms
proof (induction es arbitrary: s)
  case Nil
  then show ?case by (simp add: firings_def budget_left_def)
next
  case (Cons e es)
  let ?s1 = "snd (Observe s (ob_now e) (ob_active e) (ob_ignore e) (ob_hold e) p)"
  obtain n s' where st: "incident_step p s e = (n, s')" by fastforce
  have rest: "in_window p t0 es" using Cons.prems(2) by simp
  note w = Observe_in_window [of t0 "ob_now e" p s "ob_active e" "ob_ignore e" "ob_hold e"]
  have count: "is_notification_count ?s1 = is_notification_count s" and since: "not_renewable t0 ?s1"
    using Cons.prems w by simp_all
  from st show ?case
  proof (cases rule: incident_step_cases)
    case (quiet s1)
    then have "is_notification_count s' = is_notification_count s" "not_renewable t0 s'"
      using count since by (auto simp: not_renewable_def)
    with Cons.IH [OF Cons.prems(1) rest _ Cons.prems(4), of s'] quiet(1)
    show ?thesis by (simp add: budget_left_def firings_Cons [OF st])
  next
    case (queued s1)
    have s1: "?s1 = s1" using queued(2) by simp
    have "n = Firing \<Longrightarrow> ih_normal_since (is_incident s1) = None"
      using Observe_Firing_normal queued(2) by simp
    then have sn: "not_renewable t0 s'" using queued s1 since by (auto simp: not_renewable_def)
    have below: "n = Firing \<Longrightarrow> is_notification_count s < ip_max_notifications p"
      using Observe_Firing(5) [of s "ob_now e" "ob_active e" "ob_ignore e" "ob_hold e" p s1] queued(2)
        Cons.prems(1) count s1 by simp
    from Cons.IH [OF Cons.prems(1) rest sn Cons.prems(4)] below count s1 queued
    show ?thesis by (auto simp: budget_left_def firings_Cons [OF st] split: if_splits)
  qed
qed

text \<open>From any state the budget is renewed at most once within a window.\<close>

lemma incident_run_budget_twice:
  assumes "0 < ip_max_notifications p" "in_window p t0 es" "ip_stable_for p \<le> max_int64"
  shows "int (length (firings (fst (incident_run p s es)))) \<le> budget_left p s + ip_max_notifications p"
  using assms(2)
proof (induction es arbitrary: s)
  case Nil
  then show ?case using assms(1) by (simp add: firings_def budget_left_def)
next
  case (Cons e es)
  let ?s1 = "snd (Observe s (ob_now e) (ob_active e) (ob_ignore e) (ob_hold e) p)"
  obtain n s' where st: "incident_step p s e = (n, s')" by fastforce
  have rest: "in_window p t0 es" using Cons.prems by simp
  show ?case
  proof (cases "is_notification_count ?s1 = is_notification_count s")
    case same: True
    from st show ?thesis
    proof (cases rule: incident_step_cases)
      case (quiet s1)
      then have "is_notification_count s' = is_notification_count s" using same by auto
      with Cons.IH [OF rest, of s'] quiet(1) show ?thesis by (simp add: budget_left_def firings_Cons [OF st])
    next
      case (queued s1)
      have "n = Firing \<Longrightarrow> is_notification_count s < ip_max_notifications p"
        using Observe_Firing(5) [of s "ob_now e" "ob_active e" "ob_ignore e" "ob_hold e" p s1] queued(2)
          assms(1) same by simp
      with Cons.IH [OF rest, of s'] queued same
      show ?thesis by (auto simp: budget_left_def firings_Cons [OF st] split: if_splits)
    qed
  next
    case False
    then have zero: "is_notification_count ?s1 = 0"
      using Observe_count [of s "ob_now e" "ob_active e" "ob_ignore e" "ob_hold e" p] by simp
    have nf: "n \<noteq> Firing" using st
    proof (cases rule: incident_step_cases)
      case (queued s1)
      then show ?thesis
        using Observe_count_reset(1) [OF False] Observe_Firing(1) [of s "ob_now e" "ob_active e" "ob_ignore e" "ob_hold e" p s1]
        by auto
    qed simp
    have "is_notification_count s' = 0" by (rule incident_step_cases [OF st]) (use zero nf in auto)
    then show ?thesis
      using nf incident_run_budget [OF assms(1) rest _ assms(3), of s'] assms(1)
      by (simp add: budget_left_def not_renewable_def firings_Cons [OF st])
  qed
qed

subsection \<open>Confirmation streaks\<close>

lemma incident_step_state:
  assumes "incident_step p s e = (n, s')"
  defines "s1 \<equiv> snd (Observe s (ob_now e) (ob_active e) (ob_ignore e) (ob_hold e) p)"
  shows "is_active s' = is_active s1"
    "ih_firing_streak (is_incident s') = ih_firing_streak (is_incident s1)"
    "ih_recovery_streak (is_incident s') = ih_recovery_streak (is_incident s1)"
  unfolding s1_def by (rule incident_step_cases [OF assms(1)]; auto)+

lemma incident_run_state_Cons:
  "snd (incident_run p s (e # es)) = snd (incident_run p (snd (incident_step p s e)) es)"
  by (simp add: incident_run.simps(2) split: prod.split)

lemma incident_run_snoc:
  "snd (incident_run p s (es @ [e])) = snd (incident_step p (snd (incident_run p s es)) e)"
  by (induction es arbitrary: s) (simp_all add: incident_run_state_Cons)

definition trailing :: "('a \<Rightarrow> bool) \<Rightarrow> 'a list \<Rightarrow> int" where
  "trailing P xs = int (length (takeWhile P (rev xs)))"

lemma trailing_snoc: "trailing P (xs @ [x]) = (if P x then trailing P xs + 1 else 0)"
  by (simp add: trailing_def)

lemma firing_streak_trailing:
  "ih_firing_streak (is_incident (snd (incident_run p fresh_incident es))) \<le> trailing breach es"
proof (induction es rule: rev_induct)
  case (snoc e es)
  let ?s = "snd (incident_run p fresh_incident es)"
  obtain n s' where st: "incident_step p ?s e = (n, s')" by fastforce
  have "0 \<le> trailing breach es" by (simp add: trailing_def)
  with snoc show ?case
    using Observe_firing_streak [of ?s "ob_now e" "ob_active e" "ob_ignore e" "ob_hold e" p]
      incident_step_state(2) [OF st]
    by (auto simp: incident_run_snoc st trailing_snoc breach_def [of e] split: if_splits)
qed (simp add: fresh_incident_def empty_history_def trailing_def)

lemma recovery_streak_trailing:
  "ih_recovery_streak (is_incident (snd (incident_run p fresh_incident es))) \<le> trailing healthy_obs es"
proof (induction es rule: rev_induct)
  case (snoc e es)
  let ?s = "snd (incident_run p fresh_incident es)"
  obtain n s' where st: "incident_step p ?s e = (n, s')" by fastforce
  have "0 \<le> trailing healthy_obs es" by (simp add: trailing_def)
  with snoc show ?case
    using Observe_recovery_streak [of ?s "ob_now e" "ob_active e" "ob_ignore e" "ob_hold e" p]
      incident_step_state(3) [OF st]
    by (auto simp: incident_run_snoc st trailing_snoc healthy_obs_def [of e] split: if_splits)
qed (simp add: fresh_incident_def empty_history_def trailing_def)

subsection \<open>Initialising the history first changes nothing\<close>

lemma init_history_idem [simp]: "init_history (init_history s) = init_history s"
  by (simp add: init_history_def)

lemma Observe_init: "Observe (init_history s) now a ign hold p = Observe s now a ign hold p"
proof -
  have "prepare p now (init_history s) = prepare p now s" by (simp add: prepare_def)
  then show ?thesis by (simp add: Observe_def)
qed

lemma incident_run_init: "fst (incident_run p (init_history s) es) = fst (incident_run p s es)"
  by (cases es) (simp_all add: incident_run.simps(2) incident_step_def Observe_init)

lemma spaced_None: "spaced c prev ts \<Longrightarrow> spaced c None ts"
  by (cases ts) auto

subsection \<open>Announcements and recoveries\<close>

text \<open>
  Notifications pair up. In the queued notifications of any run a recovery notice is always
  preceded by a firing that it resolves: none is sent for an incident that was never announced, and
  none is sent twice.
\<close>

fun pairs_up :: "bool \<Rightarrow> Notification list \<Rightarrow> bool" where
  "pairs_up announced [] = True"
| "pairs_up announced (Firing # ns) = pairs_up True ns"
| "pairs_up announced (Resolved # ns) = (announced \<and> pairs_up False ns)"
| "pairs_up announced (NoNotification # ns) = False"

theorem incident_pairs_up:
  "pairs_up (notified_or_active s) (map fst (fst (incident_run p s es)))"
proof (induction es arbitrary: s)
  case (Cons e es)
  obtain n s' where st: "incident_step p s e = (n, s')" by fastforce
  let ?s1 = "snd (Observe s (ob_now e) (ob_active e) (ob_ignore e) (ob_hold e) p)"
  have keep: "ih_notified_active (is_incident ?s1) = Some (notified_or_active s)"
    by (rule Observe_notified)
  have run: "map fst (fst (incident_run p s (e # es)))
      = (if n = NoNotification then [] else [n]) @ map fst (fst (incident_run p s' es))"
    by (simp add: incident_run.simps(2) st split: prod.split)
  from st show ?case
  proof (cases rule: incident_step_cases)
    case (quiet s1)
    then have "notified_or_active s' = notified_or_active s"
      using keep by (auto simp: notified_or_active_def)
    then show ?thesis using Cons.IH [of s'] quiet(1) by (simp add: run)
  next
    case (queued s1)
    then have now: "notified_or_active s' = (n = Firing)" by (simp add: notified_or_active_def)
    have "n = Resolved \<Longrightarrow> notified_or_active s"
      using Observe_Resolved(5) [of s "ob_now e" "ob_active e" "ob_ignore e" "ob_hold e" p s1] keep queued
      by (simp add: notified_def)
    then show ?thesis using Cons.IH [of s'] now queued(1) by (cases n) (simp_all add: run)
  qed
qed simp

lemma pairs_up_length:
  "pairs_up announced ns \<Longrightarrow> length ns \<le> 2 * length (filter (\<lambda>n. n = Firing) ns) + (if announced then 1 else 0)"
  by (induction announced ns rule: pairs_up.induct) (auto split: if_splits)

section \<open>Properties\<close>

text \<open>
  C12: cooldown. Two firings that were queued one after the other are at least one cooldown apart,
  whatever the observations, queueing failures and clock readings in between and from any state, under
  every policy with a stability window (the upstream alerts, the health notifications); under a policy
  without one (the client error rate, failed logins, logins from new addresses) as long as no
  observation in between ended the incident.
\<close>

theorem incident_cooldown:
  assumes "ip_stable_for p \<noteq> 0 \<or> never_recovers p s es"
  shows "spaced (ip_cooldown p) None (firings (fst (incident_run p s es)))"
proof -
  have "ih_notified_active (is_incident (init_history s)) \<noteq> None" by (simp add: init_history_def)
  moreover have "ip_stable_for p \<noteq> 0 \<or> never_recovers p (init_history s) es"
    using assms by (cases es) (simp_all add: recovers_def incident_step_def Observe_init)
  ultimately show ?thesis
    using spaced_None [OF incident_run_spaced [of "init_history s" p es]] by (simp add: incident_run_init)
qed

definition sample_policy :: IncidentPolicy where
  "sample_policy = \<lparr>ip_firing_confirmations = 2, ip_recovery_confirmations = 3, ip_cooldown = 10 * minute,
     ip_stable_for = 30 * minute, ip_max_gap = 90 * second, ip_max_notifications = 3, ip_repeat = True\<rparr>"

definition sample_obs :: "time \<Rightarrow> bool \<Rightarrow> Obs" where
  "sample_obs t a = \<lparr>ob_now = t, ob_active = a, ob_ignore = False, ob_hold = False, ob_queued = True\<rparr>"

lemma sample_run:
  "fst (incident_run sample_policy fresh_incident
     [sample_obs minute True, sample_obs (2 * minute) True, sample_obs (3 * minute) True])
   = [(Firing, 2 * minute)]"
  by code_simp

theorem incident_cooldown_witness:
  "spaced (10 * minute) None (firings (fst (incident_run sample_policy fresh_incident
     [sample_obs minute True, sample_obs (2 * minute) True, sample_obs (3 * minute) True])))
   \<and> ip_stable_for sample_policy \<noteq> 0"
  using incident_cooldown [of sample_policy fresh_incident
      "[sample_obs minute True, sample_obs (2 * minute) True, sample_obs (3 * minute) True]"]
  by (simp add: sample_policy_def)

text \<open>
  C13: reminder budget. Among observations within one stability window, from any state, at most what is
  left of \<open>MaxNotifications\<close> firings are sent, however often the metric recovers and breaches again,
  unless the metric had been normal since before the window; then the budget may be renewed, once, so
  that never more than twice the budget is sent. Counting the recovery notices too, there are at most
  two notices for each firing, and one more for an incident announced before.
\<close>

theorem incident_budget:
  assumes "0 < ip_max_notifications p" "ip_stable_for p \<le> max_int64" "0 \<le> is_notification_count s"
    and "\<forall>e \<in> set es. t0 \<le> ob_now e \<and> ob_now e - t0 < ip_stable_for p"
  shows "((\<forall>t. ih_normal_since (is_incident s) = Some t \<longrightarrow> t0 \<le> t) \<longrightarrow>
         int (length (firings (fst (incident_run p s es)))) \<le> max 0 (ip_max_notifications p - is_notification_count s))
    \<and> int (length (firings (fst (incident_run p s es)))) \<le> 2 * ip_max_notifications p
    \<and> length (fst (incident_run p s es)) \<le> 2 * length (firings (fst (incident_run p s es))) + (if notified_or_active s then 1 else 0)"
proof -
  have w: "in_window p t0 es" using assms(4) by (simp add: in_window_def)
  have "length (filter (\<lambda>n. n = Firing) (map fst ns)) = length (firings ns)" for ns
    by (simp add: firings_def filter_map o_def)
  then have "length (fst (incident_run p s es)) \<le> 2 * length (firings (fst (incident_run p s es))) + (if notified_or_active s then 1 else 0)"
    using pairs_up_length [OF incident_pairs_up [of s p es]] by simp
  then show ?thesis
    using incident_run_budget [OF assms(1) w _ assms(2), of s] incident_run_budget_twice [OF assms(1) w assms(2), of s] assms(1,3)
    by (auto simp: budget_left_def not_renewable_def)
qed

theorem incident_budget_witness:
  "let run = incident_run sample_policy fresh_incident
     [sample_obs minute True, sample_obs (2 * minute) True, sample_obs (3 * minute) True]
   in int (length (firings (fst run))) \<le> 3 \<and> length (fst run) \<le> 2 * length (firings (fst run))"
  using incident_budget [of sample_policy fresh_incident
      "[sample_obs minute True, sample_obs (2 * minute) True, sample_obs (3 * minute) True]" 0]
  by (simp add: sample_policy_def sample_obs_def max_int64_def fresh_incident_def empty_history_def notified_or_active_def Let_def)

text \<open>
  Confirmation. An incident that starts from a clean state becomes active only when the last
  \<open>FiringConfirmations\<close> observations were all confirmed breaches (not ignored, not in the hysteresis
  band), and stops being active only when the last \<open>RecoveryConfirmations\<close> were all normal.
\<close>

theorem incident_confirmation:
  fixes p es e
  defines "s \<equiv> snd (incident_run p fresh_incident es)"
    and "s' \<equiv> snd (incident_run p fresh_incident (es @ [e]))"
  shows "(if is_active s then \<not> is_active s' \<longrightarrow> ip_recovery_confirmations p \<le> trailing healthy_obs (es @ [e])
          else is_active s' \<longrightarrow> ip_firing_confirmations p \<le> trailing breach (es @ [e]))"
proof -
  obtain n s2 where st: "incident_step p s e = (n, s2)" by fastforce
  then have s': "s' = s2" by (simp add: s'_def s_def incident_run_snoc)
  note eqs = incident_step_state [OF st]
  have "is_active s' \<Longrightarrow> \<not> is_active s \<Longrightarrow> ip_firing_confirmations p \<le> ih_firing_streak (is_incident s')"
    using Observe_activates [of s "ob_now e" "ob_active e" "ob_ignore e" "ob_hold e" p] eqs s' by simp
  moreover have "\<not> is_active s' \<Longrightarrow> is_active s \<Longrightarrow> ip_recovery_confirmations p \<le> ih_recovery_streak (is_incident s')"
    using Observe_deactivates [of s "ob_now e" "ob_active e" "ob_ignore e" "ob_hold e" p] eqs s' by simp
  ultimately show ?thesis
    using firing_streak_trailing [of p "es @ [e]"] recovery_streak_trailing [of p "es @ [e]"]
    by (auto simp: s'_def)
qed

theorem incident_confirmation_witness:
  "ip_firing_confirmations sample_policy
     \<le> trailing breach ([sample_obs minute True] @ [sample_obs (2 * minute) True])"
proof -
  have "\<not> is_active (snd (incident_run sample_policy fresh_incident [sample_obs minute True]))"
    "is_active (snd (incident_run sample_policy fresh_incident
       ([sample_obs minute True] @ [sample_obs (2 * minute) True])))"
    by code_simp+
  then show ?thesis
    using incident_confirmation [of sample_policy "[sample_obs minute True]" "sample_obs (2 * minute) True"]
    by simp
qed

end
