(* ===== verification/Ops_Event.thy ===== *)
theory Ops_Event
  imports Core_Types
begin

text \<open>
  The operational event of \<open>internal/ops/monitor.go\<close>, which the alert engine, the monitor and the
  notification outbox exchange, with the evidence attached to metric alerts.
\<close>

record MetricEvidence =
  me_failed_request_ids :: "string list"
  me_window_start :: time
  me_window_end :: time
  me_threshold :: rat
  me_attempts :: int
  me_failures :: int
  me_recovered_requests :: int
  me_status_counts :: "(string \<times> int) list"

record Event =
  ev_active_since :: "time option"
  ev_evidence :: "MetricEvidence option"
  ev_notification_number :: int
  ev_type :: string
  ev_state :: string
  ev_previous :: string
  ev_severity :: string
  ev_count :: int
  ev_upstream_id :: int
  ev_upstream_name :: string
  ev_message :: string
  ev_at :: time

definition empty_event :: Event where
  "empty_event = \<lparr>ev_active_since = None, ev_evidence = None, ev_notification_number = 0, ev_type = [],
     ev_state = [], ev_previous = [], ev_severity = [], ev_count = 0, ev_upstream_id = 0,
     ev_upstream_name = [], ev_message = [], ev_at = 0\<rparr>"

text \<open>A string literal of the source that is not ASCII, by its UTF-8 bytes.\<close>

definition utf8 :: "nat list \<Rightarrow> string" where "utf8 = map char_of"

end
