(* ===== verification/Alert_Engine.thy ===== *)
theory Alert_Engine
  imports Incident Ops_Event
begin

text \<open>
  The alert engine of \<open>internal/alerts/engine.go\<close> over its \<open>Repository\<close> interface. The interface is a
  record of operations on a world \<open>'w\<close> (an error is a text); \<open>handle\<close> and \<open>RunOnce\<close> take it as an
  argument, as the Go struct holds it. The locale \<open>incident_store\<close> states what the engine relies on,
  and is interpreted on the model of \<open>internal/store/alerts.go\<close> behind
  \<open>internal/app/alerts_repository.go\<close>: the table \<open>alert_states\<close> with scripted faults. Timestamps are
  kept exactly through storage.
\<close>

section \<open>Rules and observations\<close>

definition EventLowBalance :: string where "EventLowBalance = ''low_balance''"
definition EventBalanceUnavailable :: string where "EventBalanceUnavailable = ''balance_unavailable''"
definition EventErrorRate :: string where "EventErrorRate = ''error_rate''"
definition EventLatency :: string where "EventLatency = ''latency''"

record Rule =
  ru_id :: int
  ru_event :: string
  ru_upstream_id :: "int option"
  ru_threshold :: "rat option"
  ru_window :: duration
  ru_cooldown :: duration
  ru_max_notifications :: int
  ru_enabled :: bool

record Observation =
  on_evidence :: "MetricEvidence option"
  on_key :: string
  on_active :: bool
  on_ignore :: bool
  on_hold :: bool
  on_value :: rat
  on_message :: string
  on_recovery_message :: string
  on_upstream_id :: int
  on_upstream_name :: string

record 'w AlertRepository =
  ar_list_rules :: "'w \<Rightarrow> (string + Rule list) \<times> 'w"
  ar_observe :: "Rule \<Rightarrow> 'w \<Rightarrow> (string + Observation list) \<times> 'w"
  ar_load_state :: "int \<Rightarrow> string \<Rightarrow> 'w \<Rightarrow> (string + IncidentState \<times> bool) \<times> 'w"
  ar_save_state :: "int \<Rightarrow> string \<Rightarrow> IncidentState \<Rightarrow> 'w \<Rightarrow> string option \<times> 'w"
  ar_prune_states :: "int \<Rightarrow> string list option \<Rightarrow> 'w \<Rightarrow> string option \<times> 'w"
  ar_notify :: "(Event \<Rightarrow> 'w \<Rightarrow> string option \<times> 'w) option"
  ar_now :: "'w \<Rightarrow> time \<times> 'w"

datatype engine_error =
    ListRulesErr string
  | PruneErr int string
  | ObserveErr int string
  | EmptyKey
  | LoadStateErr string
  | NotifyErr string
  | SaveStateErr string
  | NotifyAndSaveErr string string
  | ObservationErr int string engine_error

section \<open>The engine\<close>

definition alert_policy :: "Rule \<Rightarrow> Observation \<Rightarrow> IncidentPolicy" where
  "alert_policy rule ob =
     (let metric = (ru_event rule = EventErrorRate \<or> ru_event rule = EventLatency);
          stable = (on_upstream_id ob > 0 \<or> ru_event rule = EventLowBalance
                    \<or> ru_event rule = EventBalanceUnavailable \<or> metric)
      in \<lparr>ip_firing_confirmations = (if metric then 2 else 1),
          ip_recovery_confirmations = (if metric then 3 else 1),
          ip_cooldown = ru_cooldown rule,
          ip_stable_for = (if stable then 30 * minute else 0),
          ip_max_gap = (if stable then 90 * second else 0),
          ip_max_notifications = ru_max_notifications rule,
          ip_repeat = (ru_cooldown rule > 0)\<rparr>)"

definition alert_event ::
  "Rule \<Rightarrow> Observation \<Rightarrow> bool \<Rightarrow> IncidentState \<Rightarrow> Notification \<Rightarrow> time \<Rightarrow> Event" where
  "alert_event rule ob previously_active s n now =
     (let event = empty_event\<lparr>
            ev_type := ru_event rule, ev_evidence := on_evidence ob,
            ev_active_since := ih_active_since (is_incident s),
            ev_notification_number := is_notification_count s + 1,
            ev_state := notification_text n, ev_previous := (if previously_active then ''active'' else ''inactive''),
            ev_upstream_id := on_upstream_id ob, ev_upstream_name := on_upstream_name ob,
            ev_message := on_message ob, ev_at := now\<rparr>
      in if n = Resolved then
           event\<lparr>ev_notification_number := 0, ev_state := ''resolved'', ev_previous := ''active'',
                 ev_message := (if on_recovery_message ob \<noteq> [] then on_recovery_message ob
                                else on_message ob)\<rparr>
         else event)"

definition record_observation :: "Observation \<Rightarrow> time \<Rightarrow> IncidentState \<Rightarrow> IncidentState" where
  "record_observation ob now s =
     s\<lparr>is_value := on_value ob, is_message := on_message ob, is_last_observed_at := now\<rparr>"

definition handle :: "'w AlertRepository \<Rightarrow> Rule \<Rightarrow> Observation \<Rightarrow> 'w \<Rightarrow> engine_error option \<times> 'w" where
  "handle R rule ob w =
     (if on_key ob = [] then (Some EmptyKey, w)
      else case ar_load_state R (ru_id rule) (on_key ob) w of
        (Inl e, w1) \<Rightarrow> (Some (LoadStateErr e), w1)
      | (Inr (state, _), w1) \<Rightarrow>
          (case ar_now R w1 of (now, w2) \<Rightarrow>
           case Observe state now (on_active ob) (on_ignore ob) (on_hold ob) (alert_policy rule ob) of
             (n, s1) \<Rightarrow>
               if n \<noteq> NoNotification then
                 (case (case ar_notify R of None \<Rightarrow> (None, w2)
                        | Some f \<Rightarrow> f (alert_event rule ob (is_active state) s1 n now) w2) of
                    (nerr, w3) \<Rightarrow>
                      let s2 = (case nerr of Some _ \<Rightarrow> EnqueueFailed s1 now (ru_cooldown rule)
                                | None \<Rightarrow> Accepted s1 now n)
                      in case ar_save_state R (ru_id rule) (on_key ob) (record_observation ob now s2) w3 of
                           (Some se, w4) \<Rightarrow>
                             (Some (case nerr of Some ne \<Rightarrow> NotifyAndSaveErr ne se | None \<Rightarrow> SaveStateErr se), w4)
                         | (None, w4) \<Rightarrow> (map_option NotifyErr nerr, w4))
               else
                 (case ar_save_state R (ru_id rule) (on_key ob) (record_observation ob now s1) w2 of
                    (serr, w3) \<Rightarrow> (map_option SaveStateErr serr, w3))))"

text \<open>The observations of one rule: the keys seen (for pruning) and the errors, in order.\<close>

fun handle_all ::
  "'w AlertRepository \<Rightarrow> Rule \<Rightarrow> Observation list \<Rightarrow> 'w \<Rightarrow> string list \<times> engine_error list \<times> 'w" where
  "handle_all R rule [] w = ([], [], w)"
| "handle_all R rule (ob # obs) w =
     (case handle R rule ob w of (err, w1) \<Rightarrow>
        case handle_all R rule obs w1 of (keys, errs, w2) \<Rightarrow>
          (on_key ob # keys,
           (case err of None \<Rightarrow> [] | Some e \<Rightarrow> [ObservationErr (ru_id rule) (on_key ob) e]) @ errs, w2))"

definition prune :: "'w AlertRepository \<Rightarrow> int \<Rightarrow> string list option \<Rightarrow> 'w \<Rightarrow> engine_error list \<times> 'w" where
  "prune R rid keys w =
     (case ar_prune_states R rid keys w of (None, w1) \<Rightarrow> ([], w1) | (Some e, w1) \<Rightarrow> ([PruneErr rid e], w1))"

fun run_rules :: "'w AlertRepository \<Rightarrow> Rule list \<Rightarrow> 'w \<Rightarrow> engine_error list \<times> 'w" where
  "run_rules R [] w = ([], w)"
| "run_rules R (rule # rules) w =
     (case (if \<not> ru_enabled rule then prune R (ru_id rule) None w
            else case ar_observe R rule w of
                   (Inl e, w1) \<Rightarrow> ([ObserveErr (ru_id rule) e], w1)
                 | (Inr observations, w1) \<Rightarrow>
                     (case handle_all R rule observations w1 of (keys, errs, w2) \<Rightarrow>
                      case prune R (ru_id rule) (Some keys) w2 of (perrs, w3) \<Rightarrow> (errs @ perrs, w3))) of
        (errs1, w') \<Rightarrow> case run_rules R rules w' of (errs2, w'') \<Rightarrow> (errs1 @ errs2, w''))"

text \<open>The joined errors; no error is the empty list (\<open>errors.Join\<close> of nothing is nil).\<close>

definition RunOnce :: "'w AlertRepository \<Rightarrow> 'w \<Rightarrow> engine_error list \<times> 'w" where
  "RunOnce R w =
     (case ar_list_rules R w of
        (Inl e, w1) \<Rightarrow> ([ListRulesErr e], w1)
      | (Inr rules, w1) \<Rightarrow> run_rules R rules w1)"

section \<open>What the engine relies on\<close>

locale incident_store =
  fixes R :: "'w AlertRepository"
    and state_of :: "'w \<Rightarrow> int \<Rightarrow> string \<Rightarrow> IncidentState option"
  assumes load: "ar_load_state R rid k w = (r, w') \<Longrightarrow> state_of w' = state_of w \<and>
      (case r of Inl e \<Rightarrow> True
       | Inr (s, found) \<Rightarrow> s = (case state_of w rid k of None \<Rightarrow> fresh_incident | Some t \<Rightarrow> t))"
    and save: "ar_save_state R rid k s w = (sr, w') \<Longrightarrow> state_of w' =
      (case sr of Some e \<Rightarrow> state_of w | None \<Rightarrow> (state_of w)(rid := (state_of w rid)(k \<mapsto> s)))"
    and clock_keeps: "ar_now R w = (t, w') \<Longrightarrow> state_of w' = state_of w"
    and notify_keeps: "ar_notify R = Some f \<Longrightarrow> f ev w = (sr, w') \<Longrightarrow> state_of w' = state_of w"
begin

definition stored :: "'w \<Rightarrow> int \<Rightarrow> string \<Rightarrow> IncidentState" where
  "stored w rid k = (case state_of w rid k of None \<Rightarrow> fresh_incident | Some t \<Rightarrow> t)"

text \<open>
  One evaluation of one observation is one step of the incident machine on the stored state: either
  the state is as it was (an error before or while saving), or it is the state after the step.
\<close>

lemma handle_refines:
  assumes "handle R rule ob w = (err, w')"
  shows "state_of w' = state_of w \<or>
    (\<exists>now queued. state_of w' = (state_of w)(ru_id rule := (state_of w (ru_id rule))(on_key ob \<mapsto>
        record_observation ob now (snd (incident_step (alert_policy rule ob) (stored w (ru_id rule) (on_key ob))
          \<lparr>ob_now = now, ob_active = on_active ob, ob_ignore = on_ignore ob, ob_hold = on_hold ob,
           ob_queued = queued\<rparr>)))))"
proof (cases "on_key ob = []")
  case True
  with assms show ?thesis by (simp add: handle_def)
next
  case key: False
  let ?rid = "ru_id rule" and ?k = "on_key ob" and ?p = "alert_policy rule ob"
  obtain lr w1 where ld: "ar_load_state R ?rid ?k w = (lr, w1)" by fastforce
  note ld' = load [OF ld]
  show ?thesis
  proof (cases lr)
    case (Inl e)
    with assms key ld ld' show ?thesis by (simp add: handle_def)
  next
    case (Inr sf)
    then obtain s found where lr: "lr = Inr (s, found)" by (cases sf) auto
    have s: "s = stored w ?rid ?k" using ld' lr by (simp add: stored_def)
    obtain now w2 where cl: "ar_now R w1 = (now, w2)" by fastforce
    obtain n s1 where obs: "Observe s now (on_active ob) (on_ignore ob) (on_hold ob) ?p = (n, s1)" by fastforce
    have keep2: "state_of w2 = state_of w" using clock_keeps [OF cl] ld' by simp
    let ?e = "\<lambda>q. \<lparr>ob_now = now, ob_active = on_active ob, ob_ignore = on_ignore ob, ob_hold = on_hold ob, ob_queued = q\<rparr>"
    show ?thesis
    proof (cases "n = NoNotification")
      case True
      obtain serr w3 where sv: "ar_save_state R ?rid ?k (record_observation ob now s1) w2 = (serr, w3)" by fastforce
      have "w' = w3" using assms key ld lr cl obs True sv by (simp add: handle_def)
      moreover have "s1 = snd (incident_step ?p s (?e True))" using obs True by (simp add: incident_step_def)
      ultimately show ?thesis
        using save [OF sv] keep2 s by (cases serr) auto
    next
      case False
      obtain nerr w3 where nt: "(case ar_notify R of None \<Rightarrow> (None, w2)
            | Some f \<Rightarrow> f (alert_event rule ob (is_active s) s1 n now) w2) = (nerr, w3)" by fastforce
      have keep3: "state_of w3 = state_of w"
        using nt keep2 notify_keeps by (cases "ar_notify R") auto
      let ?s2 = "case nerr of Some _ \<Rightarrow> EnqueueFailed s1 now (ru_cooldown rule) | None \<Rightarrow> Accepted s1 now n"
      obtain serr w4 where sv: "ar_save_state R ?rid ?k (record_observation ob now ?s2) w3 = (serr, w4)" by fastforce
      have w': "w' = w4" using assms key ld lr cl obs False nt sv
        by (simp add: handle_def split: option.splits)
      have "?s2 = snd (incident_step ?p s (?e (nerr = None)))"
        using obs False by (cases nerr) (simp_all add: incident_step_def alert_policy_def Let_def)
      then show ?thesis
        using save [OF sv] keep3 s w' by (cases serr) auto
    qed
  qed
qed

lemma handle_frame:
  assumes "handle R rule ob w = (err, w')" "rid \<noteq> ru_id rule \<or> k \<noteq> on_key ob"
  shows "state_of w' rid k = state_of w rid k"
  using handle_refines [OF assms(1)] assms(2) by (elim disjE exE) auto

end

section \<open>The stored states\<close>

text \<open>
  The provider: table \<open>alert_states\<close> as a map from rule and observation key (its primary key). The
  outcome of each statement comes from a script, \<open>aw_db\<close> (an exhausted script means success), as do
  the queueing results, the clock and what the metric queries report. A Go slice that may be nil is
  an option; \<open>pq_array\<close> is the encoding of \<open>github.com/lib/pq\<close>, where \<open>None\<close> is SQL \<open>NULL\<close>.
\<close>

record AlertWorld =
  aw_states :: "int \<Rightarrow> string \<Rightarrow> IncidentState option"
  aw_rules :: "Rule list"
  aw_observations :: "(string + Observation list) list"
  aw_db :: "string option list"
  aw_queue :: "string option list"
  aw_clock :: "time list"
  aw_sent :: "Event list"

definition db_fault :: "AlertWorld \<Rightarrow> string option \<times> AlertWorld" where
  "db_fault w = (case aw_db w of [] \<Rightarrow> (None, w) | f # fs \<Rightarrow> (f, w\<lparr>aw_db := fs\<rparr>))"

definition AlertState :: "int \<Rightarrow> string \<Rightarrow> AlertWorld \<Rightarrow> (string + IncidentState \<times> bool) \<times> AlertWorld" where
  "AlertState rid k w =
     (case db_fault w of (Some e, w1) \<Rightarrow> (Inl e, w1)
      | (None, w1) \<Rightarrow> (case aw_states w1 rid k of None \<Rightarrow> (Inr (fresh_incident, False), w1)
                     | Some s \<Rightarrow> (Inr (s, True), w1)))"

definition SaveAlertState :: "int \<Rightarrow> string \<Rightarrow> IncidentState \<Rightarrow> AlertWorld \<Rightarrow> string option \<times> AlertWorld" where
  "SaveAlertState rid k s w =
     (case db_fault w of (Some e, w1) \<Rightarrow> (Some e, w1)
      | (None, w1) \<Rightarrow> (None, w1\<lparr>aw_states := (aw_states w1)(rid := (aw_states w1 rid)(k \<mapsto> s))\<rparr>))"

text \<open>SQL \<open>k = ANY(array)\<close>: unknown (\<open>None\<close>) over a NULL array; a row is deleted only when \<open>NOT\<close> of it is true.\<close>

definition sql_any :: "string \<Rightarrow> string list option \<Rightarrow> bool option" where
  "sql_any k ks = map_option (\<lambda>xs. k \<in> set xs) ks"

definition PruneAlertStates ::
  "(string list option \<Rightarrow> string list option) \<Rightarrow> int \<Rightarrow> string list option \<Rightarrow> AlertWorld \<Rightarrow> string option \<times> AlertWorld" where
  "PruneAlertStates pq_array rid ks w =
     (case db_fault w of (Some e, w1) \<Rightarrow> (Some e, w1)
      | (None, w1) \<Rightarrow>
          (None, w1\<lparr>aw_states := (aw_states w1)(rid := (\<lambda>k.
             if sql_any k (pq_array ks) = Some False then None else aw_states w1 rid k))\<rparr>))"

definition ListRules :: "AlertWorld \<Rightarrow> (string + Rule list) \<times> AlertWorld" where
  "ListRules w =
     (case db_fault w of (Some e, w1) \<Rightarrow> (Inl e, w1) | (None, w1) \<Rightarrow> (Inr (aw_rules w1), w1))"

definition observe_script :: "Rule \<Rightarrow> AlertWorld \<Rightarrow> (string + Observation list) \<times> AlertWorld" where
  "observe_script rule w =
     (case aw_observations w of [] \<Rightarrow> (Inr [], w) | x # xs \<Rightarrow> (x, w\<lparr>aw_observations := xs\<rparr>))"

definition queue_event :: "Event \<Rightarrow> AlertWorld \<Rightarrow> string option \<times> AlertWorld" where
  "queue_event ev w =
     (case aw_queue w of
        [] \<Rightarrow> (None, w\<lparr>aw_sent := aw_sent w @ [ev]\<rparr>)
      | None # fs \<Rightarrow> (None, w\<lparr>aw_queue := fs, aw_sent := aw_sent w @ [ev]\<rparr>)
      | Some e # fs \<Rightarrow> (Some e, w\<lparr>aw_queue := fs\<rparr>))"

definition read_clock :: "AlertWorld \<Rightarrow> time \<times> AlertWorld" where
  "read_clock w = (case aw_clock w of [] \<Rightarrow> (0, w) | t # ts \<Rightarrow> (t, w\<lparr>aw_clock := ts\<rparr>))"

definition alert_repository ::
  "(string list option \<Rightarrow> string list option) \<Rightarrow> AlertWorld AlertRepository" where
  "alert_repository pq_array =
     \<lparr>ar_list_rules = ListRules, ar_observe = observe_script, ar_load_state = AlertState,
      ar_save_state = SaveAlertState, ar_prune_states = PruneAlertStates pq_array,
      ar_notify = Some queue_event, ar_now = read_clock\<rparr>"

lemma db_fault_states: "db_fault w = (r, w') \<Longrightarrow> aw_states w' = aw_states w"
  by (auto simp: db_fault_def split: list.splits)

lemma alert_repository_simps [simp]:
  "ar_list_rules (alert_repository pq) = ListRules" "ar_observe (alert_repository pq) = observe_script"
  "ar_load_state (alert_repository pq) = AlertState" "ar_save_state (alert_repository pq) = SaveAlertState"
  "ar_prune_states (alert_repository pq) = PruneAlertStates pq"
  "ar_notify (alert_repository pq) = Some queue_event" "ar_now (alert_repository pq) = read_clock"
  by (simp_all add: alert_repository_def)

interpretation pg: incident_store "alert_repository pq" aw_states for pq
proof unfold_locales
  fix rid k w r w'
  assume "ar_load_state (alert_repository pq) rid k w = (r, w')"
  then show "aw_states w' = aw_states w \<and> (case r of Inl e \<Rightarrow> True
     | Inr (s, found) \<Rightarrow> s = (case aw_states w rid k of None \<Rightarrow> fresh_incident | Some t \<Rightarrow> t))"
    by (auto simp: AlertState_def db_fault_def split: list.splits option.splits)
next
  fix rid k s w sr w'
  assume "ar_save_state (alert_repository pq) rid k s w = (sr, w')"
  then show "aw_states w' = (case sr of Some e \<Rightarrow> aw_states w | None \<Rightarrow> (aw_states w)(rid := (aw_states w rid)(k \<mapsto> s)))"
    by (auto simp: SaveAlertState_def db_fault_def split: list.splits option.splits)
next
  fix w t w'
  assume "ar_now (alert_repository pq) w = (t, w')"
  then show "aw_states w' = aw_states w" by (auto simp: read_clock_def split: list.splits)
next
  fix f ev w sr w'
  assume "ar_notify (alert_repository pq) = Some f" "f ev w = (sr, w')"
  then show "aw_states w' = aw_states w" by (auto simp: queue_event_def split: list.splits option.splits)
qed

section \<open>Properties\<close>

text \<open>What one evaluation does when the database answers: the events sent as well as the state.\<close>

definition firing_times :: "Event list \<Rightarrow> time list" where
  "firing_times evs = map ev_at (filter (\<lambda>ev. ev_state ev = ''firing'') evs)"

lemma alert_event_simps [simp]:
  "ev_at (alert_event rule ob pa s n now) = now"
  "n \<noteq> NoNotification \<Longrightarrow> (ev_state (alert_event rule ob pa s n now) = ''firing'') = (n = Firing)"
  by (cases n; simp add: alert_event_def Let_def)+

lemma record_observation_incident [simp]: "is_incident (record_observation ob now s) = is_incident s"
  by (simp add: record_observation_def)

text \<open>What the scripts of a world say will happen to one evaluation.\<close>

definition load_fails :: "AlertWorld \<Rightarrow> bool" where
  "load_fails w = (case aw_db w of Some _ # _ \<Rightarrow> True | _ \<Rightarrow> False)"

definition save_fails :: "AlertWorld \<Rightarrow> bool" where
  "save_fails w = (case aw_db w of _ # Some _ # _ \<Rightarrow> True | _ \<Rightarrow> False)"

definition queue_accepts :: "AlertWorld \<Rightarrow> bool" where
  "queue_accepts w = (case aw_queue w of Some _ # _ \<Rightarrow> False | _ \<Rightarrow> True)"

definition evaluation :: "Observation \<Rightarrow> AlertWorld \<Rightarrow> Obs" where
  "evaluation ob w = \<lparr>ob_now = (case aw_clock w of [] \<Rightarrow> 0 | t # _ \<Rightarrow> t), ob_active = on_active ob,
     ob_ignore = on_ignore ob, ob_hold = on_hold ob, ob_queued = queue_accepts w\<rparr>"

lemma AlertState_loads:
  "\<not> load_fails w \<Longrightarrow> \<exists>found w1. AlertState rid k w
     = (Inr (case aw_states w rid k of None \<Rightarrow> fresh_incident | Some t \<Rightarrow> t, found), w1)
     \<and> w1 = w\<lparr>aw_db := tl (aw_db w)\<rparr>"
  by (cases w) (auto simp: load_fails_def AlertState_def db_fault_def split: list.splits option.splits)

lemma SaveAlertState_saves:
  assumes "aw_db w2 = tl (aw_db w)" "\<not> load_fails w"
  shows "aw_states (snd (SaveAlertState rid k st w2))
      = (if save_fails w then aw_states w2 else (aw_states w2)(rid := (aw_states w2 rid)(k \<mapsto> st)))
    \<and> aw_sent (snd (SaveAlertState rid k st w2)) = aw_sent w2"
  using assms by (auto simp: SaveAlertState_def db_fault_def save_fails_def load_fails_def split: list.splits option.splits)

lemma queue_event_cases:
  "queue_event ev w1 = (nerr, w2) \<Longrightarrow> aw_queue w1 = aw_queue w \<Longrightarrow>
     (nerr = None \<longleftrightarrow> queue_accepts w) \<and> aw_db w2 = aw_db w1 \<and> aw_states w2 = aw_states w1
     \<and> aw_sent w2 = aw_sent w1 @ (if queue_accepts w then [ev] else [])"
  by (auto simp: queue_event_def queue_accepts_def split: list.splits option.splits)

text \<open>
  C14: the engine implements the incident machine. One evaluation of an observation without a key, or
  whose state cannot be loaded, changes no state and sends nothing. Any other is exactly one incident
  step, at the time of the clock, on the state stored for this rule and key: the state is replaced by
  the result of that step unless it cannot be saved, no other state is touched, and an event is sent
  exactly when the step queued a notification, for the upstream of the observation, saying firing or
  resolved as the step did.
\<close>

theorem alert_handle_refines:
  fixes pq rule ob w
  defines "rid \<equiv> ru_id rule" and "k \<equiv> on_key ob"
  defines "s \<equiv> (case aw_states w rid k of None \<Rightarrow> fresh_incident | Some t \<Rightarrow> t)"
    and "w' \<equiv> snd (handle (alert_repository pq) rule ob w)"
  shows "if k = [] \<or> load_fails w then aw_states w' = aw_states w \<and> aw_sent w' = aw_sent w
    else case incident_step (alert_policy rule ob) s (evaluation ob w) of (n, s') \<Rightarrow>
      aw_states w' = (if save_fails w then aw_states w else (aw_states w)(rid := (aw_states w rid)
          (k \<mapsto> record_observation ob (ob_now (evaluation ob w)) s')))
      \<and> (if n = NoNotification then aw_sent w' = aw_sent w
         else \<exists>ev. aw_sent w' = aw_sent w @ [ev] \<and> ev_at ev = ob_now (evaluation ob w)
           \<and> ev_state ev = notification_text n \<and> ev_type ev = ru_event rule \<and> ev_upstream_id ev = on_upstream_id ob)"
proof (cases "k = [] \<or> load_fails w")
  case True
  then show ?thesis
    by (auto simp: w'_def k_def handle_def load_fails_def AlertState_def db_fault_def split: list.splits option.splits)
next
  case False
  let ?now = "ob_now (evaluation ob w)" and ?w1 = "w\<lparr>aw_db := tl (aw_db w)\<rparr>" and ?p = "alert_policy rule ob"
  obtain found where ld: "AlertState rid k w = (Inr (s, found), ?w1)"
    using AlertState_loads [of w rid k] False by (auto simp: s_def)
  obtain w2 where cl: "read_clock ?w1 = (?now, w2)"
    by (cases "aw_clock w") (auto simp: read_clock_def evaluation_def)
  have w2: "aw_db w2 = tl (aw_db w)" "aw_states w2 = aw_states w" "aw_sent w2 = aw_sent w" "aw_queue w2 = aw_queue w"
    using cl by (auto simp: read_clock_def split: list.splits)
  obtain n s1 where obs: "Observe s ?now (on_active ob) (on_ignore ob) (on_hold ob) ?p = (n, s1)" by fastforce
  have e: "ob_active (evaluation ob w) = on_active ob" "ob_ignore (evaluation ob w) = on_ignore ob"
    "ob_hold (evaluation ob w) = on_hold ob" "ob_queued (evaluation ob w) = queue_accepts w"
    by (simp_all add: evaluation_def)
  show ?thesis
  proof (cases "n = NoNotification")
    case True
    then have step: "incident_step ?p s (evaluation ob w) = (NoNotification, s1)" using obs e by (simp add: incident_step_def)
    have "w' = snd (SaveAlertState rid k (record_observation ob ?now s1) w2)"
      using False True ld cl obs by (simp add: w'_def handle_def rid_def k_def split: prod.split)
    with SaveAlertState_saves [OF w2(1), of rid k "record_observation ob ?now s1"] False w2 step
    show ?thesis by simp
  next
    case n: False
    let ?ev = "alert_event rule ob (is_active s) s1 n ?now"
    obtain nerr w3 where q: "queue_event ?ev w2 = (nerr, w3)" by fastforce
    note w3 = queue_event_cases [OF q w2(4)]
    let ?s2 = "case nerr of Some _ \<Rightarrow> EnqueueFailed s1 ?now (ru_cooldown rule) | None \<Rightarrow> Accepted s1 ?now n"
    have step: "incident_step ?p s (evaluation ob w) = (if queue_accepts w then n else NoNotification, ?s2)"
      using obs e n w3 by (cases nerr) (simp_all add: incident_step_def alert_policy_def Let_def)
    have "w' = snd (SaveAlertState rid k (record_observation ob ?now ?s2) w3)"
      using False n ld cl obs q
      by (auto simp: w'_def handle_def rid_def k_def Let_def split: prod.splits option.splits)
    moreover have "ev_state ?ev = notification_text n" "ev_type ?ev = ru_event rule"
      "ev_upstream_id ?ev = on_upstream_id ob" using n by (cases n; simp add: alert_event_def Let_def)+
    ultimately show ?thesis
      using SaveAlertState_saves [of w3 w rid k "record_observation ob ?now ?s2"] False w2 w3 step n by simp
  qed
qed

lemma handle_ok:
  assumes "aw_db w = []" "on_key ob \<noteq> []"
  obtains e n s' now where
    "incident_step (alert_policy rule ob)
       (case aw_states w (ru_id rule) (on_key ob) of None \<Rightarrow> fresh_incident | Some t \<Rightarrow> t) e = (n, s')"
    "aw_states (snd (handle (alert_repository pq) rule ob w)) (ru_id rule) (on_key ob)
       = Some (record_observation ob now s')"
    "aw_db (snd (handle (alert_repository pq) rule ob w)) = []"
    "\<exists>evs. aw_sent (snd (handle (alert_repository pq) rule ob w)) = aw_sent w @ evs
       \<and> firing_times evs = (if n = Firing then [ob_now e] else [])"
proof -
  let ?s = "case aw_states w (ru_id rule) (on_key ob) of None \<Rightarrow> fresh_incident | Some t \<Rightarrow> t"
  let ?p = "alert_policy rule ob"
  let ?w' = "snd (handle (alert_repository pq) rule ob w)"
  obtain now w1 where cl: "read_clock w = (now, w1)" by fastforce
  have w1: "aw_db w1 = []" "aw_states w1 = aw_states w" "aw_sent w1 = aw_sent w"
    using cl assms(1) by (auto simp: read_clock_def split: list.splits)
  obtain n s1 where obs: "Observe ?s now (on_active ob) (on_ignore ob) (on_hold ob) ?p = (n, s1)" by fastforce
  have ld: "\<exists>found. AlertState (ru_id rule) (on_key ob) w = (Inr (?s, found), w)"
    using assms(1) by (auto simp: AlertState_def db_fault_def split: option.splits)
  let ?e = "\<lambda>q. \<lparr>ob_now = now, ob_active = on_active ob, ob_ignore = on_ignore ob, ob_hold = on_hold ob, ob_queued = q\<rparr>"
  show thesis
  proof (cases "n = NoNotification")
    case True
    have "incident_step ?p ?s (?e True) = (n, s1)" using obs True by (simp add: incident_step_def)
    moreover have "?w' = w1\<lparr>aw_states := (aw_states w1)(ru_id rule := (aw_states w1 (ru_id rule))
        (on_key ob \<mapsto> record_observation ob now s1))\<rparr>"
      using ld cl obs True assms(2) w1 by (auto simp: handle_def SaveAlertState_def db_fault_def)
    ultimately show thesis using w1 True by (intro that [of "?e True" n s1 now]) (auto simp: firing_times_def)
  next
    case False
    let ?ev = "alert_event rule ob (is_active ?s) s1 n now"
    obtain nerr w2 where q: "queue_event ?ev w1 = (nerr, w2)" by fastforce
    have w2: "aw_db w2 = []" "aw_states w2 = aw_states w"
      "aw_sent w2 = aw_sent w @ (if nerr = None then [?ev] else [])"
      using q w1 by (auto simp: queue_event_def split: list.splits option.splits)
    let ?s2 = "case nerr of Some _ \<Rightarrow> EnqueueFailed s1 now (ru_cooldown rule) | None \<Rightarrow> Accepted s1 now n"
    have "incident_step ?p ?s (?e (nerr = None)) = (if nerr = None then n else NoNotification, ?s2)"
      using obs False by (cases nerr) (simp_all add: incident_step_def alert_policy_def Let_def)
    moreover have "?w' = w2\<lparr>aw_states := (aw_states w2)(ru_id rule := (aw_states w2 (ru_id rule))
        (on_key ob \<mapsto> record_observation ob now ?s2))\<rparr>"
      using ld cl obs False assms(2) q w2
      by (auto simp: handle_def SaveAlertState_def db_fault_def split: option.splits)
    ultimately show thesis using w2 False
      by (intro that [of "?e (nerr = None)" "if nerr = None then n else NoNotification" ?s2 now])
        (auto simp: firing_times_def)
  qed
qed

lemma alert_policy_stable:
  "0 < on_upstream_id ob \<Longrightarrow> ip_stable_for (alert_policy rule ob) \<noteq> 0"
  "ip_cooldown (alert_policy rule ob) = ru_cooldown rule"
  by (simp_all add: alert_policy_def Let_def)

lemma init_history_notified: "ih_notified_active (is_incident (init_history s)) \<noteq> None"
  by (simp add: init_history_def)

lemma handle_all_snd:
  "snd (snd (handle_all R rule (ob # obs) w)) = snd (snd (handle_all R rule obs (snd (handle R rule ob w))))"
  by (simp split: prod.splits)

lemma handle_all_spaced:
  assumes "aw_db w = []" "k \<noteq> []" "\<forall>ob \<in> set obs. on_key ob = k \<and> 0 < on_upstream_id ob"
    and "s = (case aw_states w (ru_id rule) k of None \<Rightarrow> fresh_incident | Some t \<Rightarrow> t)"
  shows "\<exists>evs. aw_sent (snd (snd (handle_all (alert_repository pq) rule obs w))) = aw_sent w @ evs
    \<and> spaced (ru_cooldown rule) (ih_last_firing_at (is_incident (init_history s))) (firing_times evs)"
  using assms
proof (induction obs arbitrary: w s)
  case Nil
  then show ?case by (simp add: firing_times_def)
next
  case (Cons ob obs)
  let ?w' = "snd (handle (alert_repository pq) rule ob w)" and ?p = "alert_policy rule ob"
  have key: "on_key ob = k" "0 < on_upstream_id ob" using Cons.prems(3) by auto
  obtain e n s' now evs where st: "incident_step ?p s e = (n, s')"
    and h: "aw_states ?w' (ru_id rule) k = Some (record_observation ob now s')" "aw_db ?w' = []"
    and sent: "aw_sent ?w' = aw_sent w @ evs" "firing_times evs = (if n = Firing then [ob_now e] else [])"
    using handle_ok [of w ob rule pq] Cons.prems key by metis
  let ?s' = "record_observation ob now s'"
  have "incident_step ?p (init_history s) e = (n, s')" using st by (simp add: incident_step_def Observe_init)
  note step = incident_step_firing [OF this init_history_notified disjI1 [OF alert_policy_stable(1) [OF key(2)]],
    unfolded alert_policy_stable(2)]
  have f: "ih_notified_active (is_incident s') \<noteq> None"
      "ih_last_firing_at (is_incident s') =
         (if n = Firing then Some (ob_now e) else ih_last_firing_at (is_incident (init_history s)))"
      "n = Firing \<Longrightarrow> (case ih_last_firing_at (is_incident (init_history s)) of None \<Rightarrow> True
         | Some u \<Rightarrow> ru_cooldown rule \<le> time_sub (ob_now e) u)"
    using step by blast+
  have last: "ih_last_firing_at (is_incident (init_history ?s')) = ih_last_firing_at (is_incident s')"
    using f(1) by (auto simp: init_history_def)
  from Cons.IH [OF h(2) Cons.prems(2), of ?s'] h(1) Cons.prems(3) obtain evs2
    where ih: "aw_sent (snd (snd (handle_all (alert_repository pq) rule obs ?w'))) = aw_sent ?w' @ evs2"
      "spaced (ru_cooldown rule) (ih_last_firing_at (is_incident s')) (firing_times evs2)"
    by (auto simp: last)
  have "firing_times (evs @ evs2) = (if n = Firing then [ob_now e] else []) @ firing_times evs2"
    using sent(2) by (simp add: firing_times_def)
  then show ?case using ih sent f by (intro exI [of _ "evs @ evs2"]) (auto simp: handle_all_snd simp del: handle_all.simps)
qed

text \<open>
  No alert storm. While the database answers, successive evaluations of an upstream's observation
  send firing notifications at least the rule's cooldown apart, from any stored state, whatever the
  observations, the clock and the failures to queue.
\<close>

theorem alert_engine_cooldown:
  assumes "aw_db w = []" "k \<noteq> []" "\<forall>ob \<in> set obs. on_key ob = k \<and> 0 < on_upstream_id ob"
  shows "spaced (ru_cooldown rule) None (firing_times (drop (length (aw_sent w))
    (aw_sent (snd (snd (handle_all (alert_repository pq) rule obs w))))))"
proof -
  from handle_all_spaced [OF assms refl, of pq rule] obtain evs
    where "aw_sent (snd (snd (handle_all (alert_repository pq) rule obs w))) = aw_sent w @ evs"
      "spaced (ru_cooldown rule) None (firing_times evs)"
    using spaced_None by blast
  then show ?thesis by simp
qed

definition sample_world :: AlertWorld where
  "sample_world = \<lparr>aw_states = (\<lambda>_ _. None), aw_rules = [], aw_observations = [], aw_db = [],
     aw_queue = [Some ''outbox down''], aw_clock = [minute, 2 * minute, 3 * minute, 9 * minute, 20 * minute],
     aw_sent = []\<rparr>"

definition sample_rule :: Rule where
  "sample_rule = \<lparr>ru_id = 7, ru_event = EventLowBalance, ru_upstream_id = None, ru_threshold = None,
     ru_window = 5 * minute, ru_cooldown = 5 * minute, ru_max_notifications = 3, ru_enabled = True\<rparr>"

definition sample_observation :: Observation where
  "sample_observation = \<lparr>on_evidence = None, on_key = ''upstream:4'', on_active = True, on_ignore = False,
     on_hold = False, on_value = 1, on_message = ''low'', on_recovery_message = [], on_upstream_id = 4,
     on_upstream_name = ''u''\<rparr>"

theorem alert_engine_cooldown_witness:
  "spaced (5 * minute) None (firing_times (drop 0 (aw_sent (snd (snd
     (handle_all (alert_repository id) sample_rule (replicate 4 sample_observation) sample_world))))))"
  using alert_engine_cooldown [of sample_world "''upstream:4''" "replicate 4 sample_observation" sample_rule id]
  by (simp add: sample_world_def sample_rule_def sample_observation_def)

text \<open>
  Pruning. With the key slice encoded as \<open>lib/pq\<close> encodes it (a nil slice is NULL), pruning a
  rule after its evaluation keeps exactly the states of the keys it observed. The pruning of a
  disabled rule passes nil: \<open>NOT (key = ANY(NULL))\<close> is never true, so no state is deleted.
\<close>

theorem alert_prune:
  assumes "pq_array None = None" "\<And>ks. pq_array (Some ks) = Some ks" "aw_db w = []"
  shows "aw_states (snd (PruneAlertStates pq_array rid (Some ks) w)) rid k =
           (if k \<in> set ks then aw_states w rid k else None)
    \<and> aw_states (snd (prune (alert_repository pq_array) rid None w)) = aw_states w"
  using assms by (auto simp: PruneAlertStates_def prune_def db_fault_def sql_any_def)

theorem alert_prune_witness:
  "aw_states (snd (prune (alert_repository id) 7 None (sample_world\<lparr>aw_states := (\<lambda>_ _. Some fresh_incident)\<rparr>))) 7 ''k''
     = Some fresh_incident"
  using alert_prune [of id "sample_world\<lparr>aw_states := (\<lambda>_ _. Some fresh_incident)\<rparr>" 7]
  by (simp add: sample_world_def)

end
