(* ===== verification/Rate_Limiter.thy ===== *)
theory Rate_Limiter
  imports Core_Types
begin

text \<open>
  The fixed-window rate limiters: \<open>requestRateLimiter.allow\<close> of \<open>internal/gateway/limits.go\<close>, which
  drops the entries of earlier windows at most once a minute. The abstract meaning of its state is
  the history of admitted requests: \<open>rate_rep\<close> says that for every window not yet past, the entry
  of a key counts exactly the requests of that key admitted in that window.
\<close>

record requestRate =
  rr_window :: time
  rr_count :: int

record requestRateLimiter =
  rt_entries :: "int \<rightharpoonup> requestRate"
  rt_last_cleanup :: time

definition empty_rate :: requestRateLimiter where
  "empty_rate = \<lparr>rt_entries = Map.empty, rt_last_cleanup = 0\<rparr>"

definition rate_cleanup :: "requestRateLimiter \<Rightarrow> time \<Rightarrow> time \<Rightarrow> requestRateLimiter" where
  "rate_cleanup l window now =
     (if is_zero_time (rt_last_cleanup l) \<or> time_sub now (rt_last_cleanup l) \<ge> minute then
        l\<lparr>rt_entries := (\<lambda>k. case rt_entries l k of None \<Rightarrow> None
            | Some c \<Rightarrow> if rr_window c < window then None else Some c),
          rt_last_cleanup := now\<rparr>
      else l)"

definition rate_entry :: "requestRateLimiter \<Rightarrow> int \<Rightarrow> requestRate" where
  "rate_entry l key = (case rt_entries l key of None \<Rightarrow> \<lparr>rr_window = 0, rr_count = 0\<rparr> | Some e \<Rightarrow> e)"

definition rate_allow :: "requestRateLimiter \<Rightarrow> int \<Rightarrow> int \<Rightarrow> time \<Rightarrow> bool \<times> requestRateLimiter" where
  "rate_allow l key mx now =
     (let window = truncate_time now minute;
          l1 = rate_cleanup l window now;
          found = rate_entry l1 key;
          entry = (if rr_window found \<noteq> window then \<lparr>rr_window = window, rr_count = 0\<rparr> else found)
      in if rr_count entry \<ge> mx
         then (False, l1\<lparr>rt_entries := (rt_entries l1)(key \<mapsto> entry)\<rparr>)
         else (True, l1\<lparr>rt_entries := (rt_entries l1)(key \<mapsto> entry\<lparr>rr_count := rr_count entry + 1\<rparr>)\<rparr>))"

text \<open>The history: the admitted requests, each with its key and its window.\<close>

definition admitted :: "(int \<times> time) list \<Rightarrow> int \<Rightarrow> time \<Rightarrow> int" where
  "admitted hist k w = int (count_list hist (k, w))"

definition rate_rep :: "requestRateLimiter \<Rightarrow> time \<Rightarrow> (int \<times> time) list \<Rightarrow> bool" where
  "rate_rep l w0 hist \<longleftrightarrow>
     (\<forall>k. \<forall>w \<ge> w0. admitted hist k w =
        (if rr_window (rate_entry l k) = w then rr_count (rate_entry l k) else 0)) \<and>
     (\<forall>k. w0 < rr_window (rate_entry l k) \<longrightarrow> rr_count (rate_entry l k) = 0)"

lemma rate_rep_empty [inv_intros]: "rate_rep empty_rate w0 []"
  by (simp add: rate_rep_def admitted_def rate_entry_def empty_rate_def)

lemma rate_rep_mono: "rate_rep l w0 hist \<Longrightarrow> w0 \<le> w1 \<Longrightarrow> rate_rep l w1 hist"
  by (auto simp: rate_rep_def)

lemma rate_entry_cleanup:
  "rate_entry (rate_cleanup l window now) k = rate_entry l k
   \<or> rr_window (rate_entry l k) < window \<and> rate_entry (rate_cleanup l window now) k = \<lparr>rr_window = 0, rr_count = 0\<rparr>"
  by (auto simp: rate_cleanup_def rate_entry_def split: option.split)

lemma rate_rep_cleanup:
  assumes "rate_rep l w hist"
  shows "rate_rep (rate_cleanup l w now) w hist"
proof -
  let ?e = "\<lambda>k. rate_entry (rate_cleanup l w now) k"
  have "(\<forall>v \<ge> w. admitted hist k v = (if rr_window (?e k) = v then rr_count (?e k) else 0)) \<and>
      (w < rr_window (?e k) \<longrightarrow> rr_count (?e k) = 0)" for k
    using rate_entry_cleanup [of l w now k] assms unfolding rate_rep_def by (elim disjE) auto
  then show ?thesis unfolding rate_rep_def by blast
qed

lemma rate_entry_upd [simp]:
  "rate_entry (l\<lparr>rt_entries := (rt_entries l)(key \<mapsto> e)\<rparr>) k = (if k = key then e else rate_entry l k)"
  by (simp add: rate_entry_def)

text \<open>One call: the decision is the comparison with the history, and the history is kept.\<close>

lemma rate_allow_step:
  fixes now :: time
  defines "w \<equiv> truncate_time now minute"
  assumes rep: "rate_rep l w hist"
  shows "fst (rate_allow l k mx now) \<longleftrightarrow> admitted hist k w < mx" (is ?decision)
    and "rate_rep (snd (rate_allow l k mx now)) w
           (if fst (rate_allow l k mx now) then (k, w) # hist else hist)" (is ?keeps)
proof -
  let ?l1 = "rate_cleanup l w now"
  define e where "e = (if rr_window (rate_entry ?l1 k) \<noteq> w then \<lparr>rr_window = w, rr_count = 0\<rparr>
                       else rate_entry ?l1 k)"
  have rep1: "rate_rep ?l1 w hist" using rep by (rule rate_rep_cleanup)
  have e: "rr_window e = w" "rr_count e = admitted hist k w"
    using rep1 by (auto simp: e_def rate_rep_def)
  have eq: "rate_allow l k mx now =
     (if rr_count e \<ge> mx then (False, ?l1\<lparr>rt_entries := (rt_entries ?l1)(k \<mapsto> e)\<rparr>)
      else (True, ?l1\<lparr>rt_entries := (rt_entries ?l1)(k \<mapsto> e\<lparr>rr_count := rr_count e + 1\<rparr>)\<rparr>))"
    by (simp add: rate_allow_def Let_def e_def w_def)
  show ?decision using e by (simp add: eq)
  show ?keeps
    using rep1 e by (auto simp: eq rate_rep_def admitted_def)
qed

text \<open>A run of calls, oldest first, with the decisions it gives.\<close>

fun rate_run :: "requestRateLimiter \<Rightarrow> int \<Rightarrow> (int \<times> time) list \<Rightarrow> bool list" where
  "rate_run l mx [] = []"
| "rate_run l mx ((k, now) # calls) =
     (case rate_allow l k mx now of (ok, l') \<Rightarrow> ok # rate_run l' mx calls)"

text \<open>The specification: admit while fewer than \<open>mx\<close> were admitted for this key in this minute.\<close>

fun window_spec :: "(int \<times> time) list \<Rightarrow> int \<Rightarrow> (int \<times> time) list \<Rightarrow> bool list" where
  "window_spec hist mx [] = []"
| "window_spec hist mx ((k, now) # calls) =
     (let w = truncate_time now minute; ok = admitted hist k w < mx
      in ok # window_spec (if ok then (k, w) # hist else hist) mx calls)"

lemma rate_run_spec_gen:
  assumes "sorted (map snd calls)" "rate_rep l w0 hist"
    and "\<forall>c \<in> set calls. w0 \<le> truncate_time (snd c) minute"
  shows "rate_run l mx calls = window_spec hist mx calls"
  using assms
proof (induction calls arbitrary: l w0 hist)
  case Nil
  then show ?case by simp
next
  case (Cons c calls)
  obtain k now where c: "c = (k, now)" by (cases c)
  let ?w = "truncate_time now minute"
  obtain ok l' where r: "rate_allow l k mx now = (ok, l')" by (cases "rate_allow l k mx now")
  have "rate_rep l ?w hist" using Cons.prems(2,3) c by (auto intro: rate_rep_mono)
  from rate_allow_step [OF this, of k mx] r
  have ok: "ok = (admitted hist k ?w < mx)" and rep: "rate_rep l' ?w (if ok then (k, ?w) # hist else hist)"
    by auto
  have "\<forall>c \<in> set calls. ?w \<le> truncate_time (snd c) minute"
    using Cons.prems(1) c by (auto intro!: truncate_time_mono)
  with Cons.IH [OF _ rep] Cons.prems(1) c show ?case by (simp add: r ok Let_def)
qed

text \<open>The specification never admits more than \<open>mx\<close> in one window.\<close>

fun admitted_after :: "(int \<times> time) list \<Rightarrow> int \<Rightarrow> (int \<times> time) list \<Rightarrow> (int \<times> time) list" where
  "admitted_after hist mx [] = hist"
| "admitted_after hist mx ((k, now) # calls) =
     (let w = truncate_time now minute
      in admitted_after (if admitted hist k w < mx then (k, w) # hist else hist) mx calls)"

lemma admitted_after_bound:
  assumes "0 \<le> mx" "\<forall>k w. admitted hist k w \<le> mx"
  shows "admitted (admitted_after hist mx calls) k w \<le> mx"
  using assms(2)
proof (induction hist mx calls rule: admitted_after.induct)
  case (2 hist mx k' now calls)
  then show ?case by (simp add: Let_def admitted_def)
qed simp

lemma window_spec_history:
  "filter snd (zip (map (\<lambda>(k, now). (k, truncate_time now minute)) calls) (window_spec hist mx calls))
   = map (\<lambda>c. (c, True)) (rev (take (length (admitted_after hist mx calls) - length hist)
       (admitted_after hist mx calls)))"
proof -
  have "\<exists>new. admitted_after hist mx calls = new @ hist \<and>
    filter snd (zip (map (\<lambda>(k, now). (k, truncate_time now minute)) calls) (window_spec hist mx calls))
      = map (\<lambda>c. (c, True)) (rev new)"
  proof (induction hist mx calls rule: admitted_after.induct)
    case (2 hist mx k now calls)
    then show ?case by (auto simp: Let_def)
  qed simp
  then show ?thesis by auto
qed


text \<open>
  The rate limiter is exact. For calls in time order, starting from the fresh limiter, each call
  is admitted if and only if fewer than \<open>mx\<close> calls of the same key were admitted in the same
  calendar minute; the periodic clean-up of old entries never changes a decision, and no key is
  admitted more than \<open>mx\<close> times in a minute.
\<close>

theorem rate_limiter_exact:
  assumes "sorted (map snd calls)" "0 \<le> mx" "\<forall>c \<in> set calls. 0 \<le> snd c"
  shows "rate_run empty_rate mx calls = window_spec [] mx calls
    \<and> admitted (admitted_after [] mx calls) k w \<le> mx"
proof
  have "\<forall>c \<in> set calls. 0 \<le> truncate_time (snd c) minute"
    using assms(3) truncate_time_mono [of minute 0] by (auto simp: truncate_time_def)
  then show "rate_run empty_rate mx calls = window_spec [] mx calls"
    using assms(1) by (intro rate_run_spec_gen [OF _ rate_rep_empty, of calls 0]) auto
  show "admitted (admitted_after [] mx calls) k w \<le> mx"
    using assms(2) by (intro admitted_after_bound) (auto simp: admitted_def)
qed

theorem rate_limiter_exact_witness:
  "rate_run empty_rate 1 [(3, minute), (3, minute + 5), (3, 2 * minute)] = [True, False, True]"
proof -
  have "rate_run empty_rate 1 [(3, minute), (3, minute + 5), (3, 2 * minute)]
      = window_spec [] 1 [(3, minute), (3, minute + 5), (3, 2 * minute)]"
    using rate_limiter_exact [of "[(3, minute), (3, minute + 5), (3, 2 * minute)]" 1] by simp
  also have "\<dots> = [True, False, True]"
    by (simp add: truncate_time_def admitted_def)
  finally show ?thesis .
qed

end
