(* ===== verification/Caches.thy ===== *)
theory Caches
  imports Core_Types "HOL-Library.AList"
begin

text \<open>
  The read caches of the store (\<open>internal/store/cache.go\<close>) and the single-flight gate in front of
  their loads (\<open>load_gate.go\<close>). A Go map is an association list with distinct keys, so that its size
  is a length. A load reads the generation when it misses, then the database, and stores only if the
  generation is still the same; a writer commits and then invalidates. The locale
  \<open>generation_cache\<close> proves once that this protocol never serves a value from before a completed
  write; the auth, route and max-attempts caches are its instances here, the pricing cache in
  \<open>Pricing\<close>. Copies made to keep callers from sharing slices are copies of values here.
\<close>

section \<open>The caches\<close>

definition authCacheTTL :: duration where "authCacheTTL = 5 * second"
definition routeCacheTTL :: duration where "routeCacheTTL = 2 * second"
definition maxAttemptsCacheTTL :: duration where "maxAttemptsCacheTTL = 30 * second"
definition maxAuthCacheEntries :: nat where "maxAuthCacheEntries = 4096"
definition maxRouteCacheEntries :: nat where "maxRouteCacheEntries = 1024"

record authCacheEntry =
  ac_key :: APIKey
  ac_expires :: time

record routeCacheKey =
  rk_group_id :: int
  rk_protocol :: string
  rk_model :: string

record routeCacheEntry =
  rc_upstreams :: "Upstream list"
  rc_expires :: time

record maxAttemptsCacheEntry =
  mc_value :: int
  mc_expires :: time

record StoreCaches =
  sc_auth :: "(string \<times> authCacheEntry) list"
  sc_auth_gen :: nat
  sc_routes :: "(routeCacheKey \<times> routeCacheEntry) list"
  sc_route_gen :: nat
  sc_max_attempts :: maxAttemptsCacheEntry
  sc_max_attempts_gen :: nat

definition empty_caches :: StoreCaches where
  "empty_caches = \<lparr>sc_auth = [], sc_auth_gen = 0, sc_routes = [], sc_route_gen = 0,
     sc_max_attempts = \<lparr>mc_value = 0, mc_expires = 0\<rparr>, sc_max_attempts_gen = 0\<rparr>"

definition cloneAPIKey :: "APIKey \<Rightarrow> APIKey" where
  "cloneAPIKey k = k\<lparr>ak_protocols := [] @ ak_protocols k, ak_models := [] @ ak_models k\<rparr>"

definition cloneUpstreams :: "Upstream list \<Rightarrow> Upstream list" where
  "cloneUpstreams us = map (\<lambda>u. u\<lparr>us_protocols := [] @ us_protocols u, us_models := [] @ us_models u\<rparr>) us"

lemma clone_id [simp]: "cloneAPIKey k = k" "cloneUpstreams us = us"
  by (simp_all add: cloneAPIKey_def cloneUpstreams_def)

definition cachedAPIKey :: "StoreCaches \<Rightarrow> string \<Rightarrow> time \<Rightarrow> APIKey option \<times> nat" where
  "cachedAPIKey s hash now =
     (case map_of (sc_auth s) hash of
        None \<Rightarrow> (None, sc_auth_gen s)
      | Some e \<Rightarrow> if \<not> ac_expires e > now then (None, sc_auth_gen s)
                  else (Some (cloneAPIKey (ac_key e)), sc_auth_gen s))"

definition cacheAPIKey :: "StoreCaches \<Rightarrow> string \<Rightarrow> APIKey \<Rightarrow> time \<Rightarrow> nat \<Rightarrow> StoreCaches" where
  "cacheAPIKey s hash key now generation =
     (if sc_auth_gen s \<noteq> generation then s
      else let m = (if length (sc_auth s) \<ge> maxAuthCacheEntries then [] else sc_auth s)
           in s\<lparr>sc_auth := AList.update hash
                  \<lparr>ac_key = cloneAPIKey key, ac_expires = now + authCacheTTL\<rparr> m\<rparr>)"

definition cachedRoutes :: "StoreCaches \<Rightarrow> routeCacheKey \<Rightarrow> time \<Rightarrow> Upstream list option \<times> nat" where
  "cachedRoutes s key now =
     (case map_of (sc_routes s) key of
        None \<Rightarrow> (None, sc_route_gen s)
      | Some e \<Rightarrow> if \<not> rc_expires e > now then (None, sc_route_gen s)
                  else (Some (cloneUpstreams (rc_upstreams e)), sc_route_gen s))"

definition cacheRoutes :: "StoreCaches \<Rightarrow> routeCacheKey \<Rightarrow> Upstream list \<Rightarrow> time \<Rightarrow> nat \<Rightarrow> StoreCaches" where
  "cacheRoutes s key upstreams now generation =
     (if sc_route_gen s \<noteq> generation then s
      else let m = (if length (sc_routes s) \<ge> maxRouteCacheEntries then [] else sc_routes s)
           in s\<lparr>sc_routes := AList.update key
                  \<lparr>rc_upstreams = cloneUpstreams upstreams, rc_expires = now + routeCacheTTL\<rparr> m\<rparr>)"

definition cachedMaxAttempts :: "StoreCaches \<Rightarrow> time \<Rightarrow> int option \<times> nat" where
  "cachedMaxAttempts s now =
     (let e = sc_max_attempts s
      in (if mc_value e > 0 \<and> mc_expires e > now then Some (mc_value e) else None, sc_max_attempts_gen s))"

definition cacheMaxAttempts :: "StoreCaches \<Rightarrow> int \<Rightarrow> time \<Rightarrow> nat \<Rightarrow> StoreCaches" where
  "cacheMaxAttempts s v now generation =
     (if sc_max_attempts_gen s \<noteq> generation then s
      else s\<lparr>sc_max_attempts := \<lparr>mc_value = v, mc_expires = now + maxAttemptsCacheTTL\<rparr>\<rparr>)"

definition invalidateAuthCache :: "StoreCaches \<Rightarrow> StoreCaches" where
  "invalidateAuthCache s = s\<lparr>sc_auth := [], sc_auth_gen := sc_auth_gen s + 1\<rparr>"

definition invalidateRouteCache :: "StoreCaches \<Rightarrow> StoreCaches" where
  "invalidateRouteCache s = s\<lparr>sc_routes := [], sc_route_gen := sc_route_gen s + 1\<rparr>"

definition invalidateMaxAttemptsCache :: "StoreCaches \<Rightarrow> StoreCaches" where
  "invalidateMaxAttemptsCache s =
     s\<lparr>sc_max_attempts := \<lparr>mc_value = 0, mc_expires = 0\<rparr>, sc_max_attempts_gen := sc_max_attempts_gen s + 1\<rparr>"

section \<open>Loads against writes\<close>

text \<open>
  The operations of one cache, and the system they run in: loads in flight (key, the generation they
  read on their miss, the value they have read from the database so far) and the number of writes
  committed but not yet followed by their invalidation.
\<close>

record ('s, 'k, 'v) CacheOps =
  co_lookup :: "'s \<Rightarrow> 'k \<Rightarrow> time \<Rightarrow> 'v option \<times> nat"
  co_store :: "'s \<Rightarrow> 'k \<Rightarrow> 'v \<Rightarrow> time \<Rightarrow> nat \<Rightarrow> 's"
  co_invalidate :: "'s \<Rightarrow> 's"

record ('s, 'k, 'v, 'd) CacheSystem =
  cs_cache :: 's
  cs_db :: 'd
  cs_loads :: "('k \<times> nat \<times> 'v option) list"
  cs_pending :: nat

datatype ('k, 'v, 'd) CacheEvent =
    LoadBegin 'k time | LoadRead nat 'v | LoadFinish nat time | DbWrite 'd | Invalidate

text \<open>
  A load begins with the generation its lookup returned (its caller may have missed, or be unable to
  use what was cached). A read at load \<open>i\<close> happens with a value the database can return: \<open>good db k v\<close>.
\<close>

fun cache_event ::
  "('s, 'k, 'v) CacheOps \<Rightarrow> ('d \<Rightarrow> 'k \<Rightarrow> 'v \<Rightarrow> bool) \<Rightarrow> ('k, 'v, 'd) CacheEvent
     \<Rightarrow> ('s, 'k, 'v, 'd) CacheSystem \<Rightarrow> ('s, 'k, 'v, 'd) CacheSystem" where
  "cache_event C good (LoadBegin k now) s =
     s\<lparr>cs_loads := cs_loads s @ [(k, snd (co_lookup C (cs_cache s) k now), None)]\<rparr>"
| "cache_event C good (LoadRead i v) s =
     (if i < length (cs_loads s) \<and> good (cs_db s) (fst (cs_loads s ! i)) v
      then s\<lparr>cs_loads := (cs_loads s)[i := (fst (cs_loads s ! i), fst (snd (cs_loads s ! i)), Some v)]\<rparr>
      else s)"
| "cache_event C good (LoadFinish i now) s =
     (if i < length (cs_loads s) then
        (case cs_loads s ! i of
           (k, g, Some v) \<Rightarrow> s\<lparr>cs_cache := co_store C (cs_cache s) k v now g,
                               cs_loads := take i (cs_loads s) @ drop (Suc i) (cs_loads s)\<rparr>
         | (k, g, None) \<Rightarrow> s)
      else s)"
| "cache_event C good (DbWrite d) s = s\<lparr>cs_db := d, cs_pending := cs_pending s + 1\<rparr>"
| "cache_event C good Invalidate s =
     s\<lparr>cs_cache := co_invalidate C (cs_cache s), cs_pending := cs_pending s - 1\<rparr>"

definition cache_start :: "'s \<Rightarrow> 'd \<Rightarrow> ('s, 'k, 'v, 'd) CacheSystem" where
  "cache_start c d = \<lparr>cs_cache = c, cs_db = d, cs_loads = [], cs_pending = 0\<rparr>"

definition cache_run ::
  "('s, 'k, 'v) CacheOps \<Rightarrow> ('d \<Rightarrow> 'k \<Rightarrow> 'v \<Rightarrow> bool) \<Rightarrow> ('k, 'v, 'd) CacheEvent list
     \<Rightarrow> ('s, 'k, 'v, 'd) CacheSystem \<Rightarrow> ('s, 'k, 'v, 'd) CacheSystem" where
  "cache_run C good evs s = fold (cache_event C good) evs s"

locale generation_cache =
  fixes C :: "('s, 'k, 'v) CacheOps"
    and gen :: "'s \<Rightarrow> nat" and entry :: "'s \<Rightarrow> 'k \<Rightarrow> 'v option"
  assumes lookup_gen: "co_lookup C s k now = (r, g) \<Longrightarrow> g = gen s"
    and lookup_entry: "co_lookup C s k now = (Some v, g) \<Longrightarrow> entry s k = Some v"
    and store_gen: "gen (co_store C s k v now g) = gen s"
    and store_entry: "entry (co_store C s k v now g) k' = Some v' \<Longrightarrow>
      g = gen s \<and> k' = k \<and> v' = v \<or> entry s k' = Some v'"
    and invalidate_gen: "gen s < gen (co_invalidate C s)"
    and invalidate_entry: "entry (co_invalidate C s) k = None"
begin

text \<open>
  With no write waiting for its invalidation, everything cached is a current value of the database,
  and so is everything a load in flight would still be allowed to cache.
\<close>

definition load_ok :: "('d \<Rightarrow> 'k \<Rightarrow> 'v \<Rightarrow> bool) \<Rightarrow> 's \<Rightarrow> 'd \<Rightarrow> nat \<Rightarrow> 'k \<times> nat \<times> 'v option \<Rightarrow> bool" where
  "load_ok good c d pending l \<longleftrightarrow> (case l of (k, g, r) \<Rightarrow>
     g \<le> gen c \<and> (pending = 0 \<and> g = gen c \<longrightarrow> (\<forall>v. r = Some v \<longrightarrow> good d k v)))"

definition coherent :: "('d \<Rightarrow> 'k \<Rightarrow> 'v \<Rightarrow> bool) \<Rightarrow> ('s, 'k, 'v, 'd) CacheSystem \<Rightarrow> bool" where
  "coherent good s \<longleftrightarrow>
     (\<forall>l \<in> set (cs_loads s). load_ok good (cs_cache s) (cs_db s) (cs_pending s) l) \<and>
     (cs_pending s = 0 \<longrightarrow> (\<forall>k v. entry (cs_cache s) k = Some v \<longrightarrow> good (cs_db s) k v))"

lemma coherent_event:
  assumes c: "coherent good s"
  shows "coherent good (cache_event C good ev s)"
proof (cases ev)
  case (LoadBegin k now)
  obtain r g where l: "co_lookup C (cs_cache s) k now = (r, g)" by fastforce
  have "g = gen (cs_cache s)" using lookup_gen [OF l] .
  with c LoadBegin l show ?thesis by (cases r) (auto simp: coherent_def load_ok_def)
next
  case (LoadRead i v)
  show ?thesis
  proof (cases "i < length (cs_loads s) \<and> good (cs_db s) (fst (cs_loads s ! i)) v")
    case True
    obtain k g r where l: "cs_loads s ! i = (k, g, r)" by (cases "cs_loads s ! i")
    have "load_ok good (cs_cache s) (cs_db s) (cs_pending s) (k, g, r)"
      using c True l nth_mem [of i "cs_loads s"] by (simp add: coherent_def)
    then have "load_ok good (cs_cache s) (cs_db s) (cs_pending s) (k, g, Some v)"
      using True l by (auto simp: load_ok_def)
    with c have "\<forall>l \<in> set ((cs_loads s)[i := (k, g, Some v)]).
        load_ok good (cs_cache s) (cs_db s) (cs_pending s) l"
      using set_update_subset_insert [of "cs_loads s" i "(k, g, Some v)"] unfolding coherent_def by blast
    then show ?thesis using c True l unfolding LoadRead coherent_def by simp
  next
    case False
    then show ?thesis using c LoadRead by auto
  qed
next
  case (LoadFinish i now)
  show ?thesis
  proof (cases "i < length (cs_loads s) \<and> snd (snd (cs_loads s ! i)) \<noteq> None")
    case True
    then obtain k g v where l: "cs_loads s ! i = (k, g, Some v)" by (cases "cs_loads s ! i") auto
    let ?rest = "take i (cs_loads s) @ drop (Suc i) (cs_loads s)"
    let ?c = "co_store C (cs_cache s) k v now g"
    have "load_ok good (cs_cache s) (cs_db s) (cs_pending s) (k, g, Some v)"
      using c True l nth_mem [of i "cs_loads s"] by (simp add: coherent_def)
    then have fresh: "good (cs_db s) k' v'" if "cs_pending s = 0" "entry ?c k' = Some v'" for k' v'
      using store_entry [OF that(2)] c that(1) by (auto simp: coherent_def load_ok_def)
    have "set ?rest \<subseteq> set (cs_loads s)" using set_take_subset set_drop_subset by fastforce
    then have "\<forall>l \<in> set ?rest. load_ok good ?c (cs_db s) (cs_pending s) l"
      using c unfolding coherent_def load_ok_def store_gen by blast
    then show ?thesis using c True l fresh unfolding LoadFinish coherent_def by simp
  next
    case False
    then have "cache_event C good (LoadFinish i now) s = s" by (auto split: prod.splits)
    then show ?thesis using c LoadFinish by simp
  qed
next
  case (DbWrite d)
  with c show ?thesis by (auto simp: coherent_def load_ok_def)
next
  case Invalidate
  with c invalidate_gen [of "cs_cache s"] show ?thesis
    by (fastforce simp: coherent_def load_ok_def invalidate_entry)
qed

lemma coherent_run:
  assumes "\<And>k. entry c k = None"
  shows "coherent good (cache_run C good evs (cache_start c d))"
proof -
  have "coherent good (cache_start c d)"
    using assms by (simp add: coherent_def cache_start_def)
  then show ?thesis
    unfolding cache_run_def
    by (induction evs rule: rev_induct) (simp_all add: coherent_event)
qed

lemma lookup_current:
  assumes "\<And>k. entry c k = None" "s = cache_run C good evs (cache_start c d)" "cs_pending s = 0"
    "co_lookup C (cs_cache s) k now = (Some v, g)"
  shows "good (cs_db s) k v"
  using coherent_run [OF assms(1), of good evs d] assms(2,3) lookup_entry [OF assms(4)]
  by (simp add: coherent_def)

end

section \<open>The store's caches as instances\<close>

definition auth_ops :: "(StoreCaches, string, APIKey) CacheOps" where
  "auth_ops = \<lparr>co_lookup = cachedAPIKey, co_store = cacheAPIKey, co_invalidate = invalidateAuthCache\<rparr>"

definition route_ops :: "(StoreCaches, routeCacheKey, Upstream list) CacheOps" where
  "route_ops = \<lparr>co_lookup = cachedRoutes, co_store = cacheRoutes, co_invalidate = invalidateRouteCache\<rparr>"

definition max_attempts_ops :: "(StoreCaches, unit, int) CacheOps" where
  "max_attempts_ops = \<lparr>co_lookup = (\<lambda>s _ now. cachedMaxAttempts s now),
     co_store = (\<lambda>s _ v now g. cacheMaxAttempts s v now g), co_invalidate = invalidateMaxAttemptsCache\<rparr>"

lemmas cache_ops_defs = auth_ops_def route_ops_def max_attempts_ops_def

definition auth_entry :: "StoreCaches \<Rightarrow> string \<Rightarrow> APIKey option" where
  "auth_entry s hash = map_option ac_key (map_of (sc_auth s) hash)"

definition route_entry :: "StoreCaches \<Rightarrow> routeCacheKey \<Rightarrow> Upstream list option" where
  "route_entry s key = map_option rc_upstreams (map_of (sc_routes s) key)"

definition max_attempts_entry :: "StoreCaches \<Rightarrow> unit \<Rightarrow> int option" where
  "max_attempts_entry s u = (if mc_value (sc_max_attempts s) > 0 then Some (mc_value (sc_max_attempts s)) else None)"

lemma auth_entry_cache: "auth_entry (cacheAPIKey s k v now g) k' = Some v' \<Longrightarrow>
    g = sc_auth_gen s \<and> k' = k \<and> v' = v \<or> auth_entry s k' = Some v'"
  by (auto simp: auth_entry_def cacheAPIKey_def Let_def update_conv' split: if_splits)

lemma route_entry_cache: "route_entry (cacheRoutes s k v now g) k' = Some v' \<Longrightarrow>
    g = sc_route_gen s \<and> k' = k \<and> v' = v \<or> route_entry s k' = Some v'"
  by (auto simp: route_entry_def cacheRoutes_def Let_def update_conv' split: if_splits)

interpretation auth: generation_cache auth_ops sc_auth_gen auth_entry
proof
  fix s :: StoreCaches and k now v g
  assume "co_lookup auth_ops s k now = (Some v, g)"
  then show "auth_entry s k = Some v"
    by (auto simp: auth_ops_def cachedAPIKey_def auth_entry_def split: option.splits if_splits)
next
  fix s :: StoreCaches and k v now g k' v'
  assume "auth_entry (co_store auth_ops s k v now g) k' = Some v'"
  then show "g = sc_auth_gen s \<and> k' = k \<and> v' = v \<or> auth_entry s k' = Some v'"
    by (simp add: auth_ops_def) (rule auth_entry_cache)
qed (auto simp: auth_ops_def cachedAPIKey_def cacheAPIKey_def invalidateAuthCache_def auth_entry_def Let_def
    split: option.splits if_splits)

interpretation routes: generation_cache route_ops sc_route_gen route_entry
proof
  fix s :: StoreCaches and k now v g
  assume "co_lookup route_ops s k now = (Some v, g)"
  then show "route_entry s k = Some v"
    by (auto simp: route_ops_def cachedRoutes_def route_entry_def split: option.splits if_splits)
next
  fix s :: StoreCaches and k v now g k' v'
  assume "route_entry (co_store route_ops s k v now g) k' = Some v'"
  then show "g = sc_route_gen s \<and> k' = k \<and> v' = v \<or> route_entry s k' = Some v'"
    by (simp add: route_ops_def) (rule route_entry_cache)
qed (auto simp: route_ops_def cachedRoutes_def cacheRoutes_def invalidateRouteCache_def route_entry_def Let_def
    split: option.splits if_splits)

interpretation attempts: generation_cache max_attempts_ops sc_max_attempts_gen max_attempts_entry
  by unfold_locales
    (auto simp: max_attempts_ops_def cachedMaxAttempts_def cacheMaxAttempts_def invalidateMaxAttemptsCache_def
      max_attempts_entry_def Let_def split: if_splits)

lemma empty_entries [simp]:
  "auth_entry empty_caches k = None" "route_entry empty_caches r = None" "max_attempts_entry empty_caches u = None"
  by (simp_all add: auth_entry_def route_entry_def max_attempts_entry_def empty_caches_def)

section \<open>Sizes\<close>

lemma length_alist_update: "length (AList.update k v m) \<le> length m + 1"
  by (induction m) auto

lemma cacheAPIKey_size: "length (sc_auth s) \<le> maxAuthCacheEntries \<Longrightarrow>
    length (sc_auth (cacheAPIKey s k v now g)) \<le> maxAuthCacheEntries"
  using length_alist_update [of k "\<lparr>ac_key = v, ac_expires = now + authCacheTTL\<rparr>" "sc_auth s"]
  by (auto simp: cacheAPIKey_def maxAuthCacheEntries_def Let_def)

lemma cacheRoutes_size: "length (sc_routes s) \<le> maxRouteCacheEntries \<Longrightarrow>
    length (sc_routes (cacheRoutes s k v now g)) \<le> maxRouteCacheEntries"
  using length_alist_update [of k "\<lparr>rc_upstreams = v, rc_expires = now + routeCacheTTL\<rparr>" "sc_routes s"]
  by (auto simp: cacheRoutes_def maxRouteCacheEntries_def Let_def)

lemma cache_run_invariant:
  assumes "P (cs_cache s)" "\<And>c k v now g. P c \<Longrightarrow> P (co_store C c k v now g)" "\<And>c. P c \<Longrightarrow> P (co_invalidate C c)"
  shows "P (cs_cache (cache_run C good evs s))"
  using assms(1) unfolding cache_run_def
proof (induction evs rule: rev_induct)
  case (snoc ev evs)
  let ?s = "fold (cache_event C good) evs s"
  have "P (cs_cache ?s)" using snoc by simp
  then have "P (cs_cache (cache_event C good ev ?s))"
  proof (cases ev)
    case (LoadBegin k now)
    obtain r g where "co_lookup C (cs_cache ?s) k now = (r, g)" by fastforce
    with LoadBegin \<open>P (cs_cache ?s)\<close> show ?thesis by (cases r) simp_all
  qed (auto simp: assms(2,3) split: prod.splits option.splits)
  then show ?case by simp
qed simp

section \<open>The load gate\<close>

text \<open>
  \<open>acquire\<close> is a loop of attempts; an attempt that finds the key busy waits for the holder (or the
  context) and tries again. \<open>lg_active\<close> lists the keys being loaded.
\<close>

datatype GateResult = GateCanceled | GateBusy | GateLoads

definition gate_attempt :: "bool \<Rightarrow> 'k \<Rightarrow> 'k list \<Rightarrow> GateResult \<times> 'k list" where
  "gate_attempt canceled key active =
     (if canceled then (GateCanceled, active)
      else if key \<in> set active then (GateBusy, active)
      else (GateLoads, key # active))"

definition gate_done :: "'k \<Rightarrow> 'k list \<Rightarrow> 'k list" where
  "gate_done key active = removeAll key active"

datatype 'k GateEvent = GateTry nat bool 'k | GateRelease nat 'k

text \<open>Callers by number; \<open>snd\<close> lists who holds which key.\<close>

fun gate_event :: "'k GateEvent \<Rightarrow> 'k list \<times> (nat \<times> 'k) list \<Rightarrow> 'k list \<times> (nat \<times> 'k) list" where
  "gate_event (GateTry p canceled key) (active, holders) =
     (case gate_attempt canceled key active of
        (GateLoads, active') \<Rightarrow> (active', (p, key) # holders)
      | (_, active') \<Rightarrow> (active', holders))"
| "gate_event (GateRelease p key) (active, holders) =
     (if (p, key) \<in> set holders then (gate_done key active, removeAll (p, key) holders) else (active, holders))"

definition gate_ok :: "'k list \<times> (nat \<times> 'k) list \<Rightarrow> bool" where
  "gate_ok s \<longleftrightarrow> distinct (fst s) \<and> distinct (snd s) \<and> distinct (map snd (snd s)) \<and> set (map snd (snd s)) = set (fst s)"

lemma gate_ok_event: "gate_ok s \<Longrightarrow> gate_ok (gate_event ev s)"
proof (cases s)
  case (Pair active holders)
  assume ok: "gate_ok s"
  show ?thesis
  proof (cases ev)
    case (GateTry p canceled key)
    have "(p, key) \<notin> set holders" if "key \<notin> set active"
      using ok Pair that imageI [of "(p, key)" "set holders" snd] by (auto simp: gate_ok_def)
    with GateTry ok Pair show ?thesis
      by (cases "canceled \<or> key \<in> set active") (auto simp: gate_ok_def gate_attempt_def)
  next
    case (GateRelease p key)
    show ?thesis
    proof (cases "(p, key) \<in> set holders")
      case True
      have inj: "inj_on snd (set holders)" using ok Pair by (simp add: gate_ok_def distinct_map)
      have "snd ` (set holders - {(p, key)}) = snd ` set holders - {key}"
        using inj_on_image_set_diff [OF inj, of "set holders" "{(p, key)}"] True by simp
      moreover have "distinct (map snd (removeAll (p, key) holders))"
        using ok Pair by (simp add: gate_ok_def removeAll_filter_not_eq distinct_map_filter)
      ultimately show ?thesis
        using ok Pair GateRelease True by (auto simp: gate_ok_def gate_done_def distinct_removeAll)
    qed (use ok Pair GateRelease in simp)
  qed
qed

section \<open>Properties\<close>

text \<open>
  C18: no stale routes. Whatever loads, commits and invalidations are interleaved, once every
  committed write has been followed by its invalidation a route cache hit is an answer that the
  database can give now: a load that started before the write can no longer leave its result behind.
\<close>

theorem route_cache_coherent:
  assumes "s = cache_run route_ops good evs (cache_start empty_caches d)" "cs_pending s = 0"
    "cachedRoutes (cs_cache s) k now = (Some us, g)"
  shows "good (cs_db s) k us"
proof -
  have "co_lookup route_ops (cs_cache s) k now = (Some us, g)" by (simp add: route_ops_def assms(3))
  from routes.lookup_current [OF empty_entries(2) assms(1,2) this] show ?thesis .
qed

definition sample_route :: routeCacheKey where
  "sample_route = \<lparr>rk_group_id = 1, rk_protocol = ''chat'', rk_model = ''m''\<rparr>"

text \<open>A load overtaken by a write is not cached; the next one is.\<close>

definition sample_race :: "(routeCacheKey, Upstream list, int) CacheEvent list" where
  "sample_race = [LoadBegin sample_route 1, LoadRead 0 [sample_upstream], DbWrite 2, Invalidate, LoadFinish 0 2,
     LoadBegin sample_route 3, LoadRead 0 [], LoadFinish 0 4]"

definition sample_good :: "int \<Rightarrow> routeCacheKey \<Rightarrow> Upstream list \<Rightarrow> bool" where
  "sample_good d k us = (us = (if d = 1 then [sample_upstream] else []))"

theorem route_cache_coherent_witness:
  "fst (cachedRoutes (cs_cache (cache_run route_ops sample_good sample_race (cache_start empty_caches 1))) sample_route 5)
     = Some [] \<and> sample_good 2 sample_route []"
proof -
  let ?s = "cache_run route_ops sample_good sample_race (cache_start empty_caches 1)"
  have s: "?s = \<lparr>cs_cache = empty_caches\<lparr>sc_routes := [(sample_route, \<lparr>rc_upstreams = [], rc_expires = 4 + routeCacheTTL\<rparr>)],
      sc_route_gen := 1\<rparr>, cs_db = 2, cs_loads = [], cs_pending = 0\<rparr>"
    by (simp add: cache_run_def sample_race_def cache_start_def route_ops_def cachedRoutes_def cacheRoutes_def
        invalidateRouteCache_def empty_caches_def sample_good_def maxRouteCacheEntries_def)
  have hit: "cachedRoutes (cs_cache ?s) sample_route 5 = (Some [], 1)"
    unfolding s by (simp add: cachedRoutes_def routeCacheTTL_def)
  have "cs_pending ?s = 0" by (simp add: s)
  from route_cache_coherent [OF refl this hit] show ?thesis using hit s by simp
qed

text \<open>
  Revocation. In the same way the authentication cache: after a key is changed or deleted and the
  cache invalidated, no hit returns what the key was before.
\<close>

theorem auth_cache_coherent:
  assumes "s = cache_run auth_ops good evs (cache_start empty_caches d)" "cs_pending s = 0"
    "cachedAPIKey (cs_cache s) hash now = (Some key, g)"
  shows "good (cs_db s) hash key"
proof -
  have "co_lookup auth_ops (cs_cache s) hash now = (Some key, g)" by (simp add: auth_ops_def assms(3))
  from auth.lookup_current [OF empty_entries(1) assms(1,2) this] show ?thesis .
qed

definition sample_key :: APIKey where
  "sample_key = \<lparr>ak_id = 3, ak_name = ''k'', ak_group_id = 1, ak_group_name = ''g'', ak_group_enabled = True,
     ak_prefix = ''da-'', ak_enabled = True, ak_protocols = [], ak_models = [], ak_last_used = None,
     ak_created_at = 0\<rparr>"

theorem auth_cache_coherent_witness:
  "snd (cachedAPIKey (cs_cache (cache_run auth_ops (\<lambda>d h k. ak_id k = d)
     [LoadBegin ''h'' 1, LoadRead 0 sample_key, LoadFinish 0 2] (cache_start empty_caches 3))) ''h'' 5) = 0
   \<and> ak_id sample_key = 3"
proof -
  let ?s = "cache_run auth_ops (\<lambda>d h k. ak_id k = d)
     [LoadBegin ''h'' 1, LoadRead 0 sample_key, LoadFinish 0 2] (cache_start empty_caches (3::int))"
  have s: "?s = \<lparr>cs_cache = empty_caches\<lparr>sc_auth := [(''h'', \<lparr>ac_key = sample_key, ac_expires = 2 + authCacheTTL\<rparr>)]\<rparr>,
      cs_db = 3, cs_loads = [], cs_pending = 0\<rparr>"
    by (simp add: cache_run_def cache_start_def auth_ops_def cachedAPIKey_def cacheAPIKey_def
        empty_caches_def sample_key_def maxAuthCacheEntries_def)
  have hit: "cachedAPIKey (cs_cache ?s) ''h'' 5 = (Some sample_key, 0)"
    unfolding s by (simp add: cachedAPIKey_def authCacheTTL_def empty_caches_def)
  have "cs_pending ?s = 0" by (simp add: s)
  from auth_cache_coherent [OF refl this hit] show ?thesis using hit s by simp
qed

text \<open>Bounded caches. No sequence of loads makes the route cache exceed its 1,024 entries.\<close>

theorem route_cache_bounded:
  "length (sc_routes (cs_cache (cache_run route_ops good evs (cache_start empty_caches d)))) \<le> maxRouteCacheEntries"
  by (rule cache_run_invariant [where P = "\<lambda>c. length (sc_routes c) \<le> maxRouteCacheEntries"])
    (simp_all add: route_ops_def cacheRoutes_size invalidateRouteCache_def cache_start_def empty_caches_def)

text \<open>
  Single flight. Whatever callers try, give up and finish, at most one of them is loading a key,
  and a key is busy exactly while someone loads it, so an abandoned wait strands nobody.
\<close>

theorem load_gate_single_flight:
  "gate_ok (fold gate_event evs ([], []))"
  by (induction evs rule: rev_induct) (simp_all add: gate_ok_event, simp add: gate_ok_def)

end
