(* ===== verification/Pricing.thy ===== *)
theory Pricing
  imports Caches
begin

text \<open>
  Request costs (\<open>internal/store/pricing.go\<close>): the price rows of a profile with their validity
  intervals, the two loaders (the whole history, or for a long history the window around one instant),
  the cache in front of them, the cost formula, the saving of a profile and the decoding of the
  LiteLLM list. The reference is \<open>rate_at\<close>: the first row, exact model before alias and newest first,
  that is valid tm the instant. Prices are exact rationals where Go has \<open>float64\<close>; the columns are
  \<open>NUMERIC\<close>.
\<close>

section \<open>Data\<close>

record PricingModelPrice =
  pm_id :: int
  pm_model :: string
  pm_input :: rat
  pm_output :: rat
  pm_cache_read :: rat
  pm_cache_write :: rat
  pm_valid_from :: time
  pm_valid_to :: "time option"
  pm_source :: string

record PricingProfile =
  pp_id :: int
  pp_name :: string
  pp_provider :: string
  pp_source_url :: string
  pp_source_version :: string
  pp_last_refreshed_at :: "time option"
  pp_prices :: "PricingModelPrice list"

record pricingCacheKey =
  pk_upstream_id :: int
  pk_model :: string

record pricingCacheEntry =
  pe_input :: rat
  pe_output :: rat
  pe_cache_read :: rat
  pe_cache_write :: rat
  pe_found :: bool
  pe_expires :: time
  pe_prices :: "PricingModelPrice list"
  pe_partial :: bool
  pe_from :: "time option"
  pe_to :: "time option"

definition empty_entry :: pricingCacheEntry where
  "empty_entry = \<lparr>pe_input = 0, pe_output = 0, pe_cache_read = 0, pe_cache_write = 0, pe_found = False,
     pe_expires = 0, pe_prices = [], pe_partial = False, pe_from = None, pe_to = None\<rparr>"

definition covers :: "pricingCacheEntry \<Rightarrow> time \<Rightarrow> bool" where
  "covers e tm \<longleftrightarrow> \<not> pe_partial e
     \<or> (case pe_from e of None \<Rightarrow> True | Some t \<Rightarrow> \<not> tm < t) \<and> (case pe_to e of None \<Rightarrow> True | Some t \<Rightarrow> tm < t)"

text \<open>The tables: price rows with their profile, the profiles, and the upstreams (profile and aliases).\<close>

record PricingDB =
  pd_prices :: "(int \<times> PricingModelPrice) list"
  pd_profiles :: "PricingProfile list"
  pd_upstreams :: "int \<Rightarrow> Upstream option"

section \<open>Loading\<close>

definition valid_at :: "PricingModelPrice \<Rightarrow> time \<Rightarrow> bool" where
  "valid_at p tm \<longleftrightarrow> \<not> tm < pm_valid_from p \<and> (case pm_valid_to p of None \<Rightarrow> True | Some t \<Rightarrow> tm < t)"

text \<open>
  The rows both queries start from, in the order of both: \<open>ORDER BY CASE WHEN model=$2 THEN 0 ELSE 1
  END, valid_from DESC\<close>. An alias of SQL type text may be absent, then the model stands for it.
\<close>

definition candidates :: "PricingDB \<Rightarrow> pricingCacheKey \<Rightarrow> PricingModelPrice list" where
  "candidates db k =
     (case pd_upstreams db (pk_upstream_id k) of
        None \<Rightarrow> []
      | Some u \<Rightarrow>
          (case us_pricing_profile_id u of
             None \<Rightarrow> []
           | Some pid \<Rightarrow>
               map snd (filter (\<lambda>(profile, p). profile = pid \<and>
                 (pm_model p = pk_model k \<or>
                  pm_model p = (case map_of (us_model_aliases u) (pk_model k) of None \<Rightarrow> pk_model k | Some a \<Rightarrow> a)))
                 (pd_prices db))))"

definition price_order :: "string \<Rightarrow> PricingModelPrice list \<Rightarrow> PricingModelPrice list" where
  "price_order model ps =
     sort_key (\<lambda>p. if pm_model p = model then 0 else 1 :: nat) (sort_key (\<lambda>p. - pm_valid_from p) ps)"

definition boundaries :: "PricingModelPrice list \<Rightarrow> time list" where
  "boundaries ps = concat (map (\<lambda>p. pm_valid_from p # (case pm_valid_to p of None \<Rightarrow> [] | Some t \<Rightarrow> [t])) ps)"

definition max_of :: "time list \<Rightarrow> time option" where
  "max_of ts = (if ts = [] then None else Some (Max (set ts)))"

definition min_of :: "time list \<Rightarrow> time option" where
  "min_of ts = (if ts = [] then None else Some (Min (set ts)))"

definition loadPricingWindow :: "PricingDB \<Rightarrow> pricingCacheKey \<Rightarrow> time \<Rightarrow> pricingCacheEntry" where
  "loadPricingWindow db k tm =
     (let cs = candidates db k;
          entry = empty_entry\<lparr>pe_partial := True,
            pe_from := max_of (filter (\<lambda>t. t \<le> tm) (boundaries cs)),
            pe_to := min_of (filter (\<lambda>t. t > tm) (boundaries cs))\<rparr>
      in case find (\<lambda>p. valid_at p tm) (price_order (pk_model k) cs) of
           None \<Rightarrow> entry
         | Some p \<Rightarrow>
             let price = \<lparr>pm_id = 0, pm_model = [], pm_input = pm_input p, pm_output = pm_output p,
                   pm_cache_read = pm_cache_read p, pm_cache_write = pm_cache_write p,
                   pm_valid_from = (case pe_from entry of None \<Rightarrow> 0 | Some t \<Rightarrow> t),
                   pm_valid_to = pe_to entry, pm_source = []\<rparr>
             in entry\<lparr>pe_prices := [price]\<rparr>)"

definition loadPricingHistory :: "PricingDB \<Rightarrow> pricingCacheKey \<Rightarrow> time \<Rightarrow> pricingCacheEntry" where
  "loadPricingHistory db k tm =
     (let rows = take 257 (price_order (pk_model k) (candidates db k))
      in if length rows > 256 then loadPricingWindow db k tm
         else empty_entry\<lparr>pe_prices := rows\<rparr>)"

definition rate_of :: "PricingModelPrice option \<Rightarrow> pricingCacheEntry" where
  "rate_of r = (case r of None \<Rightarrow> empty_entry
     | Some p \<Rightarrow> empty_entry\<lparr>pe_found := True, pe_input := pm_input p, pe_output := pm_output p,
         pe_cache_read := pm_cache_read p, pe_cache_write := pm_cache_write p\<rparr>)"

definition selectPricingRate :: "pricingCacheEntry \<Rightarrow> time \<Rightarrow> pricingCacheEntry" where
  "selectPricingRate e tm = rate_of (find (\<lambda>p. valid_at p tm) (pe_prices e))"

section \<open>The cache\<close>

record PricingCache =
  pc_entries :: "(pricingCacheKey \<times> pricingCacheEntry) list"
  pc_gen :: nat

definition pricing_cached :: "PricingCache \<Rightarrow> pricingCacheKey \<Rightarrow> time \<Rightarrow> pricingCacheEntry option \<times> nat" where
  "pricing_cached s k now =
     (case map_of (pc_entries s) k of
        None \<Rightarrow> (None, pc_gen s)
      | Some e \<Rightarrow> (if pe_expires e > now then Some e else None, pc_gen s))"

definition pricing_store ::
  "PricingCache \<Rightarrow> pricingCacheKey \<Rightarrow> pricingCacheEntry \<Rightarrow> time \<Rightarrow> nat \<Rightarrow> PricingCache" where
  "pricing_store s k e now generation =
     (if generation \<noteq> pc_gen s then s
      else let m = pc_entries s;
               m = (if length m \<ge> 1024 then
                      (let live = filter (\<lambda>(k, _). case map_of m k of None \<Rightarrow> False | Some v \<Rightarrow> pe_expires v > now) m
                       in if length live \<ge> 1024 then [] else live)
                    else m)
           in s\<lparr>pc_entries := AList.update k e m\<rparr>)"

definition invalidatePricingCache :: "PricingCache \<Rightarrow> PricingCache" where
  "invalidatePricingCache s = s\<lparr>pc_entries := [], pc_gen := pc_gen s + 1\<rparr>"

definition round_us :: "time \<Rightarrow> time" where
  "round_us t = (let r = t mod 1000 in if r + r < 1000 then t - r else t + (1000 - r))"

text \<open>
  \<open>pricingRate\<close> by one caller: the lookup, and on a miss the load and the store. The second lookup
  behind the gate and other callers' steps in between are the interleavings of \<open>Caches\<close>.
\<close>

definition load_entry :: "PricingDB \<Rightarrow> pricingCacheKey \<Rightarrow> PricingCache \<Rightarrow> time \<Rightarrow> pricingCacheEntry" where
  "load_entry db k s tm =
     (if (case map_of (pc_entries s) k of None \<Rightarrow> False | Some e \<Rightarrow> pe_partial e)
      then loadPricingWindow db k tm else loadPricingHistory db k tm)"

definition pricingRate ::
  "PricingDB \<Rightarrow> int \<Rightarrow> string \<Rightarrow> time \<Rightarrow> time \<Rightarrow> PricingCache \<Rightarrow> pricingCacheEntry \<times> PricingCache" where
  "pricingRate db upstream_id model tm now s =
     (let tm = round_us tm;
          k = \<lparr>pk_upstream_id = upstream_id, pk_model = trim_space model\<rparr>
      in case pricing_cached s k now of
           (Some e, g) \<Rightarrow>
             if covers e tm then (selectPricingRate e tm, s)
             else (let e' = (load_entry db k s tm)\<lparr>pe_expires := now + 30 * second\<rparr>
                   in (selectPricingRate e' tm, pricing_store s k e' now g))
         | (None, g) \<Rightarrow>
             (let e' = (load_entry db k s tm)\<lparr>pe_expires := now + 30 * second\<rparr>
              in (selectPricingRate e' tm, pricing_store s k e' now g)))"

section \<open>The cost of a request\<close>

definition calculateRequestCost :: "PricingModelPrice \<Rightarrow> Usage \<Rightarrow> rat" where
  "calculateRequestCost price u =
     (let uncached = (if ut_uncached u = None \<and> ut_input u \<noteq> None then
            (let v = the (ut_input u);
                 v = (case ut_cached u of None \<Rightarrow> v | Some c \<Rightarrow> wrap64 (v - c))
             in Some (if v < 0 then 0 else v))
          else ut_uncached u);
          uncached = (case ut_billable u of None \<Rightarrow> uncached | Some b \<Rightarrow> Some (max b 0));
          term = (\<lambda>(tokens :: int option) (usd :: rat). case tokens of None \<Rightarrow> 0 | Some n \<Rightarrow> of_int n * usd)
      in (term uncached (pm_input price) + term (ut_cached u) (pm_cache_read price)
          + term (ut_cache_creation u) (pm_cache_write price) + term (ut_output u) (pm_output price)) / 1000000)"

definition rate_price :: "pricingCacheEntry \<Rightarrow> PricingModelPrice" where
  "rate_price r = \<lparr>pm_id = 0, pm_model = [], pm_input = pe_input r, pm_output = pe_output r,
     pm_cache_read = pe_cache_read r, pm_cache_write = pe_cache_write r, pm_valid_from = 0,
     pm_valid_to = None, pm_source = []\<rparr>"

definition RequestCost ::
  "PricingDB \<Rightarrow> int \<Rightarrow> string \<Rightarrow> Usage \<Rightarrow> time \<Rightarrow> time \<Rightarrow> PricingCache \<Rightarrow> rat option \<times> PricingCache" where
  "RequestCost db upstream_id model u tm now s =
     (if upstream_id \<le> 0 \<or> trim_space model = [] then (None, s)
      else if ut_input u = None \<and> ut_output u = None \<and> ut_cached u = None \<and> ut_cache_creation u = None
              \<and> ut_uncached u = None then (None, s)
      else case pricingRate db upstream_id model tm now s of (rate, s') \<Rightarrow>
             (if \<not> pe_found rate then None else Some (calculateRequestCost (rate_price rate) u), s'))"

text \<open>The cost expression of the backfill query, for a log row with these token columns.\<close>

definition coalesce :: "'a option \<Rightarrow> 'a \<Rightarrow> 'a" where
  "coalesce x d = (case x of None \<Rightarrow> d | Some v \<Rightarrow> v)"

definition backfill_cost :: "string \<Rightarrow> PricingModelPrice \<Rightarrow> Usage \<Rightarrow> rat" where
  "backfill_cost protocol p u =
     (of_int (if protocol = ProtocolMessages then max (coalesce (ut_input u) 0) 0
              else coalesce (ut_uncached u) (max (coalesce (ut_input u) 0 - coalesce (ut_cached u) 0) 0)) * pm_input p
      + of_int (coalesce (ut_cached u) 0) * pm_cache_read p
      + of_int (coalesce (ut_cache_creation u) 0) * pm_cache_write p
      + of_int (coalesce (ut_output u) 0) * pm_output p) / 1000000"

section \<open>Saving a profile\<close>

datatype pricing_error = ErrInvalidPricing | PricingNotFound

definition price_invalid :: "PricingModelPrice \<Rightarrow> bool" where
  "price_invalid p \<longleftrightarrow> (let model = trim_space (pm_model p)
     in model = [] \<or> rune_count model > 200 \<or> pm_input p < 0 \<or> pm_output p < 0 \<or> pm_cache_read p < 0 \<or> pm_cache_write p < 0)"

text \<open>Rows of models that the profile no longer lists end now (or were never valid).\<close>

definition close_row :: "time \<Rightarrow> PricingModelPrice \<Rightarrow> PricingModelPrice" where
  "close_row now p = p\<lparr>pm_valid_to := Some (max (pm_valid_from p) now)\<rparr>"

definition close_others :: "int \<Rightarrow> time \<Rightarrow> string list \<Rightarrow> (int \<times> PricingModelPrice) list \<Rightarrow> (int \<times> PricingModelPrice) list" where
  "close_others pid now models =
     map (\<lambda>(q, p). if q = pid \<and> pm_valid_to p = None \<and> pm_model p \<notin> set models
                   then (q, close_row now p) else (q, p))"

definition save_price ::
  "int \<Rightarrow> time \<Rightarrow> int \<Rightarrow> PricingModelPrice \<Rightarrow> (int \<times> PricingModelPrice) list \<Rightarrow> (int \<times> PricingModelPrice) list" where
  "save_price pid now new_id price rows =
     (let model = trim_space (pm_model price);
          from = (if is_zero_time (pm_valid_from price) then now else pm_valid_from price);
          rows = map (\<lambda>(q, p). if q = pid \<and> pm_model p = model \<and> pm_valid_from p < from \<and> pm_valid_to p = None
                               then (q, p\<lparr>pm_valid_to := Some from\<rparr>) else (q, p)) rows
      in if \<exists>(q, p) \<in> set rows. q = pid \<and> pm_model p = model \<and> pm_valid_from p = from
         then map (\<lambda>(q, p). if q = pid \<and> pm_model p = model \<and> pm_valid_from p = from
                then (q, p\<lparr>pm_input := pm_input price, pm_output := pm_output price,
                  pm_cache_read := pm_cache_read price, pm_cache_write := pm_cache_write price,
                  pm_source := trim_space (pm_source price)\<rparr>) else (q, p)) rows
         else rows @ [(pid, price\<lparr>pm_id := new_id, pm_model := model, pm_valid_from := from,
                pm_valid_to := None, pm_source := trim_space (pm_source price)\<rparr>)])"

fun save_prices ::
  "int \<Rightarrow> time \<Rightarrow> int \<Rightarrow> PricingModelPrice list \<Rightarrow> (int \<times> PricingModelPrice) list \<Rightarrow> (int \<times> PricingModelPrice) list" where
  "save_prices pid now new_id [] rows = rows"
| "save_prices pid now new_id (p # ps) rows = save_prices pid now (new_id + 1) ps (save_price pid now new_id p rows)"

text \<open>\<open>fresh\<close> is the next value of the identity columns.\<close>

definition savePricingProfileTx ::
  "int \<Rightarrow> PricingProfile \<Rightarrow> time \<Rightarrow> PricingDB \<Rightarrow> (pricing_error + int) \<times> PricingDB" where
  "savePricingProfileTx fresh profile now db =
     (let models = map (\<lambda>p. trim_space (pm_model p)) (pp_prices profile);
          row = profile\<lparr>pp_name := trim_space (pp_name profile), pp_provider := trim_space (pp_provider profile),
            pp_source_url := trim_space (pp_source_url profile),
            pp_source_version := trim_space (pp_source_version profile), pp_prices := []\<rparr>
      in if pp_id profile > 0 then
           (if \<exists>q \<in> set (pd_profiles db). pp_id q = pp_id profile then
              (Inr (pp_id profile),
               db\<lparr>pd_profiles := map (\<lambda>q. if pp_id q = pp_id profile
                     then row\<lparr>pp_last_refreshed_at := pp_last_refreshed_at q\<rparr> else q) (pd_profiles db),
                  pd_prices := save_prices (pp_id profile) now fresh (pp_prices profile)
                     (close_others (pp_id profile) now models (pd_prices db))\<rparr>)
            else (Inl PricingNotFound, db))
         else (Inr fresh,
               db\<lparr>pd_profiles := pd_profiles db @ [row\<lparr>pp_id := fresh\<rparr>],
                  pd_prices := save_prices fresh now fresh (pp_prices profile) (pd_prices db)\<rparr>))"

definition SavePricingProfile ::
  "int \<Rightarrow> PricingProfile \<Rightarrow> time \<Rightarrow> PricingDB \<Rightarrow> PricingCache \<Rightarrow> (pricing_error + int) \<times> PricingDB \<times> PricingCache" where
  "SavePricingProfile fresh profile now db s =
     (let name = trim_space (pp_name profile)
      in if name = [] \<or> rune_count name > 200 \<or> length (pp_prices profile) > 2000 then (Inl ErrInvalidPricing, db, s)
         else if \<exists>p \<in> set (pp_prices profile). price_invalid p then (Inl ErrInvalidPricing, db, s)
         else case savePricingProfileTx fresh profile now db of
                (Inl e, _) \<Rightarrow> (Inl e, db, s)
              | (Inr pid, db') \<Rightarrow> (Inr pid, db', invalidatePricingCache s))"

definition SetUpstreamPricingProfile ::
  "int \<Rightarrow> int \<Rightarrow> PricingDB \<Rightarrow> PricingCache \<Rightarrow> pricing_error option \<times> PricingDB \<times> PricingCache" where
  "SetUpstreamPricingProfile upstream_id profile_id db s =
     (case pd_upstreams db upstream_id of
        None \<Rightarrow> (Some PricingNotFound, db, s)
      | Some u \<Rightarrow> (None, db\<lparr>pd_upstreams := (pd_upstreams db)(upstream_id \<mapsto>
                    u\<lparr>us_pricing_profile_id := (if profile_id = 0 then None else Some profile_id)\<rparr>)\<rparr>,
                   invalidatePricingCache s))"

definition DeletePricingProfile :: "int \<Rightarrow> PricingDB \<Rightarrow> PricingCache \<Rightarrow> pricing_error option \<times> PricingDB \<times> PricingCache" where
  "DeletePricingProfile pid db s =
     (if \<exists>q \<in> set (pd_profiles db). pp_id q = pid then
        (None, db\<lparr>pd_profiles := filter (\<lambda>q. pp_id q \<noteq> pid) (pd_profiles db),
                  pd_prices := filter (\<lambda>(q, p). q \<noteq> pid) (pd_prices db),
                  pd_upstreams := map_option (\<lambda>u. if us_pricing_profile_id u = Some pid
                      then u\<lparr>us_pricing_profile_id := None\<rparr> else u) \<circ> pd_upstreams db\<rparr>,
         invalidatePricingCache s)
      else (Some PricingNotFound, db, s))"

section \<open>The reference\<close>

definition rate_at :: "PricingDB \<Rightarrow> pricingCacheKey \<Rightarrow> time \<Rightarrow> pricingCacheEntry" where
  "rate_at db k t = rate_of (find (\<lambda>p. valid_at p t) (price_order (pk_model k) (candidates db k)))"

definition good_entry :: "PricingDB \<Rightarrow> pricingCacheKey \<Rightarrow> pricingCacheEntry \<Rightarrow> bool" where
  "good_entry db k e \<longleftrightarrow> (\<forall>t. covers e t \<longrightarrow> selectPricingRate e t = rate_at db k t)"

lemma set_price_order [simp]: "set (price_order m ps) = set ps"
  by (simp add: price_order_def)

lemma find_cong_set: "(\<And>x. x \<in> set xs \<Longrightarrow> P x = Q x) \<Longrightarrow> find P xs = find Q xs"
  by (induction xs) auto

lemma find_filter: "find P xs = find P (filter P xs)"
  by (induction xs) auto

text \<open>Whether a row is valid depends only on which boundaries have passed.\<close>

lemma valid_at_boundaries:
  assumes "p \<in> set ps" "\<forall>b \<in> set (boundaries ps). b \<le> t \<longleftrightarrow> b \<le> t'"
  shows "valid_at p t = valid_at p t'"
proof -
  have "pm_valid_from p \<in> set (boundaries ps)" using assms(1) by (auto simp: boundaries_def)
  moreover have "e \<in> set (boundaries ps)" if "pm_valid_to p = Some e" for e
    using assms(1) that by (auto simp: boundaries_def intro!: bexI [of _ p])
  ultimately show ?thesis using assms(2)
    by (auto simp: valid_at_def not_less not_le [symmetric] split: option.split)
qed

lemma max_of_some: "max_of ts = Some m \<Longrightarrow> m \<in> set ts \<and> (\<forall>t \<in> set ts. t \<le> m)"
  by (auto simp: max_of_def split: if_splits)

lemma min_of_some: "min_of ts = Some m \<Longrightarrow> m \<in> set ts \<and> (\<forall>t \<in> set ts. m \<le> t)"
  by (auto simp: min_of_def split: if_splits)

lemma max_of_none [simp]: "max_of ts = None \<longleftrightarrow> ts = []" "min_of ts = None \<longleftrightarrow> ts = []"
  by (auto simp: max_of_def min_of_def)

lemma window_bounds [simp]:
  "pe_partial (loadPricingWindow db k t)"
  "pe_from (loadPricingWindow db k t) = max_of (filter (\<lambda>b. b \<le> t) (boundaries (candidates db k)))"
  "pe_to (loadPricingWindow db k t) = min_of (filter (\<lambda>b. b > t) (boundaries (candidates db k)))"
  by (simp_all add: loadPricingWindow_def Let_def split: option.split)

lemma window_covers:
  assumes "covers (loadPricingWindow db k t) t'" "b \<in> set (boundaries (candidates db k))"
  shows "b \<le> t \<longleftrightarrow> b \<le> t'"
proof
  assume b: "b \<le> t"
  let ?bs = "filter (\<lambda>b. b \<le> t) (boundaries (candidates db k))"
  obtain m where m: "max_of ?bs = Some m" using b assms(2) by (cases "max_of ?bs") (auto simp: filter_empty_conv)
  then have "b \<le> m" using max_of_some [OF m] b assms(2) by auto
  moreover have "m \<le> t'" using assms(1) m by (simp add: covers_def not_less)
  ultimately show "b \<le> t'" by simp
next
  assume b: "b \<le> t'"
  let ?bs = "filter (\<lambda>b. b > t) (boundaries (candidates db k))"
  show "b \<le> t"
  proof (rule ccontr)
    assume "\<not> b \<le> t"
    then have mem: "b \<in> set ?bs" using assms(2) by auto
    then obtain m where m: "min_of ?bs = Some m" by (cases "min_of ?bs") (auto simp: filter_empty_conv)
    then have "m \<le> b" using min_of_some [OF m] mem by blast
    moreover have "t' < m" using assms(1) m by (simp add: covers_def)
    ultimately show False using b by simp
  qed
qed

lemma window_good: "good_entry db k (loadPricingWindow db k t)"
  unfolding good_entry_def
proof (intro allI impI)
  fix t' assume cov: "covers (loadPricingWindow db k t) t'"
  let ?ps = "price_order (pk_model k) (candidates db k)"
  have "find (\<lambda>p. valid_at p t) ?ps = find (\<lambda>p. valid_at p t') ?ps"
    by (rule find_cong_set, rule valid_at_boundaries [of _ "candidates db k"])
      (use window_covers [OF cov] in auto)
  then have ref: "rate_at db k t' = rate_of (find (\<lambda>p. valid_at p t) ?ps)" by (simp add: rate_at_def)
  show "selectPricingRate (loadPricingWindow db k t) t' = rate_at db k t'"
  proof (cases "find (\<lambda>p. valid_at p t) ?ps")
    case None
    then show ?thesis by (simp add: ref selectPricingRate_def loadPricingWindow_def Let_def empty_entry_def)
  next
    case (Some p)
    then have "p \<in> set (candidates db k)" "valid_at p t" by (auto simp: find_Some_iff) (metis nth_mem set_price_order)
    then have "pm_valid_from p \<in> set (filter (\<lambda>b. b \<le> t) (boundaries (candidates db k)))"
      by (auto simp: boundaries_def valid_at_def)
    then obtain f where f: "max_of (filter (\<lambda>b. b \<le> t) (boundaries (candidates db k))) = Some f"
      by (cases "max_of (filter (\<lambda>b. b \<le> t) (boundaries (candidates db k)))") (auto simp: filter_empty_conv)
    have entry: "pe_prices (loadPricingWindow db k t) = [\<lparr>pm_id = 0, pm_model = [], pm_input = pm_input p,
        pm_output = pm_output p, pm_cache_read = pm_cache_read p, pm_cache_write = pm_cache_write p,
        pm_valid_from = f, pm_valid_to = pe_to (loadPricingWindow db k t), pm_source = []\<rparr>]"
      using Some f by (simp add: loadPricingWindow_def Let_def empty_entry_def)
    have "\<not> t' < f" and "case pe_to (loadPricingWindow db k t) of None \<Rightarrow> True | Some b \<Rightarrow> t' < b"
      using cov f by (auto simp: covers_def split: option.splits)
    then show ?thesis
      unfolding ref selectPricingRate_def entry Some by (simp add: valid_at_def rate_of_def split: option.split)
  qed
qed

lemma history_good: "good_entry db k (loadPricingHistory db k t)"
proof (cases "length (take 257 (price_order (pk_model k) (candidates db k))) > 256")
  case True
  then show ?thesis using window_good by (simp add: loadPricingHistory_def Let_def)
next
  case False
  then have "take 257 (price_order (pk_model k) (candidates db k)) = price_order (pk_model k) (candidates db k)"
    by simp
  then show ?thesis using False
    by (simp add: loadPricingHistory_def Let_def good_entry_def selectPricingRate_def rate_at_def empty_entry_def)
qed

lemma good_entry_expires [simp]: "good_entry db k (e\<lparr>pe_expires := x\<rparr>) = good_entry db k e"
  by (simp add: good_entry_def covers_def selectPricingRate_def)

lemma load_entry_good: "good_entry db k (load_entry db k s t)"
  by (simp add: load_entry_def window_good history_good)

lemma window_covers_self: "covers (loadPricingWindow db k t) t"
  by (auto simp: covers_def not_less split: option.split dest!: max_of_some min_of_some)

lemma load_entry_covers: "covers (load_entry db k s t) t"
  using window_covers_self [of db k t]
  by (auto simp: load_entry_def loadPricingHistory_def Let_def covers_def empty_entry_def split: option.splits)

section \<open>The cache as an instance\<close>

definition pricing_ops :: "(PricingCache, pricingCacheKey, pricingCacheEntry) CacheOps" where
  "pricing_ops = \<lparr>co_lookup = pricing_cached, co_store = pricing_store, co_invalidate = invalidatePricingCache\<rparr>"

definition pricing_entry :: "PricingCache \<Rightarrow> pricingCacheKey \<Rightarrow> pricingCacheEntry option" where
  "pricing_entry s = map_of (pc_entries s)"

lemma map_of_filter_key: "map_of (filter (\<lambda>(k, _). P k) m) k = (if P k then map_of m k else None)"
  by (induction m) auto

lemma pricing_store_entry: "pricing_entry (pricing_store s k v now g) k' = Some v' \<Longrightarrow>
    g = pc_gen s \<and> k' = k \<and> v' = v \<or> pricing_entry s k' = Some v'"
  by (auto simp: pricing_entry_def pricing_store_def Let_def update_conv' map_of_filter_key split: if_splits)

interpretation pricing: generation_cache pricing_ops pc_gen pricing_entry
proof
  fix s :: PricingCache and k now v g
  assume "co_lookup pricing_ops s k now = (Some v, g)"
  then show "pricing_entry s k = Some v"
    by (auto simp: pricing_ops_def pricing_cached_def pricing_entry_def split: option.splits if_splits)
next
  fix s :: PricingCache and k v now g k' v'
  assume "pricing_entry (co_store pricing_ops s k v now g) k' = Some v'"
  then show "g = pc_gen s \<and> k' = k \<and> v' = v \<or> pricing_entry s k' = Some v'"
    by (simp add: pricing_ops_def) (rule pricing_store_entry)
qed (auto simp: pricing_ops_def pricing_cached_def pricing_store_def invalidatePricingCache_def
    pricing_entry_def Let_def split: option.splits)

section \<open>Saving keeps the past\<close>

lemma insort_key_map: "(\<And>x. f (h x) = f x) \<Longrightarrow> insort_key f (h x) (map h xs) = map h (insort_key f x xs)"
  by (induction xs) auto

lemma sort_key_map: "(\<And>x. f (h x) = f x) \<Longrightarrow> sort_key f (map h xs) = map h (sort_key f xs)"
  by (induction xs) (simp_all add: insort_key_map)

lemma price_order_filter: "filter P (price_order m ps) = price_order m (filter P ps)"
  by (simp add: price_order_def filter_sort)

text \<open>What the rate at an instant can see: the valid rows, without their ends, ids and sources.\<close>

definition visible :: "time \<Rightarrow> (int \<times> PricingModelPrice) list \<Rightarrow> (int \<times> PricingModelPrice) list" where
  "visible t rows = map (\<lambda>(q, p). (q, p\<lparr>pm_valid_to := None\<rparr>)) (filter (\<lambda>(q, p). valid_at p t) rows)"

lemma visible_append [simp]: "visible t (xs @ ys) = visible t xs @ visible t ys"
  by (simp add: visible_def)

lemma visible_map:
  assumes "\<And>q p. (q, p) \<in> set rows \<Longrightarrow> fst (f (q, p)) = q
      \<and> valid_at (snd (f (q, p))) t = valid_at p t
      \<and> (valid_at p t \<longrightarrow> (snd (f (q, p)))\<lparr>pm_valid_to := None\<rparr> = p\<lparr>pm_valid_to := None\<rparr>)"
  shows "visible t (map f rows) = visible t rows"
  using assms
proof (induction rows)
  case (Cons r rows)
  have "visible t (map f rows) = visible t rows" by (rule Cons.IH) (use Cons.prems in auto)
  moreover obtain q p where r: "r = (q, p)" by (cases r)
  ultimately show ?case using Cons.prems [of q p] by (auto simp: visible_def r split: prod.split)
qed (simp add: visible_def)

lemma close_others_visible: "t < now \<Longrightarrow> visible t (close_others pid now models rows) = visible t rows"
  unfolding close_others_def by (rule visible_map) (auto simp: valid_at_def close_row_def)

lemma save_price_visible:
  assumes "t < now" "is_zero_time (pm_valid_from price)"
  shows "visible t (save_price pid now new_id price rows) = visible t rows"
proof -
  let ?f = "\<lambda>(q, p). if q = pid \<and> pm_model p = trim_space (pm_model price) \<and> pm_valid_from p < now
      \<and> pm_valid_to p = None then (q, p\<lparr>pm_valid_to := Some now\<rparr>) else (q, p)"
  have 1: "visible t (map ?f rows) = visible t rows"
    by (rule visible_map) (use assms(1) in \<open>auto simp: valid_at_def\<close>)
  let ?g = "\<lambda>(q, p). if q = pid \<and> pm_model p = trim_space (pm_model price) \<and> pm_valid_from p = now
      then (q, p\<lparr>pm_input := pm_input price, pm_output := pm_output price, pm_cache_read := pm_cache_read price,
        pm_cache_write := pm_cache_write price, pm_source := trim_space (pm_source price)\<rparr>) else (q, p)"
  have 2: "visible t (map ?g rows') = visible t rows'" for rows'
    by (rule visible_map) (use assms(1) in \<open>auto simp: valid_at_def\<close>)
  have 3: "visible t [(pid, price\<lparr>pm_id := new_id, pm_model := m, pm_valid_from := now, pm_valid_to := None,
      pm_source := src\<rparr>)] = []" for m src
    using assms(1) by (simp add: visible_def valid_at_def)
  show ?thesis using assms(2) by (simp add: save_price_def Let_def 1 2 3 del: map_map)
qed

lemma save_prices_visible:
  "t < now \<Longrightarrow> \<forall>p \<in> set ps. is_zero_time (pm_valid_from p) \<Longrightarrow>
     visible t (save_prices pid now new_id ps rows) = visible t rows"
  by (induction ps arbitrary: new_id rows) (simp_all add: save_price_visible)

lemma rate_at_visible:
  assumes "visible t (pd_prices db) = visible t (pd_prices db')" "pd_upstreams db = pd_upstreams db'"
  shows "rate_at db k t = rate_at db' k t"
proof -
  let ?h = "\<lambda>p. p\<lparr>pm_valid_to := None\<rparr> :: PricingModelPrice"
  have rate: "rate_at d k t = rate_of (case price_order (pk_model k) (map ?h (filter (\<lambda>p. valid_at p t) (candidates d k)))
      of [] \<Rightarrow> None | p # _ \<Rightarrow> Some p)" for d
  proof -
    have "price_order (pk_model k) (map ?h (filter (\<lambda>p. valid_at p t) (candidates d k)))
        = map ?h (filter (\<lambda>p. valid_at p t) (price_order (pk_model k) (candidates d k)))"
      by (simp add: price_order_def sort_key_map filter_sort)
    moreover have "find P xs = (case filter P xs of [] \<Rightarrow> None | p # _ \<Rightarrow> Some p)" for P and xs :: "PricingModelPrice list"
      by (induction xs) auto
    ultimately show ?thesis
      unfolding rate_at_def
      by (cases "filter (\<lambda>p. valid_at p t) (price_order (pk_model k) (candidates d k))") (simp_all add: rate_of_def)
  qed
  have cands: "map ?h (filter (\<lambda>p. valid_at p t) (candidates d k)) =
      (case pd_upstreams d (pk_upstream_id k) of None \<Rightarrow> []
       | Some u \<Rightarrow> (case us_pricing_profile_id u of None \<Rightarrow> []
          | Some pid \<Rightarrow> map snd (filter (\<lambda>(profile, p). profile = pid \<and> (pm_model p = pk_model k \<or>
              pm_model p = (case map_of (us_model_aliases u) (pk_model k) of None \<Rightarrow> pk_model k | Some a \<Rightarrow> a)))
              (visible t (pd_prices d)))))" for d
    by (simp add: candidates_def visible_def filter_map comp_def case_prod_beta conj_commute split: option.split)
  show ?thesis unfolding rate cands assms ..
qed

section \<open>Properties\<close>

text \<open>
  Pricing. Serving from a cache whose entries are right for the database, \<open>pricingRate\<close> answers
  with the reference rate at the (rounded) instant, whether it hits, loads the whole history or, past
  256 rows, only the window around the instant; and the entries it leaves are right again for every
  instant they claim to cover.
\<close>

theorem pricing_rate_exact:
  assumes "\<forall>k e. pricing_entry s k = Some e \<longrightarrow> good_entry db k e"
    and "pricingRate db upstream_id model t now s = (rate, s')"
  shows "rate = rate_at db \<lparr>pk_upstream_id = upstream_id, pk_model = trim_space model\<rparr> (round_us t)
    \<and> (\<forall>k e. pricing_entry s' k = Some e \<longrightarrow> good_entry db k e)"
proof -
  let ?k = "\<lparr>pk_upstream_id = upstream_id, pk_model = trim_space model\<rparr>" and ?t = "round_us t"
  let ?e = "(load_entry db ?k s ?t)\<lparr>pe_expires := now + 30 * second\<rparr>"
  have good: "good_entry db ?k ?e" using load_entry_good by simp
  have cov: "covers ?e ?t" using load_entry_covers by (simp add: covers_def)
  obtain r g where l: "pricing_cached s ?k now = (r, g)" by fastforce
  consider (hit) e where "r = Some e" "covers e ?t" "rate = selectPricingRate e ?t" "s' = s"
    | (load) "rate = selectPricingRate ?e ?t" "s' = pricing_store s ?k ?e now g"
  proof (cases r)
    case None
    have "pricingRate db upstream_id model t now s = (selectPricingRate ?e ?t, pricing_store s ?k ?e now g)"
      using l None by (simp add: pricingRate_def Let_def)
    then have "rate = selectPricingRate ?e ?t" "s' = pricing_store s ?k ?e now g" using assms(2) by simp_all
    then show thesis by (rule load)
  next
    case (Some e)
    show thesis
    proof (cases "covers e ?t")
      case True
      then have "pricingRate db upstream_id model t now s = (selectPricingRate e ?t, s)"
        using l Some by (simp add: pricingRate_def Let_def)
      then have "rate = selectPricingRate e ?t" "s' = s" using assms(2) by simp_all
      then show thesis by (rule hit [OF Some True])
    next
      case False
      then have "pricingRate db upstream_id model t now s = (selectPricingRate ?e ?t, pricing_store s ?k ?e now g)"
        using l Some by (simp add: pricingRate_def Let_def)
      then have "rate = selectPricingRate ?e ?t" "s' = pricing_store s ?k ?e now g" using assms(2) by simp_all
      then show thesis by (rule load)
    qed
  qed
  then show ?thesis
  proof cases
    case hit
    then have "pricing_entry s ?k = Some e"
      using l by (auto simp: pricing_cached_def pricing_entry_def split: option.splits if_splits)
    then have "good_entry db ?k e" using assms(1) by blast
    with hit assms(1) show ?thesis by (simp add: good_entry_def)
  next
    case load
    have "rate = rate_at db ?k ?t" using good cov load(1) unfolding good_entry_def by blast
    moreover have "good_entry db k e" if "pricing_entry s' k = Some e" for k e
      using pricing_store_entry [of s ?k ?e now g k e] that load(2) good assms(1) by blast
    ultimately show ?thesis by blast
  qed
qed

definition sample_price :: PricingModelPrice where
  "sample_price = \<lparr>pm_id = 1, pm_model = ''m'', pm_input = 2, pm_output = 8, pm_cache_read = 1, pm_cache_write = 3,
     pm_valid_from = 1000, pm_valid_to = None, pm_source = []\<rparr>"

definition sample_pricing :: PricingDB where
  "sample_pricing = \<lparr>pd_prices = [(5, sample_price)], pd_profiles = [],
     pd_upstreams = [7 \<mapsto> sample_upstream\<lparr>us_pricing_profile_id := Some 5\<rparr>]\<rparr>"

definition sample_pk :: pricingCacheKey where
  "sample_pk = \<lparr>pk_upstream_id = 7, pk_model = ''m''\<rparr>"

lemma sample_name: "trim_space ''p'' = ''p''" "rune_count ''p'' = 1"
  by (simp_all add: trim_space_graphic graphic_def rune_count_def)

theorem pricing_rate_exact_witness:
  "fst (pricingRate sample_pricing 7 [] 5000 0 \<lparr>pc_entries = [], pc_gen = 0\<rparr>)
     = rate_at sample_pricing \<lparr>pk_upstream_id = 7, pk_model = []\<rparr> 5000"
  using pricing_rate_exact [of "\<lparr>pc_entries = [], pc_gen = 0\<rparr>" sample_pricing 7 "[]" 5000 0
      "fst (pricingRate sample_pricing 7 [] 5000 0 \<lparr>pc_entries = [], pc_gen = 0\<rparr>)"
      "snd (pricingRate sample_pricing 7 [] 5000 0 \<lparr>pc_entries = [], pc_gen = 0\<rparr>)"]
  by (simp add: pricing_entry_def round_us_def)

text \<open>
  No stale rates. With loads, price changes and invalidations interleaved at will, once every
  committed change has been invalidated each cached entry agrees with the current prices.
\<close>

theorem pricing_cache_coherent:
  assumes "s = cache_run pricing_ops good_entry evs (cache_start \<lparr>pc_entries = [], pc_gen = 0\<rparr> db)"
    "cs_pending s = 0" "pricing_cached (cs_cache s) k now = (Some e, g)" "covers e t"
  shows "selectPricingRate e t = rate_at (cs_db s) k t"
proof -
  have empty: "\<And>k. pricing_entry \<lparr>pc_entries = [], pc_gen = 0\<rparr> k = None" by (simp add: pricing_entry_def)
  have "co_lookup pricing_ops (cs_cache s) k now = (Some e, g)" by (simp add: pricing_ops_def assms(3))
  from pricing.lookup_current [OF empty assms(1,2) this] assms(4) show ?thesis by (simp add: good_entry_def)
qed

definition sample_entry :: pricingCacheEntry where
  "sample_entry = (loadPricingHistory sample_pricing sample_pk 5000)\<lparr>pe_expires := 100\<rparr>"

theorem pricing_cache_coherent_witness:
  "selectPricingRate sample_entry 6000 = rate_at sample_pricing sample_pk 6000"
proof -
  let ?e0 = sample_entry
  let ?s = "cache_run pricing_ops good_entry [LoadBegin sample_pk 1, LoadRead 0 ?e0, LoadFinish 0 2]
      (cache_start \<lparr>pc_entries = [], pc_gen = 0\<rparr> sample_pricing)"
  have "good_entry sample_pricing sample_pk ?e0" by (simp add: sample_entry_def history_good)
  then have s: "?s = \<lparr>cs_cache = \<lparr>pc_entries = [(sample_pk, ?e0)], pc_gen = 0\<rparr>, cs_db = sample_pricing, cs_loads = [],
      cs_pending = 0\<rparr>"
    by (simp add: cache_run_def cache_start_def pricing_ops_def pricing_cached_def pricing_store_def)
  have hit: "pricing_cached (cs_cache ?s) sample_pk 3 = (Some ?e0, 0)"
    unfolding s by (simp add: pricing_cached_def sample_entry_def)
  have cov: "covers ?e0 6000"
    by (simp add: sample_entry_def covers_def loadPricingHistory_def empty_entry_def candidates_def sample_pricing_def
        price_order_def split: option.split)
  have "cs_pending ?s = 0" by (simp add: s)
  from pricing_cache_coherent [OF refl this hit cov] show ?thesis by (simp add: s)
qed

text \<open>
  The past is kept. Saving a profile whose prices carry no start of their own (as the refresh and
  the editor do) changes no rate at any earlier instant, for any upstream and model: recorded costs
  stay reproducible.
\<close>

theorem pricing_save_keeps_past:
  assumes "SavePricingProfile fresh profile now db s = (Inr pid, db', s')"
    and "\<forall>p \<in> set (pp_prices profile). is_zero_time (pm_valid_from p)" and "t < now"
  shows "rate_at db' k t = rate_at db k t"
proof -
  have "savePricingProfileTx fresh profile now db = (Inr pid, db')"
    using assms(1) by (auto simp: SavePricingProfile_def Let_def split: if_splits prod.splits sum.splits)
  then have "visible t (pd_prices db') = visible t (pd_prices db) \<and> pd_upstreams db' = pd_upstreams db"
    using assms(2,3)
    by (auto simp: savePricingProfileTx_def Let_def save_prices_visible close_others_visible split: if_splits)
  then show ?thesis by (intro rate_at_visible) simp_all
qed

theorem pricing_save_keeps_past_witness:
  "rate_at (fst (snd (SavePricingProfile 9 \<lparr>pp_id = 0, pp_name = ''p'', pp_provider = [], pp_source_url = [],
      pp_source_version = [], pp_last_refreshed_at = None, pp_prices = []\<rparr> 7000 sample_pricing
      \<lparr>pc_entries = [], pc_gen = 0\<rparr>))) sample_pk 5000 = rate_at sample_pricing sample_pk 5000"
proof -
  let ?p = "\<lparr>pp_id = 0, pp_name = ''p'', pp_provider = [], pp_source_url = [],
      pp_source_version = [], pp_last_refreshed_at = None, pp_prices = []\<rparr>"
  obtain db' s' where r: "SavePricingProfile 9 ?p 7000 sample_pricing \<lparr>pc_entries = [], pc_gen = 0\<rparr> = (Inr 9, db', s')"
    using sample_name by (auto simp: SavePricingProfile_def savePricingProfileTx_def Let_def)
  from pricing_save_keeps_past [OF r, of 5000 sample_pk] r show ?thesis by simp
qed

text \<open>
  C19: backfill. For a log whose cached count is not negative and whose input count less the cached one
  is a 64-bit integer, the cost computed when the request was recorded is the cost the backfill query
  computes; only for a messages request with an uncached count but no input count the query leaves the
  uncached tokens out that the recorder charges.
\<close>

theorem backfill_cost_agrees:
  assumes "case ut_cached u of None \<Rightarrow> True | Some c \<Rightarrow> 0 \<le> c"
    and "case ut_input u of None \<Rightarrow> True | Some n \<Rightarrow> in_int64 (n - coalesce (ut_cached u) 0)"
  shows "calculateRequestCost p (u\<lparr>ut_billable := (if protocol = ProtocolMessages then ut_input u else None)\<rparr>)
    = backfill_cost protocol p u
      + (if protocol = ProtocolMessages \<and> ut_input u = None then of_int (coalesce (ut_uncached u) 0) * pm_input p / 1000000 else 0)"
  using assms
  by (cases "ut_input u"; cases "ut_cached u"; cases "ut_uncached u"; cases "ut_cache_creation u"; cases "ut_output u")
    (auto simp: backfill_cost_def calculateRequestCost_def coalesce_def Let_def wrap64_id max_def add_divide_distrib)

theorem backfill_cost_agrees_witness:
  "backfill_cost ''chat'' sample_price (empty_usage\<lparr>ut_input := Some 1000, ut_cached := Some 400, ut_output := Some 50\<rparr>)
     = (1200 + 400 + 400) / 1000000"
  using backfill_cost_agrees [of "empty_usage\<lparr>ut_input := Some 1000, ut_cached := Some 400, ut_output := Some 50\<rparr>"
      sample_price "''chat''"]
  by (simp add: empty_usage_def sample_price_def calculateRequestCost_def ProtocolMessages_def Let_def
      coalesce_def in_int64_def min_int64_def max_int64_def wrap64_def)

text \<open>A cost is never negative when neither the prices nor the token counts are.\<close>

theorem request_cost_nonneg:
  assumes "0 \<le> pm_input p" "0 \<le> pm_output p" "0 \<le> pm_cache_read p" "0 \<le> pm_cache_write p"
    and "\<forall>n \<in> set_option (ut_cached u) \<union> set_option (ut_cache_creation u) \<union> set_option (ut_output u)
           \<union> set_option (ut_uncached u). 0 \<le> n"
  shows "0 \<le> calculateRequestCost p u"
  using assms
  by (auto simp: calculateRequestCost_def Let_def intro!: divide_nonneg_nonneg add_nonneg_nonneg split: option.split)

theorem request_cost_nonneg_witness:
  "0 \<le> calculateRequestCost sample_price (empty_usage\<lparr>ut_input := Some (- 4), ut_output := Some 50\<rparr>)"
  by (rule request_cost_nonneg) (simp_all add: sample_price_def empty_usage_def)

end
