(* ===== verification/Recorder.thy ===== *)
theory Recorder
  imports Core_Types "HOL-Library.Multiset"
begin

text \<open>
  The request-log recorder of \<open>internal/gateway/recorder.go\<close>: a bounded queue, a worker that flushes
  batches with retries and splits a batch that holds an invalid record, and the bounded synchronous
  fallback for a full queue. The goroutines are interleaved by an arbitrary list of \<open>RecEvent\<close>s, one
  per critical section; a flush is one event, since it touches only the repository and the drop
  counter. The context \<open>r.ctx\<close> can be cancelled at any moment, so it is read from the world. The
  duration counters (\<open>fallbackWaitNS\<close>, \<open>fallbackDurationNS\<close>) and the log lines are not modelled.
\<close>

section \<open>The repository interface\<close>

text \<open>A write error with the SQLSTATE that \<open>errors.As\<close> finds in its chain, if any.\<close>

datatype WriteError = WriteError (we_state: "string option") (we_text: string)

text \<open>\<open>rs_batch\<close> is \<open>None\<close> for a repository without \<open>RecordRequests\<close>.\<close>

record 'w RequestSink =
  rs_batch :: "(RequestLog list \<Rightarrow> 'w \<Rightarrow> WriteError option \<times> 'w) option"
  rs_single :: "RequestLog \<Rightarrow> 'w \<Rightarrow> WriteError option \<times> 'w"
  rs_ctx_done :: "'w \<Rightarrow> bool \<times> 'w"

datatype RecorderError =
    BatchAfterRetries WriteError
  | Joined "RecorderError list"
  | SingleWrites nat WriteError
  | ShutdownInterrupted
  | FallbackExhausted

record Recorder =
  rc_queue :: "RequestLog list"
  rc_batch :: "RequestLog list"
  rc_closed :: bool
  rc_done :: bool
  rc_refused :: "RequestLog list"
  rc_waiting :: "RequestLog list"
  rc_fallbacks :: "RequestLog list"
  rc_fallback_count :: nat
  rc_fallback_rejected :: nat
  rc_flush_err :: "RecorderError option"
  rc_dropped :: nat

definition requestLogQueueSize :: nat where "requestLogQueueSize = 2048"
definition requestLogBatchSize :: nat where "requestLogBatchSize = 64"
definition requestLogFallbackConcurrency :: nat where "requestLogFallbackConcurrency = 4"
definition requestLogFallbackWaiters :: nat where "requestLogFallbackWaiters = 64"
definition defaultRetryDelays :: "duration list" where
  "defaultRetryDelays = [100 * millisecond, 500 * millisecond]"

definition newRequestRecorder :: Recorder where
  "newRequestRecorder = \<lparr>rc_queue = [], rc_batch = [], rc_closed = False, rc_done = False, rc_refused = [], rc_waiting = [],
     rc_fallbacks = [], rc_fallback_count = 0, rc_fallback_rejected = 0, rc_flush_err = None, rc_dropped = 0\<rparr>"

section \<open>Flushing\<close>

definition isRecordDataError :: "WriteError \<Rightarrow> bool" where
  "isRecordDataError e = (case we_state e of None \<Rightarrow> False
     | Some code \<Rightarrow> length code \<ge> 2 \<and> (take 2 code = ''22'' \<or> take 2 code = ''23''))"

text \<open>\<open>errors.Join\<close> drops nil errors and is nil when all are.\<close>

definition join :: "RecorderError option list \<Rightarrow> RecorderError option" where
  "join es = (case List.map_filter id es of [] \<Rightarrow> None | xs \<Rightarrow> Some (Joined xs))"

text \<open>
  The retry loop of \<open>flush\<close> from one attempt on, with the number of records it dropped. The wait
  between attempts ends with the timer or with the context, so it leaves no trace. A data error
  splits a batch of two or more; the two halves are flushed with all attempts of their own.
\<close>

function flush_attempts ::
  "'w RequestSink \<Rightarrow> (RequestLog list \<Rightarrow> 'w \<Rightarrow> WriteError option \<times> 'w) \<Rightarrow> nat \<Rightarrow> nat \<Rightarrow> RequestLog list \<Rightarrow> 'w
     \<Rightarrow> RecorderError option \<times> nat \<times> 'w" where
  "flush_attempts R save retries attempt entries w =
     (if entries = [] then (None, 0, w)
      else case save entries w of
        (None, w1) \<Rightarrow> (None, 0, w1)
      | (Some err, w1) \<Rightarrow>
          (case rs_ctx_done R w1 of (done1, w2) \<Rightarrow>
           if \<not> done1 \<and> isRecordDataError err then
             (if length entries > 1 then
                (case flush_attempts R save retries 0 (take (length entries div 2) entries) w2 of
                   (leftErr, n1, w3) \<Rightarrow>
                 case flush_attempts R save retries 0 (drop (length entries div 2) entries) w3 of
                   (rightErr, n2, w4) \<Rightarrow> (join [leftErr, rightErr], n1 + n2, w4))
              else (Some (BatchAfterRetries err), length entries, w2))
           else
             (case rs_ctx_done R w2 of (done2, w3) \<Rightarrow>
              if done2 then (Some (BatchAfterRetries err), length entries, w3)
              else if attempt < retries then flush_attempts R save retries (attempt + 1) entries w3
              else (Some (BatchAfterRetries err), length entries, w3))))"
  by pat_completeness auto
termination
  by (relation "measures [\<lambda>(R, save, retries, attempt, entries, w). length entries,
                          \<lambda>(R, save, retries, attempt, entries, w). Suc retries - attempt]") auto

declare flush_attempts.simps [simp del]

text \<open>Without batches the records are written one by one: the first error and the number dropped.\<close>

fun flush_singles ::
  "'w RequestSink \<Rightarrow> RequestLog list \<Rightarrow> 'w \<Rightarrow> WriteError option \<times> nat \<times> 'w" where
  "flush_singles R [] w = (None, 0, w)"
| "flush_singles R (entry # entries) w =
     (case rs_single R entry w of (err, w1) \<Rightarrow>
      case flush_singles R entries w1 of (firstErr, dropped, w2) \<Rightarrow>
        (case err of None \<Rightarrow> (firstErr, dropped, w2) | Some e \<Rightarrow> (Some e, dropped + 1, w2)))"

definition flush ::
  "'w RequestSink \<Rightarrow> duration list \<Rightarrow> RequestLog list \<Rightarrow> Recorder \<Rightarrow> 'w \<Rightarrow> RecorderError option \<times> Recorder \<times> 'w" where
  "flush R delays entries r w =
     (if entries = [] then (None, r, w)
      else case rs_batch R of
        Some save \<Rightarrow>
          (case flush_attempts R save (length delays) 0 entries w of
             (err, n, w1) \<Rightarrow> (err, r\<lparr>rc_dropped := rc_dropped r + n\<rparr>, w1))
      | None \<Rightarrow>
          (case flush_singles R entries w of
             (None, n, w1) \<Rightarrow> (None, r, w1)
           | (Some e, n, w1) \<Rightarrow> (Some (SingleWrites n e), r\<lparr>rc_dropped := rc_dropped r + n\<rparr>, w1)))"

definition rememberFlushError :: "RecorderError option \<Rightarrow> Recorder \<Rightarrow> Recorder" where
  "rememberFlushError err r =
     (if err \<noteq> None \<and> rc_flush_err r = None then r\<lparr>rc_flush_err := err\<rparr> else r)"

section \<open>The recorder's goroutines\<close>

definition Submit :: "RequestLog \<Rightarrow> Recorder \<Rightarrow> bool \<times> Recorder" where
  "Submit entry r =
     (if rc_closed r then (False, r)
      else if length (rc_queue r) < requestLogQueueSize then (True, r\<lparr>rc_queue := rc_queue r @ [entry]\<rparr>)
      else (False, r))"

definition rejectFallback :: "Recorder \<Rightarrow> Recorder" where
  "rejectFallback r = rememberFlushError (Some FallbackExhausted)
     (r\<lparr>rc_dropped := rc_dropped r + 1, rc_fallback_rejected := rc_fallback_rejected r + 1\<rparr>)"

definition remove_nth :: "nat \<Rightarrow> 'a list \<Rightarrow> 'a list" where
  "remove_nth i xs = take i xs @ drop (Suc i) xs"

text \<open>
  \<open>Handler.record\<close>: a record that is refused is in the hands of its request (\<open>rc_refused\<close>) until
  \<open>fallback\<close> takes one of the wait slots for it or gives up; other goroutines may run in between.
\<close>

definition submit_entry :: "RequestLog \<Rightarrow> Recorder \<Rightarrow> Recorder" where
  "submit_entry entry r =
     (case Submit entry r of (True, r1) \<Rightarrow> r1 | (False, r1) \<Rightarrow> r1\<lparr>rc_refused := rc_refused r1 @ [entry]\<rparr>)"

definition fallback_begin :: "nat \<Rightarrow> Recorder \<Rightarrow> Recorder" where
  "fallback_begin i r =
     (if i < length (rc_refused r) then
        (let r1 = r\<lparr>rc_refused := remove_nth i (rc_refused r), rc_fallback_count := rc_fallback_count r + 1\<rparr>
         in if length (rc_waiting r1) < requestLogFallbackWaiters
            then r1\<lparr>rc_waiting := rc_waiting r1 @ [rc_refused r ! i]\<rparr> else rejectFallback r1)
      else r)"

text \<open>The same by one goroutine that is not interrupted.\<close>

definition record_entry :: "RequestLog \<Rightarrow> Recorder \<Rightarrow> Recorder" where
  "record_entry entry r =
     (if fst (Submit entry r) then submit_entry entry r
      else fallback_begin (length (rc_refused r)) (submit_entry entry r))"

definition fallback_acquire :: "nat \<Rightarrow> Recorder \<Rightarrow> Recorder" where
  "fallback_acquire i r =
     (if i < length (rc_waiting r) \<and> length (rc_fallbacks r) < requestLogFallbackConcurrency
      then r\<lparr>rc_waiting := remove_nth i (rc_waiting r), rc_fallbacks := rc_fallbacks r @ [rc_waiting r ! i]\<rparr>
      else r)"

definition fallback_give_up :: "nat \<Rightarrow> Recorder \<Rightarrow> Recorder" where
  "fallback_give_up i r =
     (if i < length (rc_waiting r)
      then rejectFallback (r\<lparr>rc_waiting := remove_nth i (rc_waiting r)\<rparr>) else r)"

definition fallback_flush ::
  "'w RequestSink \<Rightarrow> duration list \<Rightarrow> nat \<Rightarrow> Recorder \<Rightarrow> 'w \<Rightarrow> Recorder \<times> 'w" where
  "fallback_flush R delays i r w =
     (if i < length (rc_fallbacks r) then
        (case flush R delays [rc_fallbacks r ! i] (r\<lparr>rc_fallbacks := remove_nth i (rc_fallbacks r)\<rparr>) w of
           (err, r1, w1) \<Rightarrow> (rememberFlushError err r1, w1))
      else (r, w))"

definition close_queue :: "Recorder \<Rightarrow> Recorder" where
  "close_queue r = r\<lparr>rc_closed := True\<rparr>"

definition flush_batch ::
  "'w RequestSink \<Rightarrow> duration list \<Rightarrow> RequestLog list \<Rightarrow> Recorder \<Rightarrow> 'w \<Rightarrow> Recorder \<times> 'w" where
  "flush_batch R delays batch r w =
     (case flush R delays batch (r\<lparr>rc_batch := []\<rparr>) w of (err, r1, w1) \<Rightarrow> (rememberFlushError err r1, w1))"

text \<open>The worker takes a record off the queue; when the queue is closed and empty it flushes and ends.\<close>

definition run_receive :: "'w RequestSink \<Rightarrow> duration list \<Rightarrow> Recorder \<Rightarrow> 'w \<Rightarrow> Recorder \<times> 'w" where
  "run_receive R delays r w =
     (if rc_done r then (r, w)
      else case rc_queue r of
        [] \<Rightarrow> if rc_closed r
              then (case flush_batch R delays (rc_batch r) r w of (r1, w1) \<Rightarrow> (r1\<lparr>rc_done := True\<rparr>, w1))
              else (r, w)
      | entry # rest \<Rightarrow>
          (let batch = rc_batch r @ [entry]; r1 = r\<lparr>rc_queue := rest, rc_batch := batch\<rparr>
           in if length batch \<ge> requestLogBatchSize then flush_batch R delays batch r1 w else (r1, w)))"

definition run_tick :: "'w RequestSink \<Rightarrow> duration list \<Rightarrow> Recorder \<Rightarrow> 'w \<Rightarrow> Recorder \<times> 'w" where
  "run_tick R delays r w =
     (if \<not> rc_done r \<and> length (rc_batch r) > 0 then flush_batch R delays (rc_batch r) r w else (r, w))"

text \<open>
  \<open>dropRemaining\<close> ranges over the queue until it is closed, so the worker gets past it only in a
  closed recorder; \<open>Close\<close> is the only place that cancels, after closing.
\<close>

definition run_cancelled :: "Recorder \<Rightarrow> Recorder" where
  "run_cancelled r =
     (if rc_done r \<or> \<not> rc_closed r then r
      else let dropped = length (rc_batch r) + length (rc_queue r);
               r1 = r\<lparr>rc_queue := [], rc_batch := [], rc_done := True\<rparr>
           in if dropped = 0 then r1
              else rememberFlushError (Some ShutdownInterrupted) (r1\<lparr>rc_dropped := rc_dropped r1 + dropped\<rparr>))"

datatype RecEvent =
    RecordEntry RequestLog | Receive | Tick | Cancelled | CloseQueue
  | FallbackBegin nat | FallbackAcquire nat | FallbackGiveUp nat | FallbackFlush nat

fun recorder_event ::
  "'w RequestSink \<Rightarrow> duration list \<Rightarrow> RecEvent \<Rightarrow> Recorder \<times> 'w \<Rightarrow> Recorder \<times> 'w" where
  "recorder_event R delays (RecordEntry entry) (r, w) = (submit_entry entry r, w)"
| "recorder_event R delays (FallbackBegin i) (r, w) = (fallback_begin i r, w)"
| "recorder_event R delays Receive (r, w) = run_receive R delays r w"
| "recorder_event R delays Tick (r, w) = run_tick R delays r w"
| "recorder_event R delays Cancelled (r, w) = (run_cancelled r, w)"
| "recorder_event R delays CloseQueue (r, w) = (close_queue r, w)"
| "recorder_event R delays (FallbackAcquire i) (r, w) = (fallback_acquire i r, w)"
| "recorder_event R delays (FallbackGiveUp i) (r, w) = (fallback_give_up i r, w)"
| "recorder_event R delays (FallbackFlush i) (r, w) = fallback_flush R delays i r w"

definition recorder_run ::
  "'w RequestSink \<Rightarrow> duration list \<Rightarrow> RecEvent list \<Rightarrow> Recorder \<times> 'w \<Rightarrow> Recorder \<times> 'w" where
  "recorder_run R delays evs rw = fold (recorder_event R delays) evs rw"

fun recorded :: "RecEvent list \<Rightarrow> RequestLog list" where
  "recorded [] = []"
| "recorded (RecordEntry entry # evs) = entry # recorded evs"
| "recorded (_ # evs) = recorded evs"

section \<open>What the recorder relies on\<close>

locale request_sink =
  fixes R :: "'w RequestSink" and stored :: "'w \<Rightarrow> string set"
  assumes batch_stores: "rs_batch R = Some save \<Longrightarrow> save entries w = (err, w') \<Longrightarrow>
      stored w \<subseteq> stored w' \<and> (err = None \<longrightarrow> rl_request_id ` set entries \<subseteq> stored w')"
    and single_stores: "rs_single R entry w = (err, w') \<Longrightarrow>
      stored w \<subseteq> stored w' \<and> (err = None \<longrightarrow> rl_request_id entry \<in> stored w')"
    and ctx_keeps: "rs_ctx_done R w = (d, w') \<Longrightarrow> stored w' = stored w"
begin

text \<open>Entries are either stored or among the \<open>n\<close> lost ones.\<close>

definition settled :: "RequestLog list \<Rightarrow> nat \<Rightarrow> 'w \<Rightarrow> bool" where
  "settled entries n w \<longleftrightarrow> (\<exists>kept lost. mset entries = mset kept + mset lost \<and> n = length lost
     \<and> rl_request_id ` set kept \<subseteq> stored w)"

lemma settled_kept: "rl_request_id ` set entries \<subseteq> stored w \<Longrightarrow> settled entries 0 w"
  unfolding settled_def by (intro exI [of _ entries] exI [of _ "[]"]) simp

lemma settled_lost: "settled entries (length entries) w"
  unfolding settled_def by (intro exI [of _ "[]"] exI [of _ entries]) simp

lemma settled_mono: "settled entries n w \<Longrightarrow> stored w \<subseteq> stored w' \<Longrightarrow> settled entries n w'"
  unfolding settled_def by blast

lemma settled_append:
  assumes "settled xs m w" "settled ys n w" "mset zs = mset xs + mset ys"
  shows "settled zs (m + n) w"
proof -
  obtain k1 l1 where 1: "mset xs = mset k1 + mset l1" "m = length l1" "rl_request_id ` set k1 \<subseteq> stored w"
    using assms(1) by (auto simp: settled_def)
  obtain k2 l2 where 2: "mset ys = mset k2 + mset l2" "n = length l2" "rl_request_id ` set k2 \<subseteq> stored w"
    using assms(2) by (auto simp: settled_def)
  show ?thesis
    unfolding settled_def using 1 2 assms(3)
    by (intro exI [of _ "k1 @ k2"] exI [of _ "l1 @ l2"]) (auto simp: ac_simps)
qed

lemma flush_attempts_settles':
  assumes "R' = R" "rs_batch R = Some save" "flush_attempts R' save retries attempt entries w = (err, n, w')"
  shows "stored w \<subseteq> stored w' \<and> settled entries n w' \<and> (err = None \<longleftrightarrow> n = 0)"
  using assms
proof (induction R' save retries attempt entries w arbitrary: err n w' rule: flush_attempts.induct)
  case (1 R' save retries attempt entries w)
  note R = "1.prems"(1)
  show ?case
  proof (cases "entries = []")
    case True
    with "1.prems"(3) show ?thesis by (auto simp: flush_attempts.simps settled_kept)
  next
    case ne: False
    obtain werr w1 where wr: "save entries w = (werr, w1)" by fastforce
    note w1 = batch_stores [OF "1.prems"(2) wr]
    obtain d1 w2 where c1: "rs_ctx_done R' w1 = (d1, w2)" by fastforce
    obtain d2 w3 where c2: "rs_ctx_done R' w2 = (d2, w3)" by fastforce
    have keep: "stored w2 = stored w1" "stored w3 = stored w1"
      using ctx_keeps c1 c2 R by auto
    show ?thesis
    proof (cases werr)
      case None
      then show ?thesis using "1.prems"(3) ne wr w1 by (auto simp: flush_attempts.simps settled_kept)
    next
      case (Some e)
      note step = "1.prems"(3) [unfolded flush_attempts.simps [of R' save retries attempt entries w]]
      let ?l = "take (length entries div 2) entries" and ?r = "drop (length entries div 2) entries"
      consider (split) "\<not> d1" "isRecordDataError e" "length entries > 1"
        | (retry) "d1 \<or> \<not> isRecordDataError e" "\<not> d2" "attempt < retries"
        | (lost) "err \<noteq> None" "n = length entries" "w' = w2 \<or> w' = w3"
        using step ne wr Some c1 c2 by (auto split: if_splits)
      then show ?thesis
      proof cases
        case split
        obtain e1 n1 w4 where l: "flush_attempts R' save retries 0 ?l w2 = (e1, n1, w4)" by (metis prod_cases3)
        obtain e2 n2 w5 where r: "flush_attempts R' save retries 0 ?r w4 = (e2, n2, w5)" by (metis prod_cases3)
        have out: "err = join [e1, e2]" "n = n1 + n2" "w' = w5"
          using step ne wr Some c1 split l r by auto
        have IHl: "stored w2 \<subseteq> stored w4 \<and> settled ?l n1 w4 \<and> (e1 = None \<longleftrightarrow> n1 = 0)"
          using "1.IH"(1) ne wr Some c1 split R "1.prems"(2) l by auto
        have IHr: "stored w4 \<subseteq> stored w5 \<and> settled ?r n2 w5 \<and> (e2 = None \<longleftrightarrow> n2 = 0)"
          using "1.IH"(2) ne wr Some c1 split R "1.prems"(2) l r by auto
        have "mset entries = mset ?l + mset ?r" by (metis append_take_drop_id mset_append)
        moreover have "settled ?l n1 w5" using IHl IHr settled_mono by blast
        ultimately have "settled entries n w'" using IHr out settled_append by blast
        moreover have "(err = None) = (n = 0)"
          using out IHl IHr by (auto simp: join_def List.map_filter_def split: option.splits)
        ultimately show ?thesis using w1 keep IHl IHr out by auto
      next
        case retry
        then have "flush_attempts R' save retries (attempt + 1) entries w3 = (err, n, w')"
          using step ne wr Some c1 c2 by auto
        with "1.IH"(3) ne wr Some c1 c2 retry R "1.prems"(2)
        have "stored w3 \<subseteq> stored w' \<and> settled entries n w' \<and> (err = None \<longleftrightarrow> n = 0)" by auto
        then show ?thesis using w1 keep by auto
      next
        case lost
        then show ?thesis using w1 keep ne settled_lost by auto
      qed
    qed
  qed
qed

lemmas flush_attempts_settles = flush_attempts_settles' [OF refl]

lemma flush_singles_settles:
  "flush_singles R entries w = (err, n, w') \<Longrightarrow>
     stored w \<subseteq> stored w' \<and> settled entries n w' \<and> (err = None \<longleftrightarrow> n = 0)"
proof (induction entries arbitrary: w err n w')
  case Nil
  then show ?case by (auto simp: settled_kept)
next
  case (Cons entry entries)
  obtain e w1 where s1: "rs_single R entry w = (e, w1)" by fastforce
  obtain e2 n2 w2 where s2: "flush_singles R entries w1 = (e2, n2, w2)" by (metis prod_cases3)
  note h = single_stores [OF s1] and IH = Cons.IH [OF s2]
  have "w' = w2" "n = (if e = None then 0 else 1) + n2" "(err = None) = (e = None \<and> e2 = None)"
    using Cons.prems s1 s2 by (auto split: option.splits)
  moreover have "settled [entry] (if e = None then 0 else 1) w2"
    using h IH settled_kept [of "[entry]" w2] settled_lost [of "[entry]" w2] by auto
  ultimately show ?case using h IH settled_append [of "[entry]" _ w2 entries n2 "entry # entries"] by auto
qed

lemma flush_settles:
  assumes "flush R delays entries r w = (err, r', w')"
  obtains n where "r' = r\<lparr>rc_dropped := rc_dropped r + n\<rparr>" "stored w \<subseteq> stored w'" "settled entries n w'"
    "err = None \<longleftrightarrow> n = 0"
proof -
  have "\<exists>n. r' = r\<lparr>rc_dropped := rc_dropped r + n\<rparr> \<and> stored w \<subseteq> stored w' \<and> settled entries n w'
      \<and> (err = None \<longleftrightarrow> n = 0)"
  proof (cases "entries = []")
    case True
    with assms show ?thesis by (auto simp: flush_def settled_kept)
  next
    case ne: False
    show ?thesis
    proof (cases "rs_batch R")
      case None
      obtain e n w1 where f: "flush_singles R entries w = (e, n, w1)" by (metis prod_cases3)
      show ?thesis
        using flush_singles_settles [OF f] assms ne None f
        by (intro exI [of _ n], cases e) (auto simp: flush_def)
    next
      case (Some save)
      obtain e n w1 where f: "flush_attempts R save (length delays) 0 entries w = (e, n, w1)"
        by (metis prod_cases3)
      show ?thesis using flush_attempts_settles [OF Some f] assms ne Some f by (auto simp: flush_def)
    qed
  qed
  then show thesis using that by blast
qed


text \<open>
  The invariant of the running recorder: every record ever handed over is still held somewhere, or
  settled; the buffers respect their bounds; and a loss has been remembered as an error.
\<close>

definition held :: "Recorder \<Rightarrow> RequestLog list" where
  "held r = rc_queue r @ rc_batch r @ rc_refused r @ rc_waiting r @ rc_fallbacks r"

definition bounded :: "Recorder \<Rightarrow> bool" where
  "bounded r \<longleftrightarrow> length (rc_queue r) \<le> requestLogQueueSize \<and> length (rc_batch r) < requestLogBatchSize
     \<and> length (rc_waiting r) \<le> requestLogFallbackWaiters
     \<and> length (rc_fallbacks r) \<le> requestLogFallbackConcurrency
     \<and> (rc_done r \<longrightarrow> rc_closed r \<and> rc_queue r = [] \<and> rc_batch r = [])"

definition rec_inv :: "RequestLog list \<Rightarrow> Recorder \<times> 'w \<Rightarrow> bool" where
  "rec_inv handed rw = (case rw of (r, w) \<Rightarrow>
     (\<exists>gone. mset handed = mset (held r) + mset gone \<and> settled gone (rc_dropped r) w)
     \<and> bounded r \<and> (rc_dropped r > 0 \<longrightarrow> rc_flush_err r \<noteq> None))"

lemma rec_invI:
  assumes "mset handed = mset (held r) + mset gone" "settled gone (rc_dropped r) w" "bounded r"
    "rc_dropped r > 0 \<Longrightarrow> rc_flush_err r \<noteq> None"
  shows "rec_inv handed (r, w)"
  using assms by (auto simp: rec_inv_def)

text \<open>Settling part of what is held.\<close>

lemma rec_inv_settle:
  assumes inv: "rec_inv handed (r, w)" and "stored w \<subseteq> stored w'" "settled out n w'"
    and "mset (held r) = mset (held r') + mset out" "rc_dropped r' = rc_dropped r + n" "bounded r'"
    and "n > 0 \<or> rc_flush_err r \<noteq> None \<Longrightarrow> rc_flush_err r' \<noteq> None"
  shows "rec_inv handed (r', w')"
proof -
  obtain gone where g: "mset handed = mset (held r) + mset gone" "settled gone (rc_dropped r) w"
    and e: "rc_dropped r > 0 \<longrightarrow> rc_flush_err r \<noteq> None"
    using inv by (auto simp: rec_inv_def)
  have "settled (gone @ out) (rc_dropped r') w'"
    using settled_append [OF settled_mono [OF g(2) assms(2)] assms(3)] assms(5) by simp
  then show ?thesis
    using g assms e by (intro rec_invI [of _ _ "gone @ out"]) (auto simp: ac_simps)
qed

lemma rememberFlushError_simps [simp]:
  "held (rememberFlushError e r) = held r" "bounded (rememberFlushError e r) = bounded r"
  "rc_dropped (rememberFlushError e r) = rc_dropped r" "rc_closed (rememberFlushError e r) = rc_closed r"
  "rc_queue (rememberFlushError e r) = rc_queue r" "rc_batch (rememberFlushError e r) = rc_batch r"
  "rc_waiting (rememberFlushError e r) = rc_waiting r" "rc_done (rememberFlushError e r) = rc_done r"
  "rc_fallbacks (rememberFlushError e r) = rc_fallbacks r" "rc_refused (rememberFlushError e r) = rc_refused r"
  "rc_flush_err (rememberFlushError e r) = None \<longleftrightarrow> rc_flush_err r = None \<and> e = None"
  by (auto simp: rememberFlushError_def held_def bounded_def)

lemma mset_remove_nth: "i < length xs \<Longrightarrow> mset xs = add_mset (xs ! i) (mset (remove_nth i xs))"
  by (metis id_take_nth_drop mset_append mset.simps(2) remove_nth_def union_mset_add_mset_right)

lemma length_remove_nth [simp]: "i < length xs \<Longrightarrow> length (remove_nth i xs) = length xs - 1"
  by (simp add: remove_nth_def)

lemma rec_inv_reject:
  assumes "rec_inv handed (r, w)" "mset (held r) = add_mset entry (mset (held r'))"
    "rc_dropped r' = rc_dropped r" "bounded r'"
  shows "rec_inv handed (rejectFallback r', w)"
proof (rule rec_inv_settle [OF assms(1) subset_refl settled_lost [of "[entry]"]])
  show "mset (held r) = mset (held (rejectFallback r')) + mset [entry]"
    using assms(2) by (simp add: rejectFallback_def held_def)
qed (use assms(3,4) in \<open>simp_all add: rejectFallback_def bounded_def del: not_None_eq\<close>)

lemma rec_inv_flush_batch:
  assumes inv: "rec_inv handed (r, w)" and "bounded (r\<lparr>rc_batch := []\<rparr>)"
    and fb: "flush_batch R delays (rc_batch r) r w = (r', w')"
  shows "rec_inv handed (r', w') \<and> rc_batch r' = [] \<and> rc_queue r' = rc_queue r \<and> rc_closed r' = rc_closed r"
proof -
  obtain e r1 w1 where f: "flush R delays (rc_batch r) (r\<lparr>rc_batch := []\<rparr>) w = (e, r1, w1)" by (metis prod_cases3)
  from flush_settles [OF f] obtain n where n: "r1 = (r\<lparr>rc_batch := []\<rparr>)\<lparr>rc_dropped := rc_dropped (r\<lparr>rc_batch := []\<rparr>) + n\<rparr>"
    "stored w \<subseteq> stored w1" "settled (rc_batch r) n w1" "e = None \<longleftrightarrow> n = 0" .
  have r': "r' = rememberFlushError e r1" "w' = w1" using fb f by (simp_all add: flush_batch_def)
  have "rec_inv handed (r', w1)"
  proof (rule rec_inv_settle [OF inv n(2,3)])
    show "n > 0 \<or> rc_flush_err r \<noteq> None \<Longrightarrow> rc_flush_err r' \<noteq> None"
      using n(1,4) r' by (auto simp del: not_None_eq)
  qed (use n(1) r' assms(2) in \<open>simp_all add: held_def bounded_def\<close>)
  then show ?thesis using n(1) r' by simp
qed


lemma rec_inv_new: "rec_inv [] (newRequestRecorder, w)"
  by (simp add: rec_inv_def newRequestRecorder_def held_def bounded_def settled_def
      requestLogBatchSize_def)

lemma rec_inv_handed:
  assumes "rec_inv handed (r, w)" "mset (held r') = add_mset entry (mset (held r))" "bounded r'"
    "rc_dropped r' = rc_dropped r" "rc_flush_err r' = rc_flush_err r"
  shows "rec_inv (handed @ [entry]) (r', w)"
  using assms by (auto simp: rec_inv_def)

lemma rec_inv_move:
  assumes "rec_inv handed (r, w)" "mset (held r') = mset (held r)" "bounded r'"
    "rc_dropped r' = rc_dropped r" "rc_flush_err r' = rc_flush_err r"
  shows "rec_inv handed (r', w)"
  using assms by (auto simp: rec_inv_def)

lemma submit_entry_alt: "submit_entry entry r =
    (if \<not> rc_closed r \<and> length (rc_queue r) < requestLogQueueSize
     then r\<lparr>rc_queue := rc_queue r @ [entry]\<rparr> else r\<lparr>rc_refused := rc_refused r @ [entry]\<rparr>)"
  by (simp add: submit_entry_def Submit_def)

lemma submit_entry_inv:
  assumes inv: "rec_inv handed (r, w)"
  shows "rec_inv (handed @ [entry]) (submit_entry entry r, w)"
proof -
  have b: "bounded r" using inv by (simp add: rec_inv_def)
  show ?thesis
    unfolding submit_entry_alt
    by (rule rec_inv_handed [OF inv]) (use b in \<open>auto simp: held_def bounded_def\<close>)
qed

lemma fallback_begin_inv:
  assumes inv: "rec_inv handed (r, w)"
  shows "rec_inv handed (fallback_begin i r, w)"
proof (cases "i < length (rc_refused r)")
  case True
  let ?r = "r\<lparr>rc_refused := remove_nth i (rc_refused r), rc_fallback_count := rc_fallback_count r + 1\<rparr>"
  have b: "bounded r" using inv by (simp add: rec_inv_def)
  show ?thesis
  proof (cases "length (rc_waiting r) < requestLogFallbackWaiters")
    case room: True
    have "rec_inv handed (?r\<lparr>rc_waiting := rc_waiting r @ [rc_refused r ! i]\<rparr>, w)"
      by (rule rec_inv_move [OF inv]) (use b room mset_remove_nth [OF True] in \<open>auto simp: held_def bounded_def\<close>)
    then show ?thesis using True room by (simp add: fallback_begin_def Let_def)
  next
    case False
    have "rec_inv handed (rejectFallback ?r, w)"
      by (rule rec_inv_reject [OF inv, of "rc_refused r ! i"])
        (use b mset_remove_nth [OF True] in \<open>auto simp: held_def bounded_def\<close>)
    then show ?thesis using True False by (simp add: fallback_begin_def Let_def)
  qed
qed (use inv in \<open>simp add: fallback_begin_def\<close>)

lemma run_receive_inv:
  assumes inv: "rec_inv handed (r, w)" and run: "run_receive R delays r w = (r', w')"
  shows "rec_inv handed (r', w')"
proof -
  have b: "bounded r" using inv by (simp add: rec_inv_def)
  show ?thesis
  proof (cases "rc_done r")
    case True
    then show ?thesis using run inv by (simp add: run_receive_def)
  next
    case False
    show ?thesis
    proof (cases "rc_queue r")
      case Nil
      show ?thesis
      proof (cases "rc_closed r")
        case True
        obtain r1 w1 where f: "flush_batch R delays (rc_batch r) r w = (r1, w1)" by fastforce
        have "bounded (r\<lparr>rc_batch := []\<rparr>)" using b by (auto simp: bounded_def)
        note h = rec_inv_flush_batch [OF inv this f]
        then have i1: "rec_inv handed (r1, w1)" and q: "rc_batch r1 = []" "rc_queue r1 = []" "rc_closed r1"
          using Nil True by simp_all
        have b1: "bounded r1" using i1 by (simp add: rec_inv_def)
        have "rec_inv handed (r1\<lparr>rc_done := True\<rparr>, w1)"
          by (rule rec_inv_move [OF i1]) (use b1 q in \<open>simp_all add: held_def bounded_def\<close>)
        then show ?thesis using run False Nil True f by (simp add: run_receive_def)
      qed (use run inv False Nil in \<open>simp add: run_receive_def\<close>)
    next
      case (Cons entry rest)
      let ?r1 = "r\<lparr>rc_queue := rest, rc_batch := rc_batch r @ [entry]\<rparr>"
      show ?thesis
      proof (cases "length (rc_batch ?r1) \<ge> requestLogBatchSize")
        case True
        obtain gone where g: "mset handed = mset (held ?r1) + mset gone" "settled gone (rc_dropped ?r1) w"
            "rc_dropped ?r1 > 0 \<longrightarrow> rc_flush_err ?r1 \<noteq> None"
          using inv Cons by (auto simp: rec_inv_def held_def)
        have bn: "bounded (?r1\<lparr>rc_batch := []\<rparr>)" using b Cons by (auto simp: bounded_def)
        obtain e r2 w2 where f: "flush R delays (rc_batch ?r1) (?r1\<lparr>rc_batch := []\<rparr>) w = (e, r2, w2)"
          by (metis prod_cases3)
        from flush_settles [OF f] obtain n where n:
          "r2 = (?r1\<lparr>rc_batch := []\<rparr>)\<lparr>rc_dropped := rc_dropped (?r1\<lparr>rc_batch := []\<rparr>) + n\<rparr>"
          "stored w \<subseteq> stored w2" "settled (rc_batch ?r1) n w2" "e = None \<longleftrightarrow> n = 0" .
        have out: "r' = rememberFlushError e r2" "w' = w2"
          using run False Cons True f by (simp_all add: run_receive_def flush_batch_def)
        have "rec_inv handed (rememberFlushError e r2, w2)"
        proof (rule rec_invI)
          show "mset handed = mset (held (rememberFlushError e r2)) + mset (gone @ rc_batch ?r1)"
            using g(1) n(1) by (simp add: held_def)
          show "settled (gone @ rc_batch ?r1) (rc_dropped (rememberFlushError e r2)) w2"
            using settled_append [OF settled_mono [OF g(2) n(2)] n(3)] n(1) by simp
        qed (use bn g(3) n(1,4) in \<open>auto simp: bounded_def simp del: not_None_eq\<close>)
        then show ?thesis using out by simp
      next
        case small: False
        then have "(r', w') = (?r1, w)" using run False Cons by (simp add: run_receive_def Let_def)
        moreover have "rec_inv handed (?r1, w)"
          by (rule rec_inv_move [OF inv]) (use b Cons small in \<open>auto simp: held_def bounded_def\<close>)
        ultimately show ?thesis by simp
      qed
    qed
  qed
qed

lemma fallback_flush_inv:
  assumes inv: "rec_inv handed (r, w)" and run: "fallback_flush R delays i r w = (r', w')"
  shows "rec_inv handed (r', w')"
proof (cases "i < length (rc_fallbacks r)")
  case False
  then show ?thesis using run inv by (simp add: fallback_flush_def)
next
  case True
  let ?entry = "rc_fallbacks r ! i" and ?r1 = "r\<lparr>rc_fallbacks := remove_nth i (rc_fallbacks r)\<rparr>"
  have b: "bounded ?r1" using inv True by (auto simp: rec_inv_def bounded_def)
  obtain e r2 w2 where f: "flush R delays [?entry] ?r1 w = (e, r2, w2)" by (metis prod_cases3)
  from flush_settles [OF f] obtain n where n: "r2 = ?r1\<lparr>rc_dropped := rc_dropped ?r1 + n\<rparr>"
    "stored w \<subseteq> stored w2" "settled [?entry] n w2" "e = None \<longleftrightarrow> n = 0" .
  have "rec_inv handed (rememberFlushError e r2, w2)"
  proof (rule rec_inv_settle [OF inv n(2,3)])
    show "mset (held r) = mset (held (rememberFlushError e r2)) + mset [?entry]"
      using n(1) mset_remove_nth [OF True] by (simp add: held_def)
  qed (use n b in \<open>auto simp: bounded_def simp del: not_None_eq\<close>)
  then show ?thesis using run True f by (simp add: fallback_flush_def)
qed

lemma run_cancelled_inv:
  assumes inv: "rec_inv handed (r, w)"
  shows "rec_inv handed (run_cancelled r, w)"
proof (cases "rc_done r \<or> \<not> rc_closed r")
  case True
  then show ?thesis using inv by (auto simp: run_cancelled_def)
next
  case False
  have b: "bounded r" using inv by (simp add: rec_inv_def)
  show ?thesis
  proof (rule rec_inv_settle [OF inv subset_refl settled_lost [of "rc_batch r @ rc_queue r"]])
    show "mset (held r) = mset (held (run_cancelled r)) + mset (rc_batch r @ rc_queue r)"
      using False by (simp add: run_cancelled_def held_def Let_def)
  qed (use False b in \<open>auto simp: run_cancelled_def bounded_def Let_def requestLogBatchSize_def simp del: not_None_eq\<close>)
qed

lemma recorder_event_inv:
  assumes inv: "rec_inv handed (r, w)"
  shows "rec_inv (handed @ recorded [ev]) (recorder_event R delays ev (r, w))"
proof -
  have b: "bounded r" using inv by (simp add: rec_inv_def)
  show ?thesis
  proof (cases ev)
    case (RecordEntry entry)
    then show ?thesis using submit_entry_inv [OF inv] by simp
  next
    case (FallbackBegin i)
    then show ?thesis using fallback_begin_inv [OF inv] by simp
  next
    case Receive
    then show ?thesis using run_receive_inv [OF inv] by (cases "run_receive R delays r w") simp
  next
    case Tick
    have "bounded (r\<lparr>rc_batch := []\<rparr>)" using b by (auto simp: bounded_def)
    with Tick inv rec_inv_flush_batch [OF inv this] show ?thesis
      by (cases "flush_batch R delays (rc_batch r) r w") (simp add: run_tick_def)
  next
    case Cancelled
    then show ?thesis using run_cancelled_inv [OF inv] by simp
  next
    case CloseQueue
    then show ?thesis using b by (simp add: close_queue_def) (rule rec_inv_move [OF inv]; simp add: held_def bounded_def)
  next
    case (FallbackAcquire i)
    have "rec_inv handed (fallback_acquire i r, w)"
      by (rule rec_inv_move [OF inv])
        (use b mset_remove_nth [of i "rc_waiting r"] in \<open>auto simp: fallback_acquire_def held_def bounded_def\<close>)
    with FallbackAcquire show ?thesis by simp
  next
    case (FallbackGiveUp i)
    show ?thesis
    proof (cases "i < length (rc_waiting r)")
      case True
      have "rec_inv handed (rejectFallback (r\<lparr>rc_waiting := remove_nth i (rc_waiting r)\<rparr>), w)"
        by (rule rec_inv_reject [OF inv, of "rc_waiting r ! i"])
          (use b mset_remove_nth [OF True] True in \<open>auto simp: held_def bounded_def\<close>)
      with True FallbackGiveUp show ?thesis by (simp add: fallback_give_up_def)
    qed (use inv FallbackGiveUp in \<open>simp add: fallback_give_up_def\<close>)
  next
    case (FallbackFlush i)
    then show ?thesis using fallback_flush_inv [OF inv] by (cases "fallback_flush R delays i r w") simp
  qed
qed

lemma recorded_append: "recorded (xs @ ys) = recorded xs @ recorded ys"
proof (induction xs)
  case (Cons x xs)
  then show ?case by (cases x) simp_all
qed simp

lemma recorder_run_inv: "rec_inv (recorded evs) (recorder_run R delays evs (newRequestRecorder, w))"
proof (induction evs rule: rev_induct)
  case Nil
  then show ?case by (simp add: recorder_run_def rec_inv_new)
next
  case (snoc ev evs)
  obtain r w' where rw: "recorder_run R delays evs (newRequestRecorder, w) = (r, w')" by fastforce
  from snoc recorder_event_inv [of "recorded evs" r w' ev delays] rw
  show ?case by (simp add: recorder_run_def recorded_append)
qed

text \<open>At any moment every record is held somewhere, stored or counted as lost.\<close>

lemma recorder_conservation:
  assumes "recorder_run R delays evs (newRequestRecorder, w) = (r, w')"
  shows "(\<exists>kept lost. mset (recorded evs) = mset (held r) + mset kept + mset lost \<and> length lost = rc_dropped r
      \<and> rl_request_id ` set kept \<subseteq> stored w')
    \<and> bounded r \<and> (rc_dropped r > 0 \<longrightarrow> rc_flush_err r \<noteq> None)"
proof -
  from recorder_run_inv [of evs delays w] assms obtain gone
    where g: "mset (recorded evs) = mset (held r) + mset gone" "settled gone (rc_dropped r) w'" "bounded r"
      "rc_dropped r > 0 \<longrightarrow> rc_flush_err r \<noteq> None"
    by (auto simp: rec_inv_def)
  from g(2) obtain kept lost where "mset gone = mset kept + mset lost" "rc_dropped r = length lost"
    "rl_request_id ` set kept \<subseteq> stored w'" by (auto simp: settled_def)
  then show ?thesis using g by (metis add.assoc)
qed

end

text \<open>
  A repository whose only failures are data errors on invalid records (no outage, no shutdown, and
  room for \<open>n\<close> more records): then the splitting loses exactly the invalid records.
\<close>

locale poison_sink = request_sink R stored
  for R :: "'w RequestSink" and stored :: "'w \<Rightarrow> string set" +
  fixes save :: "RequestLog list \<Rightarrow> 'w \<Rightarrow> WriteError option \<times> 'w"
    and ok :: "nat \<Rightarrow> 'w \<Rightarrow> bool" and fits :: "RequestLog list \<Rightarrow> bool" and poison :: "RequestLog \<Rightarrow> bool"
  assumes has_batch: "rs_batch R = Some save"
    and ok_ctx: "ok n w \<Longrightarrow> rs_ctx_done R w = (d, w') \<Longrightarrow> \<not> d \<and> ok n w'"
    and ok_mono: "ok n w \<Longrightarrow> m \<le> n \<Longrightarrow> ok m w"
    and fits_take: "fits xs \<Longrightarrow> fits (take k xs)" and fits_drop: "fits xs \<Longrightarrow> fits (drop k xs)"
    and ok_save: "ok n w \<Longrightarrow> fits entries \<Longrightarrow> length entries \<le> n \<Longrightarrow> save entries w = (err, w') \<Longrightarrow>
      (case err of None \<Rightarrow> \<not> (\<exists>e \<in> set entries. poison e) \<and> ok (n - length entries) w'
       | Some e \<Rightarrow> (\<exists>e \<in> set entries. poison e) \<and> isRecordDataError e \<and> ok n w')"
begin

lemma flush_attempts_isolates':
  assumes "R' = R" "save' = save" "ok m w" "fits entries" "length entries \<le> m"
    "flush_attempts R' save' retries attempt entries w = (err, n, w')"
  shows "ok (m - length entries) w' \<and> n = length (filter poison entries)
    \<and> rl_request_id ` set (filter (\<lambda>e. \<not> poison e) entries) \<subseteq> stored w'"
  using assms
proof (induction R' save' retries attempt entries w arbitrary: err n w' m rule: flush_attempts.induct)
  case (1 R' save' retries attempt entries w)
  note R = "1.prems"(1,2)
  note step = "1.prems"(6) [unfolded flush_attempts.simps [of R' save' retries attempt entries w]]
  show ?case
  proof (cases "entries = []")
    case True
    with step "1.prems"(3) show ?thesis by simp
  next
    case ne: False
    obtain werr w1 where wr: "save entries w = (werr, w1)" by fastforce
    note w1 = ok_save [OF "1.prems"(3-5) wr] and st = batch_stores [OF has_batch wr]
    show ?thesis
    proof (cases werr)
      case None
      then have "\<forall>e \<in> set entries. \<not> poison e" using w1 by simp
      with None show ?thesis using step ne wr w1 st R by (auto simp: filter_empty_conv)
    next
      case (Some e)
      then have e: "isRecordDataError e" "\<exists>e \<in> set entries. poison e" "ok m w1" using w1 by auto
      obtain d1 w2 where c1: "rs_ctx_done R' w1 = (d1, w2)" by fastforce
      have d1: "\<not> d1" "ok m w2" using ok_ctx [OF e(3)] c1 R by auto
      let ?l = "take (length entries div 2) entries" and ?r = "drop (length entries div 2) entries"
      show ?thesis
      proof (cases "length entries > 1")
        case True
        have wr': "(Some e, w1) = save' entries w" using wr Some R(2) by simp
        obtain e1 n1 w4 where l: "flush_attempts R' save' retries 0 ?l w2 = (e1, n1, w4)" by (metis prod_cases3)
        obtain e2 n2 w5 where r: "flush_attempts R' save' retries 0 ?r w4 = (e2, n2, w5)" by (metis prod_cases3)
        have out: "n = n1 + n2" "w' = w5" using step ne wr Some c1 d1 e True l r R by auto
        have len: "length ?l \<le> m" "length ?r \<le> m - length ?l" "m - length ?l - length ?r = m - length entries"
          using "1.prems"(5) by auto
        have IHl: "ok (m - length ?l) w4 \<and> n1 = length (filter poison ?l)
            \<and> rl_request_id ` set (filter (\<lambda>e. \<not> poison e) ?l) \<subseteq> stored w4"
          by (rule "1.IH"(1) [OF ne wr' refl c1 [symmetric] conjI [OF d1(1) e(1)] True R d1(2)
                fits_take [OF "1.prems"(4)] len(1) l])
        have IHr: "ok (m - length ?l - length ?r) w5 \<and> n2 = length (filter poison ?r)
            \<and> rl_request_id ` set (filter (\<lambda>e. \<not> poison e) ?r) \<subseteq> stored w5"
          by (rule "1.IH"(2) [OF ne wr' refl c1 [symmetric] conjI [OF d1(1) e(1)] True
                l [symmetric] refl R conjunct1 [OF IHl] fits_drop [OF "1.prems"(4)] len(2) r])
        have mono: "stored w4 \<subseteq> stored w5" using flush_attempts_settles [OF has_batch] r R by blast
        have "entries = ?l @ ?r" by simp
        then have split: "filter P entries = filter P ?l @ filter P ?r" for P by (metis filter_append)
        show ?thesis unfolding split using IHl IHr mono out len(3)
          by (simp only: length_append set_append image_Un) blast
      next
        case False
        then obtain x where x: "entries = [x]" using ne by (cases entries) auto
        then have "poison x" using e(2) by simp
        then show ?thesis using step wr Some c1 d1 e x R ok_mono [OF d1(2), of "m - 1"] by auto
      qed
    qed
  qed
qed

lemma flush_isolates:
  assumes "ok m w" "fits entries" "length entries \<le> m" "flush R delays entries r w = (err, r', w')"
  shows "rc_dropped r' = rc_dropped r + length (filter poison entries)
    \<and> rl_request_id ` set (filter (\<lambda>e. \<not> poison e) entries) \<subseteq> stored w'"
proof -
  obtain e n w1 where f: "flush_attempts R save (length delays) 0 entries w = (e, n, w1)" by (metis prod_cases3)
  note h = flush_attempts_isolates' [OF refl refl assms(1-3) f]
  show ?thesis
    using assms h f has_batch by (cases "entries = []") (auto simp: flush_def)
qed

end

end
