(* ===== verification/Usage_Store.thy ===== *)
theory Usage_Store
  imports Pricing Recorder "HOL-Library.Product_Lexorder" "HOL-Library.List_Lexorder" "HOL-Library.Char_ord"
begin

text \<open>
  The persistence of request logs and usage aggregates: \<open>RecordRequests\<close> with \<open>prepareRequest\<close>
  (\<open>internal/store/logs.go\<close>) and the batch writer of \<open>internal/store/log_batch.go\<close>, which coalesces
  the updates of one transaction in memory and applies them in key order, next to the one-statement
  path of a single record. Tables are association lists keyed by their primary key. What the database
  rejects by type or constraint is the parameter \<open>rejects\<close> (the SQLSTATE, if any); outages are scripted.
\<close>

section \<open>Aggregates\<close>

record usageAggregate =
  ua_requests :: int
  ua_successes :: int
  ua_input :: int
  ua_output :: int
  ua_cache_read :: int
  ua_cache_write :: int
  ua_cache_write_requests :: int
  ua_uncached :: int
  ua_usage_requests :: int
  ua_cache_hits :: int
  ua_output_usage_requests :: int
  ua_cost :: rat
  ua_cost_known :: int

record usageAggregateKey =
  uk_period :: time
  uk_api_key_id :: int
  uk_group_id :: int
  uk_upstream_id :: int
  uk_protocol :: string
  uk_model :: string

record lifetimeAggregate =
  la_requests :: int
  la_cost_known :: int
  la_cost :: rat

definition zero_aggregate :: usageAggregate where
  "zero_aggregate = \<lparr>ua_requests = 0, ua_successes = 0, ua_input = 0, ua_output = 0, ua_cache_read = 0,
     ua_cache_write = 0, ua_cache_write_requests = 0, ua_uncached = 0, ua_usage_requests = 0,
     ua_cache_hits = 0, ua_output_usage_requests = 0, ua_cost = 0, ua_cost_known = 0\<rparr>"

definition zero_lifetime :: lifetimeAggregate where
  "zero_lifetime = \<lparr>la_requests = 0, la_cost_known = 0, la_cost = 0\<rparr>"

definition pointerValue :: "int option \<Rightarrow> int" where
  "pointerValue v = (case v of None \<Rightarrow> 0 | Some n \<Rightarrow> n)"

text \<open>\<open>math.Round(x*1e8)/1e8\<close>: halves away from zero, as the column type \<open>NUMERIC(20,8)\<close> rounds.\<close>

definition round_half_away :: "rat \<Rightarrow> int" where
  "round_half_away x = (if x < 0 then - \<lfloor>- x + 1 / 2\<rfloor> else \<lfloor>x + 1 / 2\<rfloor>)"

definition round8 :: "rat \<Rightarrow> rat" where
  "round8 x = of_int (round_half_away (x * 100000000)) / 100000000"

definition aggregateRequest :: "RequestLog \<Rightarrow> usageAggregate" where
  "aggregateRequest e =
     (let u = rl_usage e in
      \<lparr>ua_requests = 1,
       ua_successes = (if rl_status_code e \<ge> 200 \<and> rl_status_code e \<le> 399 \<and> rl_error_code e = [] then 1 else 0),
       ua_input = pointerValue (ut_input u), ua_output = pointerValue (ut_output u),
       ua_cache_read = pointerValue (ut_cached u), ua_cache_write = pointerValue (ut_cache_creation u),
       ua_cache_write_requests = (if ut_cache_creation u \<noteq> None then 1 else 0),
       ua_uncached = pointerValue (ut_uncached u),
       ua_usage_requests = (if ut_input u \<noteq> None then 1 else 0),
       ua_cache_hits = (if pointerValue (ut_cached u) > 0 then 1 else 0),
       ua_output_usage_requests = (if ut_output u \<noteq> None then 1 else 0),
       ua_cost = (case rl_cost_usd e of None \<Rightarrow> 0 | Some c \<Rightarrow> round8 c),
       ua_cost_known = (if rl_cost_usd e \<noteq> None then 1 else 0)\<rparr>)"

text \<open>Exact addition, and Go's, where each \<open>int64\<close> counter wraps.\<close>

definition agg_add :: "usageAggregate \<Rightarrow> usageAggregate \<Rightarrow> usageAggregate" where
  "agg_add a b = \<lparr>ua_requests = ua_requests a + ua_requests b, ua_successes = ua_successes a + ua_successes b,
     ua_input = ua_input a + ua_input b, ua_output = ua_output a + ua_output b,
     ua_cache_read = ua_cache_read a + ua_cache_read b, ua_cache_write = ua_cache_write a + ua_cache_write b,
     ua_cache_write_requests = ua_cache_write_requests a + ua_cache_write_requests b,
     ua_uncached = ua_uncached a + ua_uncached b, ua_usage_requests = ua_usage_requests a + ua_usage_requests b,
     ua_cache_hits = ua_cache_hits a + ua_cache_hits b,
     ua_output_usage_requests = ua_output_usage_requests a + ua_output_usage_requests b,
     ua_cost = ua_cost a + ua_cost b, ua_cost_known = ua_cost_known a + ua_cost_known b\<rparr>"

definition agg_map :: "(int \<Rightarrow> int) \<Rightarrow> usageAggregate \<Rightarrow> usageAggregate" where
  "agg_map f a = \<lparr>ua_requests = f (ua_requests a), ua_successes = f (ua_successes a), ua_input = f (ua_input a),
     ua_output = f (ua_output a), ua_cache_read = f (ua_cache_read a), ua_cache_write = f (ua_cache_write a),
     ua_cache_write_requests = f (ua_cache_write_requests a), ua_uncached = f (ua_uncached a),
     ua_usage_requests = f (ua_usage_requests a), ua_cache_hits = f (ua_cache_hits a),
     ua_output_usage_requests = f (ua_output_usage_requests a), ua_cost = ua_cost a,
     ua_cost_known = f (ua_cost_known a)\<rparr>"

definition agg_all :: "(int \<Rightarrow> bool) \<Rightarrow> usageAggregate \<Rightarrow> bool" where
  "agg_all P a \<longleftrightarrow> P (ua_requests a) \<and> P (ua_successes a) \<and> P (ua_input a) \<and> P (ua_output a) \<and> P (ua_cache_read a)
     \<and> P (ua_cache_write a) \<and> P (ua_cache_write_requests a) \<and> P (ua_uncached a) \<and> P (ua_usage_requests a)
     \<and> P (ua_cache_hits a) \<and> P (ua_output_usage_requests a) \<and> P (ua_cost_known a)"

definition addUsageAggregate :: "usageAggregate \<Rightarrow> usageAggregate \<Rightarrow> usageAggregate" where
  "addUsageAggregate left right = agg_map wrap64 (agg_add left right)"

section \<open>The tables\<close>

type_synonym usage_table = "(usageAggregateKey \<times> usageAggregate) list"

definition usage_at :: "usage_table \<Rightarrow> usageAggregateKey \<Rightarrow> usageAggregate" where
  "usage_at t k = (case map_of t k of None \<Rightarrow> zero_aggregate | Some v \<Rightarrow> v)"

text \<open>A \<open>BIGINT\<close> column raises numeric-value-out-of-range instead of wrapping.\<close>

fun upsert_usage :: "usage_table \<Rightarrow> (usageAggregateKey \<times> usageAggregate) list \<Rightarrow> usage_table option" where
  "upsert_usage t [] = Some t"
| "upsert_usage t ((k, v) # kvs) =
     (let v' = agg_add (usage_at t k) v
      in if agg_all in_int64 v' then upsert_usage (AList.update k v' t) kvs else None)"

definition sortedUsageAggregateKeys :: "usage_table \<Rightarrow> usageAggregateKey list" where
  "sortedUsageAggregateKeys m =
     sort_key (\<lambda>k. (uk_period k, uk_api_key_id k, uk_group_id k, uk_upstream_id k, uk_protocol k, uk_model k))
       (map fst m)"

definition upsertUsageAggregates :: "usage_table \<Rightarrow> usage_table \<Rightarrow> usage_table option" where
  "upsertUsageAggregates t m = upsert_usage t (map (\<lambda>k. (k, usage_at m k)) (sortedUsageAggregateKeys m))"

definition lifetime_add :: "lifetimeAggregate \<Rightarrow> lifetimeAggregate \<Rightarrow> lifetimeAggregate" where
  "lifetime_add a b = \<lparr>la_requests = la_requests a + la_requests b,
     la_cost_known = la_cost_known a + la_cost_known b, la_cost = la_cost a + la_cost b\<rparr>"

type_synonym lifetime_table = "(int \<times> lifetimeAggregate) list"

definition lifetime_at :: "lifetime_table \<Rightarrow> int \<Rightarrow> lifetimeAggregate" where
  "lifetime_at t u = (case map_of t u of None \<Rightarrow> zero_lifetime | Some v \<Rightarrow> v)"

fun upsert_lifetime :: "lifetime_table \<Rightarrow> (int \<times> lifetimeAggregate) list \<Rightarrow> lifetime_table" where
  "upsert_lifetime t [] = t"
| "upsert_lifetime t ((u, v) # uvs) = upsert_lifetime (AList.update u (lifetime_add (lifetime_at t u) v) t) uvs"

definition upsertLifetimeAggregates :: "lifetime_table \<Rightarrow> lifetime_table \<Rightarrow> lifetime_table" where
  "upsertLifetimeAggregates t m = upsert_lifetime t (map (\<lambda>u. (u, lifetime_at m u)) (sort (map fst m)))"

datatype DbFault = NotCommitted WriteError | CommitUnknown WriteError

record StoredLog =
  sl_entry :: RequestLog
  sl_api_key :: "int option"
  sl_upstream :: "int option"

record LogStore =
  ls_logs :: "StoredLog list"
  ls_key_ids :: "int list"
  ls_upstream_ids :: "int list"
  ls_daily :: usage_table
  ls_hourly :: usage_table
  ls_lifetime :: lifetime_table
  ls_pricing :: PricingDB
  ls_price_cache :: PricingCache
  ls_now :: time
  ls_zone :: time
  ls_price_faults :: "WriteError option list"
  ls_faults :: "DbFault option list"
  ls_ctx :: "bool list"

section \<open>Preparing and recording\<close>

text \<open>Whether \<open>RequestCost\<close> has to read the prices from the database, which may fail.\<close>

definition cost_is_loaded :: "int \<Rightarrow> string \<Rightarrow> Usage \<Rightarrow> time \<Rightarrow> time \<Rightarrow> PricingCache \<Rightarrow> bool" where
  "cost_is_loaded upstream_id model u tm now cache \<longleftrightarrow>
     \<not> (upstream_id \<le> 0 \<or> trim_space model = [])
     \<and> \<not> (ut_input u = None \<and> ut_output u = None \<and> ut_cached u = None \<and> ut_cache_creation u = None \<and> ut_uncached u = None)
     \<and> (case fst (pricing_cached cache \<lparr>pk_upstream_id = upstream_id, pk_model = trim_space model\<rparr> now) of
          None \<Rightarrow> True | Some entry \<Rightarrow> \<not> covers entry (round_us tm))"

definition next_price_fault :: "LogStore \<Rightarrow> WriteError option \<times> LogStore" where
  "next_price_fault s =
     (case ls_price_faults s of [] \<Rightarrow> (None, s) | f # fs \<Rightarrow> (f, s\<lparr>ls_price_faults := fs\<rparr>))"

definition request_cost :: "int \<Rightarrow> RequestLog \<Rightarrow> LogStore \<Rightarrow> (WriteError + rat option) \<times> LogStore" where
  "request_cost u e s =
     (let loaded = cost_is_loaded u (rl_model e) (rl_usage e) (rl_created_at e) (ls_now s) (ls_price_cache s)
      in case (if loaded then next_price_fault s else (None, s)) of
           (Some err, s) \<Rightarrow> (Inl err, s)
         | (None, s) \<Rightarrow>
             (case RequestCost (ls_pricing s) u (rl_model e) (rl_usage e) (rl_created_at e) (ls_now s) (ls_price_cache s) of
                (cost, cache) \<Rightarrow> (Inr cost, s\<lparr>ls_price_cache := cache\<rparr>)))"

text \<open>The attempts hold only strings and integers, so that encoding them as JSON cannot fail.\<close>

definition with_defaults :: "time \<Rightarrow> RequestLog \<Rightarrow> RequestLog" where
  "with_defaults now e =
     (let e = (if is_zero_time (rl_created_at e) then e\<lparr>rl_created_at := now\<rparr> else e)
      in if rl_protocol e = ProtocolMessages
         then e\<lparr>rl_usage := (rl_usage e)\<lparr>ut_billable := ut_input (rl_usage e)\<rparr>\<rparr> else e)"

definition prepareRequest :: "RequestLog \<Rightarrow> LogStore \<Rightarrow> (WriteError + RequestLog) \<times> LogStore" where
  "prepareRequest e s =
     (let e = with_defaults (ls_now s) e
      in case rl_upstream_id e of
           None \<Rightarrow> (Inr e, s)
         | Some u \<Rightarrow>
             (case request_cost u e s of
                (Inl err, s) \<Rightarrow> (Inl err, s)
              | (Inr cost, s) \<Rightarrow> (Inr (e\<lparr>rl_cost_usd := cost\<rparr>), s)))"

fun prepare_all :: "RequestLog list \<Rightarrow> string list \<Rightarrow> LogStore \<Rightarrow> (WriteError + RequestLog list) \<times> LogStore" where
  "prepare_all [] seen s = (Inr [], s)"
| "prepare_all (e # es) seen s =
     (if rl_request_id e \<in> set seen then prepare_all es seen s
      else case prepareRequest e s of
        (Inl err, s1) \<Rightarrow> (Inl err, s1)
      | (Inr item, s1) \<Rightarrow>
          (case prepare_all es (rl_request_id e # seen) s1 of
             (Inl err, s2) \<Rightarrow> (Inl err, s2)
           | (Inr items, s2) \<Rightarrow> (Inr (item # items), s2)))"

text \<open>Row references: an id that is zero or no longer exists is NULL.\<close>

definition reference :: "int list \<Rightarrow> int option \<Rightarrow> int option" where
  "reference ids x = (case x of None \<Rightarrow> None | Some i \<Rightarrow> if i \<in> set ids then Some i else None)"

definition nullableID :: "int \<Rightarrow> int option" where
  "nullableID i = (if i = 0 then None else Some i)"

definition log_row :: "LogStore \<Rightarrow> RequestLog \<Rightarrow> StoredLog" where
  "log_row s e = \<lparr>sl_entry = e, sl_api_key = reference (ls_key_ids s) (nullableID (rl_api_key_id e)),
     sl_upstream = reference (ls_upstream_ids s) (rl_upstream_id e)\<rparr>"

definition logged :: "LogStore \<Rightarrow> string \<Rightarrow> bool" where
  "logged s rid \<longleftrightarrow> rid \<in> set (map (rl_request_id \<circ> sl_entry) (ls_logs s))"

text \<open>\<open>INSERT ... ON CONFLICT(request_id) DO NOTHING RETURNING\<close>: the rows that are new.\<close>

definition insertRequestLogBatch ::
  "(RequestLog \<Rightarrow> string option) \<Rightarrow> LogStore \<Rightarrow> RequestLog list \<Rightarrow> WriteError + StoredLog list" where
  "insertRequestLogBatch rejects s items =
     (case List.map_filter rejects items of
        code # _ \<Rightarrow> Inl (WriteError (Some code) ''insert request logs'')
      | [] \<Rightarrow> Inr (map (log_row s) (filter (\<lambda>e. \<not> logged s (rl_request_id e)) items)))"

definition usage_key :: "(time \<Rightarrow> time) \<Rightarrow> int \<Rightarrow> int \<Rightarrow> RequestLog \<Rightarrow> usageAggregateKey" where
  "usage_key period k u e = \<lparr>uk_period = period (rl_created_at e), uk_api_key_id = k,
     uk_group_id = (case rl_group_id e of None \<Rightarrow> 0 | Some g \<Rightarrow> g), uk_upstream_id = u,
     uk_protocol = rl_protocol e, uk_model = rl_model e\<rparr>"

definition day_of :: "time \<Rightarrow> time" where "day_of t = truncate_time t (24 * hour)"
definition hour_of :: "time \<Rightarrow> time" where "hour_of t = truncate_time t hour"

text \<open>
  The keys of the single statement, which PostgreSQL computes from the stored \<open>timestamptz\<close>: the time
  is rounded to microseconds first, the day is taken in UTC and the hour by \<open>date_trunc\<close> in the time
  zone of the session (its offset from UTC is \<open>ls_zone\<close>).
\<close>

definition sql_day :: "time \<Rightarrow> time" where "sql_day t = truncate_time (round_us t) (24 * hour)"
definition sql_hour :: "time \<Rightarrow> time \<Rightarrow> time" where "sql_hour zone t = truncate_time (round_us t + zone) hour - zone"

text \<open>The updates of the inserted rows that have both references, in order.\<close>

definition usage_updates :: "(time \<Rightarrow> time) \<Rightarrow> StoredLog list \<Rightarrow> (usageAggregateKey \<times> usageAggregate) list" where
  "usage_updates period rows = List.map_filter (\<lambda>r.
     case (sl_api_key r, sl_upstream r) of
       (Some k, Some u) \<Rightarrow> Some (usage_key period k u (sl_entry r), aggregateRequest (sl_entry r))
     | _ \<Rightarrow> None) rows"

definition lifetime_updates :: "StoredLog list \<Rightarrow> (int \<times> lifetimeAggregate) list" where
  "lifetime_updates rows = List.map_filter (\<lambda>r.
     case (sl_api_key r, sl_upstream r) of
       (Some k, Some u) \<Rightarrow> (let v = aggregateRequest (sl_entry r)
          in Some (u, \<lparr>la_requests = 1, la_cost_known = ua_cost_known v, la_cost = ua_cost v\<rparr>))
     | _ \<Rightarrow> None) rows"

text \<open>The in-memory maps of the batch.\<close>

fun coalesce_usage :: "usage_table \<Rightarrow> (usageAggregateKey \<times> usageAggregate) list \<Rightarrow> usage_table" where
  "coalesce_usage m [] = m"
| "coalesce_usage m ((k, v) # kvs) = coalesce_usage (AList.update k (addUsageAggregate (usage_at m k) v) m) kvs"

fun coalesce_lifetime :: "lifetime_table \<Rightarrow> (int \<times> lifetimeAggregate) list \<Rightarrow> lifetime_table" where
  "coalesce_lifetime m [] = m"
| "coalesce_lifetime m ((u, v) # uvs) = coalesce_lifetime (AList.update u (lifetime_add (lifetime_at m u) v) m) uvs"

definition out_of_range :: WriteError where
  "out_of_range = WriteError (Some ''22003'') ''bigint out of range''"

definition recordPreparedBatch ::
  "(RequestLog \<Rightarrow> string option) \<Rightarrow> RequestLog list \<Rightarrow> LogStore \<Rightarrow> WriteError + LogStore" where
  "recordPreparedBatch rejects items s =
     (case insertRequestLogBatch rejects s items of
        Inl e \<Rightarrow> Inl e
      | Inr rows \<Rightarrow>
          (case upsertUsageAggregates (ls_daily s) (coalesce_usage [] (usage_updates day_of rows)) of
             None \<Rightarrow> Inl out_of_range
           | Some daily \<Rightarrow>
               (case upsertUsageAggregates (ls_hourly s) (coalesce_usage [] (usage_updates hour_of rows)) of
                  None \<Rightarrow> Inl out_of_range
                | Some hourly \<Rightarrow>
                    Inr (s\<lparr>ls_logs := ls_logs s @ rows, ls_daily := daily, ls_hourly := hourly,
                           ls_lifetime := upsertLifetimeAggregates (ls_lifetime s)
                             (coalesce_lifetime [] (lifetime_updates rows))\<rparr>))))"

text \<open>The statement for one record: a duplicate id or a missing reference is a constraint violation.\<close>

definition recordPreparedRequest ::
  "(RequestLog \<Rightarrow> string option) \<Rightarrow> RequestLog \<Rightarrow> LogStore \<Rightarrow> WriteError + LogStore" where
  "recordPreparedRequest rejects e s =
     (case rejects e of
        Some code \<Rightarrow> Inl (WriteError (Some code) ''insert request log'')
      | None \<Rightarrow>
          if logged s (rl_request_id e) then Inl (WriteError (Some ''23505'') ''duplicate request id'')
          else if sl_api_key (log_row s e) \<noteq> nullableID (rl_api_key_id e) \<or> sl_upstream (log_row s e) \<noteq> rl_upstream_id e
          then Inl (WriteError (Some ''23503'') ''missing reference'')
          else (case upsert_usage (ls_daily s) (usage_updates sql_day [log_row s e]) of
                  None \<Rightarrow> Inl out_of_range
                | Some daily \<Rightarrow>
                    (case upsert_usage (ls_hourly s) (usage_updates (sql_hour (ls_zone s)) [log_row s e]) of
                       None \<Rightarrow> Inl out_of_range
                     | Some hourly \<Rightarrow>
                         Inr (s\<lparr>ls_logs := ls_logs s @ [log_row s e], ls_daily := daily, ls_hourly := hourly,
                                ls_lifetime := upsert_lifetime (ls_lifetime s) (lifetime_updates [log_row s e])\<rparr>))))"

definition next_fault :: "LogStore \<Rightarrow> DbFault option \<times> LogStore" where
  "next_fault s = (case ls_faults s of [] \<Rightarrow> (None, s) | f # fs \<Rightarrow> (f, s\<lparr>ls_faults := fs\<rparr>))"

text \<open>A transaction: it fails without a trace, or is committed although the commit reports an error.\<close>

definition in_transaction :: "(LogStore \<Rightarrow> WriteError + LogStore) \<Rightarrow> LogStore \<Rightarrow> WriteError option \<times> LogStore" where
  "in_transaction body s =
     (case next_fault s of
        (Some (NotCommitted e), s1) \<Rightarrow> (Some e, s1)
      | (Some (CommitUnknown e), s1) \<Rightarrow> (case body s1 of Inl e' \<Rightarrow> (Some e', s1) | Inr s2 \<Rightarrow> (Some e, s2))
      | (None, s1) \<Rightarrow> (case body s1 of Inl e' \<Rightarrow> (Some e', s1) | Inr s2 \<Rightarrow> (None, s2)))"

definition RecordRequests ::
  "(RequestLog \<Rightarrow> string option) \<Rightarrow> RequestLog list \<Rightarrow> LogStore \<Rightarrow> WriteError option \<times> LogStore" where
  "RecordRequests rejects entries s =
     (if entries = [] then (None, s)
      else case prepare_all entries [] s of
        (Inl err, s1) \<Rightarrow> (Some err, s1)
      | (Inr items, s1) \<Rightarrow> in_transaction (recordPreparedBatch rejects items) s1)"

definition RecordRequest ::
  "(RequestLog \<Rightarrow> string option) \<Rightarrow> RequestLog \<Rightarrow> LogStore \<Rightarrow> WriteError option \<times> LogStore" where
  "RecordRequest rejects e s =
     (case prepareRequest e s of
        (Inl err, s1) \<Rightarrow> (Some err, s1)
      | (Inr item, s1) \<Rightarrow> in_transaction (recordPreparedRequest rejects item) s1)"

definition read_ctx :: "LogStore \<Rightarrow> bool \<times> LogStore" where
  "read_ctx s = (case ls_ctx s of [] \<Rightarrow> (False, s) | b # bs \<Rightarrow> (b, s\<lparr>ls_ctx := bs\<rparr>))"

definition log_sink :: "(RequestLog \<Rightarrow> string option) \<Rightarrow> LogStore RequestSink" where
  "log_sink rejects = \<lparr>rs_batch = Some (RecordRequests rejects), rs_single = RecordRequest rejects,
     rs_ctx_done = read_ctx\<rparr>"

section \<open>Sums of aggregates\<close>

lemmas agg_defs = agg_add_def agg_map_def agg_all_def zero_aggregate_def

lemma agg_add_zero [simp]: "agg_add zero_aggregate a = a" "agg_add a zero_aggregate = a"
  by (simp_all add: agg_defs)

lemma agg_add_assoc: "agg_add (agg_add a b) c = agg_add a (agg_add b c)"
  by (simp add: agg_defs add.assoc)

lemma wrap64_add_left: "wrap64 (wrap64 x + y) = wrap64 (x + y)"
proof -
  have "(wrap64 x + y + 2 ^ 63) mod 2 ^ 64 = ((x + 2 ^ 63) mod 2 ^ 64 + y) mod 2 ^ 64" by (simp add: wrap64_def)
  also have "\<dots> = (x + 2 ^ 63 + y) mod 2 ^ 64" by (rule mod_add_left_eq)
  also have "x + 2 ^ 63 + y = x + y + (2 ^ 63 :: int)" by simp
  finally show ?thesis by (simp add: wrap64_def)
qed

lemma addUsageAggregate_wrap: "addUsageAggregate (agg_map wrap64 a) b = agg_map wrap64 (agg_add a b)"
  by (simp add: addUsageAggregate_def agg_defs wrap64_add_left)

lemma agg_wrap_id: "agg_all in_int64 a \<Longrightarrow> agg_map wrap64 a = a"
  by (simp add: agg_defs wrap64_id)

lemma agg_all_mono: "agg_all P a \<Longrightarrow> (\<And>x. P x \<Longrightarrow> Q x) \<Longrightarrow> agg_all Q a"
  by (auto simp: agg_all_def)

lemma agg_all_add:
  "agg_all P a \<Longrightarrow> agg_all Q b \<Longrightarrow> (\<And>x y. P x \<Longrightarrow> Q y \<Longrightarrow> S (x + y)) \<Longrightarrow> agg_all S (agg_add a b)"
  by (simp add: agg_all_def agg_add_def)

lemma agg_all_right:
  "agg_all P a \<Longrightarrow> agg_all Q (agg_add a b) \<Longrightarrow> agg_all S b \<Longrightarrow> (\<And>x y. P x \<Longrightarrow> Q (x + y) \<Longrightarrow> S y \<Longrightarrow> U y) \<Longrightarrow> agg_all U b"
  by (simp add: agg_all_def agg_add_def) (elim conjE, intro conjI; blast)

fun agg_sum :: "usageAggregate list \<Rightarrow> usageAggregate" where
  "agg_sum [] = zero_aggregate"
| "agg_sum (a # as) = agg_add a (agg_sum as)"

definition sum_at :: "usageAggregateKey \<Rightarrow> (usageAggregateKey \<times> usageAggregate) list \<Rightarrow> usageAggregate" where
  "sum_at k items = agg_sum (map snd (filter (\<lambda>kv. fst kv = k) items))"

lemma sum_at_simps [simp]:
  "sum_at k [] = zero_aggregate"
  "sum_at k ((k', v) # items) = (if k' = k then agg_add v (sum_at k items) else sum_at k items)"
  by (simp_all add: sum_at_def)

lemma sum_at_none: "k \<notin> fst ` set items \<Longrightarrow> sum_at k items = zero_aggregate"
  by (induction items) auto

lemma sum_at_nonneg: "\<forall>kv \<in> set items. agg_all ((\<le>) 0) (snd kv) \<Longrightarrow> agg_all ((\<le>) 0) (sum_at k items)"
proof (induction items)
  case (Cons kv items)
  then show ?case by (cases kv) (auto intro: agg_all_add [where P = "(\<le>) 0" and Q = "(\<le>) 0"])
qed (simp add: agg_defs)

lemma usage_at_update: "usage_at (AList.update k v t) k' = (if k' = k then v else usage_at t k')"
  by (simp add: usage_at_def update_conv')

lemma coalesce_usage_wrap:
  assumes "usage_at m k = agg_map wrap64 a"
  shows "usage_at (coalesce_usage m items) k = agg_map wrap64 (agg_add a (sum_at k items))"
  using assms
proof (induction items arbitrary: m a)
  case (Cons kv items)
  obtain k' v where kv: "kv = (k', v)" by (cases kv)
  show ?case
  proof (cases "k' = k")
    case True
    have "usage_at (AList.update k' (addUsageAggregate (usage_at m k') v) m) k = agg_map wrap64 (agg_add a v)"
      using True Cons.prems by (simp add: usage_at_update addUsageAggregate_wrap)
    from Cons.IH [OF this] show ?thesis using kv True by (simp add: agg_add_assoc)
  next
    case False
    have "usage_at (AList.update k' (addUsageAggregate (usage_at m k') v) m) k = agg_map wrap64 a"
      using False Cons.prems by (simp add: usage_at_update)
    from Cons.IH [OF this] show ?thesis using kv False by simp
  qed
qed simp

lemma wrap64_zero [simp]: "wrap64 0 = 0"
  by (simp add: wrap64_def)

lemma coalesce_usage_at: "usage_at (coalesce_usage [] items) k = agg_map wrap64 (sum_at k items)"
  using coalesce_usage_wrap [of "[]" k zero_aggregate items] by (simp add: usage_at_def agg_defs)

lemma coalesce_usage_keys: "fst ` set (coalesce_usage m items) = fst ` set m \<union> fst ` set items"
proof (induction items arbitrary: m)
  case (Cons kv items)
  then show ?case by (cases kv) (simp add: dom_update)
qed simp

lemma coalesce_usage_distinct: "distinct (map fst m) \<Longrightarrow> distinct (map fst (coalesce_usage m items))"
proof (induction items arbitrary: m)
  case (Cons kv items)
  then show ?case by (cases kv) (simp add: distinct_update)
qed simp

lemma upsert_usage_result:
  assumes "upsert_usage t items = Some t'"
  shows "map_of t' k = (if k \<in> fst ` set items then Some (agg_add (usage_at t k) (sum_at k items)) else map_of t k)
    \<and> (k \<in> fst ` set items \<longrightarrow> agg_all in_int64 (agg_add (usage_at t k) (sum_at k items)))"
  using assms
proof (induction items arbitrary: t)
  case (Cons kv items)
  obtain k' v where kv: "kv = (k', v)" by (cases kv)
  let ?v = "agg_add (usage_at t k') v" and ?t = "AList.update k' (agg_add (usage_at t k') v) t"
  have rest: "upsert_usage ?t items = Some t'" and ok: "agg_all in_int64 ?v"
    using Cons.prems kv by (auto simp: Let_def split: if_splits)
  from Cons.IH [OF rest] show ?case using kv ok
    by (cases "k' = k"; cases "k \<in> fst ` set items")
      (auto simp: usage_at_update update_conv' agg_add_assoc sum_at_none)
qed simp

lemma upsert_usage_succeeds:
  assumes "distinct (map fst items)" "\<forall>(k, v) \<in> set items. agg_all in_int64 (agg_add (usage_at t k) v)"
  shows "\<exists>t'. upsert_usage t items = Some t'"
  using assms
proof (induction items arbitrary: t)
  case (Cons kv items)
  obtain k v where kv: "kv = (k, v)" by (cases kv)
  let ?t = "AList.update k (agg_add (usage_at t k) v) t"
  have "\<forall>(k', v') \<in> set items. agg_all in_int64 (agg_add (usage_at ?t k') v')"
  proof (intro ballI, clarify)
    fix k' v' assume m: "(k', v') \<in> set items"
    then have "k' \<noteq> k" using Cons.prems(1) kv by (auto simp: image_iff)
    then show "agg_all in_int64 (agg_add (usage_at ?t k') v')"
      using Cons.prems(2) m by (auto simp: usage_at_update)
  qed
  with Cons.IH [of ?t] Cons.prems kv show ?case by simp
qed simp

section \<open>Coalescing is exact\<close>

lemma sorted_keys_props:
  "distinct (map fst m) \<Longrightarrow> distinct (sortedUsageAggregateKeys m)"
  "set (sortedUsageAggregateKeys m) = fst ` set m"
  by (simp_all add: sortedUsageAggregateKeys_def)

lemma sum_at_keyed:
  "distinct ks \<Longrightarrow> sum_at k (map (\<lambda>k. (k, f k)) ks) = (if k \<in> set ks then f k else zero_aggregate)"
  by (induction ks) (auto simp: sum_at_none)

text \<open>
  If every counter stays in range when the updates are added up, then applying the coalesced batch
  succeeds and has the effect of all of them.
\<close>

lemma upsert_coalesced:
  assumes nonneg: "\<forall>kv \<in> set items. agg_all ((\<le>) 0) (snd kv)" "\<forall>k. agg_all ((\<le>) 0) (usage_at t k)"
    and fits: "\<forall>k \<in> fst ` set items. agg_all in_int64 (agg_add (usage_at t k) (sum_at k items))"
  obtains t' where "upsertUsageAggregates t (coalesce_usage [] items) = Some t'"
    "\<forall>k. map_of t' k = (if k \<in> fst ` set items then Some (agg_add (usage_at t k) (sum_at k items)) else map_of t k)"
proof -
  let ?m = "coalesce_usage [] items"
  let ?kvs = "map (\<lambda>k. (k, usage_at ?m k)) (sortedUsageAggregateKeys ?m)"
  have dist: "distinct (sortedUsageAggregateKeys ?m)" and keys: "set (sortedUsageAggregateKeys ?m) = fst ` set items"
    using sorted_keys_props [of ?m] coalesce_usage_distinct [of "[]" items] coalesce_usage_keys [of "[]" items] by auto
  have exact: "usage_at ?m k = sum_at k items" if "k \<in> fst ` set items" for k
  proof -
    have "agg_all in_int64 (sum_at k items)"
      by (rule agg_all_right [OF nonneg(2) [rule_format, of k] fits [rule_format, OF that] sum_at_nonneg [OF nonneg(1)]])
        (auto simp: in_int64_def min_int64_def)
    then show ?thesis by (simp add: coalesce_usage_at agg_wrap_id)
  qed
  have "distinct (map fst ?kvs)" using dist by (simp add: comp_def)
  moreover have "\<forall>(k, v) \<in> set ?kvs. agg_all in_int64 (agg_add (usage_at t k) v)"
    using fits keys exact by auto
  ultimately obtain t' where t': "upsert_usage t ?kvs = Some t'" using upsert_usage_succeeds by blast
  have "map_of t' k = (if k \<in> fst ` set items then Some (agg_add (usage_at t k) (sum_at k items)) else map_of t k)" for k
    using upsert_usage_result [OF t', of k] sum_at_keyed [OF dist, of k "usage_at ?m"] keys exact
    by (simp add: comp_def image_image)
  with t' show thesis by (intro that [of t']) (simp_all add: upsertUsageAggregates_def del: map_of_eq_Some_iff)
qed

lemma upsert_usage_append:
  "upsert_usage t (xs @ ys) = (case upsert_usage t xs of None \<Rightarrow> None | Some t' \<Rightarrow> upsert_usage t' ys)"
proof (induction xs arbitrary: t)
  case (Cons kv xs)
  then show ?case by (cases kv) (simp add: Let_def)
qed simp

lemma upsert_lifetime_append: "upsert_lifetime t (xs @ ys) = upsert_lifetime (upsert_lifetime t xs) ys"
proof (induction xs arbitrary: t)
  case (Cons kv xs)
  then show ?case by (cases kv) simp
qed simp

fun life_sum :: "lifetimeAggregate list \<Rightarrow> lifetimeAggregate" where
  "life_sum [] = zero_lifetime"
| "life_sum (a # as) = lifetime_add a (life_sum as)"

definition life_sum_at :: "int \<Rightarrow> (int \<times> lifetimeAggregate) list \<Rightarrow> lifetimeAggregate" where
  "life_sum_at u items = life_sum (map snd (filter (\<lambda>kv. fst kv = u) items))"

lemma life_sum_at_simps [simp]:
  "life_sum_at u [] = zero_lifetime"
  "life_sum_at u ((u', v) # items) = (if u' = u then lifetime_add v (life_sum_at u items) else life_sum_at u items)"
  by (simp_all add: life_sum_at_def)

lemma lifetime_add_zero [simp]: "lifetime_add zero_lifetime a = a" "lifetime_add a zero_lifetime = a"
  by (simp_all add: lifetime_add_def zero_lifetime_def)

lemma lifetime_add_assoc: "lifetime_add (lifetime_add a b) c = lifetime_add a (lifetime_add b c)"
  by (simp add: lifetime_add_def add.assoc)

lemma lifetime_at_update: "lifetime_at (AList.update u v t) u' = (if u' = u then v else lifetime_at t u')"
  by (simp add: lifetime_at_def update_conv')

lemma life_sum_at_none: "u \<notin> fst ` set items \<Longrightarrow> life_sum_at u items = zero_lifetime"
  by (induction items) auto

lemma upsert_lifetime_result:
  "map_of (upsert_lifetime t items) u =
     (if u \<in> fst ` set items then Some (lifetime_add (lifetime_at t u) (life_sum_at u items)) else map_of t u)"
proof (induction items arbitrary: t)
  case (Cons kv items)
  obtain u' v where kv: "kv = (u', v)" by (cases kv)
  show ?case
    using Cons.IH [of "AList.update u' (lifetime_add (lifetime_at t u') v) t"] kv
    by (cases "u' = u"; cases "u \<in> fst ` set items")
      (simp_all add: lifetime_at_update update_conv' lifetime_add_assoc life_sum_at_none)
qed simp

lemma coalesce_lifetime_at: "lifetime_at (coalesce_lifetime m items) u = lifetime_add (lifetime_at m u) (life_sum_at u items)"
proof (induction items arbitrary: m)
  case (Cons kv items)
  then show ?case by (cases kv) (simp add: lifetime_at_update lifetime_add_assoc)
qed simp

lemma coalesce_lifetime_keys: "fst ` set (coalesce_lifetime m items) = fst ` set m \<union> fst ` set items"
proof (induction items arbitrary: m)
  case (Cons kv items)
  then show ?case by (cases kv) (simp add: dom_update)
qed simp

lemma coalesce_lifetime_distinct: "distinct (map fst m) \<Longrightarrow> distinct (map fst (coalesce_lifetime m items))"
proof (induction items arbitrary: m)
  case (Cons kv items)
  then show ?case by (cases kv) (simp add: distinct_update)
qed simp

lemma life_sum_at_keyed:
  "distinct us \<Longrightarrow> life_sum_at u (map (\<lambda>u. (u, f u)) us) = (if u \<in> set us then f u else zero_lifetime)"
  by (induction us) (auto simp: life_sum_at_none)

lemma upsert_lifetime_coalesced:
  "map_of (upsertLifetimeAggregates t (coalesce_lifetime [] items)) u = map_of (upsert_lifetime t items) u"
proof -
  let ?m = "coalesce_lifetime [] items"
  have us: "distinct (sort (map fst ?m))" "set (sort (map fst ?m)) = fst ` set items"
    using coalesce_lifetime_distinct [of "[]" items] coalesce_lifetime_keys [of "[]" items] by simp_all
  have "lifetime_at ?m u = life_sum_at u items"
    using coalesce_lifetime_at [of "[]" items u] by (simp add: lifetime_at_def [of "[]"])
  then show ?thesis
    using us life_sum_at_keyed [OF us(1), of u "lifetime_at ?m"]
    by (simp add: upsertLifetimeAggregates_def upsert_lifetime_result image_image comp_def)
qed

section \<open>One by one\<close>

fun record_each ::
  "(RequestLog \<Rightarrow> string option) \<Rightarrow> RequestLog list \<Rightarrow> LogStore \<Rightarrow> WriteError + LogStore" where
  "record_each rejects [] s = Inr s"
| "record_each rejects (e # es) s =
     (case recordPreparedRequest rejects e s of Inl err \<Rightarrow> Inl err | Inr s1 \<Rightarrow> record_each rejects es s1)"

lemma updates_append [simp]:
  "usage_updates p (xs @ ys) = usage_updates p xs @ usage_updates p ys"
  "lifetime_updates (xs @ ys) = lifetime_updates xs @ lifetime_updates ys"
  by (simp_all add: usage_updates_def lifetime_updates_def List.map_filter_def)

lemma recordPreparedRequest_ok:
  assumes "recordPreparedRequest rejects e s = Inr s1"
  shows "rejects e = None" "\<not> logged s (rl_request_id e)"
    and "upsert_usage (ls_daily s) (usage_updates sql_day [log_row s e]) = Some (ls_daily s1)"
    and "upsert_usage (ls_hourly s) (usage_updates (sql_hour (ls_zone s)) [log_row s e]) = Some (ls_hourly s1)"
    and "ls_lifetime s1 = upsert_lifetime (ls_lifetime s) (lifetime_updates [log_row s e])"
    and "ls_logs s1 = ls_logs s @ [log_row s e]" "log_row s1 = log_row s" "ls_zone s1 = ls_zone s"
  using assms
  by (auto simp: recordPreparedRequest_def log_row_def split: option.splits if_splits)

lemma record_each_ok:
  assumes "record_each rejects items s = Inr s1"
  shows "(\<forall>e \<in> set items. rejects e = None \<and> \<not> logged s (rl_request_id e))
    \<and> upsert_usage (ls_daily s) (usage_updates sql_day (map (log_row s) items)) = Some (ls_daily s1)
    \<and> upsert_usage (ls_hourly s) (usage_updates (sql_hour (ls_zone s)) (map (log_row s) items)) = Some (ls_hourly s1)
    \<and> ls_lifetime s1 = upsert_lifetime (ls_lifetime s) (lifetime_updates (map (log_row s) items))
    \<and> ls_logs s1 = ls_logs s @ map (log_row s) items"
  using assms
proof (induction items arbitrary: s)
  case Nil
  then show ?case by (simp add: usage_updates_def lifetime_updates_def)
next
  case (Cons e items)
  then obtain s' where e: "recordPreparedRequest rejects e s = Inr s'" and r: "record_each rejects items s' = Inr s1"
    by (auto split: sum.splits)
  note ok = recordPreparedRequest_ok [OF e] and IH = Cons.IH [OF r]
  have split: "map (log_row s) (e # items) = [log_row s e] @ map (log_row s) items" by simp
  have "\<forall>x \<in> set items. rejects x = None \<and> \<not> logged s (rl_request_id x)"
    using IH ok(6) by (auto simp: logged_def)
  then show ?case
    unfolding split updates_append upsert_usage_append upsert_lifetime_append
    using IH ok by simp
qed

lemma map_filter_none: "(\<forall>x \<in> set xs. f x = None) \<Longrightarrow> List.map_filter f xs = []"
  by (induction xs) (simp_all add: List.map_filter_def)

lemma map_filter_none_conv: "List.map_filter f xs = [] \<longleftrightarrow> (\<forall>x \<in> set xs. f x = None)"
  by (induction xs) (simp_all add: List.map_filter_def)

lemma usage_updates_nonneg:
  assumes "\<forall>r \<in> set rows. agg_all ((\<le>) 0) (aggregateRequest (sl_entry r))"
  shows "\<forall>kv \<in> set (usage_updates p rows). agg_all ((\<le>) 0) (snd kv)"
  using assms by (auto simp: usage_updates_def List.map_filter_def split: option.splits)

definition table_nonneg :: "usage_table \<Rightarrow> bool" where
  "table_nonneg t \<longleftrightarrow> (\<forall>k. agg_all ((\<le>) 0) (usage_at t k))"

lemma upsert_batch_same:
  assumes "\<forall>r \<in> set rows. agg_all ((\<le>) 0) (aggregateRequest (sl_entry r))" "table_nonneg t"
    and "upsert_usage t (usage_updates p rows) = Some t1"
  obtains t2 where "upsertUsageAggregates t (coalesce_usage [] (usage_updates p rows)) = Some t2" "map_of t2 = map_of t1"
proof (rule upsert_coalesced [OF usage_updates_nonneg [OF assms(1), of p]])
  show "\<forall>k. agg_all ((\<le>) 0) (usage_at t k)" using assms(2) by (simp add: table_nonneg_def)
  show "\<forall>k \<in> fst ` set (usage_updates p rows). agg_all in_int64 (agg_add (usage_at t k) (sum_at k (usage_updates p rows)))"
    using upsert_usage_result [OF assms(3)] by blast
next
  fix t' assume t': "upsertUsageAggregates t (coalesce_usage [] (usage_updates p rows)) = Some t'"
    and m: "\<forall>k. map_of t' k = (if k \<in> fst ` set (usage_updates p rows)
      then Some (agg_add (usage_at t k) (sum_at k (usage_updates p rows))) else map_of t k)"
  have "map_of t' = map_of t1"
  proof
    fix k show "map_of t' k = map_of t1 k"
      using m upsert_usage_result [OF assms(3), of k] by (simp del: map_of_eq_Some_iff)
  qed
  with t' show thesis by (rule that)
qed

section \<open>The log store as the recorder's repository\<close>

definition stored_ids :: "LogStore \<Rightarrow> string set" where
  "stored_ids s = set (map (rl_request_id \<circ> sl_entry) (ls_logs s))"

text \<open>Preparing changes nothing but the price cache and consumes only scripted price failures.\<close>

definition only_prices :: "LogStore \<Rightarrow> LogStore \<Rightarrow> bool" where
  "only_prices s s' \<longleftrightarrow> s'\<lparr>ls_price_cache := ls_price_cache s, ls_price_faults := ls_price_faults s\<rparr> = s
     \<and> (ls_price_faults s = [] \<longrightarrow> ls_price_faults s' = [])"

lemma only_prices_refl [simp]: "only_prices s s"
  by (simp add: only_prices_def)

lemma only_prices_trans: "only_prices s t \<Longrightarrow> only_prices t u \<Longrightarrow> only_prices s u"
  by (cases s, cases t, cases u) (simp add: only_prices_def)

lemma only_pricesD:
  assumes "only_prices s s'"
  shows "ls_logs s' = ls_logs s" "ls_faults s' = ls_faults s" "ls_ctx s' = ls_ctx s" "ls_daily s' = ls_daily s"
    "ls_hourly s' = ls_hourly s" "ls_price_faults s = [] \<Longrightarrow> ls_price_faults s' = []"
  using assms by (cases s, cases s', simp add: only_prices_def)+

lemma request_cost_state: "only_prices s (snd (request_cost u e s))"
  by (cases s) (auto simp: only_prices_def request_cost_def next_price_fault_def Let_def
    split: prod.splits option.splits list.splits if_splits)

lemma request_cost_ok: "ls_price_faults s = [] \<Longrightarrow> \<exists>cost. fst (request_cost u e s) = Inr cost"
  by (auto simp: request_cost_def next_price_fault_def Let_def split: prod.splits)

lemma prepareRequest_result:
  "fst (prepareRequest e s) = Inr item \<Longrightarrow>
     item = with_defaults (ls_now s) e \<or> (\<exists>cost. item = (with_defaults (ls_now s) e)\<lparr>rl_cost_usd := cost\<rparr>)"
  by (auto simp: prepareRequest_def Let_def split: option.splits prod.splits sum.splits)

lemma prepareRequest_props:
  "fst (prepareRequest e s) = Inr item \<Longrightarrow> rl_request_id item = rl_request_id e"
  "only_prices s (snd (prepareRequest e s))"
  "ls_price_faults s = [] \<Longrightarrow> \<exists>item. fst (prepareRequest e s) = Inr item"
proof -
  have "rl_request_id (with_defaults t e) = rl_request_id e" for t by (simp add: with_defaults_def Let_def)
  then show "fst (prepareRequest e s) = Inr item \<Longrightarrow> rl_request_id item = rl_request_id e"
    using prepareRequest_result [of e s item] by auto
  have "snd (prepareRequest e s) = (case rl_upstream_id (with_defaults (ls_now s) e) of None \<Rightarrow> s
      | Some u \<Rightarrow> snd (request_cost u (with_defaults (ls_now s) e) s))"
    by (auto simp: prepareRequest_def Let_def split: option.split prod.split sum.split)
  then show "only_prices s (snd (prepareRequest e s))"
    using request_cost_state by (simp split: option.split)
  assume "ls_price_faults s = []"
  then have "\<exists>cost. fst (request_cost u (with_defaults (ls_now s) e) s) = Inr cost" for u by (rule request_cost_ok)
  then show "\<exists>item. fst (prepareRequest e s) = Inr item"
    by (cases "rl_upstream_id (with_defaults (ls_now s) e)")
      (auto simp: prepareRequest_def Let_def split: prod.split sum.split, metis fst_conv sum.distinct(1))
qed

lemma prepare_all_props:
  "(fst (prepare_all es seen s) = Inr items \<longrightarrow> set (map rl_request_id items) = rl_request_id ` set es - set seen)
   \<and> only_prices s (snd (prepare_all es seen s))
   \<and> (ls_price_faults s = [] \<longrightarrow> (\<exists>items. fst (prepare_all es seen s) = Inr items))"
proof (induction es seen s arbitrary: items rule: prepare_all.induct)
  case (1 seen s)
  then show ?case by auto
next
  case (2 e es seen s)
  show ?case
  proof (cases "rl_request_id e \<in> set seen")
    case True
    then show ?thesis using "2.IH"(1) [OF True, of items] by auto
  next
    case False
    obtain r s1 where p: "prepareRequest e s = (r, s1)" by fastforce
    have c: "only_prices s s1" using prepareRequest_props(2) [of s e] p by simp
    have ok: "ls_price_faults s = [] \<Longrightarrow> \<exists>item. r = Inr item" using prepareRequest_props(3) [of s e] p by auto
    show ?thesis
    proof (cases r)
      case (Inl err)
      then show ?thesis using False p c ok by auto
    next
      case (Inr item)
      have id: "rl_request_id item = rl_request_id e" using prepareRequest_props(1) [of e s item] p Inr by simp
      obtain r2 s2 where r2: "prepare_all es (rl_request_id e # seen) s1 = (r2, s2)" by fastforce
      note IH = "2.IH"(2) [OF False p [symmetric] Inr, of "projr r2"]
      have "only_prices s s2" using IH r2 only_prices_trans [OF c] by simp
      then show ?thesis
        using IH False p Inr r2 id only_pricesD(6) [OF c]
        by (cases r2) (auto simp del: set_map)
    qed
  qed
qed

lemma prepare_all_only_prices: "prepare_all es seen s = (r, s1) \<Longrightarrow> only_prices s s1"
  using prepare_all_props [of es seen s] by simp

lemma recordPreparedBatch_ids:
  assumes "recordPreparedBatch rejects items s = Inr s'"
  shows "stored_ids s' = stored_ids s \<union> rl_request_id ` set items"
proof -
  obtain rows where "insertRequestLogBatch rejects s items = Inr rows" "ls_logs s' = ls_logs s @ rows"
    using assms by (auto simp: recordPreparedBatch_def split: sum.splits option.splits)
  moreover from this have "rows = map (log_row s) (filter (\<lambda>e. \<not> logged s (rl_request_id e)) items)"
    by (simp add: insertRequestLogBatch_def split: list.splits)
  ultimately have "stored_ids s' = stored_ids s \<union> rl_request_id ` {e \<in> set items. \<not> logged s (rl_request_id e)}"
    by (simp add: stored_ids_def image_Un image_image log_row_def)
  then show ?thesis by (auto simp: logged_def stored_ids_def)
qed

lemma recordPreparedRequest_ids:
  "recordPreparedRequest rejects e s = Inr s' \<Longrightarrow> stored_ids s' = stored_ids s \<union> {rl_request_id e}"
  using recordPreparedRequest_ok(6) [of rejects e s s'] by (auto simp: stored_ids_def log_row_def)

lemma in_transaction_ids:
  assumes "in_transaction body s = (err, s')" "\<And>s s'. body s = Inr s' \<Longrightarrow> stored_ids s' = stored_ids s \<union> ids"
  shows "stored_ids s \<subseteq> stored_ids s' \<and> (err = None \<longrightarrow> ids \<subseteq> stored_ids s')"
proof -
  obtain f s1 where f: "next_fault s = (f, s1)" by fastforce
  then have "stored_ids s1 = stored_ids s" by (auto simp: next_fault_def stored_ids_def split: list.splits)
  then show ?thesis
    using assms f by (auto simp: in_transaction_def split: option.splits DbFault.splits sum.splits)
qed

interpretation log_store: request_sink "log_sink rejects" stored_ids for rejects
proof
  fix save entries s err s'
  assume "rs_batch (log_sink rejects) = Some save" and sv: "save entries s = (err, s')"
  then have sv: "RecordRequests rejects entries s = (err, s')" by (auto simp: log_sink_def)
  show "stored_ids s \<subseteq> stored_ids s' \<and> (err = None \<longrightarrow> rl_request_id ` set entries \<subseteq> stored_ids s')"
  proof (cases "entries = []")
    case True
    then show ?thesis using sv by (simp add: RecordRequests_def)
  next
    case False
    obtain r s1 where p: "prepare_all entries [] s = (r, s1)" by fastforce
    have ids: "stored_ids s1 = stored_ids s" using only_pricesD(1) [OF prepare_all_only_prices [OF p]] by (simp add: stored_ids_def)
    show ?thesis
    proof (cases r)
      case (Inl e)
      then show ?thesis using sv False p ids by (auto simp: RecordRequests_def)
    next
      case (Inr items)
      have "rl_request_id ` set items = rl_request_id ` set entries"
        using prepare_all_props [of entries "[]" s items] p Inr by simp
      moreover have "in_transaction (recordPreparedBatch rejects items) s1 = (err, s')"
        using sv False p Inr by (simp add: RecordRequests_def)
      ultimately show ?thesis using ids in_transaction_ids recordPreparedBatch_ids by metis
    qed
  qed
next
  fix e s err s'
  assume "rs_single (log_sink rejects) e s = (err, s')"
  then have sv: "RecordRequest rejects e s = (err, s')" by (simp add: log_sink_def)
  obtain r s1 where p: "prepareRequest e s = (r, s1)" by fastforce
  have ids: "stored_ids s1 = stored_ids s" using only_pricesD(1) [OF prepareRequest_props(2) [of s e]] p by (simp add: stored_ids_def)
  show "stored_ids s \<subseteq> stored_ids s' \<and> (err = None \<longrightarrow> rl_request_id e \<in> stored_ids s')"
  proof (cases r)
    case (Inl x)
    then show ?thesis using sv p ids by (auto simp: RecordRequest_def)
  next
    case (Inr item)
    have "rl_request_id item = rl_request_id e" using prepareRequest_props(1) [of e s item] p Inr by simp
    moreover have "in_transaction (recordPreparedRequest rejects item) s1 = (err, s')"
      using sv p Inr by (simp add: RecordRequest_def)
    ultimately show ?thesis
      using ids in_transaction_ids [of "recordPreparedRequest rejects item" s1 err s' "{rl_request_id e}"]
        recordPreparedRequest_ids [of rejects item] by auto
  qed
next
  fix s d s'
  assume "rs_ctx_done (log_sink rejects) s = (d, s')"
  then show "stored_ids s' = stored_ids s"
    by (auto simp: log_sink_def read_ctx_def stored_ids_def split: list.splits)
qed

text \<open>
  Without outages, and as long as the counters have room, the repository fails only on records that
  the database rejects. \<open>rejects\<close> must report data errors and may look at anything but what
  \<open>prepareRequest\<close> fills in.
\<close>

definition max_tokens :: int where "max_tokens = 2 ^ 40"

definition small :: "RequestLog \<Rightarrow> bool" where
  "small e \<longleftrightarrow> (let u = rl_usage e in \<forall>x \<in> {pointerValue (ut_input u), pointerValue (ut_output u),
     pointerValue (ut_cached u), pointerValue (ut_cache_creation u), pointerValue (ut_uncached u)}.
     0 \<le> x \<and> x \<le> max_tokens)"

definition prepared_form :: "RequestLog \<Rightarrow> RequestLog \<Rightarrow> bool" where
  "prepared_form e item \<longleftrightarrow> (\<exists>c t b. item = e\<lparr>rl_cost_usd := c, rl_created_at := t,
     rl_usage := (rl_usage e)\<lparr>ut_billable := b\<rparr>\<rparr>)"

lemma prepared_form_refl: "prepared_form e e"
  unfolding prepared_form_def
  by (intro exI [of _ "rl_cost_usd e"] exI [of _ "rl_created_at e"] exI [of _ "ut_billable (rl_usage e)"]) simp

lemma prepared_form_update:
  assumes "prepared_form e i"
  shows "prepared_form e (i\<lparr>rl_cost_usd := c'\<rparr>)" "prepared_form e (i\<lparr>rl_created_at := t'\<rparr>)"
    "prepared_form e (i\<lparr>rl_usage := (rl_usage i)\<lparr>ut_billable := b'\<rparr>\<rparr>)"
proof -
  obtain c t b where i: "i = e\<lparr>rl_cost_usd := c, rl_created_at := t, rl_usage := (rl_usage e)\<lparr>ut_billable := b\<rparr>\<rparr>"
    using assms by (auto simp: prepared_form_def)
  show "prepared_form e (i\<lparr>rl_cost_usd := c'\<rparr>)"
    unfolding prepared_form_def i by (rule exI [of _ c'], rule exI [of _ t], rule exI [of _ b]) simp
  show "prepared_form e (i\<lparr>rl_created_at := t'\<rparr>)"
    unfolding prepared_form_def i by (rule exI [of _ c], rule exI [of _ t'], rule exI [of _ b]) simp
  show "prepared_form e (i\<lparr>rl_usage := (rl_usage i)\<lparr>ut_billable := b'\<rparr>\<rparr>)"
    unfolding prepared_form_def i by (rule exI [of _ c], rule exI [of _ t], rule exI [of _ b']) simp
qed

lemma prepareRequest_form:
  assumes "fst (prepareRequest e s) = Inr item" shows "prepared_form e item"
proof -
  have "prepared_form e (with_defaults (ls_now s) e)"
    using prepared_form_refl prepared_form_update(2) [OF prepared_form_refl]
      prepared_form_update(3) [OF prepared_form_refl] prepared_form_update(3) [OF prepared_form_update(2) [OF prepared_form_refl]]
    by (simp add: with_defaults_def Let_def)
  then show ?thesis using prepareRequest_result [OF assms] prepared_form_update(1) by blast
qed

lemma prepare_all_form:
  "distinct (map rl_request_id es) \<Longrightarrow> rl_request_id ` set es \<inter> set seen = {} \<Longrightarrow>
     fst (prepare_all es seen s) = Inr items \<Longrightarrow> list_all2 prepared_form es items"
proof (induction es seen s arbitrary: items rule: prepare_all.induct)
  case (2 e es seen s)
  have new: "rl_request_id e \<notin> set seen" using "2.prems"(2) by auto
  obtain item s1 where p: "prepareRequest e s = (Inr item, s1)"
    using "2.prems"(3) new by (auto split: prod.splits sum.splits)
  obtain rest s2 where r: "prepare_all es (rl_request_id e # seen) s1 = (Inr rest, s2)" "items = item # rest"
    using "2.prems"(3) new p by (auto split: prod.splits sum.splits)
  have "list_all2 prepared_form es rest"
    using "2.IH"(2) [OF new p [symmetric] refl, of rest] "2.prems" r by auto
  then show ?case using p prepareRequest_form [of e s item] r(2) by simp
qed simp

lemma small_aggregate:
  assumes "small e" "prepared_form e item"
  shows "agg_all (\<lambda>x. 0 \<le> x \<and> x \<le> max_tokens) (aggregateRequest item)"
proof -
  have "1 \<le> max_tokens" by (simp add: max_tokens_def)
  moreover obtain c t b where "item = e\<lparr>rl_cost_usd := c, rl_created_at := t, rl_usage := (rl_usage e)\<lparr>ut_billable := b\<rparr>\<rparr>"
    using assms(2) by (auto simp: prepared_form_def)
  ultimately show ?thesis using assms(1) by (simp add: small_def aggregateRequest_def agg_all_def Let_def)
qed

definition room :: "nat \<Rightarrow> usage_table \<Rightarrow> bool" where
  "room n t \<longleftrightarrow> (\<forall>k. agg_all (\<lambda>x. 0 \<le> x \<and> x + int n * max_tokens \<le> max_int64) (usage_at t k))"

lemma room_mono: "room n t \<Longrightarrow> m \<le> n \<Longrightarrow> room m t"
proof -
  assume r: "room n t" and le: "m \<le> n"
  have "int m * max_tokens \<le> int n * max_tokens" using le by (simp add: max_tokens_def)
  then show "room m t" using r unfolding room_def by (auto intro: agg_all_mono)
qed

lemma sum_at_bound:
  "\<forall>kv \<in> set items. agg_all (\<lambda>x. 0 \<le> x \<and> x \<le> max_tokens) (snd kv) \<Longrightarrow>
     agg_all (\<lambda>x. 0 \<le> x \<and> x \<le> int (length items) * max_tokens) (sum_at k items)"
proof (induction items)
  case (Cons kv items)
  obtain k' v where kv: "kv = (k', v)" by (cases kv)
  have v: "agg_all (\<lambda>x. 0 \<le> x \<and> x \<le> max_tokens) v" using Cons.prems kv by simp
  have IH: "agg_all (\<lambda>x. 0 \<le> x \<and> x \<le> int (length items) * max_tokens) (sum_at k items)" using Cons by simp
  have "agg_all (\<lambda>x. 0 \<le> x \<and> x \<le> int (length (kv # items)) * max_tokens) (agg_add v (sum_at k items))"
    by (rule agg_all_add [OF v IH]) (auto simp: algebra_simps)
  moreover have "agg_all (\<lambda>x. 0 \<le> x \<and> x \<le> int (length (kv # items)) * max_tokens) (sum_at k items)"
    by (rule agg_all_mono [OF IH]) (auto simp: algebra_simps max_tokens_def)
  ultimately show ?case by (simp add: kv)
qed (simp add: agg_defs)

lemma upsert_in_room:
  assumes "room n t" "\<forall>kv \<in> set items. agg_all (\<lambda>x. 0 \<le> x \<and> x \<le> max_tokens) (snd kv)" "length items \<le> n"
  shows "\<exists>t'. upsertUsageAggregates t (coalesce_usage [] items) = Some t' \<and> room (n - length items) t'"
proof -
  have nn: "int (length items) * max_tokens \<le> int n * max_tokens" using assms(3) by (simp add: max_tokens_def)
  have eq: "int (n - length items) * max_tokens = int n * max_tokens - int (length items) * max_tokens"
    using assms(3) by (simp add: of_nat_diff algebra_simps)
  note s = sum_at_bound [OF assms(2)]
  have both: "agg_all (\<lambda>x. 0 \<le> x \<and> x + int (n - length items) * max_tokens \<le> max_int64)
      (agg_add (usage_at t k) (sum_at k items))" for k
    by (rule agg_all_add [OF assms(1) [unfolded room_def, rule_format, of k] s [of k]]) (auto simp: eq)
  have "0 \<le> int (n - length items) * max_tokens" by (simp add: max_tokens_def)
  then have "agg_all in_int64 (agg_add (usage_at t k) (sum_at k items))" for k
    by (intro agg_all_mono [OF both [of k]]) (auto simp: in_int64_def min_int64_def)
  moreover have "\<forall>kv \<in> set items. agg_all ((\<le>) 0) (snd kv)"
    using assms(2) by (auto intro: agg_all_mono)
  moreover have "\<forall>k. agg_all ((\<le>) 0) (usage_at t k)"
    using assms(1) by (auto simp: room_def intro: agg_all_mono)
  ultimately obtain t' where t': "upsertUsageAggregates t (coalesce_usage [] items) = Some t'"
    "\<forall>k. map_of t' k = (if k \<in> fst ` set items then Some (agg_add (usage_at t k) (sum_at k items)) else map_of t k)"
    using upsert_coalesced [of items t] by metis
  have "usage_at t' k = agg_add (usage_at t k) (sum_at k items)" for k
    using t'(2) sum_at_none [of k items] by (simp add: usage_at_def del: map_of_eq_Some_iff)
  then have "room (n - length items) t'" using both by (simp add: room_def)
  with t'(1) show ?thesis by blast
qed

definition log_ok :: "nat \<Rightarrow> LogStore \<Rightarrow> bool" where
  "log_ok n s \<longleftrightarrow> ls_price_faults s = [] \<and> ls_faults s = [] \<and> ls_ctx s = [] \<and> room n (ls_daily s) \<and> room n (ls_hourly s)"

definition log_fits :: "RequestLog list \<Rightarrow> bool" where
  "log_fits es \<longleftrightarrow> distinct (map rl_request_id es) \<and> (\<forall>e \<in> set es. small e)"

lemma usage_updates_props:
  "length (usage_updates p rows) \<le> length rows"
  "kv \<in> set (usage_updates p rows) \<Longrightarrow> \<exists>r \<in> set rows. snd kv = aggregateRequest (sl_entry r)"
  unfolding usage_updates_def
  by (induction rows) (auto simp: map_filter_simps split: option.splits)

lemma map_filter_some: "List.map_filter f xs = y # ys \<Longrightarrow> \<exists>x \<in> set xs. f x = Some y"
  by (induction xs) (auto simp: map_filter_simps split: option.splits)

lemma RecordRequests_ok:
  assumes inv: "\<And>e item. prepared_form e item \<Longrightarrow> rejects item = rejects e"
    and cls: "\<And>e code m. rejects e = Some code \<Longrightarrow> isRecordDataError (WriteError (Some code) m)"
    and ok: "log_ok n s" and fits: "log_fits entries" and len: "length entries \<le> n"
    and run: "RecordRequests rejects entries s = (err, s')"
  shows "case err of None \<Rightarrow> \<not> (\<exists>e \<in> set entries. rejects e \<noteq> None) \<and> log_ok (n - length entries) s'
       | Some e \<Rightarrow> (\<exists>e \<in> set entries. rejects e \<noteq> None) \<and> isRecordDataError e \<and> log_ok n s'"
proof (cases "entries = []")
  case True
  with run ok show ?thesis by (simp add: RecordRequests_def)
next
  case False
  obtain items s1 where p: "prepare_all entries [] s = (Inr items, s1)"
    using prepare_all_props [of entries "[]" s] ok by (cases "prepare_all entries [] s") (auto simp: log_ok_def)
  have forms: "list_all2 prepared_form entries items"
    using prepare_all_form [of entries "[]" s items] fits p by (simp add: log_fits_def)
  have same: "(\<exists>e \<in> set entries. rejects e \<noteq> None) = (\<exists>i \<in> set items. rejects i \<noteq> None)"
    using forms
  proof (induction rule: list_all2_induct)
    case (Cons e es i js)
    with inv [OF Cons.hyps(1)] show ?case by simp
  qed simp
  have s1: "log_ok n s1" using only_pricesD [OF prepare_all_only_prices [OF p]] ok by (simp add: log_ok_def)
  have tx: "in_transaction (recordPreparedBatch rejects items) s1 = (err, s')"
    using run False p by (simp add: RecordRequests_def)
  have nf: "next_fault s1 = (None, s1)" using s1 by (simp add: next_fault_def log_ok_def)
  show ?thesis
  proof (cases "List.map_filter rejects items")
    case (Cons code rest)
    from map_filter_some [OF Cons] obtain i where i: "i \<in> set items" "rejects i = Some code" by blast
    have "recordPreparedBatch rejects items s1 = Inl (WriteError (Some code) ''insert request logs'')"
      using Cons by (simp add: recordPreparedBatch_def insertRequestLogBatch_def)
    then have "err = Some (WriteError (Some code) ''insert request logs'')" "s' = s1"
      using tx nf by (auto simp: in_transaction_def)
    moreover have "\<exists>e \<in> set entries. rejects e \<noteq> None" unfolding same using i by force
    ultimately show ?thesis using cls [OF i(2)] s1 by simp
  next
    case Nil
    then have good: "\<not> (\<exists>e \<in> set entries. rejects e \<noteq> None)"
      unfolding same by (simp add: map_filter_none_conv)
    let ?rows = "map (log_row s1) (filter (\<lambda>e. \<not> logged s1 (rl_request_id e)) items)"
    have lenr: "length ?rows \<le> length entries"
      using list_all2_lengthD [OF forms] by (simp add: le_trans [OF length_filter_le])
    have small_rows: "\<forall>kv \<in> set (usage_updates q ?rows). agg_all (\<lambda>x. 0 \<le> x \<and> x \<le> max_tokens) (snd kv)" for q
    proof
      fix kv assume "kv \<in> set (usage_updates q ?rows)"
      then obtain i where "i \<in> set items" "snd kv = aggregateRequest i"
        using usage_updates_props(2) [of kv q ?rows] by (auto simp: log_row_def)
      moreover from this obtain j where "j < length items" "items ! j = i" by (auto simp: in_set_conv_nth)
      then have "entries ! j \<in> set entries" "prepared_form (entries ! j) i"
        using forms by (auto simp: list_all2_conv_all_nth)
      ultimately show "agg_all (\<lambda>x. 0 \<le> x \<and> x \<le> max_tokens) (snd kv)"
        using fits small_aggregate [of "entries ! j" i] by (simp add: log_fits_def)
    qed
    have lenu: "length (usage_updates q ?rows) \<le> length entries" for q
      using usage_updates_props(1) [of q ?rows] lenr by linarith
    obtain d where d: "upsertUsageAggregates (ls_daily s1) (coalesce_usage [] (usage_updates day_of ?rows)) = Some d"
      "room (n - length (usage_updates day_of ?rows)) d"
      using upsert_in_room [OF _ small_rows [of day_of]] s1 lenu [of day_of] len by (fastforce simp: log_ok_def)
    obtain h where h: "upsertUsageAggregates (ls_hourly s1) (coalesce_usage [] (usage_updates hour_of ?rows)) = Some h"
      "room (n - length (usage_updates hour_of ?rows)) h"
      using upsert_in_room [OF _ small_rows [of hour_of]] s1 lenu [of hour_of] len by (fastforce simp: log_ok_def)
    have ins: "insertRequestLogBatch rejects s1 items = Inr ?rows" using Nil by (simp add: insertRequestLogBatch_def)
    have rec: "recordPreparedBatch rejects items s1 = Inr (s1\<lparr>ls_logs := ls_logs s1 @ ?rows, ls_daily := d,
        ls_hourly := h, ls_lifetime := upsertLifetimeAggregates (ls_lifetime s1)
          (coalesce_lifetime [] (lifetime_updates ?rows))\<rparr>)"
      unfolding recordPreparedBatch_def ins by (simp add: d(1) h(1))
    have "room (n - length entries) d" "room (n - length entries) h"
      using d(2) h(2) lenu room_mono diff_le_mono2 by blast+
    moreover have "err = None" "s' = s1\<lparr>ls_logs := ls_logs s1 @ ?rows, ls_daily := d,
        ls_hourly := h, ls_lifetime := upsertLifetimeAggregates (ls_lifetime s1)
          (coalesce_lifetime [] (lifetime_updates ?rows))\<rparr>"
      using tx nf by (simp_all add: in_transaction_def rec)
    ultimately show ?thesis using good s1 by (simp add: log_ok_def)
  qed
qed

lemma log_poison_sink:
  assumes "\<And>e item. prepared_form e item \<Longrightarrow> rejects item = rejects e"
    and "\<And>e code m. rejects e = Some code \<Longrightarrow> isRecordDataError (WriteError (Some code) m)"
  shows "poison_sink (log_sink rejects) stored_ids (RecordRequests rejects) log_ok log_fits (\<lambda>e. rejects e \<noteq> None)"
proof
  show "rs_batch (log_sink rejects) = Some (RecordRequests rejects)" by (simp add: log_sink_def)
next
  fix n w d w' assume "log_ok n w" "rs_ctx_done (log_sink rejects) w = (d, w')"
  then show "\<not> d \<and> log_ok n w'" by (auto simp: log_sink_def read_ctx_def log_ok_def)
next
  fix n w m assume "log_ok n w" "m \<le> n"
  then show "log_ok m w" by (auto simp: log_ok_def intro: room_mono)
next
  fix xs k assume "log_fits xs"
  then show "log_fits (take k xs)" "log_fits (drop k xs)"
    by (auto simp: log_fits_def take_map [symmetric] drop_map [symmetric] dest: in_set_takeD in_set_dropD)
next
  fix n w entries err w'
  assume "log_ok n w" "log_fits entries" "length entries \<le> n" "RecordRequests rejects entries w = (err, w')"
  then show "case err of None \<Rightarrow> \<not> (\<exists>e \<in> set entries. rejects e \<noteq> None) \<and> log_ok (n - length entries) w'
     | Some e \<Rightarrow> (\<exists>e \<in> set entries. rejects e \<noteq> None) \<and> isRecordDataError e \<and> log_ok n w'"
    using RecordRequests_ok [of rejects n w entries err w'] assms by blast
qed

text \<open>An instance: PostgreSQL refuses a zero byte in a text value with SQLSTATE 22021.\<close>

definition zero_byte :: "RequestLog \<Rightarrow> string option" where
  "zero_byte e = (if \<exists>t \<in> {rl_request_id e, rl_protocol e, rl_model e, rl_error_code e, rl_client_ip e}.
     CHR 0x00 \<in> set t then Some ''22021'' else None)"

interpretation zero_byte: poison_sink "log_sink zero_byte" stored_ids "RecordRequests zero_byte" log_ok log_fits
  "\<lambda>e. zero_byte e \<noteq> None"
  by (rule log_poison_sink) (auto simp: prepared_form_def zero_byte_def isRecordDataError_def split: if_splits)

section \<open>Properties\<close>

lemma sql_keys:
  assumes "t mod hour < hour - 500" "hour dvd zone"
  shows "sql_day t = day_of t" "sql_hour zone t = hour_of t"
proof -
  have "hour * (t div hour) div 1000 \<le> t div 1000" by (rule zdiv_mono1) simp_all
  then have "hour * (t div hour) \<le> t - t mod 1000" by (simp add: minus_mod_eq_mult_div)
  moreover have "t mod hour = t - hour * (t div hour)" by (simp only: minus_mult_div_eq_mod)
  moreover have "t mod 1000 < 1000" "0 \<le> t mod 1000" by simp_all
  ultimately have "hour * (t div hour) \<le> round_us t" "round_us t < hour * (t div hour) + hour"
    using assms(1) unfolding round_us_def Let_def by (cases "t mod 1000 + t mod 1000 < 1000"; simp only: if_True if_False; linarith)+
  then have r: "round_us t div hour = t div hour"
    by (intro int_div_pos_eq [of _ _ _ "round_us t - hour * (t div hour)"]) linarith+
  have "truncate_time (round_us t) hour = truncate_time t hour"
    using r by (simp add: truncate_time_def minus_mod_eq_mult_div)
  moreover have "truncate_time (x + zone) hour - zone = truncate_time x hour" for x
    using assms(2) by (auto simp: truncate_time_def elim!: dvdE)
  ultimately show "sql_hour zone t = hour_of t" by (simp add: sql_hour_def hour_of_def)
  have "x div (24 * hour) = x div hour div 24" for x :: int
    using zdiv_zmult2_eq [of 24 x hour] by (simp add: mult.commute)
  then have "round_us t div (24 * hour) = t div (24 * hour)" using r by (simp only:)
  then show "sql_day t = day_of t" by (simp add: sql_day_def day_of_def truncate_time_def minus_mod_eq_mult_div)
qed

lemma usage_updates_cong:
  "(\<And>r. r \<in> set rows \<Longrightarrow> p (rl_created_at (sl_entry r)) = q (rl_created_at (sl_entry r))) \<Longrightarrow>
     usage_updates p rows = usage_updates q rows"
  unfolding usage_updates_def
  by (induction rows) (auto simp: map_filter_simps usage_key_def split: option.split)

text \<open>
  C2: coalescing. When recording the prepared requests one by one succeeds, no count is negative, the
  session's time zone is a whole number of hours off UTC and no request falls into the last half
  microsecond of an hour, recording them as one batch succeeds too and leaves the same log rows and, for
  every key, the same daily, hourly and lifetime totals, although the batch adds up in wrapping 64-bit
  counters first, touches each row once and computes the day and the hour in Go instead of SQL.
\<close>

theorem batch_equals_singles:
  assumes "record_each rejects items s = Inr s1"
    and "\<forall>e \<in> set items. agg_all ((\<le>) 0) (aggregateRequest e)"
    and "table_nonneg (ls_daily s)" "table_nonneg (ls_hourly s)"
    and "\<forall>e \<in> set items. rl_created_at e mod hour < hour - 500" "hour dvd ls_zone s"
  shows "\<exists>s2. recordPreparedBatch rejects items s = Inr s2 \<and> ls_logs s2 = ls_logs s1
    \<and> map_of (ls_daily s2) = map_of (ls_daily s1) \<and> map_of (ls_hourly s2) = map_of (ls_hourly s1)
    \<and> map_of (ls_lifetime s2) = map_of (ls_lifetime s1)"
proof -
  note ok = record_each_ok [OF assms(1)]
  let ?rows = "map (log_row s) items"
  have keys: "usage_updates sql_day ?rows = usage_updates day_of ?rows"
    "usage_updates (sql_hour (ls_zone s)) ?rows = usage_updates hour_of ?rows"
    using assms(5) sql_keys [OF _ assms(6)] by (auto simp: log_row_def intro!: usage_updates_cong)
  have fresh: "\<forall>e \<in> set items. rejects e = None \<and> \<not> logged s (rl_request_id e)" using ok by (rule conjunct1)
  then have "filter (\<lambda>e. \<not> logged s (rl_request_id e)) items = items" by simp
  moreover have "List.map_filter rejects items = []" using fresh by (simp add: map_filter_none)
  ultimately have ins: "insertRequestLogBatch rejects s items = Inr ?rows"
    unfolding insertRequestLogBatch_def by simp
  have nn: "\<forall>r \<in> set ?rows. agg_all ((\<le>) 0) (aggregateRequest (sl_entry r))"
    using assms(2) by (simp add: log_row_def)
  obtain d where d: "upsertUsageAggregates (ls_daily s) (coalesce_usage [] (usage_updates day_of ?rows)) = Some d"
    "map_of d = map_of (ls_daily s1)"
    using upsert_batch_same [OF nn assms(3)] ok keys(1) by metis
  obtain h where h: "upsertUsageAggregates (ls_hourly s) (coalesce_usage [] (usage_updates hour_of ?rows)) = Some h"
    "map_of h = map_of (ls_hourly s1)"
    using upsert_batch_same [OF nn assms(4)] ok keys(2) by metis
  have "map_of (upsertLifetimeAggregates (ls_lifetime s) (coalesce_lifetime [] (lifetime_updates ?rows))) = map_of (ls_lifetime s1)"
    using ok by (metis ext upsert_lifetime_coalesced)
  moreover have "recordPreparedBatch rejects items s = Inr (s\<lparr>ls_logs := ls_logs s @ ?rows, ls_daily := d, ls_hourly := h,
      ls_lifetime := upsertLifetimeAggregates (ls_lifetime s) (coalesce_lifetime [] (lifetime_updates ?rows))\<rparr>)"
    unfolding recordPreparedBatch_def ins by (simp add: d(1) h(1))
  moreover have "ls_logs s1 = ls_logs s @ ?rows" using ok by blast
  ultimately show ?thesis using d(2) h(2) by (intro exI conjI) (assumption | simp)+
qed

definition empty_store :: LogStore where
  "empty_store = \<lparr>ls_logs = [], ls_key_ids = [3], ls_upstream_ids = [7], ls_daily = [], ls_hourly = [],
     ls_lifetime = [], ls_pricing = sample_pricing, ls_price_cache = \<lparr>pc_entries = [], pc_gen = 0\<rparr>, ls_now = 1,
     ls_zone = 0, ls_price_faults = [], ls_faults = [], ls_ctx = []\<rparr>"

definition sample_log :: "string \<Rightarrow> RequestLog" where
  "sample_log rid = \<lparr>rl_request_id = rid, rl_api_key_id = 3, rl_group_id = None, rl_upstream_id = Some 7,
     rl_protocol = ''chat'', rl_model = ''m'', rl_status_code = 200, rl_duration_ms = 5, rl_ttfb_ms = None,
     rl_ttft_ms = None, rl_attempts = [], rl_usage = empty_usage\<lparr>ut_input := Some 10\<rparr>, rl_cost_usd = None,
     rl_error_code = [], rl_client_ip = [], rl_created_at = 5 * hour\<rparr>"

lemma sample_table: "table_nonneg []"
  by (simp add: table_nonneg_def usage_at_def agg_defs)

theorem batch_equals_singles_witness:
  "\<exists>s2. recordPreparedBatch zero_byte [sample_log ''a'', sample_log ''b''] empty_store = Inr s2 \<and> length (ls_logs s2) = 2"
proof -
  let ?items = "[sample_log ''a'', sample_log ''b'']"
  have "case record_each zero_byte ?items empty_store of Inl _ \<Rightarrow> False | Inr s1 \<Rightarrow> length (ls_logs s1) = 2"
    by code_simp
  then obtain s1 where s1: "record_each zero_byte ?items empty_store = Inr s1" "length (ls_logs s1) = 2"
    by (auto split: sum.splits)
  have "\<forall>e \<in> set ?items. agg_all ((\<le>) 0) (aggregateRequest e)"
    by (simp add: aggregateRequest_def sample_log_def agg_all_def Let_def pointerValue_def empty_usage_def)
  moreover have "\<forall>e \<in> set ?items. rl_created_at e mod hour < hour - 500" by code_simp
  ultimately show ?thesis
    using batch_equals_singles [OF s1(1)] s1(2) sample_table by (fastforce simp: empty_store_def)
qed

text \<open>
  C3: no record disappears. Run the recorder over the log store with any schedule of submissions,
  flushes, fallbacks, ticks and shutdown, and any database failures (including commits whose outcome is
  unknown). At every moment each record handed over is in the queue, the batch, the hands of its
  request, the wait or the flush of a fallback, or in the log table, or was counted as dropped; the
  queue holds at most 2048 records, the batch less than 64, at most 64 requests wait and 4 write; once
  the worker has ended nothing is left in the queue and the batch; and if any record was dropped, the
  recorder reports an error.
\<close>

theorem recorder_conserves:
  assumes "recorder_run (log_sink rejects) delays evs (newRequestRecorder, s) = (r, s')"
  shows "(\<exists>kept lost. mset (recorded evs)
        = mset (rc_queue r @ rc_batch r @ rc_refused r @ rc_waiting r @ rc_fallbacks r) + mset kept + mset lost
      \<and> length lost = rc_dropped r \<and> rl_request_id ` set kept \<subseteq> stored_ids s')
    \<and> length (rc_queue r) \<le> 2048 \<and> length (rc_batch r) < 64 \<and> length (rc_waiting r) \<le> 64 \<and> length (rc_fallbacks r) \<le> 4
    \<and> (rc_done r \<longrightarrow> rc_queue r = [] \<and> rc_batch r = [])
    \<and> (rc_dropped r > 0 \<longrightarrow> rc_flush_err r \<noteq> None)"
  using log_store.recorder_conservation [OF assms]
  by (simp add: log_store.held_def log_store.bounded_def requestLogQueueSize_def requestLogBatchSize_def
      requestLogFallbackWaiters_def requestLogFallbackConcurrency_def)

theorem recorder_conserves_witness:
  "\<exists>r s'. recorder_run (log_sink zero_byte) [] [RecordEntry (sample_log ''a''\<lparr>rl_upstream_id := None\<rparr>), Receive, CloseQueue, Receive]
      (newRequestRecorder, empty_store) = (r, s') \<and> rc_dropped r = 0 \<and> ''a'' \<in> stored_ids s'"
proof -
  let ?evs = "[RecordEntry (sample_log ''a''\<lparr>rl_upstream_id := None\<rparr>), Receive, CloseQueue, Receive]"
  obtain r s' where run: "recorder_run (log_sink zero_byte) [] ?evs (newRequestRecorder, empty_store) = (r, s')"
    by fastforce
  have "(let r = fst (recorder_run (log_sink zero_byte) [] ?evs (newRequestRecorder, empty_store))
      in rc_done r \<and> rc_refused r = [] \<and> rc_waiting r = [] \<and> rc_fallbacks r = [] \<and> rc_dropped r = 0)"
    by code_simp
  then have r: "rc_done r" "rc_refused r = []" "rc_waiting r = []" "rc_fallbacks r = []" "rc_dropped r = 0"
    using run by (simp_all add: Let_def)
  from recorder_conserves [OF run] r have "''a'' \<in> stored_ids s'"
    by (auto simp: sample_log_def)
  with run r(5) show ?thesis by blast
qed

text \<open>
  Poison isolation. When the only failures are records that the database refuses, a flush drops
  exactly those and stores all the others, wherever they sit in the batch.
\<close>

theorem recorder_isolates_poison:
  assumes "\<And>e item. prepared_form e item \<Longrightarrow> rejects item = rejects e"
    and "\<And>e code m. rejects e = Some code \<Longrightarrow> isRecordDataError (WriteError (Some code) m)"
    and "log_ok m s" "log_fits entries" "length entries \<le> m"
    and "flush (log_sink rejects) delays entries r s = (err, r', s')"
  shows "rc_dropped r' = rc_dropped r + length (filter (\<lambda>e. rejects e \<noteq> None) entries)
    \<and> rl_request_id ` set (filter (\<lambda>e. rejects e = None) entries) \<subseteq> stored_ids s'"
  using poison_sink.flush_isolates [OF log_poison_sink [of rejects, OF assms(1,2)] assms(3-6)] by simp

theorem recorder_isolates_poison_witness:
  "\<exists>err r' s'. flush (log_sink zero_byte) [] [sample_log ''a'', sample_log [CHR 0x00], sample_log ''c''] newRequestRecorder
      empty_store = (err, r', s') \<and> rc_dropped r' = 1 \<and> {''a'', ''c''} \<subseteq> stored_ids s'"
proof -
  let ?es = "[sample_log ''a'', sample_log [CHR 0x00], sample_log ''c'']"
  obtain err r' s' where f: "flush (log_sink zero_byte) [] ?es newRequestRecorder empty_store = (err, r', s')"
    by (metis prod_cases3)
  have "log_ok 3 empty_store"
    by (simp add: log_ok_def empty_store_def room_def usage_at_def agg_defs max_tokens_def max_int64_def)
  moreover have "log_fits ?es"
    by (simp add: log_fits_def sample_log_def small_def Let_def pointerValue_def empty_usage_def max_tokens_def)
  moreover have "\<And>e item. prepared_form e item \<Longrightarrow> zero_byte item = zero_byte e"
    by (auto simp: prepared_form_def zero_byte_def)
  moreover have "\<And>e code m. zero_byte e = Some code \<Longrightarrow> isRecordDataError (WriteError (Some code) m)"
    by (auto simp: zero_byte_def isRecordDataError_def split: if_splits)
  ultimately have "rc_dropped r' = 1 \<and> {''a'', ''c''} \<subseteq> stored_ids s'"
    using recorder_isolates_poison [of zero_byte 3 empty_store ?es "[]" newRequestRecorder err r' s'] f
    by (simp add: zero_byte_def sample_log_def newRequestRecorder_def)
  with f show ?thesis by blast
qed

end
