(* ===== verification/Store_Tables.thy ===== *)
theory Store_Tables
  imports Caches Incident
begin

text \<open>
  The database the store theories work on (\<open>internal/store/schema.sql\<close>): one list per table, rows in
  insertion order, with the caches of the store beside it. Credentials are kept decrypted: the
  encryption of \<open>internal/cryptox\<close> is an identity for everything proved here. A statement sees
  one value of \<open>now()\<close>, which is an argument of each operation.
\<close>

record UpstreamRecord =
  ur_upstream :: Upstream
  ur_balance :: Balance
  ur_created_at :: time
  ur_updated_at :: time

record GroupRow =
  gt_id :: int
  gt_name :: string
  gt_enabled :: bool
  gt_created_at :: time
  gt_updated_at :: time

record KeyRow =
  kr_id :: int
  kr_name :: string
  kr_prefix :: string
  kr_hash :: string
  kr_secret :: "string option"
  kr_group_id :: "int option"
  kr_enabled :: bool
  kr_protocols :: "string list"
  kr_models :: "string list"
  kr_last_used :: "time option"
  kr_created_at :: time

record StoreDB =
  db_upstreams :: "UpstreamRecord list"
  db_groups :: "GroupRow list"
  db_group_upstreams :: "(int \<times> int) list"
  db_api_keys :: "KeyRow list"
  db_max_attempts :: "int option"
  db_health_states :: "(int \<times> IncidentState) list"
  db_audit :: "(string \<times> int) list"
  db_alert_events :: "(int \<times> BalanceTransition \<times> string) list"
  db_next_id :: int

record Store =
  st_db :: StoreDB
  st_caches :: StoreCaches

datatype store_error =
    ErrNotFound | SqlNoRows | ErrUpstreamConfigChanged | ErrInvalidStatus
  | ErrInvalidGroup | ErrGroupHasKeys | ErrGroupDisabled | ErrGroupEmpty
  | ErrAPIKeySecretUnavailable | SqlUniqueViolation | SqlForeignKeyViolation

definition ur_id :: "UpstreamRecord \<Rightarrow> int" where "ur_id r = us_id (ur_upstream r)"

definition find_upstream :: "StoreDB \<Rightarrow> int \<Rightarrow> UpstreamRecord option" where
  "find_upstream db i = find (\<lambda>r. ur_id r = i) (db_upstreams db)"

definition find_group :: "StoreDB \<Rightarrow> int \<Rightarrow> GroupRow option" where
  "find_group db i = find (\<lambda>g. gt_id g = i) (db_groups db)"

text \<open>\<open>UPDATE upstreams SET ... WHERE id = $1\<close>.\<close>

definition update_upstream :: "int \<Rightarrow> (UpstreamRecord \<Rightarrow> UpstreamRecord) \<Rightarrow> StoreDB \<Rightarrow> StoreDB" where
  "update_upstream i f db = db\<lparr>db_upstreams := map (\<lambda>r. if ur_id r = i then f r else r) (db_upstreams db)\<rparr>"

text \<open>\<open>expected = 0 OR config_version = expected\<close>.\<close>

definition version_matches :: "int \<Rightarrow> Upstream \<Rightarrow> bool" where
  "version_matches expected u \<longleftrightarrow> expected = 0 \<or> us_config_version u = expected"

definition invalidate_routes :: "Store \<Rightarrow> Store" where
  "invalidate_routes s = s\<lparr>st_caches := invalidateRouteCache (st_caches s)\<rparr>"

definition invalidate_auth :: "Store \<Rightarrow> Store" where
  "invalidate_auth s = s\<lparr>st_caches := invalidateAuthCache (st_caches s)\<rparr>"

definition invalidate_attempts :: "Store \<Rightarrow> Store" where
  "invalidate_attempts s = s\<lparr>st_caches := invalidateMaxAttemptsCache (st_caches s)\<rparr>"

lemma find_map_update:
  assumes "\<And>r. ur_id (f r) = ur_id r"
  shows "find (\<lambda>r. ur_id r = j) (map (\<lambda>r. if ur_id r = i then f r else r) rs)
    = map_option (\<lambda>r. if j = i then f r else r) (find (\<lambda>r. ur_id r = j) rs)"
  using assms by (induction rs) auto

lemma find_upstream_update:
  "(\<And>r. ur_id (f r) = ur_id r) \<Longrightarrow>
     find_upstream (update_upstream i f db) j = map_option (\<lambda>r. if j = i then f r else r) (find_upstream db j)"
  by (simp add: find_upstream_def update_upstream_def find_map_update)

lemma find_upstream_id: "find_upstream db i = Some r \<Longrightarrow> ur_id r = i"
  by (auto simp: find_upstream_def find_Some_iff)

end
