(* ===== verification/Health_Store.thy ===== *)
theory Health_Store
  imports Store_Tables
begin

text \<open>
  The health and balance state of an upstream row: \<open>saveHealth\<close>, \<open>SaveBalance\<close> and the
  acknowledgements of \<open>internal/store/upstreams.go\<close>, the durable notification incident of
  \<open>health_notifications.go\<close>, and the adapters of \<open>internal/app/repositories.go\<close> that call them. The
  CASE expressions of each UPDATE are computed from the row before it, as SQL does.
\<close>

section \<open>Health\<close>

definition healthy :: string where "healthy = ''healthy''"
definition degraded :: string where "degraded = ''degraded''"
definition unhealthy :: string where "unhealthy = ''unhealthy''"

lemmas status_defs = healthy_def degraded_def unhealthy_def

text \<open>Whether the recovery of an unhealthy row is still to be confirmed by this success.\<close>

definition still_confirming :: "Upstream \<Rightarrow> time \<Rightarrow> bool" where
  "still_confirming u now \<longleftrightarrow> us_consecutive_success u + 1 < 3
     \<and> (case us_recovery_started_at u of None \<Rightarrow> True | Some t \<Rightarrow> t > now - 2 * minute)"

definition record_success :: "bool \<Rightarrow> time \<Rightarrow> Upstream \<Rightarrow> Upstream" where
  "record_success confirm now u =
     (let sick = (us_health_status u = unhealthy);
          stays = (sick \<and> (\<not> confirm \<or> still_confirming u now))
      in u\<lparr>us_health_status := (if stays then unhealthy else healthy),
           us_consecutive_failure := 0,
           us_consecutive_success :=
             (if sick \<and> \<not> confirm then us_consecutive_success u
              else if sick \<and> still_confirming u now then us_consecutive_success u + 1 else 0),
           us_recovery_started_at :=
             (if sick \<and> \<not> confirm then us_recovery_started_at u
              else if sick \<and> still_confirming u now
              then (case us_recovery_started_at u of None \<Rightarrow> Some now | Some t \<Rightarrow> Some t) else None),
           us_circuit_open_until := (if stays then us_circuit_open_until u else None),
           us_last_check_at := Some now,
           us_last_error := (if stays then us_last_error u else [])\<rparr>)"

definition record_failure :: "string \<Rightarrow> bool \<Rightarrow> time \<Rightarrow> Upstream \<Rightarrow> Upstream" where
  "record_failure message auth_failure now u =
     (let opens = (us_health_status u = unhealthy \<or> auth_failure
                   \<or> us_consecutive_failure u + 1 \<ge> us_failure_threshold u)
      in u\<lparr>us_health_status := (if opens then unhealthy else degraded),
           us_consecutive_failure := us_consecutive_failure u + 1,
           us_consecutive_success := 0, us_recovery_started_at := None,
           us_circuit_open_until := (if opens then Some (now + us_cooldown u) else us_circuit_open_until u),
           us_last_check_at := Some now, us_last_error := message\<rparr>)"

definition pendingHealthNotification :: "string \<Rightarrow> string \<Rightarrow> string" where
  "pendingHealthNotification status told =
     (if status = unhealthy \<and> told \<noteq> unhealthy then unhealthy
      else if status = healthy \<and> told = unhealthy then healthy else [])"

definition health_changed :: "Upstream \<Rightarrow> Upstream \<Rightarrow> bool" where
  "health_changed u u' \<longleftrightarrow> us_health_status u' \<noteq> us_health_status u
     \<or> us_consecutive_failure u' \<noteq> us_consecutive_failure u
     \<or> us_circuit_open_until u' \<noteq> us_circuit_open_until u"

definition touch :: "time \<Rightarrow> (Upstream \<Rightarrow> Upstream) \<Rightarrow> UpstreamRecord \<Rightarrow> UpstreamRecord" where
  "touch now f r = r\<lparr>ur_upstream := f (ur_upstream r), ur_updated_at := now\<rparr>"

definition saveHealth ::
  "int \<Rightarrow> bool \<Rightarrow> string \<Rightarrow> bool \<Rightarrow> bool \<Rightarrow> int \<Rightarrow> time \<Rightarrow> Store \<Rightarrow> (store_error + string \<times> string) \<times> Store" where
  "saveHealth i ok message auth_failure confirm version now s =
     (case find_upstream (st_db s) i of
        Some r \<Rightarrow>
          (if version_matches version (ur_upstream r) then
             (let f = (if ok then record_success confirm now else record_failure message auth_failure now);
                  u' = f (ur_upstream r);
                  s' = s\<lparr>st_db := update_upstream i (touch now f) (st_db s)\<rparr>;
                  s' = (if ok \<and> \<not> health_changed (ur_upstream r) u' then s' else invalidate_routes s')
              in (Inr (us_health_status u', pendingHealthNotification (us_health_status u') (us_health_notified u')), s'))
           else (Inl (if version > 0 then ErrUpstreamConfigChanged else ErrNotFound), s))
      | None \<Rightarrow> (Inl (if version > 0 then ErrUpstreamConfigChanged else ErrNotFound), s))"

definition SaveHealth ::
  "int \<Rightarrow> bool \<Rightarrow> string \<Rightarrow> bool \<Rightarrow> int \<Rightarrow> time \<Rightarrow> Store \<Rightarrow> (store_error + string) \<times> Store" where
  "SaveHealth i ok message auth_failure version now s =
     (case saveHealth i ok message auth_failure False version now s of
        (Inl e, s') \<Rightarrow> (Inl e, s') | (Inr (status, _), s') \<Rightarrow> (Inr status, s'))"

definition SaveProbeHealth ::
  "int \<Rightarrow> bool \<Rightarrow> string \<Rightarrow> bool \<Rightarrow> int \<Rightarrow> time \<Rightarrow> Store \<Rightarrow> (store_error + string \<times> string) \<times> Store" where
  "SaveProbeHealth i ok message auth_failure version now s = saveHealth i ok message auth_failure True version now s"

text \<open>The gateway's adapters: a failure with status 401 or 403 counts as an authentication failure.\<close>

definition MarkUpstreamSuccess :: "Upstream \<Rightarrow> time \<Rightarrow> Store \<Rightarrow> store_error option \<times> Store" where
  "MarkUpstreamSuccess u now s =
     (case SaveHealth (us_id u) True [] False (us_config_version u) now s of
        (Inl e, s') \<Rightarrow> (Some e, s') | (Inr _, s') \<Rightarrow> (None, s'))"

definition MarkUpstreamFailure :: "Upstream \<Rightarrow> int \<Rightarrow> string \<Rightarrow> time \<Rightarrow> Store \<Rightarrow> store_error option \<times> Store" where
  "MarkUpstreamFailure u status reason now s =
     (case SaveHealth (us_id u) False reason (status = 401 \<or> status = 403) (us_config_version u) now s of
        (Inl e, s') \<Rightarrow> (Some e, s') | (Inr _, s') \<Rightarrow> (None, s'))"

section \<open>Health notifications\<close>

definition initial_incident :: "Upstream \<Rightarrow> time \<Rightarrow> IncidentState" where
  "initial_incident u now =
     (let told = (us_health_notified u = unhealthy)
      in fresh_incident\<lparr>is_active := told, is_notification_count := (if told then 1 else 0),
           is_last_notified_at := (if told then Some now else None)\<rparr>)"

definition updateHealthNotification ::
  "int \<Rightarrow> (IncidentState \<Rightarrow> string \<times> IncidentState) \<Rightarrow> string \<Rightarrow> int \<Rightarrow> time \<Rightarrow> Store \<Rightarrow> (store_error + string) \<times> Store" where
  "updateHealthNotification i update acknowledged version now s =
     (case find_upstream (st_db s) i of
        None \<Rightarrow> (Inl SqlNoRows, s)
      | Some r \<Rightarrow>
          if version > 0 \<and> us_config_version (ur_upstream r) \<noteq> version then (Inl ErrUpstreamConfigChanged, s)
          else (let state = (case map_of (db_health_states (st_db s)) i of
                       None \<Rightarrow> initial_incident (ur_upstream r) now | Some st \<Rightarrow> st)
                in case update state of
                     (notification, state') \<Rightarrow>
                       (let db = (st_db s)\<lparr>db_health_states := AList.update i state' (db_health_states (st_db s))\<rparr>;
                            db = (if acknowledged \<noteq> []
                                  then update_upstream i (\<lambda>r. r\<lparr>ur_upstream := (ur_upstream r)
                                         \<lparr>us_health_notified := acknowledged\<rparr>\<rparr>) db
                                  else db)
                        in (Inr notification, s\<lparr>st_db := db\<rparr>))))"

definition health_policy :: "duration \<Rightarrow> IncidentPolicy" where
  "health_policy interval = \<lparr>ip_firing_confirmations = 1, ip_recovery_confirmations = 1,
     ip_cooldown = 30 * minute, ip_stable_for = 30 * minute, ip_max_gap = 2 * interval,
     ip_max_notifications = 3, ip_repeat = False\<rparr>"

definition observe_health :: "string \<Rightarrow> duration \<Rightarrow> time \<Rightarrow> IncidentState \<Rightarrow> string \<times> IncidentState" where
  "observe_health status interval now st =
     (case Observe st now (status = unhealthy) (status \<noteq> healthy \<and> status \<noteq> unhealthy) False (health_policy interval) of
        (NoNotification, st') \<Rightarrow> ([], st')
      | (Firing, st') \<Rightarrow> (unhealthy, EnqueueFailed st' now minute)
      | (Resolved, st') \<Rightarrow> (healthy, EnqueueFailed st' now minute))"

definition ObserveHealthNotification ::
  "int \<Rightarrow> string \<Rightarrow> duration \<Rightarrow> int \<Rightarrow> time \<Rightarrow> Store \<Rightarrow> (store_error + string) \<times> Store" where
  "ObserveHealthNotification i status interval version now s =
     updateHealthNotification i (observe_health status interval now) [] version now s"

definition AcceptHealthNotification :: "int \<Rightarrow> string \<Rightarrow> time \<Rightarrow> Store \<Rightarrow> store_error option \<times> Store" where
  "AcceptHealthNotification i status now s =
     (if status \<noteq> healthy \<and> status \<noteq> unhealthy then (Some ErrInvalidStatus, s)
      else case updateHealthNotification i
             (\<lambda>st. ([], Accepted st now (if status = unhealthy then Firing else Resolved))) status 0 now s of
             (Inl e, s') \<Rightarrow> (Some e, s') | (Inr _, s') \<Rightarrow> (None, s'))"

definition AcknowledgeHealthNotification :: "int \<Rightarrow> string \<Rightarrow> Store \<Rightarrow> store_error option \<times> Store" where
  "AcknowledgeHealthNotification i status s =
     (if status \<noteq> healthy \<and> status \<noteq> unhealthy then (Some ErrInvalidStatus, s)
      else if find_upstream (st_db s) i = None then (Some ErrNotFound, s)
      else (None, s\<lparr>st_db := update_upstream i
             (\<lambda>r. r\<lparr>ur_upstream := (ur_upstream r)\<lparr>us_health_notified := status\<rparr>\<rparr>) (st_db s)\<rparr>))"

text \<open>The models a probe discovered; a locked list and another configuration are left alone.\<close>

definition SaveDiscoveredModels :: "int \<Rightarrow> string list \<Rightarrow> int \<Rightarrow> time \<Rightarrow> Store \<Rightarrow> store_error option \<times> Store" where
  "SaveDiscoveredModels i models version now s =
     (let hit = (\<lambda>r. ur_id r = i \<and> version_matches version (ur_upstream r) \<and> \<not> us_models_locked (ur_upstream r)
                  \<and> us_models (ur_upstream r) \<noteq> models);
          db = (st_db s)\<lparr>db_upstreams := map (\<lambda>r. if hit r then touch now (\<lambda>u. u\<lparr>us_models := models\<rparr>) r else r)
                 (db_upstreams (st_db s))\<rparr>;
          s' = s\<lparr>st_db := db\<rparr>;
          s' = (if \<exists>r \<in> set (db_upstreams (st_db s)). hit r then invalidate_routes s' else s')
      in if version > 0 \<and> \<not> (\<exists>r \<in> set (db_upstreams db). ur_id r = i \<and> us_config_version (ur_upstream r) = version)
         then (Some ErrUpstreamConfigChanged, s') else (None, s'))"

record ProbeHealth =
  ph_status :: string
  ph_status_code :: int
  ph_error :: string
  ph_models :: "string list option"

text \<open>\<open>OpsRepository.SaveHealth\<close>, one transaction after the other.\<close>

definition ops_SaveHealth ::
  "duration \<Rightarrow> Upstream \<Rightarrow> ProbeHealth \<Rightarrow> time \<Rightarrow> Store \<Rightarrow> (store_error + string \<times> string) \<times> Store" where
  "ops_SaveHealth health_every u h now s =
     (let ok = (ph_status h = healthy)
      in case SaveProbeHealth (us_id u) ok (ph_error h) (ph_status_code h = 401 \<or> ph_status_code h = 403)
             (us_config_version u) now s of
           (Inl e, s1) \<Rightarrow> (Inl e, s1)
         | (Inr (status, _), s1) \<Rightarrow>
             (case (case ph_models h of
                      Some models \<Rightarrow> if ok then SaveDiscoveredModels (us_id u) models (us_config_version u) now s1 else (None, s1)
                    | None \<Rightarrow> (None, s1)) of
                (Some e, s2) \<Rightarrow> (Inl e, s2)
              | (None, s2) \<Rightarrow>
                  (let interval = (if health_every \<le> 0 then 30 * second else health_every)
                   in case ObserveHealthNotification (us_id u) status interval (us_config_version u) now s2 of
                        (Inl e, s3) \<Rightarrow> (Inl e, s3)
                      | (Inr notification, s3) \<Rightarrow> (Inr (status, notification), s3))))"

section \<open>Balance protection\<close>

definition balance_zero :: "bool \<Rightarrow> Balance \<Rightarrow> bool" where
  "balance_zero enabled b \<longleftrightarrow> enabled \<and> ba_status b = ''ok'' \<and> \<not> ba_unlimited b
     \<and> (case ba_available b of None \<Rightarrow> False | Some a \<Rightarrow> a \<le> 0)"

definition balance_usable :: "bool \<Rightarrow> Balance \<Rightarrow> bool" where
  "balance_usable enabled b \<longleftrightarrow> enabled \<and> ba_status b = ''ok''
     \<and> (ba_unlimited b \<or> (case ba_available b of None \<Rightarrow> False | Some a \<Rightarrow> a > 0))"

definition balanceProtectionState ::
  "bool \<Rightarrow> bool \<Rightarrow> int \<Rightarrow> Balance \<Rightarrow> bool \<Rightarrow> bool \<times> int \<times> BalanceTransition" where
  "balanceProtectionState enabled suspended zero_checks b immediate =
     (let (next, checks) =
        (if \<not> enabled then (False, 0)
         else if balance_zero enabled b then
           (let checks = (if immediate then 2 else zero_checks + 1) in (if checks \<ge> 2 then True else suspended, checks))
         else if balance_usable enabled b then (False, 0)
         else (suspended, 0))
      in (next, checks,
          if \<not> suspended \<and> next then BalanceSuspended
          else if suspended \<and> \<not> next then BalanceResumed else BalanceUnchanged))"

definition complete_balance :: "Balance \<Rightarrow> Balance \<Rightarrow> time \<Rightarrow> Balance" where
  "complete_balance previous b now =
     (let b = (if ba_used b = None then b\<lparr>ba_used := ba_used previous\<rparr> else b);
          b = (if ba_currency b = [] \<and> ba_status b \<noteq> ''ok''
               then b\<lparr>ba_currency := ba_currency previous, ba_currency_reported := ba_currency_reported previous\<rparr> else b);
          b = (if ba_last_success b = None \<and> ba_status b = ''ok'' then b\<lparr>ba_last_success := Some now\<rparr> else b)
      in if ba_last_success b = None then
           (let b = b\<lparr>ba_last_success := ba_last_success previous\<rparr>
            in if ba_last_success b = None \<and> ba_status previous = ''ok''
               then b\<lparr>ba_last_success := ba_updated_at previous\<rparr> else b)
         else b)"

definition balance_action :: "BalanceTransition \<Rightarrow> string" where
  "balance_action tr = ''upstream.balance_'' @ transition_text tr"

definition SaveBalance ::
  "int \<Rightarrow> Balance \<Rightarrow> bool \<Rightarrow> int \<Rightarrow> time \<Rightarrow> Store \<Rightarrow> (store_error + BalanceTransition) \<times> Store" where
  "SaveBalance i balance immediate version now s =
     (case find_upstream (st_db s) i of
        None \<Rightarrow> (Inl ErrNotFound, s)
      | Some r \<Rightarrow>
          (let u = ur_upstream r in
           if version > 0 \<and> version \<noteq> us_config_version u then (Inl ErrUpstreamConfigChanged, s)
           else (let b = complete_balance (ur_balance r) balance now
                 in case balanceProtectionState (us_balance_protection u) (us_balance_suspended u)
                           (us_zero_balance_checks u) b immediate of
                      (next, checks, tr) \<Rightarrow>
                        (let db = update_upstream i (\<lambda>r. (touch now (\<lambda>u. u\<lparr>us_balance_suspended := next,
                               us_zero_balance_checks := checks\<rparr>) r)\<lparr>ur_balance := b\<rparr>) (st_db s);
                             db = (if tr \<noteq> BalanceUnchanged then
                                     db\<lparr>db_audit := db_audit db @ [(balance_action tr, i)],
                                        db_alert_events := db_alert_events db @
                                          [(i, tr, BalanceTransitionMessage (us_name u) tr [])]\<rparr>
                                   else db);
                             s' = s\<lparr>st_db := db\<rparr>
                         in (Inr tr, if tr \<noteq> BalanceUnchanged then invalidate_routes s' else s')))))"

section \<open>Editing\<close>

definition UpdateUpstream :: "Upstream \<Rightarrow> time \<Rightarrow> Store \<Rightarrow> (store_error + BalanceTransition) \<times> Store" where
  "UpdateUpstream u now s =
     (case find_upstream (st_db s) (us_id u) of
        None \<Rightarrow> (Inl ErrNotFound, s)
      | Some r \<Rightarrow>
          if \<exists>q \<in> set (db_upstreams (st_db s)). ur_id q \<noteq> us_id u \<and> us_name (ur_upstream q) = us_name u then (Inl SqlUniqueViolation, s)
          else
          (let old = ur_upstream r;
               changed = (us_base_url old \<noteq> us_base_url u \<or> us_kind old \<noteq> us_kind u \<or> us_api_key old \<noteq> us_api_key u
                          \<or> us_access_token old \<noteq> us_access_token u \<or> us_user_id old \<noteq> us_user_id u);
               edit = (\<lambda>o1. o1\<lparr>us_name := us_name u, us_kind := us_kind u, us_base_url := us_base_url u,
                 us_user_agent := us_user_agent u, us_api_key := us_api_key u, us_access_token := us_access_token u,
                 us_user_id := us_user_id u, us_enabled := us_enabled u, us_balance_protection := us_balance_protection u,
                 us_balance_suspended := (if us_balance_protection u then us_balance_suspended o1 else False),
                 us_zero_balance_checks := (if us_balance_protection u \<and> \<not> changed then us_zero_balance_checks o1 else 0),
                 us_priority := us_priority u, us_protocols := us_protocols u, us_models := us_models u,
                 us_models_locked := us_models_locked u, us_model_aliases := us_model_aliases u,
                 us_connect_timeout := milliseconds (us_connect_timeout u) * millisecond,
                 us_first_byte_timeout := milliseconds (us_first_byte_timeout u) * millisecond,
                 us_idle_timeout := milliseconds (us_idle_timeout u) * millisecond,
                 us_failure_threshold := us_failure_threshold u,
                 us_cooldown := sgn (us_cooldown u) * (\<bar>us_cooldown u\<bar> div second) * second,
                 us_pricing_profile_id := (if us_pricing_profile_id u = Some 0 then None else us_pricing_profile_id u),
                 us_config_version := us_config_version o1 + 1\<rparr>);
               tr = (if us_balance_suspended old \<and> \<not> us_balance_protection u then BalanceResumed else BalanceUnchanged);
               db = update_upstream (us_id u) (touch now edit) (st_db s);
               db = (if tr \<noteq> BalanceUnchanged then
                       db\<lparr>db_audit := db_audit db @ [(balance_action tr, us_id u)],
                          db_alert_events := db_alert_events db @ [(us_id u, tr,
                            BalanceTransitionMessage (us_name u) tr BalanceReasonProtectionDisabled)]\<rparr>
                     else db)
           in (Inr tr, invalidate_routes (s\<lparr>st_db := db\<rparr>))))"

definition SaveModels :: "int \<Rightarrow> string list \<Rightarrow> time \<Rightarrow> Store \<Rightarrow> Store" where
  "SaveModels i models now s =
     invalidate_routes (s\<lparr>st_db := update_upstream i (touch now (\<lambda>u. u\<lparr>us_models := models,
       us_models_locked := True, us_config_version := us_config_version u + 1\<rparr>)) (st_db s)\<rparr>)"

text \<open>Deleting cascades to the memberships and the notification state; emptied groups are disabled.\<close>

definition DeleteUpstream :: "int \<Rightarrow> time \<Rightarrow> Store \<Rightarrow> store_error option \<times> Store" where
  "DeleteUpstream i now s =
     (if find_upstream (st_db s) i = None then (Some ErrNotFound, s)
      else (let db = st_db s;
                members = filter (\<lambda>(g, u). u \<noteq> i) (db_group_upstreams db);
                db = db\<lparr>db_upstreams := filter (\<lambda>r. ur_id r \<noteq> i) (db_upstreams db),
                  db_group_upstreams := members,
                  db_health_states := filter (\<lambda>(u, _). u \<noteq> i) (db_health_states db),
                  db_groups := map (\<lambda>g. if gt_enabled g \<and> \<not> (\<exists>u. (gt_id g, u) \<in> set members)
                    then g\<lparr>gt_enabled := False, gt_updated_at := now\<rparr> else g) (db_groups db)\<rparr>
            in (None, invalidate_auth (invalidate_routes (s\<lparr>st_db := db\<rparr>)))))"

section \<open>Runs of health reports\<close>

datatype HealthReport = SuccessReport bool time | FailureReport string bool time

fun health_report :: "HealthReport \<Rightarrow> Upstream \<Rightarrow> Upstream" where
  "health_report (SuccessReport confirm now) u = record_success confirm now u"
| "health_report (FailureReport message auth_failure now) u = record_failure message auth_failure now u"

fun report_time :: "HealthReport \<Rightarrow> time" where
  "report_time (SuccessReport confirm now) = now"
| "report_time (FailureReport message auth_failure now) = now"

fun is_probe_success :: "HealthReport \<Rightarrow> bool" where
  "is_probe_success (SuccessReport confirm now) = confirm"
| "is_probe_success _ = False"

definition health_run :: "HealthReport list \<Rightarrow> Upstream \<Rightarrow> Upstream" where
  "health_run rs u = fold health_report rs u"

lemma health_run_simps [simp]:
  "health_run [] u = u" "health_run (r # rs) u = health_run rs (health_report r u)"
  "health_run (rs @ [r]) u = health_report r (health_run rs u)"
  by (simp_all add: health_run_def)

lemma saveHealth_row:
  assumes "saveHealth i ok message auth confirm version now s = (Inr res, s')" "find_upstream (st_db s) i = Some r"
  shows "find_upstream (st_db s') i = Some (touch now (health_report
    (if ok then SuccessReport confirm now else FailureReport message auth now)) r)"
proof -
  have id: "\<And>r. ur_id (touch now (record_success confirm now) r) = ur_id r"
    "\<And>r. ur_id (touch now (record_failure message auth now) r) = ur_id r"
    by (simp_all add: ur_id_def touch_def record_success_def record_failure_def Let_def)
  show ?thesis
    using assms find_upstream_update [of "touch now (record_success confirm now)" i "st_db s" i, OF id(1)]
      find_upstream_update [of "touch now (record_failure message auth now)" i "st_db s" i, OF id(2)]
    by (auto simp: saveHealth_def Let_def invalidate_routes_def health_changed_def touch_def split: if_splits)
qed

text \<open>The shape every reachable row has.\<close>

definition health_wf :: "Upstream \<Rightarrow> bool" where
  "health_wf u \<longleftrightarrow>
     (us_circuit_open_until u \<noteq> None \<longleftrightarrow> us_health_status u = unhealthy)
     \<and> (us_health_status u = healthy \<longrightarrow> us_consecutive_failure u = 0 \<and> us_last_error u = [])
     \<and> (us_health_status u = degraded \<longrightarrow> 0 < us_consecutive_failure u)
     \<and> 0 \<le> us_consecutive_failure u
     \<and> us_consecutive_success u \<in> {0, 1, 2}
     \<and> (us_recovery_started_at u = None \<longleftrightarrow> us_consecutive_success u = 0)
     \<and> (us_health_status u \<noteq> unhealthy \<longrightarrow> us_consecutive_success u = 0)"

lemma status_distinct [simp]:
  "healthy \<noteq> unhealthy" "degraded \<noteq> unhealthy" "healthy \<noteq> degraded"
  "unhealthy \<noteq> healthy" "unhealthy \<noteq> degraded" "degraded \<noteq> healthy"
  by (simp_all add: status_defs)

lemma record_success_simps [simp]:
  "us_health_status (record_success c now u) =
     (if us_health_status u = unhealthy \<and> (\<not> c \<or> still_confirming u now) then unhealthy else healthy)"
  "us_consecutive_failure (record_success c now u) = 0"
  "us_circuit_open_until (record_success c now u) =
     (if us_health_status u = unhealthy \<and> (\<not> c \<or> still_confirming u now) then us_circuit_open_until u else None)"
  "us_last_error (record_success c now u) =
     (if us_health_status u = unhealthy \<and> (\<not> c \<or> still_confirming u now) then us_last_error u else [])"
  "us_consecutive_success (record_success c now u) =
     (if us_health_status u = unhealthy \<and> \<not> c then us_consecutive_success u
      else if us_health_status u = unhealthy \<and> still_confirming u now then us_consecutive_success u + 1 else 0)"
  "us_recovery_started_at (record_success c now u) =
     (if us_health_status u = unhealthy \<and> \<not> c then us_recovery_started_at u
      else if us_health_status u = unhealthy \<and> still_confirming u now
      then (case us_recovery_started_at u of None \<Rightarrow> Some now | Some t \<Rightarrow> Some t) else None)"
  "us_failure_threshold (record_success c now u) = us_failure_threshold u"
  "us_cooldown (record_success c now u) = us_cooldown u"
  by (simp_all add: record_success_def Let_def)

lemma record_failure_simps [simp]:
  "us_health_status (record_failure m a now u) =
     (if us_health_status u = unhealthy \<or> a \<or> us_consecutive_failure u + 1 \<ge> us_failure_threshold u then unhealthy
      else degraded)"
  "us_consecutive_failure (record_failure m a now u) = us_consecutive_failure u + 1"
  "us_consecutive_success (record_failure m a now u) = 0"
  "us_recovery_started_at (record_failure m a now u) = None"
  "us_circuit_open_until (record_failure m a now u) =
     (if us_health_status u = unhealthy \<or> a \<or> us_consecutive_failure u + 1 \<ge> us_failure_threshold u
      then Some (now + us_cooldown u) else us_circuit_open_until u)"
  "us_failure_threshold (record_failure m a now u) = us_failure_threshold u"
  "us_cooldown (record_failure m a now u) = us_cooldown u"
  by (simp_all add: record_failure_def Let_def)

lemma health_wf_report: "health_wf u \<Longrightarrow> health_wf (health_report r u)"
  by (cases r) (auto simp: health_wf_def still_confirming_def split: option.splits)

section \<open>Properties\<close>

text \<open>
  Health rows are well formed. Whatever reports arrive, from probes and from traffic, the circuit
  is set exactly while the row is unhealthy, a healthy row carries no failures or error, and the
  recovery count stays within its three confirmations and belongs to an unhealthy row.
\<close>

theorem health_rows_wf:
  assumes "health_wf u"
  shows "health_wf (health_run rs u)"
  using assms by (induction rs arbitrary: u) (simp_all add: health_wf_report)

definition sample_reports :: "HealthReport list" where
  "sample_reports = [FailureReport ''e'' False minute, FailureReport ''e'' True (2 * minute),
     SuccessReport False (3 * minute), SuccessReport True (3 * minute)]"

theorem health_rows_wf_witness:
  "health_wf (health_run sample_reports sample_upstream)"
proof (rule health_rows_wf)
  show "health_wf sample_upstream" by (simp add: health_wf_def sample_upstream_def status_defs)
qed

text \<open>
  C8: recovery is confirmed. An unhealthy upstream that has not begun to recover stays unhealthy, with
  its circuit set, through any reports within two minutes that contain fewer than three probe
  successes: traffic successes, however many, never close an incident.
\<close>

theorem health_recovery_confirmed:
  assumes "us_health_status u = unhealthy" "us_consecutive_success u = 0" "us_recovery_started_at u = None"
    and "us_circuit_open_until u \<noteq> None"
    and "\<forall>r \<in> set rs. t0 \<le> report_time r \<and> report_time r < t0 + 2 * minute"
    and "length (filter is_probe_success rs) < 3"
  shows "us_health_status (health_run rs u) = unhealthy \<and> us_circuit_open_until (health_run rs u) \<noteq> None"
proof -
  have "us_health_status (health_run rs u) = unhealthy \<and> us_circuit_open_until (health_run rs u) \<noteq> None
      \<and> us_consecutive_success (health_run rs u) \<le> int (length (filter is_probe_success rs))
      \<and> (\<forall>t. us_recovery_started_at (health_run rs u) = Some t \<longrightarrow> t0 \<le> t)"
    using assms(5,6)
  proof (induction rs rule: rev_induct)
    case Nil
    then show ?case using assms by simp
  next
    case (snoc r rs)
    let ?u = "health_run rs u"
    have IH: "us_health_status ?u = unhealthy" "us_circuit_open_until ?u \<noteq> None"
      "us_consecutive_success ?u \<le> int (length (filter is_probe_success rs))"
      "\<forall>t. us_recovery_started_at ?u = Some t \<longrightarrow> t0 \<le> t"
      using snoc by auto
    have r: "t0 \<le> report_time r" "report_time r < t0 + 2 * minute" using snoc.prems(1) by auto
    show ?case
    proof (cases r)
      case (SuccessReport confirm now)
      show ?thesis
      proof (cases confirm)
        case True
        then have "us_consecutive_success ?u + 1 < 3" using IH(3) snoc.prems(2) SuccessReport by simp
        then have "still_confirming ?u now" using IH(4) r SuccessReport
          by (force simp: still_confirming_def split: option.split)
        then show ?thesis using IH r SuccessReport True by (auto split: option.splits)
      qed (use IH SuccessReport in simp)
    next
      case (FailureReport m a now)
      then show ?thesis using IH by simp
    qed
  qed
  then show ?thesis by blast
qed

definition sick_upstream :: Upstream where
  "sick_upstream = sample_upstream\<lparr>us_health_status := unhealthy, us_circuit_open_until := Some minute\<rparr>"

theorem health_recovery_confirmed_witness:
  "us_health_status (health_run [SuccessReport True minute, SuccessReport False minute, SuccessReport True (2 * minute)]
     sick_upstream) = unhealthy"
  using health_recovery_confirmed [of sick_upstream
      "[SuccessReport True minute, SuccessReport False minute, SuccessReport True (2 * minute)]" minute]
  by (simp add: sick_upstream_def sample_upstream_def)

text \<open>
  C9: the circuit opens at the threshold. After a run of failures, an upstream that was up is unhealthy
  exactly when its consecutive failures have reached its failure threshold or one of them was an
  authentication failure, and then takes no request before the last failure plus the cooldown.
\<close>

theorem health_opens_at_threshold:
  assumes "us_health_status u \<noteq> unhealthy" "us_consecutive_failure u < us_failure_threshold u"
    and "ts \<noteq> []" and "rs = map (\<lambda>(m, auth, t). FailureReport m auth t) ts"
  shows "(us_health_status (health_run rs u) = unhealthy
            \<longleftrightarrow> us_failure_threshold u \<le> us_consecutive_failure u + int (length ts) \<or> (\<exists>m t. (m, True, t) \<in> set ts))
    \<and> (us_health_status (health_run rs u) = unhealthy \<longrightarrow>
         (\<forall>t < snd (snd (last ts)) + us_cooldown u. \<not> Supports (health_run rs u) p m t))"
proof -
  have "us_consecutive_failure (health_run rs u) = us_consecutive_failure u + int (length ts)
      \<and> us_failure_threshold (health_run rs u) = us_failure_threshold u \<and> us_cooldown (health_run rs u) = us_cooldown u
      \<and> (us_health_status (health_run rs u) = unhealthy
            \<longleftrightarrow> us_failure_threshold u \<le> us_consecutive_failure u + int (length ts) \<or> (\<exists>m t. (m, True, t) \<in> set ts))
      \<and> (us_health_status (health_run rs u) = unhealthy \<longrightarrow>
           us_circuit_open_until (health_run rs u) = Some (snd (snd (last ts)) + us_cooldown u))"
    using assms(1,2) unfolding assms(4)
  proof (induction ts rule: rev_induct)
    case (snoc x ts)
    then show ?case by (cases x) auto
  qed simp
  then show ?thesis by (auto dest: Supports_circuit)
qed

theorem health_opens_at_threshold_witness:
  "\<not> Supports (health_run [FailureReport ''a'' False 1, FailureReport ''b'' False 2, FailureReport ''c'' False 3] sample_upstream)
     ''chat'' ''m'' (50 * second)"
  using health_opens_at_threshold [of sample_upstream "[(''a'', False, 1), (''b'', False, 2), (''c'', False, 3)]" _ "''chat''" "''m''"]
  by (simp add: sample_upstream_def status_defs)

text \<open>
  Stale results are fenced. A report, a balance, a model list or a notification step carrying a
  configuration version other than the row's is refused with \<open>ErrUpstreamConfigChanged\<close> and leaves
  the upstreams as they were.
\<close>

theorem stale_version_fenced:
  assumes "find_upstream (st_db s) i = Some r" "us_config_version (ur_upstream r) \<noteq> version" "0 < version"
    and "\<forall>x \<in> set (db_upstreams (st_db s)). ur_id x = i \<longrightarrow> x = r"
  shows "saveHealth i ok message auth confirm version now s = (Inl ErrUpstreamConfigChanged, s)
    \<and> SaveBalance i b immediate version now s = (Inl ErrUpstreamConfigChanged, s)
    \<and> SaveDiscoveredModels i models version now s = (Some ErrUpstreamConfigChanged, s)
    \<and> ObserveHealthNotification i status interval version now s = (Inl ErrUpstreamConfigChanged, s)"
proof -
  let ?hit = "\<lambda>r. ur_id r = i \<and> version_matches version (ur_upstream r) \<and> \<not> us_models_locked (ur_upstream r)
      \<and> us_models (ur_upstream r) \<noteq> models"
  have miss: "\<forall>x \<in> set (db_upstreams (st_db s)). \<not> ?hit x"
    using assms by (auto simp: version_matches_def)
  have same: "map (\<lambda>r. if ?hit r then touch now (\<lambda>u. u\<lparr>us_models := models\<rparr>) r else r) (db_upstreams (st_db s))
      = db_upstreams (st_db s)"
  proof (rule map_idI)
    fix x assume "x \<in> set (db_upstreams (st_db s))"
    with miss show "(if ?hit x then touch now (\<lambda>u. u\<lparr>us_models := models\<rparr>) x else x) = x" by (subst if_not_P) auto
  qed
  have "\<not> (\<exists>x \<in> set (db_upstreams (st_db s)). ur_id x = i \<and> us_config_version (ur_upstream x) = version)"
    using assms by auto
  then have "SaveDiscoveredModels i models version now s = (Some ErrUpstreamConfigChanged, s)"
    unfolding SaveDiscoveredModels_def Let_def same using miss assms(3) by auto
  then show ?thesis
    using assms by (simp add: saveHealth_def SaveBalance_def ObserveHealthNotification_def
        updateHealthNotification_def version_matches_def Let_def)
qed

definition sample_store :: Store where
  "sample_store = \<lparr>st_db = \<lparr>db_upstreams = [\<lparr>ur_upstream = sample_upstream, ur_balance = empty_balance,
       ur_created_at = 0, ur_updated_at = 0\<rparr>], db_groups = [\<lparr>gt_id = 1, gt_name = ''g'', gt_enabled = True, gt_created_at = 0, gt_updated_at = 0\<rparr>],
       db_group_upstreams = [(1, 7)], db_api_keys = [], db_max_attempts = None, db_health_states = [], db_audit = [],
       db_alert_events = [], db_next_id = 10\<rparr>, st_caches = empty_caches\<rparr>"

theorem stale_version_fenced_witness:
  "SaveBalance 7 empty_balance True 9 0 sample_store = (Inl ErrUpstreamConfigChanged, sample_store)"
  using stale_version_fenced [of sample_store 7 "hd (db_upstreams (st_db sample_store))" 9]
  by (simp add: sample_store_def find_upstream_def ur_id_def sample_upstream_def)

text \<open>
  C10: balance protection. Over any sequence of readings, scheduled or immediate, with the protection
  switched on or off before each, starting routed: the upstream is taken out of routing by a reading
  exactly when the protection is on, the reading shows an exhausted balance, and it is an immediate one
  or the reading before it did so too; it is put back exactly by a reading that shows a usable balance or
  comes with the protection off. Unavailable or unknown readings do neither.
\<close>

type_synonym BalanceCheck = "bool \<times> Balance \<times> bool"

fun balance_run :: "bool \<times> int \<Rightarrow> BalanceCheck list \<Rightarrow> bool \<times> int" where
  "balance_run st [] = st"
| "balance_run (suspended, checks) ((enabled, b, immediate) # rs) =
     (case balanceProtectionState enabled suspended checks b immediate of
        (next, checks', _) \<Rightarrow> balance_run (next, checks') rs)"

definition exhausted :: "BalanceCheck \<Rightarrow> bool" where
  "exhausted r = (case r of (enabled, b, _) \<Rightarrow> enabled \<and> balance_zero enabled b)"

lemma balance_run_snoc: "balance_run st (rs @ [(enabled, b, immediate)]) = (case balance_run st rs of (suspended, checks) \<Rightarrow>
    case balanceProtectionState enabled suspended checks b immediate of (next, checks', _) \<Rightarrow> (next, checks'))"
proof (induction rs arbitrary: st)
  case Nil
  then show ?case by (cases st) (simp split: prod.split)
next
  case (Cons r rs)
  then show ?case by (cases st; cases r) (simp split: prod.split)
qed

lemma balance_run_checks:
  "0 \<le> snd (balance_run (False, 0) rs) \<and> (1 \<le> snd (balance_run (False, 0) rs) \<longleftrightarrow> rs \<noteq> [] \<and> exhausted (last rs))"
proof (induction rs rule: rev_induct)
  case (snoc r rs)
  then show ?case
    by (cases r; cases "balance_run (False, 0) rs")
      (auto simp: balance_run_snoc balanceProtectionState_def exhausted_def Let_def)
qed simp

theorem balance_protection_exact:
  assumes "balance_run (False, 0) rs = (suspended, checks)"
    and "balanceProtectionState enabled suspended checks b immediate = (next, checks', tr)"
  shows "(tr = BalanceSuspended \<longleftrightarrow> \<not> suspended \<and> enabled \<and> balance_zero enabled b
        \<and> (immediate \<or> rs \<noteq> [] \<and> exhausted (last rs)))
    \<and> (tr = BalanceResumed \<longleftrightarrow> suspended \<and> (\<not> enabled \<or> balance_usable enabled b))
    \<and> (next \<longleftrightarrow> (if suspended then tr \<noteq> BalanceResumed else tr = BalanceSuspended))"
  using balance_run_checks [of rs] assms
  by (auto simp: balanceProtectionState_def Let_def balance_zero_def balance_usable_def split: if_splits option.splits)

definition reading :: "rat \<Rightarrow> Balance" where
  "reading a = empty_balance\<lparr>ba_status := ''ok'', ba_available := Some a\<rparr>"

theorem balance_protection_exact_witness:
  "let rs = [(True, reading 5, False), (True, reading 0, False)]
   in balance_run (False, 0) rs = (False, 1) \<and> exhausted (last rs) \<and> balance_zero True (reading (- 1))"
proof -
  let ?rs = "[(True, reading 5, False), (True, reading 0, False)]"
  have r: "balance_run (False, 0) ?rs = (False, 1)"
    by (simp add: balanceProtectionState_def balance_zero_def balance_usable_def reading_def empty_balance_def)
  have "balanceProtectionState True False 1 (reading (- 1)) False = (True, 2, BalanceSuspended)"
    by (simp add: balanceProtectionState_def balance_zero_def reading_def empty_balance_def)
  from balance_protection_exact [OF r this] r show ?thesis by (simp add: Let_def)
qed

text \<open>
  C11: the trail is complete. A saved balance flips the suspension if and only if it appends exactly one
  audit entry and one alert event saying so and invalidates the route cache; otherwise it appends
  nothing and leaves the cache alone.
\<close>

theorem balance_trail_complete:
  assumes "SaveBalance i b immediate version now s = (Inr tr, s')"
    and "find_upstream (st_db s) i = Some r" "find_upstream (st_db s') i = Some r'"
  shows "(us_balance_suspended (ur_upstream r') \<noteq> us_balance_suspended (ur_upstream r) \<longleftrightarrow> tr \<noteq> BalanceUnchanged)
    \<and> (if tr = BalanceUnchanged
        then db_audit (st_db s') = db_audit (st_db s) \<and> db_alert_events (st_db s') = db_alert_events (st_db s)
             \<and> st_caches s' = st_caches s
        else db_audit (st_db s') = db_audit (st_db s) @ [(balance_action tr, i)]
             \<and> db_alert_events (st_db s') = db_alert_events (st_db s)
                 @ [(i, tr, BalanceTransitionMessage (us_name (ur_upstream r)) tr [])]
             \<and> sc_routes (st_caches s') = [] \<and> sc_route_gen (st_caches s') = sc_route_gen (st_caches s) + 1)"
proof -
  let ?u = "ur_upstream r"
  let ?b = "complete_balance (ur_balance r) b now"
  obtain nx checks tr' where st: "balanceProtectionState (us_balance_protection ?u) (us_balance_suspended ?u)
      (us_zero_balance_checks ?u) ?b immediate = (nx, checks, tr')" by (metis prod_cases3)
  let ?f = "\<lambda>r. (touch now (\<lambda>u. u\<lparr>us_balance_suspended := nx, us_zero_balance_checks := checks\<rparr>) r)\<lparr>ur_balance := ?b\<rparr>"
  have tr: "tr' = (if \<not> us_balance_suspended ?u \<and> nx then BalanceSuspended
      else if us_balance_suspended ?u \<and> \<not> nx then BalanceResumed else BalanceUnchanged)"
    using st by (auto simp: balanceProtectionState_def Let_def split: prod.splits)
  have id: "\<And>x. ur_id (?f x) = ur_id x" by (simp add: ur_id_def touch_def)
  have same: "find_upstream (db\<lparr>db_audit := x, db_alert_events := y\<rparr>) j = find_upstream db j" for db x y j
    by (simp add: find_upstream_def)
  have "tr = tr'" "r' = ?f r"
    using assms st find_upstream_update [of ?f i "st_db s" i, OF id]
    by (auto simp: SaveBalance_def Let_def invalidate_routes_def same split: if_splits)
  then show ?thesis
    using assms(1,2) st tr
    by (auto simp: SaveBalance_def Let_def invalidate_routes_def invalidateRouteCache_def touch_def
        update_upstream_def split: if_splits)
qed

lemma sample_audit: "db_audit (st_db sample_store) = []"
  by (simp add: sample_store_def)

lemma balance_action_suspended: "balance_action BalanceSuspended = ''upstream.balance_suspended''"
  by (simp add: balance_action_def)

theorem balance_trail_complete_witness:
  "db_audit (st_db (snd (SaveBalance 7 (reading 0) True 1 0 sample_store))) = [(''upstream.balance_suspended'', 7)]"
proof -
  obtain r' where "find_upstream (st_db (snd (SaveBalance 7 (reading 0) True 1 0 sample_store))) 7 = Some r'"
    "fst (SaveBalance 7 (reading 0) True 1 0 sample_store) = Inr BalanceSuspended"
    by (simp add: SaveBalance_def sample_store_def find_upstream_def ur_id_def sample_upstream_def Let_def
        complete_balance_def reading_def empty_balance_def balanceProtectionState_def balance_zero_def
        update_upstream_def invalidate_routes_def touch_def)
  moreover have "find_upstream (st_db sample_store) 7 = Some (hd (db_upstreams (st_db sample_store)))"
    by (simp add: sample_store_def find_upstream_def ur_id_def sample_upstream_def)
  ultimately show ?thesis
    using balance_trail_complete [of 7 "reading 0" True 1 0 sample_store BalanceSuspended]
    by (metis (no_types, lifting) BalanceTransition.distinct(1) append_Nil balance_action_suspended prod.collapse sample_audit)
qed

end
