(* ===== verification/Access_Store.thy ===== *)
theory Access_Store
  imports Health_Store Usage_Store
begin

text \<open>
  Who may call what: groups (\<open>internal/store/groups.go\<close>), client keys (\<open>apikeys.go\<close>), the
  candidate query of \<open>upstreams.go\<close>, the attempt limit, and the handlers of
  \<open>internal/httpapi/admin_access.go\<close> over them. A handler's reply is its status and error code,
  the code empty on success. SHA-256 is the parameter \<open>sha\<close>; the bytes of a new key are an
  argument.
\<close>

section \<open>Groups\<close>

fun unique_ids_from :: "int list \<Rightarrow> int list \<Rightarrow> int list" where
  "unique_ids_from seen [] = []"
| "unique_ids_from seen (v # vs) =
     (if v > 0 then (if v \<in> set seen then unique_ids_from seen vs else v # unique_ids_from (v # seen) vs)
      else unique_ids_from seen vs)"

definition uniqueIDs :: "int list \<Rightarrow> int list" where
  "uniqueIDs values = unique_ids_from [] values"

definition cleanGroupIDs :: "int list \<Rightarrow> int list" where
  "cleanGroupIDs values = unique_ids_from [] values"

text \<open>\<open>INSERT INTO group_upstreams SELECT g, id FROM upstreams WHERE id = ANY(ids)\<close>.\<close>

definition member_rows :: "StoreDB \<Rightarrow> int \<Rightarrow> int list \<Rightarrow> (int \<times> int) list" where
  "member_rows db g ids = map (\<lambda>r. (g, ur_id r)) (filter (\<lambda>r. ur_id r \<in> set ids) (db_upstreams db))"

definition key_count_of :: "StoreDB \<Rightarrow> int \<Rightarrow> nat" where
  "key_count_of db g = length (filter (\<lambda>k. kr_group_id k = Some g) (db_api_keys db))"

definition group_of_row :: "StoreDB \<Rightarrow> GroupRow \<Rightarrow> Group" where
  "group_of_row db g = \<lparr>gr_id = gt_id g, gr_name = gt_name g, gr_enabled = gt_enabled g,
     gr_upstream_ids = map us_id (sort_key (\<lambda>u. (us_priority u, us_id u))
       (map ur_upstream (filter (\<lambda>r. (gt_id g, ur_id r) \<in> set (db_group_upstreams db)) (db_upstreams db)))),
     gr_upstreams = [], gr_key_count = int (key_count_of db (gt_id g)),
     gr_created_at = gt_created_at g, gr_updated_at = gt_updated_at g\<rparr>"

definition ListGroups :: "Store \<Rightarrow> Group list" where
  "ListGroups s = map (group_of_row (st_db s)) (sort_key gt_id (db_groups (st_db s)))"

definition GroupByID :: "int \<Rightarrow> Store \<Rightarrow> store_error + Group" where
  "GroupByID i s = (case find_group (st_db s) i of None \<Rightarrow> Inl ErrNotFound | Some g \<Rightarrow> Inr (group_of_row (st_db s) g))"

definition CreateGroup :: "Group \<Rightarrow> time \<Rightarrow> Store \<Rightarrow> (store_error + int) \<times> Store" where
  "CreateGroup g now s =
     (if length (gr_upstream_ids g) = 0 then (Inl ErrInvalidGroup, s)
      else (let db = st_db s; name = trim_space (gr_name g); i = db_next_id db;
                members = member_rows db i (gr_upstream_ids g)
            in if \<exists>x \<in> set (db_groups db). gt_name x = name then (Inl SqlUniqueViolation, s)
               else if length members \<noteq> length (uniqueIDs (gr_upstream_ids g)) then (Inl ErrInvalidGroup, s)
               else (Inr i, invalidate_routes (s\<lparr>st_db := db\<lparr>
                 db_groups := db_groups db @ [\<lparr>gt_id = i, gt_name = name, gt_enabled = gr_enabled g,
                   gt_created_at = now, gt_updated_at = now\<rparr>],
                 db_group_upstreams := db_group_upstreams db @ members, db_next_id := i + 1\<rparr>\<rparr>))))"

definition UpdateGroup :: "Group \<Rightarrow> time \<Rightarrow> Store \<Rightarrow> store_error option \<times> Store" where
  "UpdateGroup g now s =
     (let db = st_db s; name = trim_space (gr_name g);
          members = (if length (gr_upstream_ids g) > 0 then member_rows db (gr_id g) (gr_upstream_ids g) else [])
      in if key_count_of db (gr_id g) > 0 \<and> \<not> gr_enabled g then (Some ErrGroupHasKeys, s)
         else if length (gr_upstream_ids g) = 0 \<and> gr_enabled g then (Some ErrInvalidGroup, s)
         else if find_group db (gr_id g) = None then (Some ErrNotFound, s)
         else if \<exists>x \<in> set (db_groups db). gt_name x = name \<and> gt_id x \<noteq> gr_id g then (Some SqlUniqueViolation, s)
         else if length (gr_upstream_ids g) > 0 \<and> length members \<noteq> length (uniqueIDs (gr_upstream_ids g))
           then (Some ErrInvalidGroup, s)
         else (None, invalidate_auth (invalidate_routes (s\<lparr>st_db := db\<lparr>
           db_groups := map (\<lambda>x. if gt_id x = gr_id g
             then x\<lparr>gt_name := name, gt_enabled := gr_enabled g, gt_updated_at := now\<rparr> else x) (db_groups db),
           db_group_upstreams := filter (\<lambda>(a, _). a \<noteq> gr_id g) (db_group_upstreams db) @ members\<rparr>\<rparr>))))"

definition DeleteGroup :: "int \<Rightarrow> Store \<Rightarrow> store_error option \<times> Store" where
  "DeleteGroup i s =
     (let db = st_db s
      in if key_count_of db i > 0 then (Some ErrGroupHasKeys, s)
         else if find_group db i = None then (Some ErrNotFound, s)
         else (None, invalidate_auth (invalidate_routes (s\<lparr>st_db := db\<lparr>
           db_groups := filter (\<lambda>x. gt_id x \<noteq> i) (db_groups db),
           db_group_upstreams := filter (\<lambda>(a, _). a \<noteq> i) (db_group_upstreams db)\<rparr>\<rparr>))))"

definition GroupAvailable :: "int \<Rightarrow> Store \<Rightarrow> store_error option" where
  "GroupAvailable i s =
     (case find_group (st_db s) i of
        None \<Rightarrow> Some ErrNotFound
      | Some g \<Rightarrow>
          if \<not> gt_enabled g then Some ErrGroupDisabled
          else if length (filter (\<lambda>(a, _). a = i) (db_group_upstreams (st_db s))) = 0 then Some ErrGroupEmpty
          else None)"

section \<open>Client keys\<close>

definition HashToken :: "(string \<Rightarrow> string) \<Rightarrow> string \<Rightarrow> string" where
  "HashToken sha token = sha (trim_space token)"

text \<open>The key, its prefix and its hash, for the 43 characters that encode the random bytes.\<close>

definition NewAPIKey :: "(string \<Rightarrow> string) \<Rightarrow> string \<Rightarrow> string \<times> string \<times> string" where
  "NewAPIKey sha raw = (let key = ''dapi_'' @ raw in (key, take 14 key, HashToken sha key))"

definition key_of_row :: "StoreDB \<Rightarrow> KeyRow \<Rightarrow> APIKey" where
  "key_of_row db k =
     (let g = (case kr_group_id k of None \<Rightarrow> None | Some i \<Rightarrow> find_group db i)
      in \<lparr>ak_id = kr_id k, ak_name = kr_name k,
          ak_group_id = (case kr_group_id k of None \<Rightarrow> 0 | Some i \<Rightarrow> i),
          ak_group_name = (case g of None \<Rightarrow> [] | Some g \<Rightarrow> gt_name g),
          ak_group_enabled = (case g of None \<Rightarrow> False | Some g \<Rightarrow> gt_enabled g),
          ak_prefix = kr_prefix k, ak_enabled = kr_enabled k, ak_protocols = kr_protocols k,
          ak_models = kr_models k, ak_last_used = kr_last_used k, ak_created_at = kr_created_at k\<rparr>)"

definition find_key :: "StoreDB \<Rightarrow> int \<Rightarrow> KeyRow option" where
  "find_key db i = find (\<lambda>k. kr_id k = i) (db_api_keys db)"

definition group_exists :: "StoreDB \<Rightarrow> int option \<Rightarrow> bool" where
  "group_exists db g = (case g of None \<Rightarrow> True | Some i \<Rightarrow> find_group db i \<noteq> None)"

definition ListAPIKeys :: "Store \<Rightarrow> APIKey list" where
  "ListAPIKeys s = map (key_of_row (st_db s)) (sort_key kr_id (db_api_keys (st_db s)))"

definition APIKeyByID :: "int \<Rightarrow> Store \<Rightarrow> store_error + APIKey" where
  "APIKeyByID i s = (case find_key (st_db s) i of None \<Rightarrow> Inl ErrNotFound | Some k \<Rightarrow> Inr (key_of_row (st_db s) k))"

definition insertAPIKey ::
  "string \<Rightarrow> string \<Rightarrow> string \<Rightarrow> string option \<Rightarrow> int \<Rightarrow> string list \<Rightarrow> string list \<Rightarrow> time \<Rightarrow> Store \<Rightarrow> (store_error + int) \<times> Store" where
  "insertAPIKey name key_prefix hash encrypted group_id protocols models now s =
     (let db = st_db s; i = db_next_id db
      in if \<exists>k \<in> set (db_api_keys db). kr_name k = name \<or> kr_hash k = hash then (Inl SqlUniqueViolation, s)
         else if \<not> group_exists db (nullableID group_id) then (Inl SqlForeignKeyViolation, s)
         else (Inr i, invalidate_auth (s\<lparr>st_db := db\<lparr>
           db_api_keys := db_api_keys db @ [\<lparr>kr_id = i, kr_name = name, kr_prefix = key_prefix, kr_hash = hash,
             kr_secret = encrypted, kr_group_id = nullableID group_id, kr_enabled = True, kr_protocols = protocols,
             kr_models = models, kr_last_used = None, kr_created_at = now\<rparr>], db_next_id := i + 1\<rparr>\<rparr>)))"

definition APIKeySecret :: "int \<Rightarrow> Store \<Rightarrow> store_error + string" where
  "APIKeySecret i s =
     (case find_key (st_db s) i of
        None \<Rightarrow> Inl ErrNotFound
      | Some k \<Rightarrow> (case kr_secret k of
          None \<Rightarrow> Inl ErrAPIKeySecretUnavailable
        | Some secret \<Rightarrow> if trim_space secret = [] then Inl ErrAPIKeySecretUnavailable else Inr secret))"

definition UpdateAPIKey :: "APIKey \<Rightarrow> Store \<Rightarrow> store_error option \<times> Store" where
  "UpdateAPIKey key s =
     (let db = st_db s
      in if find_key db (ak_id key) = None then (Some ErrNotFound, s)
         else if \<exists>k \<in> set (db_api_keys db). kr_name k = ak_name key \<and> kr_id k \<noteq> ak_id key then (Some SqlUniqueViolation, s)
         else if \<not> group_exists db (nullableID (ak_group_id key)) then (Some SqlForeignKeyViolation, s)
         else (None, invalidate_auth (s\<lparr>st_db := db\<lparr>db_api_keys :=
           map (\<lambda>k. if kr_id k = ak_id key
             then k\<lparr>kr_name := ak_name key, kr_group_id := nullableID (ak_group_id key), kr_enabled := ak_enabled key,
                    kr_protocols := ak_protocols key, kr_models := ak_models key\<rparr> else k) (db_api_keys db)\<rparr>\<rparr>)))"

definition DeleteAPIKey :: "int \<Rightarrow> Store \<Rightarrow> store_error option \<times> Store" where
  "DeleteAPIKey i s =
     (let db = st_db s
      in if find_key db i = None then (Some ErrNotFound, s)
         else (None, invalidate_auth (s\<lparr>st_db := db\<lparr>db_api_keys :=
           filter (\<lambda>k. kr_id k \<noteq> i) (db_api_keys db)\<rparr>\<rparr>)))"

text \<open>The load behind the authentication cache: the enabled key with that hash.\<close>

definition key_for_hash :: "StoreDB \<Rightarrow> string \<Rightarrow> APIKey option" where
  "key_for_hash db hash =
     map_option (key_of_row db) (find (\<lambda>k. kr_hash k = hash \<and> kr_enabled k) (db_api_keys db))"

definition touch_key :: "time \<Rightarrow> APIKey \<Rightarrow> StoreDB \<Rightarrow> StoreDB" where
  "touch_key now key db =
     (if (case ak_last_used key of None \<Rightarrow> True | Some t \<Rightarrow> time_sub now t \<ge> minute)
      then db\<lparr>db_api_keys := map (\<lambda>k. if kr_id k = ak_id key
             \<and> (case kr_last_used k of None \<Rightarrow> True | Some t \<Rightarrow> t < now - minute)
             then k\<lparr>kr_last_used := Some now\<rparr> else k) (db_api_keys db)\<rparr>
      else db)"

definition AuthenticateAPIKey ::
  "(string \<Rightarrow> string) \<Rightarrow> string \<Rightarrow> time \<Rightarrow> Store \<Rightarrow> (store_error + APIKey) \<times> Store" where
  "AuthenticateAPIKey sha raw now s =
     (let hash = HashToken sha raw
      in case cachedAPIKey (st_caches s) hash now of
           (Some key, _) \<Rightarrow> (Inr key, s)
         | (None, generation) \<Rightarrow>
             (case key_for_hash (st_db s) hash of
                None \<Rightarrow> (Inl ErrNotFound, s)
              | Some key \<Rightarrow> (Inr key, s\<lparr>st_db := touch_key now key (st_db s),
                  st_caches := cacheAPIKey (st_caches s) hash key now generation\<rparr>)))"

section \<open>Candidates\<close>

text \<open>The WHERE clause of the candidate query on an upstream row.\<close>

definition route_prefilter :: "string \<Rightarrow> string \<Rightarrow> time \<Rightarrow> Upstream \<Rightarrow> bool" where
  "route_prefilter protocol model now u \<longleftrightarrow>
     us_enabled u \<and> \<not> us_balance_suspended u
     \<and> (protocol = [] \<or> protocol \<in> set (us_protocols u))
     \<and> (model = [] \<or> length (us_models u) = 0 \<or> model \<in> set (us_models u)
        \<or> map_of (us_model_aliases u) model \<noteq> None)
     \<and> (case us_circuit_open_until u of None \<Rightarrow> True | Some t \<Rightarrow> t \<le> now)"

definition by_priority :: "Upstream list \<Rightarrow> Upstream list" where
  "by_priority = sort_key (\<lambda>u. (us_priority u, us_id u))"

definition group_members :: "StoreDB \<Rightarrow> int \<Rightarrow> Upstream list" where
  "group_members db g =
     map ur_upstream (filter (\<lambda>r. (g, ur_id r) \<in> set (db_group_upstreams db)) (db_upstreams db))"

definition route_rows :: "StoreDB \<Rightarrow> int \<Rightarrow> string \<Rightarrow> string \<Rightarrow> time \<Rightarrow> Upstream list" where
  "route_rows db g protocol model now =
     (if \<exists>x \<in> set (db_groups db). gt_id x = g \<and> gt_enabled x
      then by_priority (filter (route_prefilter protocol model now) (group_members db g)) else [])"

definition ListRouteUpstreams :: "int \<Rightarrow> string \<Rightarrow> string \<Rightarrow> time \<Rightarrow> Store \<Rightarrow> Upstream list \<times> Store" where
  "ListRouteUpstreams g protocol model now s =
     (let key = \<lparr>rk_group_id = g, rk_protocol = protocol, rk_model = model\<rparr>
      in case cachedRoutes (st_caches s) key now of
           (Some us, _) \<Rightarrow> (us, s)
         | (None, generation) \<Rightarrow>
             (let rows = route_rows (st_db s) g protocol model now
              in (rows, s\<lparr>st_caches := cacheRoutes (st_caches s) key rows now generation\<rparr>)))"

definition client_models :: "APIKey \<Rightarrow> Upstream \<Rightarrow> string list" where
  "client_models key u =
     filter (\<lambda>m. length (ak_models key) = 0 \<or> m \<in> set (ak_models key))
       (concat (map (\<lambda>model. model # map fst (filter (\<lambda>(_, mapped). mapped = model) (us_model_aliases u))) (us_models u)))"

definition AvailableModels :: "APIKey \<Rightarrow> time \<Rightarrow> Store \<Rightarrow> string list \<times> Store" where
  "AvailableModels key now s =
     (case ListRouteUpstreams (ak_group_id key) [] [] now s of
        (us, s') \<Rightarrow> (sort (remdups (concat (map (client_models key)
           (filter (\<lambda>u. us_enabled u \<and> \<not> circuit_open u now) us)))), s'))"

definition clamp_attempts :: "int \<Rightarrow> int" where
  "clamp_attempts n = (let n = (if n < 1 then 1 else n) in if n > 5 then 5 else n)"

definition MaxAttempts :: "time \<Rightarrow> Store \<Rightarrow> int \<times> Store" where
  "MaxAttempts now s =
     (case cachedMaxAttempts (st_caches s) now of
        (Some n, _) \<Rightarrow> (n, s)
      | (None, generation) \<Rightarrow>
          (let n = clamp_attempts (case db_max_attempts (st_db s) of None \<Rightarrow> 3 | Some n \<Rightarrow> n)
           in (n, s\<lparr>st_caches := cacheMaxAttempts (st_caches s) n now generation\<rparr>)))"

definition SetMaxAttempts :: "int \<Rightarrow> Store \<Rightarrow> Store" where
  "SetMaxAttempts n s = invalidate_attempts (s\<lparr>st_db := (st_db s)\<lparr>db_max_attempts := Some (clamp_attempts n)\<rparr>\<rparr>)"

section \<open>The access handlers\<close>

record groupPayload =
  gp_name :: string
  gp_enabled :: "bool option"
  gp_upstream_ids :: "int list"

record keyPayload =
  kp_name :: string
  kp_group_id :: int
  kp_enabled :: "bool option"
  kp_protocols :: "string list"
  kp_models :: "string list"

type_synonym reply = "int \<times> string"

definition writeStoreError :: "store_error \<Rightarrow> reply" where
  "writeStoreError e =
     (if e = ErrUpstreamConfigChanged then (409, ''upstream_config_changed'')
      else if e = ErrNotFound then (404, ''not_found'')
      else if e = SqlUniqueViolation then (409, ''already_exists'')
      else (500, ''internal_error''))"

definition audit :: "string \<Rightarrow> int \<Rightarrow> Store \<Rightarrow> Store" where
  "audit action i s = s\<lparr>st_db := (st_db s)\<lparr>db_audit := db_audit (st_db s) @ [(action, i)]\<rparr>\<rparr>"

definition validGroupPayload :: "groupPayload \<Rightarrow> bool \<Rightarrow> bool" where
  "validGroupPayload input allow_empty =
     (let name = trim_space (gp_name input)
      in if name = [] \<or> rune_count name > 200 then False
         else if \<not> allow_empty \<and> length (cleanGroupIDs (gp_upstream_ids input)) = 0 then False
         else True)"

definition createGroup :: "groupPayload \<Rightarrow> time \<Rightarrow> Store \<Rightarrow> reply \<times> Store" where
  "createGroup input now s =
     (if \<not> validGroupPayload input False then ((400, ''invalid_group''), s)
      else case CreateGroup \<lparr>gr_id = 0, gr_name = trim_space (gp_name input),
                  gr_enabled = (case gp_enabled input of None \<Rightarrow> True | Some b \<Rightarrow> b),
                  gr_upstream_ids = cleanGroupIDs (gp_upstream_ids input), gr_upstreams = [],
                  gr_key_count = 0, gr_created_at = 0, gr_updated_at = 0\<rparr> now s of
             (Inl e, s') \<Rightarrow> (if e = ErrInvalidGroup then (400, ''invalid_group'') else writeStoreError e, s')
           | (Inr i, s') \<Rightarrow> ((201, []), audit ''group.create'' i s'))"

definition updateGroup :: "int \<Rightarrow> groupPayload \<Rightarrow> time \<Rightarrow> Store \<Rightarrow> reply \<times> Store" where
  "updateGroup i input now s =
     (if \<not> validGroupPayload input True then ((400, ''invalid_group''), s)
      else case GroupByID i s of
             Inl e \<Rightarrow> (writeStoreError e, s)
           | Inr existing \<Rightarrow>
               (case UpdateGroup \<lparr>gr_id = i, gr_name = trim_space (gp_name input),
                  gr_enabled = (case gp_enabled input of None \<Rightarrow> gr_enabled existing | Some b \<Rightarrow> b),
                  gr_upstream_ids = cleanGroupIDs (gp_upstream_ids input), gr_upstreams = [],
                  gr_key_count = 0, gr_created_at = 0, gr_updated_at = 0\<rparr> now s of
                  (Some e, s') \<Rightarrow>
                    (if e = ErrGroupHasKeys then (409, ''group_has_keys'')
                     else if e = ErrInvalidGroup then (400, ''invalid_group'') else writeStoreError e, s')
                | (None, s') \<Rightarrow> ((200, []), audit ''group.update'' i s')))"

definition deleteGroup :: "int \<Rightarrow> Store \<Rightarrow> reply \<times> Store" where
  "deleteGroup i s =
     (case DeleteGroup i s of
        (Some e, s') \<Rightarrow> (if e = ErrGroupHasKeys then (409, ''group_has_keys'') else writeStoreError e, s')
      | (None, s') \<Rightarrow> ((204, []), audit ''group.delete'' i s'))"

fun valid_protocols_from :: "string list \<Rightarrow> string list \<Rightarrow> bool" where
  "valid_protocols_from seen [] = True"
| "valid_protocols_from seen (p # ps) =
     (if p \<noteq> ProtocolResponses \<and> p \<noteq> ProtocolMessages \<and> p \<noteq> ProtocolChat then False
      else if p \<in> set seen then False else valid_protocols_from (p # seen) ps)"

definition validProtocols :: "string list \<Rightarrow> bool" where
  "validProtocols ps = (if length ps = 0 \<or> length ps > 3 then False else valid_protocols_from [] ps)"

definition validStringList :: "string list \<Rightarrow> nat \<Rightarrow> nat \<Rightarrow> bool" where
  "validStringList values max_items max_runes =
     (if length values > max_items then False else list_all (\<lambda>v. \<not> rune_count (trim_space v) > max_runes) values)"

fun clean_strings_from :: "string list \<Rightarrow> string list \<Rightarrow> string list" where
  "clean_strings_from seen [] = []"
| "clean_strings_from seen (v # vs) =
     (let v = trim_space v
      in if v = [] then clean_strings_from seen vs
         else if v \<in> set seen then clean_strings_from seen vs
         else v # clean_strings_from (v # seen) vs)"

definition cleanStrings :: "string list \<Rightarrow> string list" where
  "cleanStrings values = clean_strings_from [] values"

definition validKeyPayload :: "keyPayload \<Rightarrow> bool" where
  "validKeyPayload input =
     (let name = trim_space (kp_name input)
      in name \<noteq> [] \<and> rune_count name \<le> 200 \<and> validProtocols (kp_protocols input)
         \<and> validStringList (kp_models input) 1000 200)"

definition requireAvailableGroup :: "int \<Rightarrow> Store \<Rightarrow> reply option" where
  "requireAvailableGroup i s =
     (if i \<le> 0 then Some (400, ''invalid_group'')
      else case GroupAvailable i s of
             None \<Rightarrow> None
           | Some e \<Rightarrow> Some (if e = ErrNotFound then (404, ''not_found'')
               else if e = ErrGroupDisabled then (400, ''group_disabled'')
               else if e = ErrGroupEmpty then (400, ''group_empty'') else writeStoreError e))"

definition createKey :: "(string \<Rightarrow> string) \<Rightarrow> string \<Rightarrow> keyPayload \<Rightarrow> time \<Rightarrow> Store \<Rightarrow> reply \<times> Store" where
  "createKey sha random input now s =
     (if \<not> validKeyPayload input then ((400, ''invalid_key''), s)
      else case requireAvailableGroup (kp_group_id input) s of
             Some r \<Rightarrow> (r, s)
           | None \<Rightarrow>
               (case NewAPIKey sha random of (raw, key_prefix, hash) \<Rightarrow>
                 (case insertAPIKey (trim_space (kp_name input)) key_prefix hash (Some raw) (kp_group_id input)
                         (kp_protocols input) (cleanStrings (kp_models input)) now s of
                    (Inl e, s') \<Rightarrow> (writeStoreError e, s')
                  | (Inr i, s') \<Rightarrow> ((201, []), audit ''api_key.create'' i s'))))"

definition updateKey :: "int \<Rightarrow> keyPayload \<Rightarrow> Store \<Rightarrow> reply \<times> Store" where
  "updateKey i input s =
     (if \<not> validKeyPayload input then ((400, ''invalid_key''), s)
      else let enabled = (case kp_enabled input of None \<Rightarrow> True | Some b \<Rightarrow> b)
           in case APIKeyByID i s of
                Inl e \<Rightarrow> (writeStoreError e, s)
              | Inr existing \<Rightarrow>
                  (case (if enabled \<or> kp_group_id input \<noteq> ak_group_id existing
                         then requireAvailableGroup (kp_group_id input) s else None) of
                     Some r \<Rightarrow> (r, s)
                   | None \<Rightarrow>
                       (case UpdateAPIKey (existing\<lparr>ak_id := i, ak_group_id := kp_group_id input,
                               ak_name := trim_space (kp_name input), ak_enabled := enabled,
                               ak_protocols := kp_protocols input, ak_models := cleanStrings (kp_models input)\<rparr>) s of
                          (Some e, s') \<Rightarrow> (writeStoreError e, s')
                        | (None, s') \<Rightarrow> ((200, []), audit ''api_key.update'' i s'))))"

definition deleteKey :: "int \<Rightarrow> Store \<Rightarrow> reply \<times> Store" where
  "deleteKey i s =
     (case DeleteAPIKey i s of
        (Some e, s') \<Rightarrow> (writeStoreError e, s')
      | (None, s') \<Rightarrow> ((204, []), audit ''api_key.delete'' i s'))"

definition keySecret :: "int \<Rightarrow> Store \<Rightarrow> reply + string" where
  "keySecret i s =
     (case APIKeySecret i s of
        Inl e \<Rightarrow> Inl (if e = ErrNotFound then (404, ''not_found'')
          else if e = ErrAPIKeySecretUnavailable then (422, ''secret_unavailable'') else writeStoreError e)
      | Inr secret \<Rightarrow> Inr secret)"

section \<open>The access invariant\<close>

text \<open>
  References resolve (memberships and keys name existing rows), identifiers are unique and below the
  next one, hashes identify keys, and an enabled group has a member.
\<close>

definition access_ok :: "StoreDB \<Rightarrow> bool" where
  "access_ok db \<longleftrightarrow>
     distinct (map gt_id (db_groups db)) \<and> (\<forall>g \<in> set (db_groups db). gt_id g < db_next_id db)
     \<and> distinct (map kr_id (db_api_keys db)) \<and> (\<forall>k \<in> set (db_api_keys db). kr_id k < db_next_id db)
     \<and> distinct (map kr_hash (db_api_keys db))
     \<and> (\<forall>(g, u) \<in> set (db_group_upstreams db). g \<in> gt_id ` set (db_groups db) \<and> u \<in> ur_id ` set (db_upstreams db))
     \<and> (\<forall>g \<in> set (db_groups db). gt_enabled g \<longrightarrow> (\<exists>u. (gt_id g, u) \<in> set (db_group_upstreams db)))
     \<and> (\<forall>k \<in> set (db_api_keys db). \<forall>i. kr_group_id k = Some i \<longrightarrow> i \<in> gt_id ` set (db_groups db))
     \<and> distinct (db_group_upstreams db) \<and> distinct (map ur_id (db_upstreams db))"

lemma find_group_None: "find_group db i = None \<longleftrightarrow> i \<notin> gt_id ` set (db_groups db)"
  by (auto simp: find_group_def find_None_iff)

lemma find_group_Some: "find_group db i = Some g \<Longrightarrow> g \<in> set (db_groups db) \<and> gt_id g = i"
  by (auto simp: find_group_def find_Some_iff)

lemma key_count_zero: "key_count_of db i = 0 \<longleftrightarrow> (\<forall>k \<in> set (db_api_keys db). kr_group_id k \<noteq> Some i)"
  by (auto simp: key_count_of_def filter_empty_conv)

lemma group_exists_iff: "group_exists db (nullableID i) \<longleftrightarrow> i = 0 \<or> i \<in> gt_id ` set (db_groups db)"
  using find_group_None [of db i] by (auto simp: group_exists_def nullableID_def)

lemma unique_ids_set: "set (unique_ids_from seen vs) = {v \<in> set vs. v > 0} - set seen"
  by (induction seen vs rule: unique_ids_from.induct) auto

lemma unique_ids_distinct: "distinct (unique_ids_from seen vs)"
  by (induction seen vs rule: unique_ids_from.induct) (auto simp: unique_ids_set)

lemma unique_ids_id: "distinct vs \<Longrightarrow> \<forall>v \<in> set vs. v > 0 \<Longrightarrow> set vs \<inter> set seen = {} \<Longrightarrow> unique_ids_from seen vs = vs"
  by (induction vs arbitrary: seen) auto

lemma clean_ids: "uniqueIDs (cleanGroupIDs vs) = cleanGroupIDs vs"
  unfolding cleanGroupIDs_def uniqueIDs_def
  by (rule unique_ids_id) (simp_all add: unique_ids_set unique_ids_distinct)

lemma member_rows_set: "(g, u) \<in> set (member_rows db i ids) \<Longrightarrow> g = i \<and> u \<in> ur_id ` set (db_upstreams db)"
  by (auto simp: member_rows_def)

lemma member_rows_nonempty:
  "length (member_rows db i ids) = length ids \<Longrightarrow> ids \<noteq> [] \<Longrightarrow> \<exists>u. (i, u) \<in> set (member_rows db i ids)"
  by (cases "member_rows db i ids") (auto simp: member_rows_def)

lemma distinct_pairs: "distinct (map f xs) \<Longrightarrow> distinct (map (\<lambda>x. (g, f x)) (filter P xs))"
  by (induction xs) auto

lemma member_rows_distinct: "distinct (map ur_id (db_upstreams db)) \<Longrightarrow> distinct (member_rows db i ids)"
  unfolding member_rows_def by (rule distinct_pairs)

lemma access_okI:
  assumes "distinct (map gt_id (db_groups db))" "\<And>g. g \<in> set (db_groups db) \<Longrightarrow> gt_id g < db_next_id db"
    and "distinct (map kr_id (db_api_keys db))" "\<And>k. k \<in> set (db_api_keys db) \<Longrightarrow> kr_id k < db_next_id db"
    and "distinct (map kr_hash (db_api_keys db))"
    and "\<And>g u. (g, u) \<in> set (db_group_upstreams db) \<Longrightarrow> g \<in> gt_id ` set (db_groups db) \<and> u \<in> ur_id ` set (db_upstreams db)"
    and "\<And>g. g \<in> set (db_groups db) \<Longrightarrow> gt_enabled g \<Longrightarrow> \<exists>u. (gt_id g, u) \<in> set (db_group_upstreams db)"
    and "\<And>k i. k \<in> set (db_api_keys db) \<Longrightarrow> kr_group_id k = Some i \<Longrightarrow> i \<in> gt_id ` set (db_groups db)"
    and "distinct (db_group_upstreams db)" "distinct (map ur_id (db_upstreams db))"
  shows "access_ok db"
  using assms unfolding access_ok_def by blast

lemma access_okD:
  assumes "access_ok db"
  shows "distinct (map gt_id (db_groups db))" "\<And>g. g \<in> set (db_groups db) \<Longrightarrow> gt_id g < db_next_id db"
    and "distinct (map kr_id (db_api_keys db))" "\<And>k. k \<in> set (db_api_keys db) \<Longrightarrow> kr_id k < db_next_id db"
    and "distinct (map kr_hash (db_api_keys db))"
    and "\<And>g u. (g, u) \<in> set (db_group_upstreams db) \<Longrightarrow> g \<in> gt_id ` set (db_groups db) \<and> u \<in> ur_id ` set (db_upstreams db)"
    and "\<And>g. g \<in> set (db_groups db) \<Longrightarrow> gt_enabled g \<Longrightarrow> \<exists>u. (gt_id g, u) \<in> set (db_group_upstreams db)"
    and "\<And>k i. k \<in> set (db_api_keys db) \<Longrightarrow> kr_group_id k = Some i \<Longrightarrow> i \<in> gt_id ` set (db_groups db)"
    and "distinct (db_group_upstreams db)" "distinct (map ur_id (db_upstreams db))"
  using assms unfolding access_ok_def by blast+

lemma invalidated_db [simp]:
  "st_db (invalidate_routes s) = st_db s" "st_db (invalidate_auth s) = st_db s" "st_db (invalidate_attempts s) = st_db s"
  by (simp_all add: invalidate_routes_def invalidate_auth_def invalidate_attempts_def)

lemma fresh_id: "access_ok db \<Longrightarrow> db_next_id db \<notin> gt_id ` set (db_groups db)"
  "access_ok db \<Longrightarrow> db_next_id db \<notin> kr_id ` set (db_api_keys db)"
  using access_okD(2,4) by fastforce+

lemma CreateGroup_ok:
  assumes ok: "access_ok (st_db s)" and ids: "uniqueIDs (gr_upstream_ids g) = gr_upstream_ids g"
    and run: "CreateGroup g now s = (r, s')"
  shows "access_ok (st_db s')"
proof (cases r)
  case (Inr i)
  let ?rows = "member_rows (st_db s) i (gr_upstream_ids g)"
  have i: "i = db_next_id (st_db s)" and ne: "gr_upstream_ids g \<noteq> []"
    and len: "length ?rows = length (gr_upstream_ids g)"
    and s': "st_db s' = (st_db s)\<lparr>
       db_groups := db_groups (st_db s) @ [\<lparr>gt_id = i, gt_name = trim_space (gr_name g), gt_enabled = gr_enabled g,
         gt_created_at = now, gt_updated_at = now\<rparr>],
       db_group_upstreams := db_group_upstreams (st_db s) @ ?rows, db_next_id := i + 1\<rparr>"
    using ids run Inr by (auto simp: CreateGroup_def Let_def split: if_splits)
  have new: "\<exists>u. (i, u) \<in> set ?rows" using member_rows_nonempty [OF len ne] .
  show ?thesis unfolding s'
  proof (rule access_okI, goal_cases)
    case 1 show ?case using access_okD(1) [OF ok] fresh_id(1) [OF ok] i by simp
  next
    case (2 x) then show ?case using access_okD(2) [OF ok] i by force
  next
    case 3 show ?case using access_okD(3) [OF ok] by simp
  next
    case (4 k) then show ?case using access_okD(4) [OF ok] i by force
  next
    case 5 show ?case using access_okD(5) [OF ok] by simp
  next
    case (6 a u) then show ?case using access_okD(6) [OF ok] by (auto dest: member_rows_set)
  next
    case (7 x) then show ?case using access_okD(7) [OF ok] new by auto
  next
    case (8 k a) then show ?case using access_okD(8) [OF ok] by auto
  next
    case 9
    have "distinct ?rows" using access_okD(10) [OF ok] by (rule member_rows_distinct)
    moreover have "set (db_group_upstreams (st_db s)) \<inter> set ?rows = {}"
      using access_okD(6) [OF ok] fresh_id(1) [OF ok] i by (fastforce dest: member_rows_set)
    ultimately show ?case using access_okD(9) [OF ok] by simp
  next
    case 10 show ?case using access_okD(10) [OF ok] by simp
  qed
qed (use assms in \<open>auto simp: CreateGroup_def Let_def split: if_splits\<close>)

lemma UpdateGroup_ok:
  assumes ok: "access_ok (st_db s)" and ids: "uniqueIDs (gr_upstream_ids g) = gr_upstream_ids g"
    and run: "UpdateGroup g now s = (r, s')"
  shows "access_ok (st_db s')"
proof (cases r)
  case None
  define members where
    "members = (if length (gr_upstream_ids g) > 0 then member_rows (st_db s) (gr_id g) (gr_upstream_ids g) else [])"
  define f :: "GroupRow \<Rightarrow> GroupRow" where "f = (\<lambda>x. if gt_id x = gr_id g
    then x\<lparr>gt_name := trim_space (gr_name g), gt_enabled := gr_enabled g, gt_updated_at := now\<rparr> else x)"
  have found: "gr_id g \<in> gt_id ` set (db_groups (st_db s))" and ne: "gr_enabled g \<Longrightarrow> gr_upstream_ids g \<noteq> []"
    and len: "gr_upstream_ids g \<noteq> [] \<Longrightarrow> length (member_rows (st_db s) (gr_id g) (gr_upstream_ids g)) = length (gr_upstream_ids g)"
    and s': "st_db s' = (st_db s)\<lparr>db_groups := map f (db_groups (st_db s)),
           db_group_upstreams := filter (\<lambda>(a, _). a \<noteq> gr_id g) (db_group_upstreams (st_db s)) @ members\<rparr>"
    using run None unfolding UpdateGroup_def Let_def members_def f_def find_group_None ids
    by (simp_all split: if_splits) (drule sym, simp)+
  have new: "\<exists>u. (gr_id g, u) \<in> set members" if "gr_enabled g"
    using member_rows_nonempty [OF len [OF ne [OF that]] ne [OF that]] ne [OF that] by (simp add: members_def)
  have rows: "(a, u) \<in> set members \<Longrightarrow> a = gr_id g \<and> u \<in> ur_id ` set (db_upstreams (st_db s))" for a u
    by (auto simp: members_def dest: member_rows_set split: if_splits)
  have f: "gt_id (f x) = gt_id x" "gt_enabled (f x) = (if gt_id x = gr_id g then gr_enabled g else gt_enabled x)" for x
    by (simp_all add: f_def)
  show ?thesis unfolding s'
  proof (rule access_okI, goal_cases)
    case 1 show ?case using access_okD(1) [OF ok] by (simp add: comp_def f)
  next
    case (2 x) then show ?case using access_okD(2) [OF ok] f by auto
  next
    case 3 show ?case using access_okD(3) [OF ok] by simp
  next
    case (4 k) then show ?case using access_okD(4) [OF ok] by auto
  next
    case 5 show ?case using access_okD(5) [OF ok] by simp
  next
    case (6 a u)
    then have "a \<in> gt_id ` set (db_groups (st_db s)) \<and> u \<in> ur_id ` set (db_upstreams (st_db s))"
      using access_okD(6) [OF ok] found by (auto dest: rows)
    then show ?case by (simp add: image_image f)
  next
    case (7 x)
    then obtain y where "y \<in> set (db_groups (st_db s))" "x = f y" by auto
    then show ?case using 7(2) access_okD(7) [OF ok, of y] new by (cases "gt_id y = gr_id g") (auto simp: f)
  next
    case (8 k a) then show ?case using access_okD(8) [OF ok] by (simp add: image_image f)
  next
    case 9
    have "distinct members" using access_okD(10) [OF ok] by (simp add: members_def member_rows_distinct)
    then show ?case using access_okD(9) [OF ok] by (auto dest: rows)
  next
    case 10 show ?case using access_okD(10) [OF ok] by simp
  qed
qed (use assms in \<open>auto simp: UpdateGroup_def Let_def split: if_splits\<close>)

lemma DeleteGroup_ok:
  assumes ok: "access_ok (st_db s)" and run: "DeleteGroup i s = (r, s')"
  shows "access_ok (st_db s')"
proof (cases r)
  case None
  then have unused: "\<forall>k \<in> set (db_api_keys (st_db s)). kr_group_id k \<noteq> Some i"
    and s': "st_db s' = (st_db s)\<lparr>db_groups := filter (\<lambda>x. gt_id x \<noteq> i) (db_groups (st_db s)),
           db_group_upstreams := filter (\<lambda>(a, _). a \<noteq> i) (db_group_upstreams (st_db s))\<rparr>"
    using run by (auto simp: DeleteGroup_def Let_def key_count_zero [symmetric] split: if_splits)
  show ?thesis unfolding s'
  proof (rule access_okI, goal_cases)
    case 1 show ?case using access_okD(1) [OF ok] by (simp add: distinct_map_filter)
  next
    case (2 x) then show ?case using access_okD(2) [OF ok] by auto
  next
    case 3 show ?case using access_okD(3) [OF ok] by simp
  next
    case (4 k) then show ?case using access_okD(4) [OF ok] by auto
  next
    case 5 show ?case using access_okD(5) [OF ok] by simp
  next
    case (6 a u) then show ?case using access_okD(6) [OF ok, of a u] by auto
  next
    case (7 x) then show ?case using access_okD(7) [OF ok, of x] by auto
  next
    case (8 k a)
    then have "a \<noteq> i" "a \<in> gt_id ` set (db_groups (st_db s))" using unused access_okD(8) [OF ok] by auto
    then show ?case by auto
  next
    case 9 show ?case using access_okD(9) [OF ok] by simp
  next
    case 10 show ?case using access_okD(10) [OF ok] by simp
  qed
qed (use assms in \<open>auto simp: DeleteGroup_def Let_def split: if_splits\<close>)

lemma insertAPIKey_ok:
  assumes ok: "access_ok (st_db s)" and run: "insertAPIKey name p h e g ps ms now s = (r, s')"
  shows "access_ok (st_db s')"
proof (cases r)
  case (Inr i)
  have i: "i = db_next_id (st_db s)" and g: "g = 0 \<or> g \<in> gt_id ` set (db_groups (st_db s))"
    and h: "h \<notin> kr_hash ` set (db_api_keys (st_db s))"
    and s': "st_db s' = (st_db s)\<lparr>
           db_api_keys := db_api_keys (st_db s) @ [\<lparr>kr_id = i, kr_name = name, kr_prefix = p, kr_hash = h,
             kr_secret = e, kr_group_id = nullableID g, kr_enabled = True, kr_protocols = ps,
             kr_models = ms, kr_last_used = None, kr_created_at = now\<rparr>], db_next_id := i + 1\<rparr>"
    using run Inr by (auto simp: insertAPIKey_def Let_def group_exists_iff split: if_splits)
  show ?thesis unfolding s'
  proof (rule access_okI, goal_cases)
    case 1 show ?case using access_okD(1) [OF ok] by simp
  next
    case (2 x) then show ?case using access_okD(2) [OF ok] i by force
  next
    case 3 show ?case using access_okD(3) [OF ok] fresh_id(2) [OF ok] i by simp
  next
    case (4 k) then show ?case using access_okD(4) [OF ok] i by force
  next
    case 5 show ?case using access_okD(5) [OF ok] h by simp
  next
    case (6 a u) then show ?case using access_okD(6) [OF ok] by simp
  next
    case (7 x) then show ?case using access_okD(7) [OF ok] by simp
  next
    case (8 k a) then show ?case using access_okD(8) [OF ok] g by (auto simp: nullableID_def split: if_splits)
  next
    case 9 show ?case using access_okD(9) [OF ok] by simp
  next
    case 10 show ?case using access_okD(10) [OF ok] by simp
  qed
qed (use assms in \<open>auto simp: insertAPIKey_def Let_def split: if_splits\<close>)

lemma map_keys_ok:
  assumes ok: "access_ok db" and f: "\<And>k. kr_id (f k) = kr_id k" "\<And>k. kr_hash (f k) = kr_hash k"
    and g: "\<And>k i. k \<in> set (db_api_keys db) \<Longrightarrow> kr_group_id (f k) = Some i \<Longrightarrow> i \<in> gt_id ` set (db_groups db)"
  shows "access_ok (db\<lparr>db_api_keys := map f (db_api_keys db)\<rparr>)"
proof (rule access_okI, goal_cases)
  case 3 show ?case using access_okD(3) [OF ok] by (simp add: comp_def f)
next
  case (4 k) then show ?case using access_okD(4) [OF ok] f(1) by auto
next
  case 5 show ?case using access_okD(5) [OF ok] by (simp add: comp_def f)
next
  case (8 k i) then show ?case using g by auto
qed (use access_okD [OF ok] in simp_all)

lemma UpdateAPIKey_ok:
  assumes ok: "access_ok (st_db s)" and run: "UpdateAPIKey key s = (r, s')"
  shows "access_ok (st_db s')"
proof (cases r)
  case None
  define f :: "KeyRow \<Rightarrow> KeyRow" where "f = (\<lambda>k. if kr_id k = ak_id key
     then k\<lparr>kr_name := ak_name key, kr_group_id := nullableID (ak_group_id key), kr_enabled := ak_enabled key,
            kr_protocols := ak_protocols key, kr_models := ak_models key\<rparr> else k)"
  have s': "st_db s' = (st_db s)\<lparr>db_api_keys := map f (db_api_keys (st_db s))\<rparr>"
    and g: "ak_group_id key = 0 \<or> ak_group_id key \<in> gt_id ` set (db_groups (st_db s))"
    using run None by (auto simp: UpdateAPIKey_def Let_def f_def group_exists_iff split: if_splits)
  show ?thesis unfolding s'
    by (rule map_keys_ok [OF ok])
      (use g access_okD(8) [OF ok] in \<open>auto simp: f_def nullableID_def split: if_splits\<close>)
qed (use assms in \<open>auto simp: UpdateAPIKey_def Let_def split: if_splits\<close>)

lemma DeleteAPIKey_ok:
  assumes ok: "access_ok (st_db s)" and run: "DeleteAPIKey i s = (r, s')"
  shows "access_ok (st_db s')"
proof (cases r)
  case None
  then have s': "st_db s' = (st_db s)\<lparr>db_api_keys := filter (\<lambda>k. kr_id k \<noteq> i) (db_api_keys (st_db s))\<rparr>"
    using run by (auto simp: DeleteAPIKey_def Let_def split: if_splits)
  show ?thesis unfolding s'
    by (rule access_okI) (use access_okD [OF ok] in \<open>auto simp: distinct_map_filter\<close>)
qed (use assms in \<open>auto simp: DeleteAPIKey_def Let_def split: if_splits\<close>)

lemma DeleteUpstream_ok:
  assumes ok: "access_ok (st_db s)" and run: "DeleteUpstream i now s = (r, s')"
  shows "access_ok (st_db s')"
proof (cases r)
  case None
  define members where "members = filter (\<lambda>(g, u). u \<noteq> i) (db_group_upstreams (st_db s))"
  define f :: "GroupRow \<Rightarrow> GroupRow" where "f = (\<lambda>g. if gt_enabled g \<and> \<not> (\<exists>u. (gt_id g, u) \<in> set members)
     then g\<lparr>gt_enabled := False, gt_updated_at := now\<rparr> else g)"
  have s': "st_db s' = (st_db s)\<lparr>db_upstreams := filter (\<lambda>r. ur_id r \<noteq> i) (db_upstreams (st_db s)),
      db_group_upstreams := members, db_health_states := filter (\<lambda>(u, _). u \<noteq> i) (db_health_states (st_db s)),
      db_groups := map f (db_groups (st_db s))\<rparr>"
    using run None by (auto simp: DeleteUpstream_def Let_def members_def f_def split: if_splits)
  have f: "gt_id (f g) = gt_id g" "gt_enabled (f g) \<Longrightarrow> \<exists>u. (gt_id g, u) \<in> set members" for g
    by (auto simp: f_def split: if_splits)
  show ?thesis unfolding s'
  proof (rule access_okI, goal_cases)
    case 1 show ?case using access_okD(1) [OF ok] by (simp add: comp_def f)
  next
    case (2 x) then show ?case using access_okD(2) [OF ok] f by auto
  next
    case (6 a u)
    then have "(a, u) \<in> set (db_group_upstreams (st_db s))" "u \<noteq> i" by (auto simp: members_def)
    then have "a \<in> gt_id ` set (db_groups (st_db s))" "u \<in> ur_id ` set (filter (\<lambda>r. ur_id r \<noteq> i) (db_upstreams (st_db s)))"
      using access_okD(6) [OF ok, of a u] by auto
    then show ?case by (simp add: image_image f)
  next
    case (7 x) then show ?case using f by auto
  next
    case (8 k a) then show ?case using access_okD(8) [OF ok] by (simp add: image_image f)
  qed (use access_okD(3,4,5,9,10) [OF ok] in \<open>simp_all add: members_def distinct_map_filter\<close>)
qed (use assms in \<open>auto simp: DeleteUpstream_def Let_def split: if_splits\<close>)

section \<open>Runs of the administrator\<close>

datatype AdminAction =
    ACreateGroup groupPayload | AUpdateGroup int groupPayload | ADeleteGroup int
  | ACreateKey string keyPayload | AUpdateKey int keyPayload | ADeleteKey int | ADeleteUpstream int

fun admin_act :: "(string \<Rightarrow> string) \<Rightarrow> AdminAction \<times> time \<Rightarrow> Store \<Rightarrow> Store" where
  "admin_act sha (ACreateGroup input, now) s = snd (createGroup input now s)"
| "admin_act sha (AUpdateGroup i input, now) s = snd (updateGroup i input now s)"
| "admin_act sha (ADeleteGroup i, now) s = snd (deleteGroup i s)"
| "admin_act sha (ACreateKey random input, now) s = snd (createKey sha random input now s)"
| "admin_act sha (AUpdateKey i input, now) s = snd (updateKey i input s)"
| "admin_act sha (ADeleteKey i, now) s = snd (deleteKey i s)"
| "admin_act sha (ADeleteUpstream i, now) s = snd (DeleteUpstream i now s)"

definition admin_run :: "(string \<Rightarrow> string) \<Rightarrow> (AdminAction \<times> time) list \<Rightarrow> Store \<Rightarrow> Store" where
  "admin_run sha acts s = fold (admin_act sha) acts s"

lemma audit_ok [simp]: "access_ok (st_db (audit a i s)) \<longleftrightarrow> access_ok (st_db s)"
  by (simp add: audit_def access_ok_def)

lemma createGroup_ok: "access_ok (st_db s) \<Longrightarrow> createGroup input now s = (r, s') \<Longrightarrow> access_ok (st_db s')"
  by (auto simp: createGroup_def clean_ids dest!: CreateGroup_ok [rotated 2] split: if_splits prod.splits sum.splits)

lemma updateGroup_ok: "access_ok (st_db s) \<Longrightarrow> updateGroup i input now s = (r, s') \<Longrightarrow> access_ok (st_db s')"
  by (auto simp: updateGroup_def clean_ids dest!: UpdateGroup_ok [rotated 2] split: if_splits prod.splits sum.splits option.splits)

lemma deleteGroup_ok: "access_ok (st_db s) \<Longrightarrow> deleteGroup i s = (r, s') \<Longrightarrow> access_ok (st_db s')"
  by (auto simp: deleteGroup_def dest!: DeleteGroup_ok [rotated] split: prod.splits option.splits)

lemma createKey_ok: "access_ok (st_db s) \<Longrightarrow> createKey sha raw input now s = (r, s') \<Longrightarrow> access_ok (st_db s')"
  by (auto simp: createKey_def Let_def dest!: insertAPIKey_ok [rotated] split: if_splits prod.splits sum.splits option.splits)

lemma updateKey_ok: "access_ok (st_db s) \<Longrightarrow> updateKey i input s = (r, s') \<Longrightarrow> access_ok (st_db s')"
  unfolding updateKey_def Let_def
  by (auto dest!: UpdateAPIKey_ok [rotated] split: if_split_asm prod.splits sum.splits option.split_asm)

lemma deleteKey_ok: "access_ok (st_db s) \<Longrightarrow> deleteKey i s = (r, s') \<Longrightarrow> access_ok (st_db s')"
  by (auto simp: deleteKey_def dest!: DeleteAPIKey_ok [rotated] split: prod.splits option.splits)

lemmas handlers_ok = createGroup_ok updateGroup_ok deleteGroup_ok createKey_ok updateKey_ok deleteKey_ok DeleteUpstream_ok

lemma admin_act_ok: "access_ok (st_db s) \<Longrightarrow> access_ok (st_db (admin_act sha a s))"
  by (cases "(sha, a, s)" rule: admin_act.cases) (auto intro: handlers_ok [OF _ surjective_pairing])

section \<open>Properties\<close>

text \<open>
  C20: access stays consistent. Whatever groups and keys an administrator creates, edits and deletes,
  and whatever upstreams are deleted: a key that names a group names an existing one, member rows name
  existing groups and upstreams and each member once, identifiers and hashes identify keys, and an enabled
  group has a member.
\<close>

theorem admin_keeps_access:
  assumes "access_ok (st_db s)"
  shows "access_ok (st_db (admin_run sha acts s))"
  unfolding admin_run_def using assms by (induction acts arbitrary: s) (simp_all add: admin_act_ok)

lemma sample_store_ok: "access_ok (st_db sample_store)"
  by (simp add: access_ok_def sample_store_def ur_id_def sample_upstream_def)

theorem admin_keeps_access_witness:
  "access_ok (st_db (admin_run (\<lambda>x. x) [(ADeleteUpstream 7, 1), (ADeleteGroup 1, 2)] sample_store))"
  by (rule admin_keeps_access [OF sample_store_ok])

text \<open>
  C21: revocation is immediate. Once deleting a key or disabling it has returned, its secret no longer
  authenticates, whatever the authentication cache held.
\<close>

theorem revocation_immediate:
  assumes "access_ok (st_db s)" "find_key (st_db s) i = Some k" "kr_hash k = HashToken sha raw"
    and "DeleteAPIKey i s = (None, s') \<or> (UpdateAPIKey key s = (None, s') \<and> ak_id key = i \<and> \<not> ak_enabled key)"
  shows "AuthenticateAPIKey sha raw now s' = (Inl ErrNotFound, s')"
proof -
  have k: "k \<in> set (db_api_keys (st_db s))" "kr_id k = i"
    using assms(2) by (auto simp: find_key_def find_Some_iff)
  have same: "x = k" if "x \<in> set (db_api_keys (st_db s))" "kr_hash x = HashToken sha raw" for x
    using access_okD(5) [OF assms(1)] that k assms(3) by (metis distinct_map inj_onD)
  have "sc_auth (st_caches s') = []"
    using assms(4) by (auto simp: DeleteAPIKey_def UpdateAPIKey_def Let_def invalidate_auth_def
        invalidateAuthCache_def split: if_splits)
  then have miss: "fst (cachedAPIKey (st_caches s') (HashToken sha raw) now) = None"
    by (simp add: cachedAPIKey_def)
  have "\<forall>x \<in> set (db_api_keys (st_db s')). kr_hash x = HashToken sha raw \<longrightarrow> \<not> kr_enabled x"
    using assms(4)
  proof
    assume "DeleteAPIKey i s = (None, s')"
    then have "db_api_keys (st_db s') = filter (\<lambda>k. kr_id k \<noteq> i) (db_api_keys (st_db s))"
      by (auto simp: DeleteAPIKey_def Let_def split: if_splits)
    then show ?thesis using same k by auto
  next
    assume "UpdateAPIKey key s = (None, s') \<and> ak_id key = i \<and> \<not> ak_enabled key"
    then have upd: "UpdateAPIKey key s = (None, s')" "ak_id key = i" "\<not> ak_enabled key" by blast+
    define f :: "KeyRow \<Rightarrow> KeyRow" where "f = (\<lambda>x. if kr_id x = ak_id key
      then x\<lparr>kr_name := ak_name key, kr_group_id := nullableID (ak_group_id key), kr_enabled := ak_enabled key,
             kr_protocols := ak_protocols key, kr_models := ak_models key\<rparr> else x)"
    have "db_api_keys (st_db s') = map f (db_api_keys (st_db s))"
      using upd(1) unfolding UpdateAPIKey_def Let_def f_def by (auto split: if_split_asm)
    moreover have "kr_hash (f x) = kr_hash x" "kr_id x = i \<Longrightarrow> \<not> kr_enabled (f x)" for x
      using upd(2,3) by (simp_all add: f_def)
    ultimately show ?thesis using same k by auto
  qed
  then have "key_for_hash (st_db s') (HashToken sha raw) = None"
    by (auto simp: key_for_hash_def find_None_iff)
  with miss show ?thesis
    by (cases "cachedAPIKey (st_caches s') (HashToken sha raw) now") (simp add: AuthenticateAPIKey_def Let_def)
qed

definition keyed_store :: Store where
  "keyed_store = sample_store\<lparr>st_db := (st_db sample_store)\<lparr>db_api_keys := [\<lparr>kr_id = 3, kr_name = ''k'', kr_prefix = [],
     kr_hash = [], kr_secret = None, kr_group_id = Some 1, kr_enabled = True, kr_protocols = [], kr_models = [],
     kr_last_used = None, kr_created_at = 0\<rparr>]\<rparr>\<rparr>"

theorem revocation_immediate_witness:
  "AuthenticateAPIKey (\<lambda>x. x) [] 5 (snd (DeleteAPIKey 3 keyed_store)) = (Inl ErrNotFound, snd (DeleteAPIKey 3 keyed_store))"
proof (rule revocation_immediate)
  show "access_ok (st_db keyed_store)"
    by (simp add: keyed_store_def access_ok_def sample_store_def ur_id_def sample_upstream_def)
  show "find_key (st_db keyed_store) 3 = Some (hd (db_api_keys (st_db keyed_store)))"
    by (simp add: keyed_store_def find_key_def)
  show "DeleteAPIKey 3 keyed_store = (None, snd (DeleteAPIKey 3 keyed_store))
      \<or> (UpdateAPIKey undefined keyed_store = (None, snd (DeleteAPIKey 3 keyed_store))
         \<and> ak_id undefined = (3 :: int) \<and> \<not> ak_enabled undefined)"
    by (simp add: DeleteAPIKey_def Let_def find_key_def keyed_store_def)
qed (simp add: keyed_store_def HashToken_def)

text \<open>
  C22: candidates are exact. On a cache miss, the query (which prefilters in SQL and orders by priority)
  returns, after the gateway's own check, exactly the members of the enabled group that support the
  request, in order of priority and then identifier.
\<close>

theorem route_candidates_exact:
  assumes "protocol \<noteq> []" "model \<noteq> []" "\<exists>g \<in> set (db_groups (st_db s)). gt_id g = i \<and> gt_enabled g"
    and "fst (cachedRoutes (st_caches s) \<lparr>rk_group_id = i, rk_protocol = protocol, rk_model = model\<rparr> now) = None"
  shows "filter (\<lambda>u. Supports u protocol model now) (fst (ListRouteUpstreams i protocol model now s))
    = by_priority (filter (\<lambda>u. Supports u protocol model now) (group_members (st_db s) i))"
proof -
  have "Supports u protocol model now \<Longrightarrow> route_prefilter protocol model now u" for u
    by (auto simp: Supports_def route_prefilter_def circuit_open_def alias_of_def split: if_splits option.splits)
  then have sub: "filter (\<lambda>u. Supports u protocol model now) (filter (route_prefilter protocol model now) us)
      = filter (\<lambda>u. Supports u protocol model now) us" for us
    by (auto simp: filter_filter intro!: filter_cong)
  show ?thesis
    using assms(3,4) sub
    by (cases "cachedRoutes (st_caches s) \<lparr>rk_group_id = i, rk_protocol = protocol, rk_model = model\<rparr> now")
      (simp add: ListRouteUpstreams_def Let_def route_rows_def by_priority_def filter_sort)
qed

theorem route_candidates_exact_witness:
  "filter (\<lambda>u. Supports u ''chat'' ''m'' 0) (fst (ListRouteUpstreams 1 ''chat'' ''m'' 0 sample_store)) = [sample_upstream]"
  using route_candidates_exact [of "''chat''" "''m''" sample_store 1 0]
  by (simp add: sample_store_def cachedRoutes_def empty_caches_def group_members_def by_priority_def ur_id_def
      Supports_def circuit_open_def sample_upstream_def)

end
