(* ===== verification/Safe_Error.thy ===== *)
theory Safe_Error
  imports Gateway_Resources
begin

text \<open>
  \<open>internal/safeerr/errors.go\<close>: the text of an error with the destination, bearer tokens and the
  given secrets removed, before it is stored in an attempt or a health row. The two regular
  expressions are matchers that give the length of the match at the head of a string; both consist
  of disjoint character classes, so the leftmost greedy match is unique. \<open>\s\<close> is the five ASCII
  spaces, and case folding lets the long s (bytes C5 BF) stand for an s.
\<close>

text \<open>
  \<open>err.Error()\<close> of the errors that reach \<open>Text\<close>. \<open>errors.As\<close> looks for a \<open>url.Error\<close> along the whole
  chain; the errors of the callers are those of an HTTP client, where it is the head, or contain none,
  so that the type of errors has it as a constructor and looking at the head is enough.
\<close>

fun error_string :: "gw_error \<Rightarrow> string" where
  "error_string ErrResponseBudget = ''response memory budget exhausted''"
| "error_string (ErrClientClosed s) = s"
| "error_string (UpstreamTimeout s) = s"
| "error_string CtxCanceled = ''context canceled''"
| "error_string CtxDeadline = ''context deadline exceeded''"
| "error_string (NetError t s) = s"
| "error_string (UrlError e) = error_string e"
| "error_string (PlainError s) = s"

text \<open>\<open>ReplaceAll\<close> of the non-empty matches, left to right.\<close>

function replace_all :: "(string \<Rightarrow> nat option) \<Rightarrow> string \<Rightarrow> string \<Rightarrow> string" where
  "replace_all m new [] = []"
| "replace_all m new (c # cs) =
     (case m (c # cs) of
        Some (Suc n) \<Rightarrow> new @ replace_all m new (drop n cs)
      | _ \<Rightarrow> c # replace_all m new cs)"
  by pat_completeness auto
termination by (relation "measure (\<lambda>(m, new, s). length s)") (auto simp: le_imp_less_Suc)

definition is_space_class :: "char \<Rightarrow> bool" where
  "is_space_class c \<longleftrightarrow> of_char c \<in> {9, 10, 12, 13, 32 :: nat}"

definition token_char :: "char \<Rightarrow> bool" where
  "token_char c \<longleftrightarrow> \<not> is_space_class c \<and> of_char c \<noteq> (34 :: nat) \<and> c \<noteq> CHR ''<'' \<and> c \<noteq> CHR ''>''"

definition token_length :: "string \<Rightarrow> nat" where
  "token_length s = length (takeWhile token_char s)"

definition folded_prefix :: "string \<Rightarrow> string \<Rightarrow> bool" where
  "folded_prefix p s \<longleftrightarrow> to_lower (take (length p) s) = p"

definition url_match :: "string \<Rightarrow> nat option" where
  "url_match s =
     (if \<not> folded_prefix ''http'' s then None
      else let n = (if folded_prefix ''s'' (drop 4 s) then 5
                    else if take 2 (drop 4 s) = [CHR 0xC5, CHR 0xBF] then 6 else 4);
               k = token_length (drop (n + 3) s)
           in if take 3 (drop n s) = ''://'' \<and> k > 0 then Some (n + 3 + k) else None)"

definition bearer_match :: "string \<Rightarrow> nat option" where
  "bearer_match s =
     (if \<not> folded_prefix ''bearer'' s then None
      else let n = length (takeWhile is_space_class (drop 6 s)); k = token_length (drop (6 + n) s)
           in if n > 0 \<and> k > 0 then Some (6 + n + k) else None)"

definition secret_match :: "string \<Rightarrow> string \<Rightarrow> nat option" where
  "secret_match secret s = (if prefix secret s then Some (length secret) else None)"

definition redacted :: string where "redacted = ''[redacted]''"

definition redact_secrets :: "string list \<Rightarrow> string \<Rightarrow> string" where
  "redact_secrets secrets text =
     fold (\<lambda>secret t. if secret \<noteq> [] then replace_all (secret_match secret) redacted t else t) secrets text"

definition redact :: "string list \<Rightarrow> string \<Rightarrow> string" where
  "redact secrets text =
     redact_secrets secrets (replace_all bearer_match ''Bearer [redacted]''
       (replace_all url_match ''[destination redacted]'' text))"

fun safe_text :: "gw_error \<Rightarrow> string list \<Rightarrow> string" where
  "safe_text (UrlError e) secrets = redact secrets (''HTTP request failed: '' @ safe_text e secrets)"
| "safe_text e secrets = redact secrets (error_string e)"

definition Text :: "gw_error option \<Rightarrow> string list \<Rightarrow> string" where
  "Text err secrets = (case err of None \<Rightarrow> [] | Some e \<Rightarrow> safe_text e secrets)"

section \<open>Secrets do not survive\<close>

lemma replace_prefix: "prefix p (replace_all m redacted s) \<Longrightarrow> CHR ''['' \<notin> set p \<Longrightarrow> prefix p s"
proof (induction s arbitrary: p)
  case (Cons c cs)
  show ?case
  proof (cases p)
    case p: (Cons x xs)
    then have x: "x \<noteq> CHR ''[''" using Cons.prems(2) by auto
    have "replace_all m redacted (c # cs) = c # replace_all m redacted cs
        \<or> (\<exists>n. replace_all m redacted (c # cs) = redacted @ replace_all m redacted (drop n cs))"
      by (auto split: option.split nat.split)
    then show ?thesis using Cons p x by (auto simp: redacted_def)
  qed simp
qed simp

lemma sublist_skip_first: "sublist s (a # xs) \<Longrightarrow> a \<notin> set s \<Longrightarrow> s \<noteq> [] \<Longrightarrow> sublist s xs"
  by (auto simp: sublist_Cons_right prefix_Cons)

lemma sublist_skip_last:
  assumes "sublist s (xs @ [a])" "a \<notin> set s" "s \<noteq> []"
  shows "sublist s xs"
proof -
  obtain u v where e: "xs @ [a] = u @ s @ v" using assms(1) by (auto simp: sublist_def)
  then show ?thesis
    using assms(2,3) by (cases v rule: rev_cases; cases s rule: rev_cases) (auto simp: sublist_def)
qed

lemma replace_secret_free:
  assumes ne: "secret \<noteq> []" and br: "CHR ''['' \<notin> set secret" "CHR '']'' \<notin> set secret"
    and inner: "\<not> sublist secret ''redacted''"
  shows "\<not> sublist secret (replace_all (secret_match secret) redacted s)"
proof (induction s rule: length_induct)
  case (1 s)
  let ?R = "replace_all (secret_match secret) redacted"
  show ?case
  proof (cases s)
    case (Cons c cs)
    show ?thesis
    proof (cases "prefix secret s")
      case True
      obtain n where n: "length secret = Suc n" using ne by (cases secret) auto
      have run: "?R s = redacted @ ?R (drop n cs)"
        using True n Cons by (simp add: secret_match_def)
      have "\<not> sublist secret (?R (drop n cs))"
        using 1 Cons by (simp add: le_imp_less_Suc)
      moreover have "\<not> sublist secret redacted"
        using sublist_skip_first [of secret "CHR ''[''" "''redacted]''"]
          sublist_skip_last [of secret "''redacted''" "CHR '']''"] ne br inner by (auto simp: redacted_def)
      moreover have "x1 = []" if "secret = x1 @ x2" "suffix x1 redacted" for x1 x2
        using that br(2) by (cases x1 rule: rev_cases) (auto simp: redacted_def suffix_def)
      ultimately show ?thesis unfolding run sublist_append by (metis append_Nil prefix_imp_sublist)
    next
      case False
      then have run: "?R s = c # ?R cs"
        using Cons by (simp add: secret_match_def)
      have "\<not> sublist secret (?R cs)" using 1 Cons by simp
      moreover have "\<not> prefix secret (c # ?R cs)"
        using replace_prefix [of secret "secret_match secret" s] br(1) False run by metis
      ultimately show ?thesis unfolding run by (simp add: sublist_Cons_right)
    qed
  qed (use ne in simp)
qed

text \<open>A secret that can be told from the mark that replaces it.\<close>

definition telling :: "string \<Rightarrow> bool" where
  "telling secret \<longleftrightarrow> secret \<noteq> [] \<and> CHR ''['' \<notin> set secret \<and> CHR '']'' \<notin> set secret \<and> \<not> sublist secret ''redacted''"

lemma redacted_free:
  assumes "telling secret" "\<not> sublist secret s"
  shows "\<not> sublist secret (redacted @ s)"
proof -
  have ne: "secret \<noteq> []" and br: "CHR ''['' \<notin> set secret" "CHR '']'' \<notin> set secret" and inner: "\<not> sublist secret ''redacted''"
    using assms(1) by (simp_all add: telling_def)
  have "\<not> sublist secret redacted"
    using sublist_skip_first [of secret "CHR ''[''" "''redacted]''"]
      sublist_skip_last [of secret "''redacted''" "CHR '']''"] ne br inner by (auto simp: redacted_def)
  moreover have "x1 = []" if "secret = x1 @ x2" "suffix x1 redacted" for x1 x2
    using that br(2) by (cases x1 rule: rev_cases) (auto simp: redacted_def suffix_def)
  ultimately show ?thesis using assms(2) unfolding sublist_append by (metis append_Nil prefix_imp_sublist)
qed

text \<open>Redacting something else brings a secret back no more.\<close>

lemma replace_keeps_free:
  assumes "telling secret" "\<not> sublist secret s"
  shows "\<not> sublist secret (replace_all m redacted s)"
  using assms(2)
proof (induction s rule: length_induct)
  case (1 s)
  let ?R = "replace_all m redacted"
  show ?case
  proof (cases s)
    case (Cons c cs)
    have cs: "\<not> sublist secret cs" and first: "\<not> prefix secret s" using "1.prems" by (simp_all add: Cons sublist_Cons_right)
    have "?R s = c # ?R cs \<or> (\<exists>n. ?R s = redacted @ ?R (drop n cs))"
      unfolding Cons by (auto split: option.split nat.split)
    then show ?thesis
    proof (elim disjE exE)
      assume run: "?R s = c # ?R cs"
      have "\<not> sublist secret (?R cs)" using "1.IH" cs by (simp add: Cons)
      moreover have "\<not> prefix secret (?R s)"
        using replace_prefix [of secret m s] first assms(1) by (auto simp: telling_def)
      ultimately show ?thesis by (simp add: run sublist_Cons_right)
    next
      fix n assume run: "?R s = redacted @ ?R (drop n cs)"
      have "\<not> sublist secret (drop n cs)" using cs sublist_drop sublist_order.order_trans by blast
      then have "\<not> sublist secret (?R (drop n cs))" using "1.IH" by (simp add: Cons le_imp_less_Suc)
      then show ?thesis unfolding run by (rule redacted_free [OF assms(1)])
    qed
  qed (use assms in \<open>simp add: telling_def\<close>)
qed

lemma redact_secrets_free:
  assumes "telling secret"
  shows "\<not> sublist secret t \<or> secret \<in> set secrets \<Longrightarrow> \<not> sublist secret (redact_secrets secrets t)"
proof (induction secrets arbitrary: t)
  case (Cons x secrets)
  have "\<not> sublist secret (if x \<noteq> [] then replace_all (secret_match x) redacted t else t)" if "\<not> sublist secret t \<or> x = secret"
  proof (cases "x = secret")
    case True
    then show ?thesis using assms replace_secret_free [of secret t] by (simp add: telling_def)
  next
    case False
    then have "\<not> sublist secret t" using that by blast
    from replace_keeps_free [OF assms this] this show ?thesis by (cases "x = []") (simp_all only: if_True if_False simp_thms not_True_eq_False)
  qed
  with Cons.IH [of "if x \<noteq> [] then replace_all (secret_match x) redacted t else t"] Cons.prems show ?case
    unfolding redact_secrets_def fold.simps comp_def by (auto simp del: replace_all.simps)
qed (simp add: redact_secrets_def)

lemma safe_text_free: "telling secret \<Longrightarrow> secret \<in> set secrets \<Longrightarrow> \<not> sublist secret (safe_text e secrets)"
  by (cases e) (simp_all add: redact_def redact_secrets_free)

lemma text_free: "telling secret \<Longrightarrow> secret \<in> set secrets \<Longrightarrow> \<not> sublist secret (Text (Some e) secrets)"
  by (simp add: Text_def safe_text_free)

section \<open>Properties\<close>

text \<open>
  C24: stored errors do not leak secrets. Whatever the error says and however many secrets it is redacted
  with, its stored text contains no occurrence of any of them that can be told from the mark that
  replaces it: one that is not empty, has no square bracket and is no part of the word redacted.
\<close>

theorem error_text_hides_secret:
  assumes "secret \<in> set secrets"
    and "secret \<noteq> []" "CHR ''['' \<notin> set secret" "CHR '']'' \<notin> set secret" "\<not> sublist secret ''redacted''"
  shows "\<not> sublist secret (Text err secrets)"
  using safe_text_free [of secret secrets] assms by (cases err) (simp_all add: Text_def telling_def)

theorem error_text_hides_secret_witness:
  "\<not> sublist ''sk-1'' (Text (Some (UrlError (PlainError ''dial sk-1sk-1: tok refused''))) [''tok'', ''sk-1''])"
  by (rule error_text_hides_secret) (simp_all add: sublist_code)

end
