(* ===== verification/JSON_Values.thy ===== *)
theory JSON_Values
  imports Prelude
begin

text \<open>
  What the gateway uses of \<open>encoding/json\<close>: a value after its syntax has been decoded, and how
  \<open>json.Unmarshal\<close> fills the fields of a struct from an object. The decoding of the syntax itself
  is a parameter of the definitions that use it (\<open>dec\<close>, \<open>None\<close> for a syntax error). Keys match a
  field up to the case of ASCII letters, a later duplicate wins, null leaves a field as it was, and
  a value of the wrong type makes the whole call fail. A \<open>json.RawMessage\<close> is the value it holds,
  null included.
\<close>

datatype json =
    JNull
  | JBool bool
  | JNum string
  | JStr string
  | JArr "json list"
  | JObj "(string \<times> json) list"

definition digit :: "char \<Rightarrow> bool" where
  "digit c \<longleftrightarrow> 48 \<le> (of_char c :: nat) \<and> (of_char c :: nat) \<le> 57"

fun digits_value :: "int \<Rightarrow> string \<Rightarrow> int option" where
  "digits_value acc [] = Some acc"
| "digits_value acc (c # cs) = (if digit c then digits_value (10 * acc + (of_char c - 48)) cs else None)"

text \<open>\<open>strconv.ParseInt\<close> of a JSON number into 64 bits: fractions, exponents and larger numbers fail.\<close>

definition parse_int64 :: "string \<Rightarrow> int option" where
  "parse_int64 s =
     (case (case s of
              [] \<Rightarrow> None
            | c # cs \<Rightarrow> if c = CHR ''-'' then (if cs = [] then None else map_option uminus (digits_value 0 cs))
                        else digits_value 0 s) of
        None \<Rightarrow> None
      | Some n \<Rightarrow> if in_int64 n then Some n else None)"

lemma parse_int64_range: "parse_int64 s = Some n \<Longrightarrow> in_int64 n"
  by (auto simp: parse_int64_def split: option.splits list.splits if_splits)

section \<open>Fields of a struct\<close>

type_synonym json_fields = "(string \<times> json) list"

text \<open>The entries of a value decoded into a struct.\<close>

fun struct_of :: "json \<Rightarrow> json_fields option" where
  "struct_of (JObj es) = Some es"
| "struct_of JNull = Some []"
| "struct_of _ = None"

definition matching :: "string \<Rightarrow> json_fields \<Rightarrow> json list" where
  "matching name es = map snd (filter (\<lambda>(k, _). equal_fold k name) es)"

definition last_of :: "'a list \<Rightarrow> 'a option" where
  "last_of xs = (if xs = [] then None else Some (last xs))"

definition raw_field :: "string \<Rightarrow> json_fields \<Rightarrow> json option" where
  "raw_field name es = last_of (matching name es)"

text \<open>A field of a typed kind: \<open>None\<close> is a type error.\<close>

fun int_value :: "json \<Rightarrow> int option option" where
  "int_value JNull = Some None"
| "int_value (JNum s) = map_option Some (parse_int64 s)"
| "int_value _ = None"

definition int_field :: "string \<Rightarrow> json_fields \<Rightarrow> int option option" where
  "int_field name es =
     (let vs = map int_value (matching name es)
      in if None \<in> set vs then None else (case last_of vs of None \<Rightarrow> Some None | Some v \<Rightarrow> v))"

fun string_values :: "json list \<Rightarrow> string \<Rightarrow> string option" where
  "string_values [] acc = Some acc"
| "string_values (JStr s # vs) acc = string_values vs s"
| "string_values (JNull # vs) acc = string_values vs acc"
| "string_values (_ # vs) acc = None"

definition string_field :: "string \<Rightarrow> json_fields \<Rightarrow> string option" where
  "string_field name es = string_values (matching name es) []"

fun merge_structs :: "json list \<Rightarrow> json_fields option" where
  "merge_structs [] = Some []"
| "merge_structs (v # vs) =
     (case struct_of v of None \<Rightarrow> None
      | Some es \<Rightarrow> (case merge_structs vs of None \<Rightarrow> None | Some rest \<Rightarrow> Some (es @ rest)))"

definition struct_field :: "string \<Rightarrow> json_fields \<Rightarrow> json_fields option" where
  "struct_field name es = merge_structs (matching name es)"

fun all_some :: "'a option list \<Rightarrow> 'a list option" where
  "all_some [] = Some []"
| "all_some (x # xs) =
     (case x of None \<Rightarrow> None | Some a \<Rightarrow> (case all_some xs of None \<Rightarrow> None | Some as \<Rightarrow> Some (a # as)))"

fun list_of :: "json \<Rightarrow> json list option" where
  "list_of (JArr vs) = Some vs"
| "list_of JNull = Some []"
| "list_of _ = None"

definition structs_of :: "json \<Rightarrow> json_fields list option" where
  "structs_of v = (case list_of v of None \<Rightarrow> None | Some vs \<Rightarrow> all_some (map struct_of vs))"

definition structs_field :: "string \<Rightarrow> json_fields \<Rightarrow> json_fields list option" where
  "structs_field name es =
     (let vs = map structs_of (matching name es)
      in if None \<in> set vs then None else (case last_of vs of None \<Rightarrow> Some [] | Some v \<Rightarrow> v))"

lemma int_value_range: "int_value v = Some (Some n) \<Longrightarrow> in_int64 n"
  by (cases v) (auto dest: parse_int64_range)

lemma int_field_range: "int_field name es = Some (Some n) \<Longrightarrow> in_int64 n"
  using last_in_set [of "map int_value (matching name es)"]
  by (auto simp: int_field_def last_of_def Let_def split: if_splits) (metis int_value_range)

end
