(* ===== verification/Transport.thy ===== *)
theory Transport
  imports Safe_Error JSON_Values "HOL-Library.AList" "HOL-Library.List_Lexorder" "HOL-Library.Char_ord"
begin

text \<open>
  \<open>internal/gateway/transport.go\<close>: the headers that cross the gateway in either direction, the
  upstream request, the model rewriting of a request body, and the bounded cache of HTTP clients.
  An \<open>http.Header\<close> is an association list with distinct keys, a URL its parsed parts; the parser of
  URLs and the syntax of JSON (\<open>dec\<close> and \<open>enc\<close>) are parameters.
\<close>

section \<open>Headers\<close>

type_synonym header = "(string \<times> string list) list"

definition upper_char :: "char \<Rightarrow> char" where
  "upper_char c = (let n = of_char c :: nat in if 97 \<le> n \<and> n \<le> 122 then char_of (n - 32) else c)"

definition header_byte :: "char \<Rightarrow> bool" where
  "header_byte c \<longleftrightarrow> (let n = of_char c :: nat in (48 \<le> n \<and> n \<le> 57) \<or> (65 \<le> n \<and> n \<le> 90) \<or> (97 \<le> n \<and> n \<le> 122))
     \<or> c \<in> set ''!#$%&*+-.^_`|~'' \<or> of_char c = (39 :: nat)"

fun canonical_from :: "bool \<Rightarrow> string \<Rightarrow> string" where
  "canonical_from upper [] = []"
| "canonical_from upper (c # cs) =
     (let c = (if upper then upper_char c else lower_char c) in c # canonical_from (c = CHR ''-'') cs)"

definition CanonicalHeaderKey :: "string \<Rightarrow> string" where
  "CanonicalHeaderKey s = (if list_all header_byte s then canonical_from True s else s)"

definition header_values :: "header \<Rightarrow> string \<Rightarrow> string list" where
  "header_values h k = (case map_of h (CanonicalHeaderKey k) of None \<Rightarrow> [] | Some vs \<Rightarrow> vs)"

definition header_get :: "header \<Rightarrow> string \<Rightarrow> string" where
  "header_get h k = (case header_values h k of [] \<Rightarrow> [] | v # _ \<Rightarrow> v)"

definition header_set :: "header \<Rightarrow> string \<Rightarrow> string \<Rightarrow> header" where
  "header_set h k v = AList.update (CanonicalHeaderKey k) [v] h"

definition header_add :: "header \<Rightarrow> string \<Rightarrow> string \<Rightarrow> header" where
  "header_add h k v = AList.update (CanonicalHeaderKey k) (header_values h k @ [v]) h"

definition header_del :: "header \<Rightarrow> string \<Rightarrow> header" where
  "header_del h k = AList.delete (CanonicalHeaderKey k) h"

fun split_on :: "char \<Rightarrow> string \<Rightarrow> string list" where
  "split_on sep [] = [[]]"
| "split_on sep (c # cs) =
     (if c = sep then [] # split_on sep cs
      else case split_on sep cs of [] \<Rightarrow> [[c]] | w # ws \<Rightarrow> (c # w) # ws)"

definition hop_headers :: "string list" where
  "hop_headers = [''Connection'', ''Proxy-Connection'', ''Keep-Alive'', ''Proxy-Authenticate'',
     ''Proxy-Authorization'', ''Te'', ''Trailer'', ''Transfer-Encoding'', ''Upgrade'']"

definition stripHopHeaders :: "header \<Rightarrow> header" where
  "stripHopHeaders h =
     fold (\<lambda>name h. header_del h name) hop_headers
       (fold (\<lambda>name h. header_del h (trim_space name)) (split_on (CHR '','') (header_get h ''Connection'')) h)"

definition gateway_headers :: "string list" where
  "gateway_headers = [''X-Dapi-Request-Id'', ''X-Dapi-Upstream'', ''X-Dapi-Attempts'',
     ''Content-Security-Policy'', ''X-Content-Type-Options'', ''X-Frame-Options'', ''Referrer-Policy'',
     ''Permissions-Policy'', ''Cross-Origin-Opener-Policy'']"

definition preservedGatewayHeader :: "string \<Rightarrow> bool" where
  "preservedGatewayHeader name \<longleftrightarrow> CanonicalHeaderKey name \<in> set gateway_headers"

definition blocked_headers :: "string list" where
  "blocked_headers = [''Set-Cookie'', ''Set-Cookie2'', ''Location'', ''Content-Security-Policy'',
     ''X-Content-Type-Options'', ''X-Frame-Options'', ''Referrer-Policy'', ''Permissions-Policy'',
     ''Cross-Origin-Opener-Policy'', ''Strict-Transport-Security'']"

definition blockedResponseHeader :: "string \<Rightarrow> bool" where
  "blockedResponseHeader name \<longleftrightarrow>
     has_prefix (CanonicalHeaderKey name) ''Access-Control-'' \<or> CanonicalHeaderKey name \<in> set blocked_headers"

definition copyResponseHeaders :: "header \<Rightarrow> header \<Rightarrow> header" where
  "copyResponseHeaders destination source =
     (let kept = fold (\<lambda>key h. if preservedGatewayHeader key then h else header_del h key) (map fst destination) destination
      in stripHopHeaders (fold (\<lambda>(key, values) h. if blockedResponseHeader key then h
           else fold (\<lambda>v h. header_add h key v) values h) source kept))"

fun show_nat :: "nat \<Rightarrow> string" where
  "show_nat n = (if n < 10 then [char_of (48 + n)] else show_nat (n div 10) @ [char_of (48 + n mod 10)])"

declare show_nat.simps [simp del]

definition show_int :: "int \<Rightarrow> string" where
  "show_int i = (if i < 0 then ''-'' @ show_nat (nat (- i)) else show_nat (nat i))"

definition setGatewayHeaders :: "string \<Rightarrow> string \<Rightarrow> nat \<Rightarrow> header \<Rightarrow> header" where
  "setGatewayHeaders request_id upstream attempts h =
     header_set (header_set (header_set h ''X-DAPI-Request-ID'' request_id) ''X-DAPI-Upstream'' upstream)
       ''X-DAPI-Attempts'' (show_nat attempts)"

definition forwarded_headers :: "string list" where
  "forwarded_headers = [''Accept'', ''Accept-Encoding'', ''Cache-Control'', ''Content-Type'', ''Pragma'', ''User-Agent'',
     ''X-Request-ID'', ''OpenAI-Organization'', ''OpenAI-Project'', ''OpenAI-Beta'', ''Anthropic-Version'', ''Anthropic-Beta'']"

definition filteredRequestHeaders :: "header \<Rightarrow> header" where
  "filteredRequestHeaders source =
     fold (\<lambda>name h. fold (\<lambda>v h. header_add h name v) (header_values source name) h) forwarded_headers []"

section \<open>The upstream request\<close>

record Url =
  url_scheme :: string
  url_host :: string
  url_path :: string
  url_query :: string

record InRequest =
  ir_method :: string
  ir_url :: Url
  ir_header :: header
  ir_proto_major :: nat
  ir_content_length :: int
  ir_remote :: string

record OutRequest =
  or_method :: string
  or_url :: Url
  or_header :: header
  or_body :: string

definition trim_right_char :: "char \<Rightarrow> string \<Rightarrow> string" where
  "trim_right_char c s = rev (dropWhile (\<lambda>x. x = c) (rev s))"

definition target_url :: "Url \<Rightarrow> InRequest \<Rightarrow> Url" where
  "target_url target r =
     (let path = url_path (ir_url r);
          path = (if has_suffix (trim_right_char (CHR ''/'') (url_path target)) ''/v1'' \<and> has_prefix path ''/v1/''
                  then trim_prefix path ''/v1'' else path)
      in target\<lparr>url_path := trim_right_char (CHR ''/'') (url_path target) @ ''/'' @ dropWhile (\<lambda>x. x = CHR ''/'') path,
                url_query := url_query (ir_url r)\<rparr>)"

definition out_headers :: "InRequest \<Rightarrow> Upstream \<Rightarrow> string \<Rightarrow> header" where
  "out_headers r u protocol =
     (let h = filteredRequestHeaders (ir_header r);
          h = stripHopHeaders h;
          h = header_del h ''Content-Length'';
          h = header_del h ''Accept-Encoding'';
          h = header_del h ''X-Api-Key'';
          h = header_set h ''Authorization'' (''Bearer '' @ us_api_key u);
          h = (if us_user_agent u \<noteq> [] then header_set h ''User-Agent'' (us_user_agent u) else h)
      in if protocol = ProtocolMessages then header_set h ''X-Api-Key'' (us_api_key u) else h)"

text \<open>\<open>new_request\<close> is the check of method and address in \<open>http.NewRequestWithContext\<close>: its error, if any.\<close>

definition upstreamRequest ::
  "(string \<Rightarrow> Url option) \<Rightarrow> (string \<Rightarrow> Url \<Rightarrow> gw_error option) \<Rightarrow> InRequest \<Rightarrow> Upstream \<Rightarrow> string \<Rightarrow> string \<Rightarrow> gw_error + OutRequest" where
  "upstreamRequest parse_url new_request r u body protocol =
     (case parse_url (trim_space (us_base_url u)) of
        None \<Rightarrow> Inl (PlainError ''invalid upstream URL'')
      | Some target \<Rightarrow>
          if url_host target = [] \<or> (url_scheme target \<noteq> ''http'' \<and> url_scheme target \<noteq> ''https'')
          then Inl (PlainError ''invalid upstream URL'')
          else case new_request (ir_method r) (target_url target r) of
            Some err \<Rightarrow> Inl err
          | None \<Rightarrow> Inr \<lparr>or_method = ir_method r, or_url = target_url target r,
                         or_header = out_headers r u protocol, or_body = body\<rparr>)"

section \<open>The request body\<close>

record requestPayload =
  rp_model :: string
  rp_stream :: bool

fun payload_fields :: "json_fields \<Rightarrow> bool \<Rightarrow> bool \<Rightarrow> requestPayload \<Rightarrow> requestPayload option" where
  "payload_fields [] seen_model seen_stream p = Some p"
| "payload_fields ((key, v) # rest) seen_model seen_stream p =
     (if equal_fold key ''model'' then
        (if key \<noteq> ''model'' \<or> seen_model then None
         else case v of
                JStr s \<Rightarrow> payload_fields rest True seen_stream (p\<lparr>rp_model := s\<rparr>)
              | JNull \<Rightarrow> payload_fields rest True seen_stream p
              | _ \<Rightarrow> None)
      else if equal_fold key ''stream'' then
        (if key \<noteq> ''stream'' \<or> seen_stream then None
         else case v of
                JBool b \<Rightarrow> payload_fields rest seen_model True (p\<lparr>rp_stream := b\<rparr>)
              | JNull \<Rightarrow> payload_fields rest seen_model True p
              | _ \<Rightarrow> None)
      else payload_fields rest seen_model seen_stream p)"

definition parseRequestPayload :: "(string \<Rightarrow> json option) \<Rightarrow> string \<Rightarrow> requestPayload option" where
  "parseRequestPayload dec body =
     (case dec body of
        Some (JObj es) \<Rightarrow> payload_fields es False False \<lparr>rp_model = [], rp_stream = False\<rparr>
      | _ \<Rightarrow> None)"

text \<open>
  A map of raw fields is written with its keys sorted, the last duplicate standing; writing to the
  nil map of a JSON null panics, which an object excludes.
\<close>

definition sorted_fields :: "json_fields \<Rightarrow> json_fields" where
  "sorted_fields es = map (\<lambda>k. (k, the (map_of (rev es) k))) (sort (remdups (map fst es)))"

definition replaceModel :: "(string \<Rightarrow> json option) \<Rightarrow> (json \<Rightarrow> string) \<Rightarrow> string \<Rightarrow> string \<Rightarrow> string option" where
  "replaceModel dec enc body model =
     (case dec body of
        Some (JObj es) \<Rightarrow> Some (enc (JObj (sorted_fields (es @ [(''model'', JStr model)]))))
      | _ \<Rightarrow> None)"

record requestBodies =
  qb_body :: string
  qb_model :: string
  qb_rewritten :: "(string \<times> string) list"

definition forModel ::
  "(string \<Rightarrow> json option) \<Rightarrow> (json \<Rightarrow> string) \<Rightarrow> requestBodies \<Rightarrow> string \<Rightarrow> string option \<times> requestBodies" where
  "forModel dec enc b model =
     (if model = qb_model b then (Some (qb_body b), b)
      else case map_of (qb_rewritten b) model of
             Some body \<Rightarrow> (Some body, b)
           | None \<Rightarrow>
               (case replaceModel dec enc (qb_body b) model of
                  None \<Rightarrow> (None, b)
                | Some body \<Rightarrow> (Some body, b\<lparr>qb_rewritten := AList.update model body (qb_rewritten b)\<rparr>)))"

section \<open>HTTP clients\<close>

definition maxCachedTransports :: nat where "maxCachedTransports = 32"

record transportKey =
  tk_connect :: duration
  tk_first_byte :: duration
  tk_idle :: duration

text \<open>A client is the number of its transport and the settings it was made with.\<close>

record Client =
  cl_id :: nat
  cl_key :: transportKey
  cl_guarded :: bool

record transportEntry =
  te_client :: Client
  te_used :: time

record Transports =
  tr_entries :: "(transportKey \<times> transportEntry) list"
  tr_next :: nat
  tr_closed_idle :: "nat list"

definition client_key :: "Upstream \<Rightarrow> transportKey" where
  "client_key u =
     \<lparr>tk_connect = (if us_connect_timeout u \<le> 0 then 5 * second else us_connect_timeout u),
      tk_first_byte = (if us_first_byte_timeout u \<le> 0 then 180 * second else us_first_byte_timeout u),
      tk_idle = (if us_idle_timeout u \<le> 0 then 90 * second else us_idle_timeout u)\<rparr>"

text \<open>The scan for the least recently used entry; Go ranges over the map in some order.\<close>

definition oldest_entry :: "(transportKey \<times> transportEntry) list \<Rightarrow> (transportKey \<times> transportEntry) option" where
  "oldest_entry es = fold (\<lambda>e best. case best of
       None \<Rightarrow> Some e
     | Some b \<Rightarrow> if is_zero_time (te_used (snd b)) \<or> te_used (snd e) < te_used (snd b) then Some e else best) es None"

definition client :: "bool \<Rightarrow> Upstream \<Rightarrow> time \<Rightarrow> Transports \<Rightarrow> Client \<times> Transports" where
  "client secure u now t =
     (let key = client_key u
      in case map_of (tr_entries t) key of
           Some entry \<Rightarrow> (te_client entry, t\<lparr>tr_entries := AList.update key (entry\<lparr>te_used := now\<rparr>) (tr_entries t)\<rparr>)
         | None \<Rightarrow>
             (let t = (if length (tr_entries t) \<ge> maxCachedTransports then
                         (case oldest_entry (tr_entries t) of
                            None \<Rightarrow> t
                          | Some (k, e) \<Rightarrow> t\<lparr>tr_entries := AList.delete k (tr_entries t),
                              tr_closed_idle := tr_closed_idle t @ [cl_id (te_client e)]\<rparr>)
                       else t);
                  c = \<lparr>cl_id = tr_next t, cl_key = key, cl_guarded = secure\<rparr>
              in (c, t\<lparr>tr_entries := AList.update key \<lparr>te_client = c, te_used = now\<rparr> (tr_entries t),
                       tr_next := tr_next t + 1\<rparr>)))"

definition closeTransports :: "Transports \<Rightarrow> Transports" where
  "closeTransports t = t\<lparr>tr_entries := [], tr_closed_idle := tr_closed_idle t @ map (cl_id \<circ> te_client \<circ> snd) (tr_entries t)\<rparr>"

section \<open>Header lemmas\<close>

lemma values_add: "header_values (header_add h k v) k'
    = header_values h k' @ (if CanonicalHeaderKey k = CanonicalHeaderKey k' then [v] else [])"
  by (simp add: header_values_def header_add_def update_conv')

lemma values_set: "header_values (header_set h k v) k'
    = (if CanonicalHeaderKey k = CanonicalHeaderKey k' then [v] else header_values h k')"
  by (simp add: header_values_def header_set_def update_conv')

lemma values_del: "header_values (header_del h k) k'
    = (if CanonicalHeaderKey k = CanonicalHeaderKey k' then [] else header_values h k')"
  by (simp add: header_values_def header_del_def delete_conv')

lemmas header_simps = values_add values_set values_del

lemma values_add_all: "header_values (fold (\<lambda>v h. header_add h k v) vs h) k'
    = header_values h k' @ (if CanonicalHeaderKey k = CanonicalHeaderKey k' then vs else [])"
  by (induction vs arbitrary: h) (auto simp: header_simps)

lemma values_del_all: "header_values (fold (\<lambda>n h. header_del h (f n)) ns h) k'
    = (if CanonicalHeaderKey k' \<in> CanonicalHeaderKey ` f ` set ns then [] else header_values h k')"
  by (induction ns arbitrary: h) (auto simp: header_simps)

lemma values_strip: "header_values (stripHopHeaders h) k =
   (if CanonicalHeaderKey k \<in> CanonicalHeaderKey ` set hop_headers
       \<or> CanonicalHeaderKey k \<in> CanonicalHeaderKey ` trim_space ` set (split_on (CHR '','') (header_get h ''Connection''))
    then [] else header_values h k)"
  using values_del_all [of "\<lambda>n. n"] by (simp add: stripHopHeaders_def values_del_all)

definition header_wf :: "header \<Rightarrow> bool" where
  "header_wf h \<longleftrightarrow> distinct (map fst h) \<and> (\<forall>k \<in> set (map fst h). CanonicalHeaderKey k = k)"

lemma values_none: "\<forall>k \<in> set (map fst h). CanonicalHeaderKey k = k \<Longrightarrow> CanonicalHeaderKey k' \<notin> set (map fst h)
    \<Longrightarrow> header_values h k' = []"
  by (simp add: header_values_def map_of_eq_None_iff [THEN iffD2])

lemma values_kept:
  "header_values (fold (\<lambda>key h. if preservedGatewayHeader key then h else header_del h key) ks h') k
    = (if \<exists>key \<in> set ks. \<not> preservedGatewayHeader key \<and> CanonicalHeaderKey key = CanonicalHeaderKey k then [] else header_values h' k)"
  by (induction ks arbitrary: h') (auto simp: header_simps)

lemma preserved_canonical: "CanonicalHeaderKey a = CanonicalHeaderKey b \<Longrightarrow> preservedGatewayHeader a = preservedGatewayHeader b"
  by (simp add: preservedGatewayHeader_def)

lemma blocked_canonical: "CanonicalHeaderKey a = CanonicalHeaderKey b \<Longrightarrow> blockedResponseHeader a = blockedResponseHeader b"
  by (simp add: blockedResponseHeader_def)

lemma values_copied:
  assumes "header_wf source"
  shows "header_values (fold (\<lambda>(key, values) h. if blockedResponseHeader key then h
           else fold (\<lambda>v h. header_add h key v) values h) source h) k
    = header_values h k @ (if blockedResponseHeader k then [] else header_values source k)"
  using assms
proof (induction source arbitrary: h)
  case Nil
  then show ?case by (simp add: header_values_def)
next
  case (Cons e source)
  obtain key vs where e: "e = (key, vs)" by fastforce
  have wf: "header_wf source" "CanonicalHeaderKey key = key" "key \<notin> set (map fst source)"
    using Cons.prems e by (auto simp: header_wf_def)
  have hd: "header_values (e # source) k = (if key = CanonicalHeaderKey k then vs else header_values source k)"
    using e by (simp add: header_values_def)
  have "header_values source k = []" if "key = CanonicalHeaderKey k"
    using wf(1,3) that by (intro values_none) (auto simp: header_wf_def)
  moreover have "blockedResponseHeader key = blockedResponseHeader k" if "key = CanonicalHeaderKey k"
    using wf(2) that by (intro blocked_canonical) simp
  ultimately show ?case
    using Cons.IH [OF wf(1)] wf(2) by (auto simp: e hd [unfolded e] values_add_all)
qed

lemma canonical_names:
  "map CanonicalHeaderKey hop_headers = hop_headers" "map CanonicalHeaderKey blocked_headers = blocked_headers"
  "map CanonicalHeaderKey forwarded_headers = [''Accept'', ''Accept-Encoding'', ''Cache-Control'', ''Content-Type'',
     ''Pragma'', ''User-Agent'', ''X-Request-Id'', ''Openai-Organization'', ''Openai-Project'', ''Openai-Beta'',
     ''Anthropic-Version'', ''Anthropic-Beta'']"
  "map CanonicalHeaderKey [''Authorization'', ''User-Agent'', ''X-Api-Key'', ''Content-Length'', ''Accept-Encoding'', ''Connection'']
     = [''Authorization'', ''User-Agent'', ''X-Api-Key'', ''Content-Length'', ''Accept-Encoding'', ''Connection'']"
  by code_simp+

lemma blocked_not_hop: "blockedResponseHeader k \<Longrightarrow> CanonicalHeaderKey k \<notin> CanonicalHeaderKey ` set hop_headers"
proof
  assume b: "blockedResponseHeader k" and "CanonicalHeaderKey k \<in> CanonicalHeaderKey ` set hop_headers"
  then have "CanonicalHeaderKey k \<in> set hop_headers"
    using canonical_names(1) by (metis set_map)
  moreover have "\<forall>h \<in> set hop_headers. \<not> has_prefix h ''Access-Control-'' \<and> h \<notin> set blocked_headers" by code_simp
  ultimately show False using b by (auto simp: blockedResponseHeader_def)
qed

lemma connection_header: "\<not> blockedResponseHeader ''Connection''" "\<not> preservedGatewayHeader ''Connection''"
  by code_simp+

lemma values_kept_all:
  assumes "header_wf destination"
  shows "header_values (fold (\<lambda>key h. if preservedGatewayHeader key then h else header_del h key) (map fst destination) destination) k
    = (if preservedGatewayHeader k then header_values destination k else [])"
proof -
  have can: "CanonicalHeaderKey key = key" if "key \<in> set (map fst destination)" for key
    using assms that by (auto simp: header_wf_def)
  let ?cond = "\<exists>key \<in> set (map fst destination). \<not> preservedGatewayHeader key \<and> CanonicalHeaderKey key = CanonicalHeaderKey k"
  show ?thesis
  proof (cases "preservedGatewayHeader k")
    case True
    then have "\<not> ?cond" using preserved_canonical by blast
    then show ?thesis using True unfolding values_kept by argo
  next
    case False
    show ?thesis
    proof (cases "CanonicalHeaderKey k \<in> set (map fst destination)")
      case True
      then have "CanonicalHeaderKey (CanonicalHeaderKey k) = CanonicalHeaderKey k" by (rule can)
      then have ?cond using True False preserved_canonical by blast
      then show ?thesis using False unfolding values_kept by argo
    next
      case out: False
      then have "header_values destination k = []" using can by (intro values_none) auto
      then show ?thesis using False unfolding values_kept by argo
    qed
  qed
qed

section \<open>Header properties\<close>

text \<open>Whether the upstream's \<open>Connection\<close> header names this header.\<close>

definition connection_named :: "header \<Rightarrow> string \<Rightarrow> bool" where
  "connection_named source k \<longleftrightarrow>
     CanonicalHeaderKey k \<in> CanonicalHeaderKey ` trim_space ` set (split_on (CHR '','') (header_get source ''Connection''))"

text \<open>
  Response headers. Of the headers that an upstream must not set (cookies, redirects, CORS and the
  security policies), a response carries exactly what the gateway itself had set, or nothing; except
  that one which the upstream's \<open>Connection\<close> header names is removed, the gateway's own included.
\<close>

theorem blocked_headers_exact:
  assumes "header_wf destination" "header_wf source" "blockedResponseHeader k"
  shows "header_values (copyResponseHeaders destination source) k
    = (if preservedGatewayHeader k \<and> \<not> connection_named source k then header_values destination k else [])"
proof -
  let ?kept = "fold (\<lambda>key h. if preservedGatewayHeader key then h else header_del h key) (map fst destination) destination"
  let ?merged = "fold (\<lambda>(key, values) h. if blockedResponseHeader key then h
           else fold (\<lambda>v h. header_add h key v) values h) source ?kept"
  have "header_get ?merged ''Connection'' = header_get source ''Connection''"
    by (simp add: header_get_def values_copied [OF assms(2)] values_kept_all [OF assms(1)] connection_header)
  then show ?thesis
    using assms(3) blocked_not_hop [OF assms(3)]
    by (simp add: copyResponseHeaders_def Let_def values_strip values_copied [OF assms(2)] values_kept_all [OF assms(1)]
        connection_named_def)
qed

theorem blocked_headers_exact_witness:
  "header_values (copyResponseHeaders [(''X-Frame-Options'', [''DENY''])]
     [(''Connection'', [''X-Frame-Options'']), (''Set-Cookie'', [''a=b''])]) ''X-Frame-Options'' = []"
proof -
  have wf: "header_wf [(''X-Frame-Options'', [''DENY''])]"
    "header_wf [(''Connection'', [''X-Frame-Options'']), (''Set-Cookie'', [''a=b''])]" by code_simp+
  have b: "blockedResponseHeader ''X-Frame-Options''" by code_simp
  have "trim_space ''X-Frame-Options'' = ''X-Frame-Options''" by (rule trim_space_graphic) (simp_all add: graphic_def)
  moreover have "split_on (CHR '','') (header_get [(''Connection'', [''X-Frame-Options'']), (''Set-Cookie'', [''a=b''])] ''Connection'')
      = [''X-Frame-Options'']" by code_simp
  ultimately have "connection_named [(''Connection'', [''X-Frame-Options'']), (''Set-Cookie'', [''a=b''])] ''X-Frame-Options''"
    by (simp add: connection_named_def)
  then show ?thesis by (simp only: blocked_headers_exact [OF wf b]) simp
qed

text \<open>
  C25: the client's credentials stay here. A request to an upstream carries the upstream's key as its only
  \<open>Authorization\<close>, and as its only \<open>X-Api-Key\<close> under the messages protocol (none otherwise); every
  other header name is on the list of forwarded ones, whatever the client sent.
\<close>

theorem client_credentials_withheld:
  assumes "upstreamRequest parse_url new_request r u body protocol = Inr req"
  shows "header_values (or_header req) ''Authorization'' = [''Bearer '' @ us_api_key u]
    \<and> header_values (or_header req) ''X-Api-Key'' = (if protocol = ProtocolMessages then [us_api_key u] else [])
    \<and> (\<forall>k. header_values (or_header req) k \<noteq> [] \<longrightarrow> CanonicalHeaderKey k \<in> {''Authorization'', ''X-Api-Key''}
          \<or> CanonicalHeaderKey k \<in> CanonicalHeaderKey ` set forwarded_headers)"
proof -
  have names: "CanonicalHeaderKey ''Authorization'' = ''Authorization''" "CanonicalHeaderKey ''User-Agent'' = ''User-Agent''"
    "CanonicalHeaderKey ''X-Api-Key'' = ''X-Api-Key''"
    using canonical_names(4) by simp_all
  have agent: "''User-Agent'' \<in> CanonicalHeaderKey ` set forwarded_headers"
    using arg_cong [OF canonical_names(3), of set] by simp
  have filt: "header_values (fold (\<lambda>name h. fold (\<lambda>v h. header_add h name v) (header_values src name) h) ns h) k \<noteq> []
      \<Longrightarrow> header_values h k \<noteq> [] \<or> CanonicalHeaderKey k \<in> CanonicalHeaderKey ` set ns" for src ns h k
    by (induction ns arbitrary: h) (fastforce simp: values_add_all split: if_splits)+
  have "header_values (filteredRequestHeaders src) k \<noteq> [] \<Longrightarrow> CanonicalHeaderKey k \<in> CanonicalHeaderKey ` set forwarded_headers" for src k
    using filt [of src forwarded_headers "[]" k] by (simp add: filteredRequestHeaders_def header_values_def)
  then have strip: "header_values (stripHopHeaders (filteredRequestHeaders src)) k \<noteq> []
      \<Longrightarrow> CanonicalHeaderKey k \<in> CanonicalHeaderKey ` set forwarded_headers" for src k
    by (auto simp: values_strip split: if_splits)
  have "or_header req = out_headers r u protocol"
    using assms by (auto simp: upstreamRequest_def split: option.splits if_splits)
  then show ?thesis
    using strip agent names by (auto simp: out_headers_def Let_def header_simps split: if_splits)
qed

definition sample_request :: InRequest where
  "sample_request = \<lparr>ir_method = ''POST'', ir_url = \<lparr>url_scheme = [], url_host = [], url_path = ''/v1/x'', url_query = []\<rparr>,
     ir_header = [(''Authorization'', [''Bearer client'']), (''Cookie'', [''c''])], ir_proto_major = 1,
     ir_content_length = 0, ir_remote = []\<rparr>"

definition sample_url :: Url where
  "sample_url = \<lparr>url_scheme = ''https'', url_host = ''a.example'', url_path = ''/v1/'', url_query = []\<rparr>"

theorem client_credentials_withheld_witness:
  "\<exists>req. upstreamRequest (\<lambda>_. Some sample_url) (\<lambda>_ _. None) sample_request sample_upstream [] ''chat'' = Inr req
     \<and> header_values (or_header req) ''Authorization'' = [''Bearer k'']"
proof -
  have "upstreamRequest (\<lambda>_. Some sample_url) (\<lambda>_ _. None) sample_request sample_upstream [] ''chat''
    = Inr \<lparr>or_method = ''POST'', or_url = target_url sample_url sample_request,
           or_header = out_headers sample_request sample_upstream ''chat'', or_body = []\<rparr>"
    by (simp add: upstreamRequest_def sample_url_def sample_request_def)
  from client_credentials_withheld [OF this] this show ?thesis by (simp add: sample_upstream_def)
qed

section \<open>Rewriting the model\<close>

definition model_value :: "json \<Rightarrow> bool" where
  "model_value v = (case v of JStr _ \<Rightarrow> True | JNull \<Rightarrow> True | _ \<Rightarrow> False)"

definition stream_value :: "json \<Rightarrow> bool" where
  "stream_value v = (case v of JBool _ \<Rightarrow> True | JNull \<Rightarrow> True | _ \<Rightarrow> False)"

definition field_wf :: "string \<times> json \<Rightarrow> bool" where
  "field_wf e \<longleftrightarrow> (equal_fold (fst e) ''model'' \<longrightarrow> fst e = ''model'' \<and> model_value (snd e))
     \<and> (\<not> equal_fold (fst e) ''model'' \<longrightarrow> equal_fold (fst e) ''stream'' \<longrightarrow> fst e = ''stream'' \<and> stream_value (snd e))"

definition occurrences :: "string \<Rightarrow> json_fields \<Rightarrow> nat" where
  "occurrences k es = length (filter (\<lambda>e. fst e = k) es)"

definition payload_of :: "json_fields \<Rightarrow> requestPayload \<Rightarrow> requestPayload" where
  "payload_of es p =
     p\<lparr>rp_model := (case map_of es ''model'' of Some (JStr s) \<Rightarrow> s | _ \<Rightarrow> rp_model p),
       rp_stream := (case map_of es ''stream'' of Some (JBool b) \<Rightarrow> b | _ \<Rightarrow> rp_stream p)\<rparr>"

lemma fold_names:
  "equal_fold ''model'' ''model''" "equal_fold ''stream'' ''stream''" "\<not> equal_fold ''stream'' ''model''"
  by (simp_all add: equal_fold_def)

lemma map_of_absent: "occurrences k es = 0 \<Longrightarrow> map_of es k = None"
  by (induction es) (auto simp: occurrences_def split: if_splits)

lemma occurrences_simps [simp]:
  "occurrences k [] = 0"
  "occurrences k ((a, v) # es) = (if a = k then Suc (occurrences k es) else occurrences k es)"
  by (simp_all add: occurrences_def)

lemma payload_of_nil: "payload_of [] p = p"
  by (cases p) (simp add: payload_of_def)

lemma payload_of_model:
  "occurrences ''model'' es = 0 \<Longrightarrow> payload_of ((''model'', JStr s) # es) p = payload_of es (p\<lparr>rp_model := s\<rparr>)"
  "occurrences ''model'' es = 0 \<Longrightarrow> payload_of ((''model'', JNull) # es) p = payload_of es p"
  by (simp_all add: payload_of_def map_of_absent split: option.split json.split)

lemma payload_of_stream:
  "occurrences ''stream'' es = 0 \<Longrightarrow> payload_of ((''stream'', JBool b) # es) p = payload_of es (p\<lparr>rp_stream := b\<rparr>)"
  "occurrences ''stream'' es = 0 \<Longrightarrow> payload_of ((''stream'', JNull) # es) p = payload_of es p"
  by (simp_all add: payload_of_def map_of_absent split: option.split json.split)

lemma payload_of_other: "k \<noteq> ''model'' \<Longrightarrow> k \<noteq> ''stream'' \<Longrightarrow> payload_of ((k, v) # es) p = payload_of es p"
  by (simp add: payload_of_def)

lemma field_wf_model [simp]: "field_wf (''model'', v) = model_value v"
  by (simp add: field_wf_def fold_names)

lemma field_wf_stream [simp]: "field_wf (''stream'', v) = stream_value v"
  by (simp add: field_wf_def fold_names)

lemma payload_fields_iff:
  "payload_fields es sm ss p = Some q \<longleftrightarrow>
     (\<forall>e \<in> set es. field_wf e) \<and> occurrences ''model'' es \<le> (if sm then 0 else 1)
     \<and> occurrences ''stream'' es \<le> (if ss then 0 else 1) \<and> q = payload_of es p"
proof (induction es arbitrary: sm ss p)
  case Nil
  then show ?case by (auto simp: payload_of_nil)
next
  case (Cons e rest)
  obtain key v where e: "e = (key, v)" by fastforce
  consider (bad) "equal_fold key ''model''" "key \<noteq> ''model''" | (model) "key = ''model''"
    | (bad_stream) "\<not> equal_fold key ''model''" "equal_fold key ''stream''" "key \<noteq> ''stream''" | (stream) "key = ''stream''"
    | (other) "\<not> equal_fold key ''model''" "\<not> equal_fold key ''stream''" by blast
  then show ?case
  proof cases
    case bad
    then show ?thesis by (simp add: e field_wf_def)
  next
    case model
    show ?thesis
      using Cons.IH [of True ss "p\<lparr>rp_model := s\<rparr>" for s] Cons.IH [of True ss p]
      by (cases v) (auto simp: e model fold_names model_value_def payload_of_model)
  next
    case bad_stream
    then show ?thesis by (simp add: e field_wf_def)
  next
    case stream
    show ?thesis
      using Cons.IH [of sm True "p\<lparr>rp_stream := b\<rparr>" for b] Cons.IH [of sm True p]
      by (cases v) (auto simp: e stream fold_names stream_value_def payload_of_stream)
  next
    case other
    then have "key \<noteq> ''model''" "key \<noteq> ''stream''" using fold_names by auto
    then show ?thesis using Cons.IH [of sm ss p] other by (simp add: e field_wf_def payload_of_other)
  qed
qed

lemma occurrences_distinct: "distinct (map fst es) \<Longrightarrow> occurrences k es \<le> 1"
  by (induction es) (auto simp: image_iff occurrences_def filter_empty_conv)

lemma map_of_rev_unique: "occurrences k es \<le> 1 \<Longrightarrow> map_of (rev es) k = map_of es k"
proof (induction es)
  case (Cons e es)
  then show ?case
    by (cases e) (auto simp: map_add_def map_of_absent split: if_splits option.split)
qed simp

lemma sorted_fields_map: "map_of (sorted_fields es) k = map_of (rev es) k"
proof (cases "k \<in> fst ` set es")
  case True
  then have "map_of (rev es) k \<noteq> None" by (simp add: map_of_eq_None_iff)
  then show ?thesis using True by (auto simp: sorted_fields_def map_of_map_restrict restrict_map_def)
next
  case False
  then have "map_of (rev es) k = None" by (simp add: map_of_eq_None_iff)
  then show ?thesis using False by (auto simp: sorted_fields_def map_of_map_restrict restrict_map_def)
qed

lemma sorted_fields_distinct: "distinct (map fst (sorted_fields es))"
  by (simp add: sorted_fields_def comp_def)

lemma sorted_fields_wf: "\<forall>e \<in> set es. field_wf e \<Longrightarrow> e \<in> set (sorted_fields es) \<Longrightarrow> field_wf e"
proof -
  assume wf: "\<forall>e \<in> set es. field_wf e" and "e \<in> set (sorted_fields es)"
  then have "map_of (rev es) (fst e) = Some (snd e)"
    using sorted_fields_map [of es "fst e"] sorted_fields_distinct [of es] by (cases e) (auto dest: map_of_is_SomeI)
  then show "field_wf e" using wf map_of_SomeD [of "rev es" "fst e" "snd e"] by simp
qed

lemma replaced_payload:
  assumes "payload_fields es False False p0 = Some p"
  shows "payload_fields (sorted_fields (es @ [(''model'', JStr m)])) False False p0 = Some (p\<lparr>rp_model := m\<rparr>)"
proof -
  let ?fs = "sorted_fields (es @ [(''model'', JStr m)])"
  have es: "\<forall>e \<in> set es. field_wf e" "occurrences ''stream'' es \<le> 1" "p = payload_of es p0"
    using assms by (simp_all add: payload_fields_iff)
  have "\<forall>e \<in> set ?fs. field_wf e"
    using es(1) sorted_fields_wf [of "es @ [(''model'', JStr m)]"] by (auto simp: model_value_def)
  moreover have "map_of ?fs ''stream'' = map_of es ''stream''" "map_of ?fs ''model'' = Some (JStr m)"
    by (simp_all add: sorted_fields_map map_of_rev_unique [OF es(2)])
  ultimately show ?thesis
    using occurrences_distinct [OF sorted_fields_distinct [of "es @ [(''model'', JStr m)]"]]
    by (simp add: payload_fields_iff es(3) payload_of_def)
qed

definition bodies_ok :: "(string \<Rightarrow> json option) \<Rightarrow> (json \<Rightarrow> string) \<Rightarrow> requestBodies \<Rightarrow> bool" where
  "bodies_ok dec enc b \<longleftrightarrow> (\<forall>m body. map_of (qb_rewritten b) m = Some body \<longrightarrow> replaceModel dec enc (qb_body b) m = Some body)"

lemma forModel_exact:
  assumes "bodies_ok dec enc b"
  shows "fst (forModel dec enc b m) = (if m = qb_model b then Some (qb_body b) else replaceModel dec enc (qb_body b) m)"
    and "bodies_ok dec enc (snd (forModel dec enc b m))"
  using assms by (auto simp: forModel_def bodies_ok_def update_conv' split: option.split)

text \<open>The bodies served to a sequence of attempts.\<close>

fun for_models ::
  "(string \<Rightarrow> json option) \<Rightarrow> (json \<Rightarrow> string) \<Rightarrow> requestBodies \<Rightarrow> string list \<Rightarrow> string option list" where
  "for_models dec enc b [] = []"
| "for_models dec enc b (m # ms) = (case forModel dec enc b m of (r, b') \<Rightarrow> r # for_models dec enc b' ms)"

lemma forModel_fixed: "qb_body (snd (forModel dec enc b m)) = qb_body b" "qb_model (snd (forModel dec enc b m)) = qb_model b"
  by (simp_all add: forModel_def split: option.split)

lemma for_models_exact:
  "bodies_ok dec enc b \<Longrightarrow> for_models dec enc b ms
     = map (\<lambda>m. if m = qb_model b then Some (qb_body b) else replaceModel dec enc (qb_body b) m) ms"
proof (induction ms arbitrary: b)
  case (Cons m ms)
  show ?case
    using Cons.IH [OF forModel_exact(2) [OF Cons.prems, of m]] forModel_exact(1) [OF Cons.prems, of m]
    by (cases "forModel dec enc b m") (use forModel_fixed [of dec enc b m] in simp)
qed simp

text \<open>
  C26: the rewritten body asks for the same thing. Over all attempts of a request whose body parses,
  every body sent parses to the same payload with the attempt's model in place of the client's, and
  the client's own bytes are sent where the models agree. The codec is assumed to read back what it
  writes for this body.
\<close>

theorem rewritten_bodies_parse:
  assumes "parseRequestPayload dec body = Some p" "rp_model p = model"
    and "\<forall>es m. dec body = Some (JObj es) \<longrightarrow> m \<in> set ms \<longrightarrow>
           dec (enc (JObj (sorted_fields (es @ [(''model'', JStr m)])))) = Some (JObj (sorted_fields (es @ [(''model'', JStr m)])))"
  shows "map (\<lambda>b. Option.bind b (parseRequestPayload dec))
      (for_models dec enc \<lparr>qb_body = body, qb_model = model, qb_rewritten = []\<rparr> ms)
    = map (\<lambda>m. Some (p\<lparr>rp_model := m\<rparr>)) ms"
proof -
  obtain es where es: "dec body = Some (JObj es)" "payload_fields es False False \<lparr>rp_model = [], rp_stream = False\<rparr> = Some p"
    using assms(1) by (auto simp: parseRequestPayload_def split: option.splits json.splits)
  have "parseRequestPayload dec (enc (JObj (sorted_fields (es @ [(''model'', JStr m)])))) = Some (p\<lparr>rp_model := m\<rparr>)"
    if "m \<in> set ms" for m
    using assms(3) es that replaced_payload [OF es(2)] by (simp add: parseRequestPayload_def)
  moreover have "p\<lparr>rp_model := model\<rparr> = p" using assms(2) by (cases p) simp
  ultimately show ?thesis
    using assms(1) es(1) by (subst for_models_exact) (auto simp: bodies_ok_def replaceModel_def)
qed

theorem rewritten_bodies_parse_witness:
  "\<exists>dec enc. map (\<lambda>b. Option.bind b (parseRequestPayload dec))
      (for_models dec enc \<lparr>qb_body = ''x'', qb_model = ''m'', qb_rewritten = []\<rparr> [''m'', ''n''])
    = [Some \<lparr>rp_model = ''m'', rp_stream = True\<rparr>, Some \<lparr>rp_model = ''n'', rp_stream = True\<rparr>]"
proof -
  define es where "es = [(''model'', JStr ''m''), (''stream'', JBool True)]"
  define dec where "dec = (\<lambda>s. if s = ''x'' then Some (JObj es)
    else if s = ''ym'' then Some (JObj (sorted_fields (es @ [(''model'', JStr ''m'')])))
    else if s = ''yn'' then Some (JObj (sorted_fields (es @ [(''model'', JStr ''n'')]))) else None)"
  define enc where "enc = (\<lambda>v :: json. if v = JObj (sorted_fields (es @ [(''model'', JStr ''n'')])) then ''yn'' else ''ym'')"
  have differ: "sorted_fields (es @ [(''model'', JStr ''m'')]) \<noteq> sorted_fields (es @ [(''model'', JStr ''n'')])"
    using sorted_fields_map [of "es @ [(''model'', JStr ''m'')]" "''model''"]
      sorted_fields_map [of "es @ [(''model'', JStr ''n'')]" "''model''"] by (auto simp: es_def)
  have "parseRequestPayload dec ''x'' = Some \<lparr>rp_model = ''m'', rp_stream = True\<rparr>"
    by (simp add: parseRequestPayload_def dec_def es_def fold_names)
  from rewritten_bodies_parse [OF this, of "''m''" "[''m'', ''n'']" enc] differ show ?thesis
    by (intro exI [of _ dec] exI [of _ enc]) (simp add: dec_def enc_def)
qed

section \<open>The client cache\<close>

definition transports_ok :: "bool \<Rightarrow> Transports \<Rightarrow> bool" where
  "transports_ok secure t \<longleftrightarrow> length (tr_entries t) \<le> maxCachedTransports \<and> distinct (map fst (tr_entries t))
     \<and> (\<forall>(k, e) \<in> set (tr_entries t). cl_key (te_client e) = k \<and> cl_guarded (te_client e) = secure)"

fun clients_of :: "bool \<Rightarrow> (Upstream \<times> time) list \<Rightarrow> Transports \<Rightarrow> Client list \<times> Transports" where
  "clients_of secure [] t = ([], t)"
| "clients_of secure ((u, now) # rest) t =
     (case client secure u now t of (c, t') \<Rightarrow> (case clients_of secure rest t' of (cs, t'') \<Rightarrow> (c # cs, t'')))"

lemma length_update: "length (AList.update k v xs) = (if k \<in> fst ` set xs then length xs else Suc (length xs))"
  by (induction xs) auto

lemma length_delete: "distinct (map fst xs) \<Longrightarrow> k \<in> fst ` set xs \<Longrightarrow> Suc (length (AList.delete k xs)) = length xs"
  by (induction xs) (auto simp: delete_id)

definition older :: "(transportKey \<times> transportEntry) \<Rightarrow> (transportKey \<times> transportEntry) option \<Rightarrow> (transportKey \<times> transportEntry) option" where
  "older e best = (case best of None \<Rightarrow> Some e
     | Some b \<Rightarrow> if is_zero_time (te_used (snd b)) \<or> te_used (snd e) < te_used (snd b) then Some e else best)"

lemma older_fold: "\<exists>e. fold older es (Some b) = Some e \<and> e \<in> insert b (set es)"
proof (induction es arbitrary: b)
  case (Cons x es)
  have "older x (Some b) = Some x \<or> older x (Some b) = Some b" by (simp add: older_def)
  then show ?case using Cons.IH [of x] Cons.IH [of b] by auto
qed simp

lemma oldest_in: "es \<noteq> [] \<Longrightarrow> \<exists>e. oldest_entry es = Some e \<and> e \<in> set es"
  using older_fold [of "tl es" "hd es"]
  by (cases es) (simp_all add: oldest_entry_def older_def [abs_def])

lemma update_entries:
  "(a, b) \<in> set (AList.update k v xs) \<Longrightarrow> (a, b) \<in> set xs \<or> (a = k \<and> b = v)"
  by (induction xs) (auto split: if_splits)

lemma client_ok:
  assumes "transports_ok secure t" "client secure u now t = (c, t')"
  shows "transports_ok secure t'" "cl_key c = client_key u" "cl_guarded c = secure"
proof -
  have "transports_ok secure t' \<and> cl_key c = client_key u \<and> cl_guarded c = secure"
  proof (cases "map_of (tr_entries t) (client_key u)")
    case (Some e)
    then have "(client_key u, e) \<in> set (tr_entries t)" by (rule map_of_SomeD)
    then have e: "cl_key (te_client e) = client_key u" "cl_guarded (te_client e) = secure"
      "client_key u \<in> fst ` set (tr_entries t)"
      using assms(1) by (force simp: transports_ok_def)+
    have run: "tr_entries t' = AList.update (client_key u) (e\<lparr>te_used := now\<rparr>) (tr_entries t)" "c = te_client e"
      using assms(2) Some by (auto simp: client_def Let_def)
    have "(k, x) \<in> set (tr_entries t') \<Longrightarrow> cl_key (te_client x) = k \<and> cl_guarded (te_client x) = secure" for k x
      using assms(1) e by (auto simp: run transports_ok_def dest!: update_entries)
    then show ?thesis
      using assms(1) e by (auto simp: transports_ok_def run length_update distinct_update)
  next
    case None
    then have new: "client_key u \<notin> fst ` set (tr_entries t)" by (simp add: map_of_eq_None_iff)
    obtain es where es: "set es \<subseteq> set (tr_entries t)" "distinct (map fst es)" "length es < maxCachedTransports"
      and t': "tr_entries t' = AList.update (client_key u) \<lparr>te_client = c, te_used = now\<rparr> es"
      and c: "cl_key c = client_key u" "cl_guarded c = secure"
    proof (cases "length (tr_entries t) \<ge> maxCachedTransports")
      case False
      then have "tr_entries t' = AList.update (client_key u) \<lparr>te_client = c, te_used = now\<rparr> (tr_entries t)"
        "cl_key c = client_key u" "cl_guarded c = secure"
        using assms(2) None by (auto simp: client_def Let_def)
      with False assms(1) show ?thesis by (intro that [of "tr_entries t"]) (simp_all add: transports_ok_def)
    next
      case True
      then have "tr_entries t \<noteq> []" by (auto simp: maxCachedTransports_def)
      from oldest_in [OF this] obtain k e where o: "oldest_entry (tr_entries t) = Some (k, e)" "(k, e) \<in> set (tr_entries t)"
        by (metis surj_pair)
      have d: "distinct (map fst (tr_entries t))" using assms(1) by (simp add: transports_ok_def)
      have l: "Suc (length (AList.delete k (tr_entries t))) = length (tr_entries t)"
        using o(2) by (intro length_delete [OF d]) force
      have run: "tr_entries t' = AList.update (client_key u) \<lparr>te_client = c, te_used = now\<rparr> (AList.delete k (tr_entries t))"
        "cl_key c = client_key u" "cl_guarded c = secure"
        using assms(2) None True o(1) by (auto simp: client_def Let_def)
      show ?thesis
      proof (rule that [of "AList.delete k (tr_entries t)"])
        show "set (AList.delete k (tr_entries t)) \<subseteq> set (tr_entries t)" by (auto simp: AList.delete_eq)
        show "distinct (map fst (AList.delete k (tr_entries t)))" using d by (rule distinct_delete)
        show "length (AList.delete k (tr_entries t)) < maxCachedTransports"
          using l assms(1) by (simp add: transports_ok_def)
      qed (rule run)+
    qed
    have "client_key u \<notin> fst ` set es" using new es(1) by auto
    then show ?thesis
      using es assms(1) c by (auto simp: transports_ok_def t' length_update distinct_update dest!: update_entries)
  qed
  then show "transports_ok secure t'" "cl_key c = client_key u" "cl_guarded c = secure" by simp_all
qed

text \<open>
  HTTP clients. However many upstream configurations come and go, at most 32 transports are cached,
  and every request is sent by a client with exactly its upstream's timeouts and, on a secure gateway,
  the guarded dialer.
\<close>

theorem clients_bounded_and_right:
  assumes "transports_ok secure t" "clients_of secure us t = (cs, t')"
  shows "transports_ok secure t' \<and> map cl_key cs = map (client_key \<circ> fst) us \<and> list_all (\<lambda>c. cl_guarded c = secure) cs"
  using assms
proof (induction us arbitrary: t cs)
  case (Cons x us)
  obtain u now where x: "x = (u, now)" by fastforce
  obtain c t1 where c: "client secure u now t = (c, t1)" by fastforce
  obtain cs1 where cs: "clients_of secure us t1 = (cs1, t')" "cs = c # cs1"
    using Cons.prems(2) by (auto simp: x c split: prod.splits)
  show ?case
    using Cons.IH [OF client_ok(1) [OF Cons.prems(1) c] cs(1)] client_ok(2,3) [OF Cons.prems(1) c] cs(2) x by simp
qed simp

theorem clients_bounded_and_right_witness:
  "map cl_key (fst (clients_of True [(sample_upstream, 1), (sample_upstream, 2)] \<lparr>tr_entries = [], tr_next = 0, tr_closed_idle = []\<rparr>))
    = [client_key sample_upstream, client_key sample_upstream]"
  using clients_bounded_and_right [of True "\<lparr>tr_entries = [], tr_next = 0, tr_closed_idle = []\<rparr>"
      "[(sample_upstream, 1), (sample_upstream, 2)]" _ "snd (clients_of True [(sample_upstream, 1), (sample_upstream, 2)]
        \<lparr>tr_entries = [], tr_next = 0, tr_closed_idle = []\<rparr>)", OF _ surjective_pairing]
  by (simp add: transports_ok_def)

end
