(* ===== verification/SSE_Parser.thy ===== *)
theory SSE_Parser
  imports JSON_Values Core_Types
begin

text \<open>
  The token usage of a response (\<open>internal/gateway/usage.go\<close>): the usage object of a JSON body,
  its normalisation with the wrap-around of \<open>int64\<close>, and the incremental parser of a server-sent
  event stream. \<open>Feed\<close> works on the chunks as they are read; its reference is a machine that takes
  one byte at a time.
\<close>

section \<open>Usage objects\<close>

definition first_some :: "'a option list \<Rightarrow> 'a option" where
  "first_some xs = (case filter (\<lambda>x. x \<noteq> None) xs of [] \<Rightarrow> None | x # _ \<Rightarrow> x)"

definition normalizeUsageForProtocol :: "Usage \<Rightarrow> string \<Rightarrow> Usage" where
  "normalizeUsageForProtocol u protocol =
     (case ut_input u of
        None \<Rightarrow> u
      | Some n \<Rightarrow>
          (let u = (if protocol = ProtocolMessages then u\<lparr>ut_billable := Some n\<rparr> else u);
               uncached = (if protocol = ProtocolMessages
                 then (case ut_cache_creation u of None \<Rightarrow> n | Some c \<Rightarrow> wrap64 (n + c))
                 else (case ut_cached u of None \<Rightarrow> n | Some c \<Rightarrow> wrap64 (n - c)));
               uncached = (if uncached < 0 then 0 else uncached)
           in u\<lparr>ut_uncached := Some uncached\<rparr>))"

text \<open>The integer fields at the top level, in the order of \<open>usageFields\<close>.\<close>

definition usageFields :: "json_fields \<Rightarrow> int option list option" where
  "usageFields es = all_some (map (\<lambda>name. int_field name es)
     [''input_tokens'', ''output_tokens'', ''prompt_tokens'', ''completion_tokens'', ''cached_input_tokens'',
      ''cache_read_input_tokens'', ''cache_creation_input_tokens'', ''prompt_cache_hit_tokens''])"

definition parseUsageObjectForProtocol :: "json \<Rightarrow> string \<Rightarrow> Usage" where
  "parseUsageObjectForProtocol body protocol =
     (case struct_of body of
        None \<Rightarrow> empty_usage
      | Some es \<Rightarrow>
          (case (usageFields es, struct_field ''input_tokens_details'' es, struct_field ''prompt_tokens_details'' es) of
             (Some [input, output, prompt, completion, cached, cache_read, cache_creation, cache_hit],
              Some input_details, Some prompt_details) \<Rightarrow>
               (case (int_field ''cached_tokens'' input_details, int_field ''cached_tokens'' prompt_details) of
                  (Some input_cached, Some prompt_cached) \<Rightarrow>
                    normalizeUsageForProtocol
                      \<lparr>ut_billable = None, ut_input = first_some [input, prompt],
                       ut_output = first_some [output, completion],
                       ut_cached = first_some ([cached, cache_read, input_cached, prompt_cached]
                         @ (if protocol \<noteq> ProtocolMessages then [cache_hit] else [])),
                       ut_cache_creation = cache_creation, ut_uncached = None\<rparr> protocol
                | _ \<Rightarrow> empty_usage)
           | _ \<Rightarrow> empty_usage))"

text \<open>The usage of a body: the top-level field, else that of \<open>response\<close>, else that of \<open>message\<close>.\<close>

definition parseUsageWithProtocol :: "(string \<Rightarrow> json option) \<Rightarrow> string \<Rightarrow> string \<Rightarrow> Usage" where
  "parseUsageWithProtocol dec body protocol =
     (case dec body of
        None \<Rightarrow> empty_usage
      | Some v \<Rightarrow>
          (case struct_of v of
             None \<Rightarrow> empty_usage
           | Some es \<Rightarrow>
               (case (struct_field ''response'' es, struct_field ''message'' es) of
                  (Some r, Some m) \<Rightarrow>
                    (case first_some [raw_field ''usage'' es, raw_field ''usage'' r, raw_field ''usage'' m] of
                       None \<Rightarrow> empty_usage
                     | Some raw \<Rightarrow> parseUsageObjectForProtocol raw protocol)
                | _ \<Rightarrow> empty_usage)))"

section \<open>The event-stream parser\<close>

record sseUsageParser =
  sp_pending :: string
  sp_event_data :: string
  sp_event_discard :: bool
  sp_after_cr :: bool
  sp_started :: bool
  sp_discard :: bool
  sp_usage :: Usage
  sp_protocol :: string
  sp_text_seen :: bool
  sp_failed :: bool
  sp_completed :: bool
  sp_saw_event :: bool
  sp_require_completion :: bool
  sp_event_type :: string

definition new_parser :: "string \<Rightarrow> bool \<Rightarrow> sseUsageParser" where
  "new_parser protocol require = \<lparr>sp_pending = [], sp_event_data = [], sp_event_discard = False,
     sp_after_cr = False, sp_started = False, sp_discard = False, sp_usage = empty_usage,
     sp_protocol = protocol, sp_text_seen = False, sp_failed = False, sp_completed = False,
     sp_saw_event = False, sp_require_completion = require, sp_event_type = []\<rparr>"

definition maxSSEEventBytes :: nat where "maxSSEEventBytes = 1048576"

abbreviation (input) CR :: char where "CR \<equiv> CHR 0x0D"
abbreviation (input) LF :: char where "LF \<equiv> CHR 0x0A"

definition merge_usage :: "Usage \<Rightarrow> Usage \<Rightarrow> Usage" where
  "merge_usage p u =
     p\<lparr>ut_input := (case ut_input u of None \<Rightarrow> ut_input p | v \<Rightarrow> v),
       ut_output := (case ut_output u of None \<Rightarrow> ut_output p | v \<Rightarrow> v),
       ut_cached := (case ut_cached u of None \<Rightarrow> ut_cached p | v \<Rightarrow> v),
       ut_cache_creation := (case ut_cache_creation u of None \<Rightarrow> ut_cache_creation p | v \<Rightarrow> v),
       ut_uncached := (case ut_uncached u of None \<Rightarrow> ut_uncached p | v \<Rightarrow> v)\<rparr>"

definition rawString :: "json option \<Rightarrow> string" where
  "rawString raw = (case raw of Some (JStr s) \<Rightarrow> s | _ \<Rightarrow> [])"

definition rawHasText :: "json option \<Rightarrow> bool" where
  "rawHasText raw =
     (if rawString raw \<noteq> [] then True
      else case raw of
             None \<Rightarrow> False
           | Some v \<Rightarrow>
               (case structs_of v of
                  None \<Rightarrow> False
                | Some parts \<Rightarrow>
                    (case all_some (map (\<lambda>p. case (string_field ''type'' p, string_field ''text'' p) of
                             (Some t, Some x) \<Rightarrow> Some (t, x) | _ \<Rightarrow> None) parts) of
                       None \<Rightarrow> False
                     | Some ps \<Rightarrow> \<exists>(t, x) \<in> set ps. (t = ''text'' \<or> t = ''output_text'' \<or> t = []) \<and> x \<noteq> [])))"

text \<open>A choice of a chat event: its text and the content of its delta.\<close>

type_synonym sse_choice = "string \<times> json option"

definition eventHasText :: "string \<Rightarrow> json option \<Rightarrow> sse_choice list \<Rightarrow> string \<Rightarrow> bool" where
  "eventHasText event_type delta choices protocol =
     (if protocol = ProtocolResponses then event_type = ''response.output_text.delta'' \<and> rawString delta \<noteq> []
      else if protocol = ProtocolMessages then
        (if event_type \<noteq> ''content_block_delta'' then False
         else case delta of
                None \<Rightarrow> False
              | Some v \<Rightarrow>
                  (case struct_of v of
                     None \<Rightarrow> False
                   | Some es \<Rightarrow>
                       (case (string_field ''type'' es, string_field ''text'' es) of
                          (Some t, Some x) \<Rightarrow> t = ''text_delta'' \<and> x \<noteq> []
                        | _ \<Rightarrow> False)))
      else if protocol = ProtocolChat then \<exists>(text, content) \<in> set choices. rawHasText content \<or> text \<noteq> []
      else False)"

text \<open>The fields of an event, or \<open>None\<close> when the data is not such an object.\<close>

record sse_event =
  se_type :: string
  se_delta :: "json option"
  se_usages :: "json option list"
  se_choices :: "sse_choice list"
  se_error :: "json option"

definition choice_of :: "json_fields \<Rightarrow> sse_choice option" where
  "choice_of es =
     (case (string_field ''text'' es, struct_field ''delta'' es) of
        (Some text, Some delta) \<Rightarrow> Some (text, raw_field ''content'' delta)
      | _ \<Rightarrow> None)"

definition decode_event :: "(string \<Rightarrow> json option) \<Rightarrow> string \<Rightarrow> sse_event option" where
  "decode_event dec data =
     (case dec data of
        None \<Rightarrow> None
      | Some v \<Rightarrow>
          (case struct_of v of
             None \<Rightarrow> None
           | Some es \<Rightarrow>
               (case (string_field ''type'' es, struct_field ''response'' es, struct_field ''message'' es,
                      structs_field ''choices'' es) of
                  (Some t, Some r, Some m, Some cs) \<Rightarrow>
                    (case all_some (map choice_of cs) of
                       None \<Rightarrow> None
                     | Some choices \<Rightarrow>
                         Some \<lparr>se_type = t, se_delta = raw_field ''delta'' es,
                               se_usages = [raw_field ''usage'' es, raw_field ''usage'' r, raw_field ''usage'' m],
                               se_choices = choices, se_error = raw_field ''error'' es\<rparr>)
                | _ \<Rightarrow> None)))"

definition merge_raw :: "json option \<Rightarrow> sseUsageParser \<Rightarrow> sseUsageParser" where
  "merge_raw raw p =
     (case raw of None \<Rightarrow> p
      | Some v \<Rightarrow> p\<lparr>sp_usage := merge_usage (sp_usage p) (parseUsageObjectForProtocol v (sp_protocol p))\<rparr>)"

definition note_outcome :: "string \<Rightarrow> json option \<Rightarrow> sseUsageParser \<Rightarrow> sseUsageParser" where
  "note_outcome t error p =
     (let p = (if t \<in> {''error'', ''response.failed'', ''response.incomplete''} then p\<lparr>sp_failed := True\<rparr>
               else if t \<in> {''response.completed'', ''message_stop''} then p\<lparr>sp_completed := True\<rparr> else p)
      in if error \<noteq> None \<and> error \<noteq> Some JNull then p\<lparr>sp_failed := True\<rparr> else p)"

definition apply_event :: "sse_event \<Rightarrow> sseUsageParser \<Rightarrow> sseUsageParser" where
  "apply_event e p =
     (let t = (if se_type e = [] then sp_event_type p else se_type e);
          p = note_outcome t (se_error e) (p\<lparr>sp_saw_event := True\<rparr>);
          p = fold merge_raw (se_usages e) p
      in if eventHasText t (se_delta e) (se_choices e) (sp_protocol p) then p\<lparr>sp_text_seen := True\<rparr> else p)"

definition dispatch :: "(string \<Rightarrow> json option) \<Rightarrow> sseUsageParser \<Rightarrow> sseUsageParser" where
  "dispatch dec p =
     (if sp_event_discard p \<or> sp_event_data p = [] then p
      else let data = trim_space (sp_event_data p)
      in if data = ''[DONE]'' then p\<lparr>sp_completed := True\<rparr>
      else case decode_event dec data of None \<Rightarrow> p | Some e \<Rightarrow> apply_event e p)"

definition byte_order_mark :: string where
  "byte_order_mark = [CHR 0xEF, CHR 0xBB, CHR 0xBF]"

fun cut :: "char \<Rightarrow> string \<Rightarrow> string \<times> string" where
  "cut sep [] = ([], [])"
| "cut sep (c # cs) = (if c = sep then ([], cs) else case cut sep cs of (a, b) \<Rightarrow> (c # a, b))"

definition parseLine :: "(string \<Rightarrow> json option) \<Rightarrow> string \<Rightarrow> sseUsageParser \<Rightarrow> sseUsageParser" where
  "parseLine dec line p =
     (let (line, p) = (if \<not> sp_started p then (trim_prefix line byte_order_mark, p\<lparr>sp_started := True\<rparr>) else (line, p))
      in if line = [] then (dispatch dec p)\<lparr>sp_event_data := [], sp_event_type := [], sp_event_discard := False\<rparr>
      else let (field, value) = cut (CHR '':'') line; value = trim_prefix value '' ''
      in if field = ''event'' then p\<lparr>sp_event_type := value\<rparr>
      else if field = ''data'' then
        (if sp_event_discard p then p
         else if length (sp_event_data p) + length value + 1 > maxSSEEventBytes
              then p\<lparr>sp_event_data := [], sp_event_discard := True\<rparr>
              else p\<lparr>sp_event_data := sp_event_data p @ value @ [LF]\<rparr>)
      else p)"

definition sse_append :: "string \<Rightarrow> sseUsageParser \<Rightarrow> sseUsageParser" where
  "sse_append content p =
     (if sp_discard p then p
      else if length (sp_pending p) + length content > maxSSEEventBytes
           then p\<lparr>sp_pending := [], sp_discard := True\<rparr>
           else p\<lparr>sp_pending := sp_pending p @ content\<rparr>)"

text \<open>The end of a line: parse it, or mark the event as incomplete when it was too long.\<close>

definition end_line :: "(string \<Rightarrow> json option) \<Rightarrow> char \<Rightarrow> sseUsageParser \<Rightarrow> sseUsageParser" where
  "end_line dec c p =
     (let p = (if \<not> sp_discard p then parseLine dec (sp_pending p) p else p\<lparr>sp_event_discard := True\<rparr>)
      in p\<lparr>sp_pending := [], sp_discard := False, sp_after_cr := (c = CR)\<rparr>)"

definition is_newline :: "char \<Rightarrow> bool" where
  "is_newline c \<longleftrightarrow> c = CR \<or> c = LF"

function Feed :: "(string \<Rightarrow> json option) \<Rightarrow> string \<Rightarrow> sseUsageParser \<Rightarrow> sseUsageParser" where
  "Feed dec [] p = p"
| "Feed dec (c # cs) p =
     (if sp_after_cr p \<and> c = LF then Feed dec cs (p\<lparr>sp_after_cr := False\<rparr>)
      else let p = p\<lparr>sp_after_cr := False\<rparr>;
               line = takeWhile (\<lambda>x. \<not> is_newline x) (c # cs);
               rest = dropWhile (\<lambda>x. \<not> is_newline x) (c # cs)
           in case rest of
                [] \<Rightarrow> sse_append (c # cs) p
              | nl # rest' \<Rightarrow> Feed dec rest' (end_line dec nl (sse_append line p)))"
  by pat_completeness auto
termination
proof (relation "measure (\<lambda>(dec, cs, p). length cs)", goal_cases)
  case (3 dec c cs p q line rest nl rest')
  then have "length (nl # rest') \<le> length (c # cs)" using length_dropWhile_le [of _ "c # cs"] by metis
  then show ?case by simp
qed simp_all

declare Feed.simps [simp del]

definition parser_usage :: "sseUsageParser \<Rightarrow> Usage" where
  "parser_usage p = normalizeUsageForProtocol (sp_usage p) (sp_protocol p)"

definition HasText :: "sseUsageParser \<Rightarrow> bool" where
  "HasText p = sp_text_seen p"

definition StreamError :: "sseUsageParser \<Rightarrow> string option" where
  "StreamError p =
     (if sp_failed p then Some ''upstream stream reported failure''
      else if (sp_require_completion p \<or> (sp_saw_event p \<and> sp_protocol p \<noteq> [])) \<and> \<not> sp_completed p
           then Some ''upstream stream ended before completion''
      else None)"

section \<open>The parser byte by byte\<close>

definition sse_step :: "(string \<Rightarrow> json option) \<Rightarrow> char \<Rightarrow> sseUsageParser \<Rightarrow> sseUsageParser" where
  "sse_step dec c p =
     (if sp_after_cr p \<and> c = LF then p\<lparr>sp_after_cr := False\<rparr>
      else let p = p\<lparr>sp_after_cr := False\<rparr>
           in if is_newline c then end_line dec c p else sse_append [c] p)"

definition sse_ok :: "sseUsageParser \<Rightarrow> bool" where
  "sse_ok p \<longleftrightarrow> length (sp_pending p) \<le> maxSSEEventBytes \<and> (sp_discard p \<longrightarrow> sp_pending p = [])
     \<and> length (sp_event_data p) \<le> maxSSEEventBytes"

lemma new_parser_ok [simp]: "sse_ok (new_parser protocol require)"
  by (simp add: sse_ok_def new_parser_def)

lemma sse_append_after_cr [simp]: "sp_after_cr (sse_append xs p) = sp_after_cr p"
  by (simp add: sse_append_def)

lemma sse_append_ok [inv_intros]: "sse_ok p \<Longrightarrow> sse_ok (sse_append xs p)"
  by (simp add: sse_append_def sse_ok_def)

lemma sse_append_nil: "sse_ok p \<Longrightarrow> sse_append [] p = p"
  by (simp add: sse_append_def sse_ok_def)

lemma sse_append_cons:
  assumes "sse_ok p"
  shows "sse_append xs (sse_append [x] p) = sse_append (x # xs) p"
proof -
  have "length (sp_pending p) \<le> maxSSEEventBytes" "sp_discard p \<longrightarrow> sp_pending p = []"
    using assms by (simp_all add: sse_ok_def)
  then show ?thesis by (simp add: sse_append_def)
qed

lemma parseLine_data: "length (sp_event_data p) \<le> maxSSEEventBytes \<Longrightarrow> length (sp_event_data (parseLine dec line p)) \<le> maxSSEEventBytes"
  by (auto simp: parseLine_def Let_def split: prod.splits if_splits)

lemma end_line_ok [inv_intros]: "sse_ok p \<Longrightarrow> sse_ok (end_line dec c p)"
  by (simp add: end_line_def sse_ok_def Let_def parseLine_data)

lemma sse_step_ok [inv_intros]: "sse_ok p \<Longrightarrow> sse_ok (sse_step dec c p)"
proof -
  assume "sse_ok p"
  then have "sse_ok (p\<lparr>sp_after_cr := b\<rparr>)" for b by (simp add: sse_ok_def)
  then show ?thesis by (auto simp: sse_step_def Let_def intro: inv_intros)
qed

lemma sse_run_ok: "sse_ok p \<Longrightarrow> sse_ok (fold (sse_step dec) cs p)"
  by (induction cs arbitrary: p) (auto intro: inv_intros)

lemma no_cr: "\<not> sp_after_cr p \<Longrightarrow> p\<lparr>sp_after_cr := False\<rparr> = p"
  by (cases p) simp

lemma append_run:
  "sse_ok p \<Longrightarrow> \<not> sp_after_cr p \<Longrightarrow> \<forall>x \<in> set xs. \<not> is_newline x \<Longrightarrow> fold (sse_step dec) xs p = sse_append xs p"
proof (induction xs arbitrary: p)
  case (Cons x xs)
  have "sse_step dec x p = sse_append [x] p"
    using Cons.prems by (simp add: sse_step_def no_cr)
  then show ?case using Cons by (simp add: sse_append_ok sse_append_cons)
qed (simp add: sse_append_nil)

lemma sse_step_cr: "\<not> (sp_after_cr p \<and> c = LF) \<Longrightarrow> sse_step dec c p = sse_step dec c (p\<lparr>sp_after_cr := False\<rparr>)"
  by (auto simp: sse_step_def)

lemma Feed_steps: "sse_ok p \<Longrightarrow> Feed dec cs p = fold (sse_step dec) cs p"
proof (induction dec cs p rule: Feed.induct)
  case (2 dec c cs p)
  let ?p = "p\<lparr>sp_after_cr := False\<rparr>"
  let ?line = "takeWhile (\<lambda>x. \<not> is_newline x) (c # cs)"
  let ?rest = "dropWhile (\<lambda>x. \<not> is_newline x) (c # cs)"
  have ok: "sse_ok ?p" using 2 by (simp add: sse_ok_def)
  have line: "\<forall>x \<in> set ?line. \<not> is_newline x" using set_takeWhileD by metis
  show ?case
  proof (cases "sp_after_cr p \<and> c = LF")
    case True
    then show ?thesis using 2 ok by (simp add: Feed.simps sse_step_def)
  next
    case False
    have run: "fold (sse_step dec) (c # cs) p = fold (sse_step dec) ?rest (sse_append ?line ?p)"
    proof -
      have "fold (sse_step dec) (c # cs) p = fold (sse_step dec) (c # cs) ?p"
        using sse_step_cr [OF False] by simp
      also have "\<dots> = fold (sse_step dec) (?line @ ?rest) ?p" by (simp only: takeWhile_dropWhile_id)
      also have "\<dots> = fold (sse_step dec) ?rest (sse_append ?line ?p)"
        using append_run [OF ok _ line] by (simp only: fold_append comp_apply) simp
      finally show ?thesis .
    qed
    show ?thesis
    proof (cases ?rest)
      case Nil
      then have "?line = c # cs" using takeWhile_dropWhile_id [of _ "c # cs"] by (metis append_Nil2)
      then show ?thesis using run Nil False by (simp only: Feed.simps Let_def if_False list.case fold_simps)
    next
      case (Cons nl rest')
      then have "is_newline nl" using hd_dropWhile [of "\<lambda>x. \<not> is_newline x" "c # cs"] by force
      moreover have "\<not> sp_after_cr (sse_append ?line ?p)" by simp
      ultimately have "sse_step dec nl (sse_append ?line ?p) = end_line dec nl (sse_append ?line ?p)"
        by (simp add: sse_step_def no_cr)
      then show ?thesis
        using run Cons False 2(2) [OF False refl refl refl Cons] sse_append_ok end_line_ok ok
        by (simp only: Feed.simps Let_def if_False list.case fold_simps)
    qed
  qed
qed (simp add: Feed.simps)

section \<open>Ranges of the counts\<close>

definition count_ok :: "int option \<Rightarrow> bool" where
  "count_ok x = (case x of None \<Rightarrow> True | Some n \<Rightarrow> in_int64 n)"

definition usage_ok :: "Usage \<Rightarrow> bool" where
  "usage_ok u \<longleftrightarrow> count_ok (ut_input u) \<and> count_ok (ut_output u) \<and> count_ok (ut_cached u)
     \<and> count_ok (ut_cache_creation u) \<and> count_ok (ut_uncached u) \<and> count_ok (ut_billable u)
     \<and> (case ut_uncached u of None \<Rightarrow> True | Some n \<Rightarrow> 0 \<le> n)"

lemma empty_usage_ok [simp]: "usage_ok empty_usage"
  by (simp add: usage_ok_def empty_usage_def count_ok_def)

lemma zero_in_int64 [simp]: "in_int64 0"
  by (simp add: in_int64_def min_int64_def max_int64_def)

lemma normalize_ok [inv_intros]: "usage_ok u \<Longrightarrow> usage_ok (normalizeUsageForProtocol u protocol)"
  by (auto simp: usage_ok_def normalizeUsageForProtocol_def count_ok_def Let_def split: option.splits)

lemma merge_usage_ok [inv_intros]: "usage_ok p \<Longrightarrow> usage_ok u \<Longrightarrow> usage_ok (merge_usage p u)"
  by (auto simp: usage_ok_def merge_usage_def split: option.splits)

lemma first_some_ok: "\<forall>x \<in> set xs. count_ok x \<Longrightarrow> count_ok (first_some xs)"
  by (auto simp: first_some_def count_ok_def dest: filter_eq_ConsD split: list.splits option.splits)

lemma all_some_set: "all_some xs = Some ys \<Longrightarrow> y \<in> set ys \<Longrightarrow> Some y \<in> set xs"
  by (induction xs arbitrary: ys) (auto split: option.splits)

lemma int_field_ok: "int_field name es = Some v \<Longrightarrow> count_ok v"
  by (cases v) (auto simp: count_ok_def dest: int_field_range)

lemma usageFields_ok: "usageFields es = Some vs \<Longrightarrow> v \<in> set vs \<Longrightarrow> count_ok v"
  unfolding usageFields_def by (drule (1) all_some_set) (auto dest: int_field_ok [OF sym])

lemma raw_usage_ok:
  "count_ok a \<Longrightarrow> count_ok b \<Longrightarrow> count_ok c \<Longrightarrow> count_ok d \<Longrightarrow>
   usage_ok \<lparr>ut_billable = None, ut_input = a, ut_output = b, ut_cached = c, ut_cache_creation = d, ut_uncached = None\<rparr>"
  by (simp add: usage_ok_def count_ok_def [of None])

lemma parse_object_ok [inv_intros]: "usage_ok (parseUsageObjectForProtocol body protocol)"
proof (cases "struct_of body")
  case (Some es)
  show ?thesis
  proof (cases "usageFields es")
    case fs: (Some vs)
    from usageFields_ok [OF this] show ?thesis
      unfolding parseUsageObjectForProtocol_def Some option.case fs
      by (auto split: option.split list.split intro!: normalize_ok raw_usage_ok first_some_ok dest: int_field_ok)
  qed (simp add: parseUsageObjectForProtocol_def Some)
qed (simp add: parseUsageObjectForProtocol_def)

lemma parse_body_ok: "usage_ok (parseUsageWithProtocol dec body protocol)"
  by (auto simp: parseUsageWithProtocol_def intro: inv_intros split: option.splits prod.splits)

lemma merge_raw_ok: "usage_ok (sp_usage p) \<Longrightarrow> usage_ok (sp_usage (merge_raw raw p))"
  by (cases raw) (simp_all add: merge_raw_def inv_intros)

lemma fold_merge_ok: "usage_ok (sp_usage p) \<Longrightarrow> usage_ok (sp_usage (fold merge_raw rs p))"
  by (induction rs arbitrary: p) (simp_all add: merge_raw_ok)

lemma note_outcome_usage [simp]: "sp_usage (note_outcome t e p) = sp_usage p"
  by (simp add: note_outcome_def Let_def)

lemma text_seen_usage: "sp_usage (if b then q\<lparr>sp_text_seen := True\<rparr> else q) = sp_usage q"
  by simp

lemma apply_event_usage_ok:
  assumes "usage_ok (sp_usage p)"
  shows "usage_ok (sp_usage (apply_event e p))"
  unfolding apply_event_def Let_def text_seen_usage by (rule fold_merge_ok) (use assms in simp)

lemma dispatch_usage_ok: "usage_ok (sp_usage p) \<Longrightarrow> usage_ok (sp_usage (dispatch dec p))"
  by (simp add: dispatch_def Let_def apply_event_usage_ok split: option.split)

lemma parseLine_usage_ok:
  assumes "usage_ok (sp_usage p)"
  shows "usage_ok (sp_usage (parseLine dec line p))"
proof -
  define lp where "lp = (if \<not> sp_started p then (trim_prefix line byte_order_mark, p\<lparr>sp_started := True\<rparr>) else (line, p))"
  have "usage_ok (sp_usage (snd lp))" using assms by (simp add: lp_def)
  moreover obtain l q where "lp = (l, q)" by fastforce
  moreover obtain f v where "cut (CHR '':'') l = (f, v)" by fastforce
  ultimately show ?thesis
    unfolding parseLine_def lp_def [symmetric] Let_def by (simp add: dispatch_usage_ok)
qed

lemma step_usage_ok: "usage_ok (sp_usage p) \<Longrightarrow> usage_ok (sp_usage (sse_step dec c p))"
  by (simp add: sse_step_def end_line_def sse_append_def Let_def parseLine_usage_ok)

lemma run_usage_ok: "usage_ok (sp_usage p) \<Longrightarrow> usage_ok (sp_usage (fold (sse_step dec) cs p))"
  by (induction cs arbitrary: p) (auto intro: step_usage_ok)

lemma Feed_chunks: "sse_ok p \<Longrightarrow> fold (Feed dec) chunks p = fold (sse_step dec) (concat chunks) p"
  by (induction chunks arbitrary: p) (simp_all add: Feed_steps sse_run_ok)

section \<open>Properties\<close>

text \<open>
  C23: the stream parser does not see the chunks. However a stream is cut into reads, feeding the pieces
  is running the one-byte machine over their concatenation, and the parser holds at most 1 MiB of
  unfinished line and 1 MiB of event.
\<close>

theorem feed_is_bytewise:
  assumes "sse_ok p"
  shows "fold (Feed dec) chunks p = fold (sse_step dec) (concat chunks) p \<and> sse_ok (fold (Feed dec) chunks p)"
  using assms by (simp add: Feed_chunks sse_run_ok)

theorem feed_is_bytewise_witness:
  "fold (Feed (\<lambda>_. None)) [''da'', ''ta: [DONE]'' @ [CR], [LF, LF]] (new_parser ''chat'' True)
    = fold (Feed (\<lambda>_. None)) [''data: [DONE]'' @ [CR, LF, LF]] (new_parser ''chat'' True)"
  by (simp only: feed_is_bytewise [OF new_parser_ok, THEN conjunct1]) simp

text \<open>
  Token counts are machine integers. Every count read from a response body or accumulated over an
  event stream fits an \<open>int64\<close>, and the uncached count is never negative, although its sum wraps.
\<close>

theorem usage_counts_typed:
  "usage_ok (parseUsageWithProtocol dec body protocol)
    \<and> usage_ok (parser_usage (fold (Feed dec) chunks (new_parser protocol require)))"
proof -
  have "usage_ok (sp_usage (new_parser protocol require))" by (simp add: new_parser_def)
  from run_usage_ok [OF this] show ?thesis
    by (simp add: parse_body_ok parser_usage_def normalize_ok Feed_chunks)
qed

end
