(* ===== verification/Stream_Relay.thy ===== *)
theory Stream_Relay
  imports Transport SSE_Parser
begin

text \<open>
  \<open>internal/gateway/stream.go\<close>: the relay of a streamed response to the client and the buffering of
  an ordinary one. Each turn of the Go loop selects one event: a finished read (with what the local
  writes of that turn did), the timer, or the end of the request; a run is the list of the events
  it selected. The goroutine that reads ahead hands over one buffer at a time, so it adds no state.
\<close>

section \<open>Events\<close>

datatype read_err = ReadMore | ReadEOF | ReadFailed gw_error

text \<open>
  A read, and for the relay what happened to it downstream: whether the write deadline could be set, how
  many bytes a failed write had sent, and whether the flush failed.
\<close>

record ReadResult =
  br_at :: time
  br_bytes :: string
  br_err :: read_err
  br_deadline :: bool
  br_write :: "(nat \<times> string) option"
  br_flush :: "string option"

text \<open>A request ends by its deadline or by cancellation.\<close>

datatype RelayEvent = ReadDone ReadResult | TimerFired | RequestDone bool

fun event_bytes :: "RelayEvent \<Rightarrow> string" where
  "event_bytes (ReadDone r) = br_bytes r"
| "event_bytes _ = []"

definition closed_error :: "string \<Rightarrow> gw_error" where
  "closed_error detail = ErrClientClosed (''client connection closed: '' @ detail)"

definition done_error :: "bool \<Rightarrow> gw_error" where
  "done_error deadline = (if deadline then CtxDeadline else CtxCanceled)"

definition first_byte_or_default :: "duration \<Rightarrow> duration" where
  "first_byte_or_default d = (if d \<le> 0 then 180 * second else d)"

definition idle_or_default :: "duration \<Rightarrow> duration" where
  "idle_or_default d = (if d \<le> 0 then 5 * minute else d)"

section \<open>Relaying a stream\<close>

text \<open>What the client has been sent.\<close>

record Downstream =
  ds_header :: header
  ds_status :: "int option"
  ds_body :: string

record RelayConfig =
  rc_request_id :: string
  rc_upstream_name :: string
  rc_attempts :: nat
  rc_first_byte :: duration
  rc_idle :: duration
  rc_protocol :: string
  rc_started :: time
  rc_status :: int
  rc_header :: header

record RelayState =
  rs_committed :: bool
  rs_parser :: sseUsageParser
  rs_ttfb :: "int option"
  rs_ttft :: "int option"
  rs_timeout :: duration
  rs_down :: Downstream

record RelayResult =
  rr_committed :: bool
  rr_usage :: Usage
  rr_ttfb :: "int option"
  rr_ttft :: "int option"
  rr_error :: "gw_error option"

definition require_completion :: "RelayConfig \<Rightarrow> bool" where
  "require_completion cfg \<longleftrightarrow> rc_protocol cfg \<noteq> [] \<and> rc_status cfg \<ge> 200 \<and> rc_status cfg < 300"

definition relay_start :: "RelayConfig \<Rightarrow> Downstream \<Rightarrow> RelayState" where
  "relay_start cfg d = \<lparr>rs_committed = False, rs_parser = new_parser (rc_protocol cfg) (require_completion cfg),
     rs_ttfb = None, rs_ttft = None, rs_timeout = first_byte_or_default (rc_first_byte cfg), rs_down = d\<rparr>"

definition relay_result :: "bool \<Rightarrow> RelayState \<Rightarrow> gw_error option \<Rightarrow> RelayResult" where
  "relay_result committed st err = \<lparr>rr_committed = committed, rr_usage = parser_usage (rs_parser st),
     rr_ttfb = rs_ttfb st, rr_ttft = rs_ttft st, rr_error = err\<rparr>"

text \<open>Headers are written at the first byte, or at an empty end of stream that needs no completion.\<close>

definition commit :: "RelayConfig \<Rightarrow> bool \<Rightarrow> RelayState \<Rightarrow> RelayState" where
  "commit cfg drop_length st =
     (let h = setGatewayHeaders (rc_request_id cfg) (rc_upstream_name cfg) (rc_attempts cfg)
                (copyResponseHeaders (ds_header (rs_down st)) (rc_header cfg));
          h = (if drop_length then header_del h ''Content-Length'' else h)
      in st\<lparr>rs_committed := True, rs_down := (rs_down st)\<lparr>ds_header := h, ds_status := Some (rc_status cfg)\<rparr>\<rparr>)"

definition relay_end :: "RelayConfig \<Rightarrow> read_err \<Rightarrow> RelayState \<Rightarrow> RelayResult option \<times> RelayState" where
  "relay_end cfg err st =
     (case err of
        ReadMore \<Rightarrow> (None, st)
      | ReadEOF \<Rightarrow>
          if \<not> rs_committed st \<and> sp_require_completion (rs_parser st)
          then (Some (relay_result False st (Some (PlainError ''upstream returned an empty stream''))), st)
          else (let st = (if rs_committed st then st else commit cfg False st)
                in (Some (relay_result True st (map_option PlainError (StreamError (rs_parser st)))), st))
      | ReadFailed e \<Rightarrow> (Some (relay_result (rs_committed st) st (Some e)), st))"

definition relay_feed ::
  "(string \<Rightarrow> json option) \<Rightarrow> RelayConfig \<Rightarrow> ReadResult \<Rightarrow> RelayState \<Rightarrow> RelayState" where
  "relay_feed dec cfg r st =
     (let st = (if rs_ttfb st = None then st\<lparr>rs_ttfb := Some (milliseconds (time_sub (br_at r) (rc_started cfg)))\<rparr> else st);
          st = (if rs_committed st then st else commit cfg True st);
          st = st\<lparr>rs_parser := Feed dec (br_bytes r) (rs_parser st)\<rparr>
      in if rs_ttft st = None \<and> HasText (rs_parser st)
         then st\<lparr>rs_ttft := Some (milliseconds (time_sub (br_at r) (rc_started cfg)))\<rparr> else st)"

definition send :: "string \<Rightarrow> RelayState \<Rightarrow> RelayState" where
  "send bytes st = st\<lparr>rs_down := (rs_down st)\<lparr>ds_body := ds_body (rs_down st) @ bytes\<rparr>\<rparr>"

definition relay_read ::
  "(string \<Rightarrow> json option) \<Rightarrow> RelayConfig \<Rightarrow> ReadResult \<Rightarrow> RelayState \<Rightarrow> RelayResult option \<times> RelayState" where
  "relay_read dec cfg r st =
     (if length (br_bytes r) > 0 then
        (if \<not> br_deadline r then (Some (relay_result (rs_committed st) st (Some (closed_error ''write deadline''))), st)
         else let st = relay_feed dec cfg r st
         in case br_write r of
              Some (n, e) \<Rightarrow> (let st = send (take n (br_bytes r)) st in (Some (relay_result True st (Some (closed_error e))), st))
            | None \<Rightarrow>
                (let st = send (br_bytes r) st
                 in case br_flush r of
                      Some e \<Rightarrow> (Some (relay_result True st (Some (closed_error e))), st)
                    | None \<Rightarrow> relay_end cfg (br_err r) (st\<lparr>rs_timeout := idle_or_default (rc_idle cfg)\<rparr>)))
      else relay_end cfg (br_err r) st)"

fun relay_event ::
  "(string \<Rightarrow> json option) \<Rightarrow> RelayConfig \<Rightarrow> RelayEvent \<Rightarrow> RelayState \<Rightarrow> RelayResult option \<times> RelayState" where
  "relay_event dec cfg (ReadDone r) st = relay_read dec cfg r st"
| "relay_event dec cfg TimerFired st =
     (Some (relay_result (rs_committed st) st (Some (UpstreamTimeout
        (if rs_committed st then ''upstream stream idle timeout'' else ''upstream first byte timeout'')))), st)"
| "relay_event dec cfg (RequestDone c) st = (Some (relay_result (rs_committed st) st (Some (done_error c))), st)"

text \<open>The loop: \<open>None\<close> while it still waits for an event.\<close>

fun relay_loop ::
  "(string \<Rightarrow> json option) \<Rightarrow> RelayConfig \<Rightarrow> RelayEvent list \<Rightarrow> RelayState \<Rightarrow> RelayResult option \<times> RelayState" where
  "relay_loop dec cfg [] st = (None, st)"
| "relay_loop dec cfg (ev # evs) st =
     (case relay_event dec cfg ev st of
        (Some r, st') \<Rightarrow> (Some r, st')
      | (None, st') \<Rightarrow> relay_loop dec cfg evs st')"

definition relayStreamWithMetrics ::
  "(string \<Rightarrow> json option) \<Rightarrow> RelayConfig \<Rightarrow> RelayEvent list \<Rightarrow> Downstream \<Rightarrow> (RelayResult \<times> Downstream) option" where
  "relayStreamWithMetrics dec cfg evs d =
     (case relay_loop dec cfg evs (relay_start cfg d) of
        (None, _) \<Rightarrow> None
      | (Some r, st) \<Rightarrow> Some (r, rs_down st))"

section \<open>Buffering a response\<close>

record BufferState =
  bs_buffer :: responseBuffer
  bs_budget :: "byteBudget option"
  bs_ttfb :: "int option"
  bs_timeout :: duration

definition buffer_end :: "read_err \<Rightarrow> BufferState \<Rightarrow> (gw_error + string) option \<times> BufferState" where
  "buffer_end err st =
     (case err of
        ReadMore \<Rightarrow> (None, st)
      | ReadEOF \<Rightarrow> (Some (Inr (rb_data (bs_buffer st))), st)
      | ReadFailed e \<Rightarrow> (Some (Inl e), st))"

definition buffer_read ::
  "duration \<Rightarrow> time \<Rightarrow> ReadResult \<Rightarrow> BufferState \<Rightarrow> (gw_error + string) option \<times> BufferState" where
  "buffer_read idle started r st =
     (if length (br_bytes r) > 0 then
        (let st = (if bs_ttfb st = None then st\<lparr>bs_ttfb := Some (milliseconds (time_sub (br_at r) started))\<rparr> else st)
         in if int (length (rb_data (bs_buffer st))) + int (length (br_bytes r)) > maxBodyBytes
            then (Some (Inl (PlainError ''upstream response exceeds 32 MiB'')), st)
            else case rb_append (bs_budget st) (bs_buffer st) (br_bytes r) of
                   Inl e \<Rightarrow> (Some (Inl e), st)
                 | Inr (budget, buffer) \<Rightarrow>
                     buffer_end (br_err r) (st\<lparr>bs_buffer := buffer, bs_budget := budget, bs_timeout := idle\<rparr>))
      else buffer_end (br_err r) st)"

fun buffer_event ::
  "duration \<Rightarrow> time \<Rightarrow> RelayEvent \<Rightarrow> BufferState \<Rightarrow> (gw_error + string) option \<times> BufferState" where
  "buffer_event idle started (ReadDone r) st = buffer_read idle started r st"
| "buffer_event idle started TimerFired st =
     (Some (Inl (UpstreamTimeout (if rb_data (bs_buffer st) = [] then ''upstream first byte timeout''
        else ''upstream response idle timeout''))), st)"
| "buffer_event idle started (RequestDone c) st = (Some (Inl (done_error c)), st)"

fun buffer_loop ::
  "duration \<Rightarrow> time \<Rightarrow> RelayEvent list \<Rightarrow> BufferState \<Rightarrow> (gw_error + string) option \<times> BufferState" where
  "buffer_loop idle started [] st = (None, st)"
| "buffer_loop idle started (ev # evs) st =
     (case buffer_event idle started ev st of
        (Some r, st') \<Rightarrow> (Some r, st')
      | (None, st') \<Rightarrow> buffer_loop idle started evs st')"

definition readResponseWithMetrics ::
  "duration \<Rightarrow> duration \<Rightarrow> time \<Rightarrow> RelayEvent list \<Rightarrow> byteBudget option \<Rightarrow> responseBuffer
     \<Rightarrow> (gw_error + string) option \<times> BufferState" where
  "readResponseWithMetrics first_byte idle started evs budget buffer =
     buffer_loop (idle_or_default idle) started evs
       \<lparr>bs_buffer = buffer, bs_budget = budget, bs_ttfb = None, bs_timeout = first_byte_or_default first_byte\<rparr>"

section \<open>Lemmas on the relay\<close>

fun bytes_until_eof :: "RelayEvent list \<Rightarrow> string" where
  "bytes_until_eof [] = []"
| "bytes_until_eof (ReadDone r # evs) = br_bytes r @ (if br_err r = ReadEOF then [] else bytes_until_eof evs)"
| "bytes_until_eof (_ # evs) = bytes_until_eof evs"

definition parser_after :: "(string \<Rightarrow> json option) \<Rightarrow> RelayConfig \<Rightarrow> string \<Rightarrow> sseUsageParser" where
  "parser_after dec cfg bytes = fold (sse_step dec) bytes (new_parser (rc_protocol cfg) (require_completion cfg))"

text \<open>While the relay runs it has sent exactly what it has read, and nothing before the first byte.\<close>

definition relay_inv ::
  "(string \<Rightarrow> json option) \<Rightarrow> RelayConfig \<Rightarrow> Downstream \<Rightarrow> string \<Rightarrow> RelayState \<Rightarrow> bool" where
  "relay_inv dec cfg d bytes st \<longleftrightarrow> rs_parser st = parser_after dec cfg bytes
     \<and> (if rs_committed st then ds_status (rs_down st) = Some (rc_status cfg) \<and> ds_body (rs_down st) = bytes
        else rs_down st = d \<and> bytes = [])"

definition relay_post ::
  "(string \<Rightarrow> json option) \<Rightarrow> RelayConfig \<Rightarrow> Downstream \<Rightarrow> string \<Rightarrow> string \<Rightarrow> RelayResult \<Rightarrow> Downstream \<Rightarrow> bool" where
  "relay_post dec cfg d all full r d' \<longleftrightarrow> prefix (ds_body d') all
     \<and> (if rr_committed r then ds_status d' = Some (rc_status cfg) else d' = d)
     \<and> (rr_error r = None \<longrightarrow> rr_committed r \<and> ds_body d' = full
         \<and> StreamError (parser_after dec cfg full) = None)"

lemma parser_after_feed: "Feed dec xs (parser_after dec cfg bytes) = parser_after dec cfg (bytes @ xs)"
  by (simp add: parser_after_def Feed_steps sse_run_ok)

lemma commit_simps [simp]:
  "rs_committed (commit cfg b st)" "rs_parser (commit cfg b st) = rs_parser st"
  "ds_status (rs_down (commit cfg b st)) = Some (rc_status cfg)"
  "ds_body (rs_down (commit cfg b st)) = ds_body (rs_down st)"
  by (simp_all add: commit_def Let_def)

lemma relay_feed_simps:
  "rs_committed (relay_feed dec cfg r st)"
  "rs_parser (relay_feed dec cfg r st) = Feed dec (br_bytes r) (rs_parser st)"
  "ds_body (rs_down (relay_feed dec cfg r st)) = ds_body (rs_down st)"
  "\<not> rs_committed st \<or> ds_status (rs_down st) = Some (rc_status cfg) \<Longrightarrow>
     ds_status (rs_down (relay_feed dec cfg r st)) = Some (rc_status cfg)"
  by (simp_all add: relay_feed_def Let_def)

lemma relay_feed_inv:
  assumes "relay_inv dec cfg d bytes st" "ds_body d = []"
  shows "relay_inv dec cfg d (bytes @ br_bytes r) (send (br_bytes r) (relay_feed dec cfg r st))"
  using assms by (auto simp: relay_inv_def relay_feed_simps send_def parser_after_feed split: if_splits)

lemma relay_end_post:
  assumes "relay_inv dec cfg d bytes st" "ds_body d = []" "relay_end cfg err st = (Some r, st')"
  shows "relay_post dec cfg d bytes bytes r (rs_down st') \<and> err \<noteq> ReadMore \<and> (rr_error r = None \<longrightarrow> err = ReadEOF)"
  using assms
  by (auto simp: relay_end_def relay_inv_def relay_post_def relay_result_def Let_def split: read_err.splits if_splits)

lemma relay_end_more: "relay_end cfg err st = (None, st') \<Longrightarrow> st' = st \<and> err = ReadMore"
  by (auto simp: relay_end_def Let_def split: read_err.splits if_splits)

lemma relay_inv_timeout [simp]: "relay_inv dec cfg d bytes (st\<lparr>rs_timeout := t\<rparr>) = relay_inv dec cfg d bytes st"
  by (simp add: relay_inv_def)

lemma relay_post_weaken:
  "relay_post dec cfg d a c r d' \<Longrightarrow> prefix a a' \<Longrightarrow> (rr_error r = None \<Longrightarrow> c' = c) \<Longrightarrow> relay_post dec cfg d a' c' r d'"
  by (auto simp: relay_post_def)

lemma relay_event_more:
  assumes "relay_inv dec cfg d bytes st" "ds_body d = []" "relay_event dec cfg ev st = (None, st')"
  shows "relay_inv dec cfg d (bytes @ event_bytes ev) st' \<and> (\<forall>r. ev = ReadDone r \<longrightarrow> br_err r = ReadMore)"
proof (cases ev)
  case (ReadDone r)
  then show ?thesis
    using assms relay_feed_inv [OF assms(1,2), of r]
    by (auto simp: relay_read_def Let_def dest!: relay_end_more split: if_splits option.splits)
qed (use assms in auto)

lemma relay_event_post:
  assumes inv: "relay_inv dec cfg d bytes st" and d: "ds_body d = []" and run: "relay_event dec cfg ev st = (Some res, st')"
  shows "relay_post dec cfg d (bytes @ event_bytes ev) (bytes @ event_bytes ev) res (rs_down st')
    \<and> (rr_error res = None \<longrightarrow> (\<exists>r. ev = ReadDone r \<and> br_err r = ReadEOF))"
proof -
  have stop: "relay_post dec cfg d (bytes @ xs) ys (relay_result (rs_committed st) st (Some e)) (rs_down st)" for xs ys e
    using inv d by (auto simp: relay_inv_def relay_post_def relay_result_def)
  show ?thesis
  proof (cases ev)
    case (ReadDone r)
    show ?thesis
    proof (cases "br_bytes r = []")
      case True
      then show ?thesis using ReadDone run relay_end_post [OF inv d] by (simp add: relay_read_def)
    next
      case ne: False
      let ?st = "relay_feed dec cfg r st"
      note fed = relay_feed_inv [OF inv d, of r]
      have cut: "relay_post dec cfg d (bytes @ br_bytes r) ys (relay_result True (send (take n (br_bytes r)) ?st) (Some e))
          (rs_down (send (take n (br_bytes r)) ?st))" for n ys e
        using fed d by (auto simp: relay_inv_def relay_post_def relay_result_def send_def relay_feed_simps take_is_prefix
            split: if_splits)
      show ?thesis
      proof (cases "br_deadline r")
        case False
        then show ?thesis using ReadDone run ne stop by (simp add: relay_read_def) (auto simp: relay_result_def)
      next
        case dl: True
        show ?thesis
        proof (cases "br_write r")
          case (Some w)
          then show ?thesis using ReadDone run ne dl cut
            by (cases w) (auto simp: relay_read_def Let_def relay_result_def)
        next
          case wr: None
          show ?thesis
          proof (cases "br_flush r")
            case (Some e)
            then show ?thesis using ReadDone run ne dl wr cut [where n = "length (br_bytes r)"]
              by (auto simp: relay_read_def Let_def relay_result_def)
          next
            case None
            then have "relay_end cfg (br_err r) (send (br_bytes r) ?st\<lparr>rs_timeout := idle_or_default (rc_idle cfg)\<rparr>) = (Some res, st')"
              using ReadDone run ne dl wr by (simp add: relay_read_def Let_def)
            from relay_end_post [OF _ d this] fed show ?thesis using ReadDone by simp
          qed
        qed
      qed
    qed
  qed (use run stop [of "[]"] in \<open>auto simp: relay_result_def\<close>)
qed

lemma relay_loop_post:
  "relay_inv dec cfg d bytes st \<Longrightarrow> ds_body d = [] \<Longrightarrow> relay_loop dec cfg evs st = (Some r, st') \<Longrightarrow>
   relay_post dec cfg d (bytes @ concat (map event_bytes evs)) (bytes @ bytes_until_eof evs) r (rs_down st')"
proof (induction evs arbitrary: bytes st)
  case (Cons ev evs)
  obtain res st1 where ev: "relay_event dec cfg ev st = (res, st1)" by fastforce
  show ?case
  proof (cases res)
    case None
    from relay_event_more [OF Cons.prems(1,2) ev [unfolded None]]
    have next_inv: "relay_inv dec cfg d (bytes @ event_bytes ev) st1" "\<forall>r. ev = ReadDone r \<longrightarrow> br_err r = ReadMore" by auto
    from Cons.IH [OF next_inv(1) Cons.prems(2)] Cons.prems(3) ev None next_inv(2) show ?thesis
      by (cases ev) auto
  next
    case (Some x)
    then have "x = r" "st1 = st'" using Cons.prems(3) ev by auto
    with relay_event_post [OF Cons.prems(1,2) ev [unfolded Some]]
    have post: "relay_post dec cfg d (bytes @ event_bytes ev) (bytes @ event_bytes ev) r (rs_down st')"
      and eof: "rr_error r = None \<Longrightarrow> \<exists>q. ev = ReadDone q \<and> br_err q = ReadEOF" by simp_all
    show ?thesis
      by (rule relay_post_weaken [OF post]) (auto dest!: eof)
  qed
qed simp

section \<open>Lemmas on buffering\<close>

definition buffer_inv :: "int \<Rightarrow> string \<Rightarrow> BufferState \<Rightarrow> bool" where
  "buffer_inv others bytes st \<longleftrightarrow> rb_data (bs_buffer st) = bytes \<and> rb_ok others (bs_budget st) (bs_buffer st)
     \<and> bs_budget st \<noteq> None"

definition buffer_post :: "int \<Rightarrow> string \<Rightarrow> gw_error + string \<Rightarrow> BufferState \<Rightarrow> bool" where
  "buffer_post others full res st \<longleftrightarrow> (\<exists>bytes. buffer_inv others bytes st)
     \<and> (case res of Inl _ \<Rightarrow> True | Inr c \<Rightarrow> c = full \<and> int (length c) \<le> maxBodyBytes)"

lemma buffer_inv_length: "buffer_inv others bytes st \<Longrightarrow> int (length bytes) \<le> maxBodyBytes"
  by (auto simp: buffer_inv_def rb_ok_def)

lemma rb_append_budget: "rb_append (Some g) b chunk = Inr (bud, b') \<Longrightarrow> bud \<noteq> None"
  by (auto simp: rb_append_def Let_def split: if_splits prod.splits bool.splits)

lemma buffer_end_cases:
  "buffer_end err st = (res, st') \<Longrightarrow> st' = st \<and>
     (case res of None \<Rightarrow> err = ReadMore | Some (Inr c) \<Rightarrow> err = ReadEOF \<and> c = rb_data (bs_buffer st) | Some (Inl _) \<Rightarrow> True)"
  by (auto simp: buffer_end_def split: read_err.splits)

lemma buffer_read_step:
  assumes inv: "buffer_inv others bytes st" and run: "buffer_read idle started r st = (res, st')"
  shows "case res of
      None \<Rightarrow> br_err r = ReadMore \<and> buffer_inv others (bytes @ br_bytes r) st'
    | Some x \<Rightarrow> buffer_post others (bytes @ br_bytes r) x st' \<and> ((\<exists>c. x = Inr c) \<longrightarrow> br_err r = ReadEOF)"
proof (cases "br_bytes r = []")
  case True
  then have "buffer_end (br_err r) st = (res, st')" using run by (simp add: buffer_read_def)
  from buffer_end_cases [OF this] inv buffer_inv_length [OF inv] True show ?thesis
    by (auto simp: buffer_post_def buffer_inv_def split: option.splits sum.splits)
next
  case ne: False
  define st1 where "st1 = (if bs_ttfb st = None then st\<lparr>bs_ttfb := Some (milliseconds (time_sub (br_at r) started))\<rparr> else st)"
  have inv1: "buffer_inv others bytes st1" using inv by (simp add: st1_def buffer_inv_def)
  show ?thesis
  proof (cases "int (length (rb_data (bs_buffer st1))) + int (length (br_bytes r)) > maxBodyBytes")
    case True
    then have "res = Some (Inl (PlainError ''upstream response exceeds 32 MiB''))" "st' = st1"
      using run ne unfolding buffer_read_def st1_def [symmetric] Let_def by simp_all
    then show ?thesis using inv1 by (auto simp: buffer_post_def)
  next
    case fits: False
    show ?thesis
    proof (cases "rb_append (bs_budget st1) (bs_buffer st1) (br_bytes r)")
      case (Inl e)
      then have "res = Some (Inl e)" "st' = st1"
        using run ne fits unfolding buffer_read_def st1_def [symmetric] Let_def by simp_all
      then show ?thesis using inv1 by (auto simp: buffer_post_def)
    next
      case (Inr bb)
      obtain budget buffer where bb: "bb = (budget, buffer)" by fastforce
      let ?st = "st1\<lparr>bs_buffer := buffer, bs_budget := budget, bs_timeout := idle\<rparr>"
      have run': "buffer_end (br_err r) ?st = (res, st')"
        using run ne fits Inr bb unfolding buffer_read_def st1_def [symmetric] Let_def by simp
      have "budget \<noteq> None" using inv1 Inr bb rb_append_budget by (auto simp: buffer_inv_def)
      then have inv2: "buffer_inv others (bytes @ br_bytes r) ?st"
        using inv1 rb_append_data [OF Inr [unfolded bb]] rb_append_ok [OF _ Inr [unfolded bb]] fits
        by (simp add: buffer_inv_def)
      from buffer_end_cases [OF run'] inv2 buffer_inv_length [OF inv2] show ?thesis
        by (auto simp: buffer_post_def buffer_inv_def split: option.splits sum.splits)
    qed
  qed
qed

lemma buffer_loop_post:
  "buffer_inv others bytes st \<Longrightarrow> buffer_loop idle started evs st = (Some res, st') \<Longrightarrow>
   buffer_post others (bytes @ bytes_until_eof evs) res st'"
proof (induction evs arbitrary: bytes st)
  case (Cons ev evs)
  show ?case
  proof (cases ev)
    case (ReadDone r)
    obtain x st1 where step: "buffer_read idle started r st = (x, st1)" by fastforce
    note * = buffer_read_step [OF Cons.prems(1) step]
    show ?thesis
    proof (cases x)
      case None
      then show ?thesis
        using * Cons.IH [of "bytes @ br_bytes r" st1] Cons.prems(2) step ReadDone by simp
    next
      case (Some y)
      then have "y = res" "st1 = st'" using Cons.prems(2) step ReadDone by auto
      then show ?thesis using * Some ReadDone by (auto simp: buffer_post_def split: sum.splits)
    qed
  qed (use Cons.prems in \<open>auto simp: buffer_post_def\<close>)
qed simp

lemma relay_run_post:
  assumes "relayStreamWithMetrics dec cfg evs d = Some (r, d')" "ds_body d = []"
  shows "prefix (ds_body d') (concat (map event_bytes evs))
    \<and> (if rr_committed r then ds_status d' = Some (rc_status cfg) else d' = d)
    \<and> (rr_error r = None \<longrightarrow> rr_committed r \<and> ds_body d' = bytes_until_eof evs
        \<and> StreamError (Feed dec (ds_body d') (new_parser (rc_protocol cfg) (require_completion cfg))) = None)"
proof -
  obtain st' where run: "relay_loop dec cfg evs (relay_start cfg d) = (Some r, st')" "d' = rs_down st'"
    using assms(1) by (auto simp: relayStreamWithMetrics_def split: option.splits prod.splits)
  have "relay_inv dec cfg d [] (relay_start cfg d)"
    by (simp add: relay_inv_def relay_start_def parser_after_def)
  from relay_loop_post [OF this assms(2) run(1)] run(2) show ?thesis
    by (auto simp: relay_post_def parser_after_def Feed_steps)
qed

lemma buffered_run_post:
  assumes "readResponseWithMetrics first_byte idle started evs (Some g) (empty_buffer limit) = (Some res, st)"
  shows "(case res of Inl _ \<Rightarrow> True | Inr c \<Rightarrow> c = bytes_until_eof evs \<and> int (length c) \<le> maxBodyBytes)
    \<and> fst (rb_release (bs_budget st) (bs_buffer st)) = Some g"
proof -
  have "buffer_inv (bb_used g) [] \<lparr>bs_buffer = empty_buffer limit, bs_budget = Some g, bs_ttfb = None,
      bs_timeout = first_byte_or_default first_byte\<rparr>"
    using rb_ok_empty [of g limit] by (simp add: buffer_inv_def) (simp add: empty_buffer_def)
  from buffer_loop_post [OF this assms [unfolded readResponseWithMetrics_def]] obtain bytes where
    post: "buffer_post (bb_used g) (bytes_until_eof evs) res st" "buffer_inv (bb_used g) bytes st"
    by (auto simp: buffer_post_def)
  then obtain g' where g': "bs_budget st = Some g'" "rb_ok (bb_used g) (Some g') (bs_buffer st)"
    by (auto simp: buffer_inv_def)
  have "g'\<lparr>bb_used := bb_used g\<rparr> = g" by simp
  then show ?thesis
    using post(1) g' rb_release_restores [OF g'(2)] by (simp add: buffer_post_def)
qed

definition final_event :: "RelayEvent \<Rightarrow> bool" where
  "final_event ev = (case ev of ReadDone r \<Rightarrow> br_err r \<noteq> ReadMore | _ \<Rightarrow> True)"

lemma loops_return:
  assumes "\<exists>ev \<in> set evs. final_event ev"
  shows "relayStreamWithMetrics dec cfg evs d \<noteq> None
    \<and> fst (readResponseWithMetrics first_byte idle started evs budget buffer) \<noteq> None"
proof -
  have relay: "fst (relay_event dec cfg ev st) \<noteq> None" if "final_event ev" for ev st
    using that by (cases ev) (auto simp: final_event_def relay_read_def relay_end_def Let_def split: read_err.splits option.splits)
  have buffered: "fst (buffer_event i started ev st) \<noteq> None" if "final_event ev" for i ev st
    using that by (cases ev) (auto simp: final_event_def buffer_read_def buffer_end_def Let_def split: read_err.splits sum.splits)
  have relays: "fst (relay_loop dec cfg evs st) \<noteq> None" for st
    using assms
  proof (induction evs arbitrary: st)
    case (Cons ev evs)
    then show ?case using relay [of ev st] by (auto split: prod.split option.split)
  qed simp
  moreover have "fst (buffer_loop i started evs st) \<noteq> None" for i st
    using assms
  proof (induction evs arbitrary: st)
    case (Cons ev evs)
    then show ?case using buffered [of ev i st] by (auto split: prod.split option.split)
  qed simp
  ultimately show ?thesis
    using relays [of "relay_start cfg d"]
    by (cases "relay_loop dec cfg evs (relay_start cfg d)")
      (simp add: relayStreamWithMetrics_def readResponseWithMetrics_def split: option.split)
qed

section \<open>Properties\<close>

text \<open>
  C27: the relay is faithful. The client has received a prefix of what the upstream sent; if the relay did
  not commit it has received nothing at all, not even a header (so another upstream may be tried); and
  if it ends without an error the client has the whole stream up to its end, under the upstream's
  status, and the stream was complete for its protocol and reported no failure.
\<close>

theorem relay_faithful:
  assumes "relayStreamWithMetrics dec cfg evs d = Some (r, d')" "ds_body d = []"
  shows "prefix (ds_body d') (concat (map event_bytes evs))
    \<and> (if rr_committed r then ds_status d' = Some (rc_status cfg) else d' = d)
    \<and> (rr_error r = None \<longrightarrow> rr_committed r \<and> ds_body d' = bytes_until_eof evs
        \<and> StreamError (Feed dec (ds_body d') (new_parser (rc_protocol cfg) (require_completion cfg))) = None)"
  by (rule relay_run_post [OF assms])

definition sample_relay :: RelayConfig where
  "sample_relay = \<lparr>rc_request_id = ''r'', rc_upstream_name = ''alpha'', rc_attempts = 1, rc_first_byte = 0, rc_idle = 0,
     rc_protocol = [], rc_started = 0, rc_status = 200, rc_header = []\<rparr>"

definition sample_read :: "string \<Rightarrow> read_err \<Rightarrow> RelayEvent" where
  "sample_read bytes err = ReadDone \<lparr>br_at = 0, br_bytes = bytes, br_err = err, br_deadline = True, br_write = None, br_flush = None\<rparr>"

definition fresh_client :: Downstream where
  "fresh_client = \<lparr>ds_header = [], ds_status = None, ds_body = []\<rparr>"

lemma sample_relay_run:
  "\<exists>r d'. relayStreamWithMetrics (\<lambda>_. None) sample_relay [sample_read ''ab'' ReadMore, sample_read ''c'' ReadEOF] fresh_client
     = Some (r, d') \<and> rr_error r = None"
  by (simp add: relayStreamWithMetrics_def sample_read_def relay_read_def relay_feed_def relay_end_def relay_start_def
      Let_def relay_result_def send_def sample_relay_def fresh_client_def commit_def require_completion_def
      Feed.simps is_newline_def sse_append_def new_parser_def maxSSEEventBytes_def StreamError_def HasText_def)

theorem relay_faithful_witness:
  "\<exists>r d'. relayStreamWithMetrics (\<lambda>_. None) sample_relay [sample_read ''ab'' ReadMore, sample_read ''c'' ReadEOF] fresh_client
     = Some (r, d') \<and> ds_body d' = ''abc'' \<and> ds_status d' = Some 200"
proof -
  obtain r d' where run: "relayStreamWithMetrics (\<lambda>_. None) sample_relay [sample_read ''ab'' ReadMore, sample_read ''c'' ReadEOF]
      fresh_client = Some (r, d')" "rr_error r = None"
    using sample_relay_run by blast
  from relay_faithful [OF run(1)] run show ?thesis
    by (auto simp: fresh_client_def sample_read_def sample_relay_def)
qed

text \<open>
  A buffered response is whole or an error. What is returned is every byte up to the end of the
  response and at most 32 MiB, and whatever the outcome, releasing the buffer gives the memory budget
  back exactly as it was.
\<close>

theorem response_read_exact:
  assumes "readResponseWithMetrics first_byte idle started evs (Some g) (empty_buffer limit) = (Some res, st)"
  shows "(case res of Inl _ \<Rightarrow> True | Inr c \<Rightarrow> c = bytes_until_eof evs \<and> int (length c) \<le> maxBodyBytes)
    \<and> fst (rb_release (bs_budget st) (bs_buffer st)) = Some g"
  by (rule buffered_run_post [OF assms])

theorem response_read_exact_witness:
  "\<exists>res st. readResponseWithMetrics 0 0 0 [sample_read ''ab'' ReadEOF] (Some \<lparr>bb_used = 0\<rparr>) (empty_buffer 100000) = (Some res, st)
     \<and> fst (rb_release (bs_budget st) (bs_buffer st)) = Some \<lparr>bb_used = 0\<rparr>"
proof -
  have "\<exists>res st. readResponseWithMetrics 0 0 0 [sample_read ''ab'' ReadEOF] (Some \<lparr>bb_used = 0\<rparr>) (empty_buffer 100000) = (Some res, st)"
    by (simp add: readResponseWithMetrics_def sample_read_def buffer_read_def buffer_end_def empty_buffer_def Let_def
        rb_append_def next_cap_def maxBodyBytes_def budget_acquire_def budget_release_def)
  then obtain res st where "readResponseWithMetrics 0 0 0 [sample_read ''ab'' ReadEOF] (Some \<lparr>bb_used = 0\<rparr>) (empty_buffer 100000)
      = (Some res, st)" by blast
  from response_read_exact [OF this] this show ?thesis by blast
qed

end
