(* ===== verification/Effects.thy ===== *)
theory Effects
  imports Prelude "HOL-Library.State_Monad"
begin

text \<open>
  Weakest preconditions for the state monad. Handlers that thread the server's state, the response and
  the outside world through many calls are written with \<open>do\<close>; \<open>wp m Q s\<close> says that \<open>m\<close>, run from \<open>s\<close>,
  ends in a result and a state with \<open>Q\<close>. The rules in \<open>wp_rules\<close> follow the program.
\<close>

named_theorems wp_rules

definition wp :: "('s, 'a) state \<Rightarrow> ('a \<Rightarrow> 's \<Rightarrow> bool) \<Rightarrow> 's \<Rightarrow> bool" where
  "wp m Q s = (case run_state m s of (x, s') \<Rightarrow> Q x s')"

lemma wp_run: "wp m Q s \<Longrightarrow> run_state m s = (x, s') \<Longrightarrow> Q x s'"
  by (simp add: wp_def)

lemma wpI: "(\<And>x s'. run_state m s = (x, s') \<Longrightarrow> Q x s') \<Longrightarrow> wp m Q s"
  by (simp add: wp_def split: prod.split)

lemma wp_mono: "wp m P s \<Longrightarrow> (\<And>x s'. P x s' \<Longrightarrow> Q x s') \<Longrightarrow> wp m Q s"
  by (auto simp: wp_def split: prod.splits)

lemma wp_conj: "wp m P s \<Longrightarrow> wp m Q s \<Longrightarrow> wp m (\<lambda>x s'. P x s' \<and> Q x s') s"
  by (auto simp: wp_def split: prod.splits)

lemma wp_bind [wp_rules]: "wp m (\<lambda>x. wp (f x) Q) s \<Longrightarrow> wp (m \<bind> f) Q s"
  by (auto simp: wp_def split: prod.splits)

lemma wp_return [wp_rules]: "Q x s \<Longrightarrow> wp (State_Monad.return x) Q s"
  by (simp add: wp_def)

lemma wp_if [wp_rules]: "(b \<Longrightarrow> wp m Q s) \<Longrightarrow> (\<not> b \<Longrightarrow> wp n Q s) \<Longrightarrow> wp (if b then m else n) Q s"
  by simp

lemma wp_option [wp_rules]:
  "(x = None \<Longrightarrow> wp m Q s) \<Longrightarrow> (\<And>y. x = Some y \<Longrightarrow> wp (n y) Q s)
     \<Longrightarrow> wp (case x of None \<Rightarrow> m | Some y \<Rightarrow> n y) Q s"
  by (cases x) simp_all

lemma wp_sum [wp_rules]:
  "(\<And>y. x = Inl y \<Longrightarrow> wp (m y) Q s) \<Longrightarrow> (\<And>y. x = Inr y \<Longrightarrow> wp (n y) Q s)
     \<Longrightarrow> wp (case x of Inl y \<Rightarrow> m y | Inr y \<Rightarrow> n y) Q s"
  by (cases x) simp_all

lemma wp_prod [wp_rules]:
  "(\<And>y z. x = (y, z) \<Longrightarrow> wp (m y z) Q s) \<Longrightarrow> wp (case x of (y, z) \<Rightarrow> m y z) Q s"
  by (cases x) simp_all

lemma wp_let [wp_rules]: "(\<And>x. x = v \<Longrightarrow> wp (m x) Q s) \<Longrightarrow> wp (let x = v in m x) Q s"
  by (simp add: Let_def)

text \<open>\<open>unchanged p m\<close>: running \<open>m\<close> leaves the part \<open>p\<close> of the state as it was.\<close>

named_theorems unchanged_rules

definition unchanged :: "('s \<Rightarrow> 'p) \<Rightarrow> ('s, 'a) state \<Rightarrow> bool" where
  "unchanged p m \<longleftrightarrow> (\<forall>s. p (snd (run_state m s)) = p s)"

lemma unchangedI: "(\<And>s. wp m (\<lambda>_ s'. p s' = p s) s) \<Longrightarrow> unchanged p m"
  by (simp add: unchanged_def wp_def case_prod_beta)

lemma unchanged_wp: "unchanged p m \<Longrightarrow> (\<And>x s'. p s' = p s \<Longrightarrow> Q x s') \<Longrightarrow> wp m Q s"
  by (simp add: unchanged_def wp_def case_prod_beta)

lemma unchanged_run: "unchanged p m \<Longrightarrow> run_state m s = (x, s') \<Longrightarrow> p s' = p s"
  by (metis unchanged_def snd_conv)

lemma unchanged_pair: "unchanged p m \<Longrightarrow> unchanged q m \<Longrightarrow> unchanged (\<lambda>s. (p s, q s)) m"
  by (simp add: unchanged_def)

lemma unchanged_bind [unchanged_rules]:
  "unchanged p m \<Longrightarrow> (\<And>x. unchanged p (f x)) \<Longrightarrow> unchanged p (m \<bind> f)"
  by (simp add: unchanged_def case_prod_beta)

lemma unchanged_return [unchanged_rules]: "unchanged p (State_Monad.return x)"
  by (simp add: unchanged_def)

lemma unchanged_if [unchanged_rules]: "unchanged p m \<Longrightarrow> unchanged p n \<Longrightarrow> unchanged p (if b then m else n)"
  by simp

lemma unchanged_option [unchanged_rules]:
  "unchanged p m \<Longrightarrow> (\<And>y. unchanged p (n y)) \<Longrightarrow> unchanged p (case x of None \<Rightarrow> m | Some y \<Rightarrow> n y)"
  by (cases x) simp_all

lemma unchanged_sum [unchanged_rules]:
  "(\<And>y. unchanged p (m y)) \<Longrightarrow> (\<And>y. unchanged p (n y)) \<Longrightarrow> unchanged p (case x of Inl y \<Rightarrow> m y | Inr y \<Rightarrow> n y)"
  by (cases x) simp_all

lemma unchanged_prod [unchanged_rules]:
  "(\<And>y z. unchanged p (m y z)) \<Longrightarrow> unchanged p (case x of (y, z) \<Rightarrow> m y z)"
  by (cases x) simp

lemma unchanged_let [unchanged_rules]: "(\<And>x. unchanged p (m x)) \<Longrightarrow> unchanged p (let x = v in m x)"
  by (simp add: Let_def)

end
