(* ===== verification/Gateway_State.thy ===== *)
theory Gateway_State
  imports Effects Rate_Limiter Recorder Safe_Error Stream_Relay
begin

text \<open>
  The state of \<open>gateway.Handler\<close> (\<open>internal/gateway/handler.go\<close>) and the primitive steps a request is
  made of: calls of the repository and of the network, which are functions on an arbitrary world, and
  updates of the handler, of the response and of the log entry. One request is run on its own; what
  other requests do meanwhile to the gate and the budgets is the subject of \<open>Gateway_Resources\<close>.
  Read deadlines on the client connection act only through the outcome of reading the body.
\<close>

section \<open>The handler\<close>

record upstreamHealthState =
  hs_references :: int
  hs_pending :: bool

record Handler =
  hd_limits :: Limits
  hd_secure :: bool
  hd_gate :: requestGate
  hd_auth_slots :: int
  hd_body_budget :: byteBudget
  hd_response_budget :: byteBudget
  hd_rate :: requestRateLimiter
  hd_transports :: Transports
  hd_recorder :: "Recorder option"
  hd_health :: "int \<rightharpoonup> upstreamHealthState"

definition newHandler :: "bool \<Rightarrow> Limits list \<Rightarrow> Handler" where
  "newHandler secure configured =
     \<lparr>hd_limits = new_limits configured, hd_secure = secure, hd_gate = empty_gate, hd_auth_slots = 0,
      hd_body_budget = \<lparr>bb_used = 0\<rparr>, hd_response_budget = \<lparr>bb_used = 0\<rparr>, hd_rate = empty_rate,
      hd_transports = \<lparr>tr_entries = [], tr_next = 0, tr_closed_idle = []\<rparr>,
      hd_recorder = (if secure then Some newRequestRecorder else None), hd_health = Map.empty\<rparr>"

datatype Route = RouteProxy string | RouteModels

text \<open>The patterns of the mux; a \<open>GET\<close> pattern serves \<open>HEAD\<close> too. Other requests get its 404 or 405.\<close>

definition gateway_route :: "string \<Rightarrow> string \<Rightarrow> Route option" where
  "gateway_route verb path =
     (if verb = ''POST'' \<and> path = ''/v1/responses'' then Some (RouteProxy ProtocolResponses)
      else if verb = ''POST'' \<and> path = ''/v1/messages'' then Some (RouteProxy ProtocolMessages)
      else if verb = ''POST'' \<and> path = ''/v1/chat/completions'' then Some (RouteProxy ProtocolChat)
      else if (verb = ''GET'' \<or> verb = ''HEAD'') \<and> path = ''/v1/models'' then Some RouteModels
      else None)"

section \<open>The outside\<close>

datatype auth_error = AuthInvalid | AuthUnavailable

datatype mark_result = Marked | MarkConfigChanged | MarkFailed

text \<open>A response is its status, its header and the schedule on which its body will be read.\<close>

record Response =
  re_status :: int
  re_header :: header
  re_events :: "RelayEvent list"

record 'w Outside =
  ou_now :: "'w \<Rightarrow> time \<times> 'w"
  ou_request_id :: "'w \<Rightarrow> string \<times> 'w"
  ou_ctx :: "'w \<Rightarrow> ctx_err \<times> 'w"
  ou_authenticate :: "string \<Rightarrow> 'w \<Rightarrow> (auth_error + APIKey) \<times> 'w"
  ou_max_attempts :: "'w \<Rightarrow> int option \<times> 'w"
  ou_candidates :: "int \<Rightarrow> string \<Rightarrow> string \<Rightarrow> 'w \<Rightarrow> Upstream list option \<times> 'w"
  ou_available_models :: "APIKey \<Rightarrow> 'w \<Rightarrow> string list option \<times> 'w"
  ou_mark_success :: "Upstream \<Rightarrow> 'w \<Rightarrow> mark_result \<times> 'w"
  ou_mark_failure :: "int \<Rightarrow> int \<Rightarrow> int \<Rightarrow> string \<Rightarrow> 'w \<Rightarrow> mark_result \<times> 'w"
  ou_record :: "RequestLog \<Rightarrow> 'w \<Rightarrow> unit \<times> 'w"
  ou_health_lock :: "int \<Rightarrow> 'w \<Rightarrow> bool \<times> 'w"
  ou_health_done :: "'w \<Rightarrow> bool \<times> 'w"
  ou_read_body :: "'w \<Rightarrow> (gw_error + string) \<times> 'w"
  ou_do :: "Client \<Rightarrow> OutRequest \<Rightarrow> 'w \<Rightarrow> (gw_error + Response) \<times> 'w"
  ou_write_deadline :: "'w \<Rightarrow> bool \<times> 'w"
  ou_write :: "string \<Rightarrow> 'w \<Rightarrow> nat option \<times> 'w"
  ou_flush :: "'w \<Rightarrow> bool \<times> 'w"

record Codec =
  co_dec :: "string \<Rightarrow> json option"
  co_enc :: "json \<Rightarrow> string"
  co_url :: "string \<Rightarrow> Url option"
  co_new_request :: "string \<Rightarrow> Url \<Rightarrow> gw_error option"

section \<open>A request in progress\<close>

record 'w Serving =
  sv_handler :: Handler
  sv_down :: Downstream
  sv_log :: RequestLog
  sv_world :: 'w

definition outside :: "('w \<Rightarrow> 'a \<times> 'w) \<Rightarrow> ('w Serving, 'a) state" where
  "outside f = State (\<lambda>s. case f (sv_world s) of (x, w) \<Rightarrow> (x, s\<lparr>sv_world := w\<rparr>))"

definition with_handler :: "(Handler \<Rightarrow> 'a \<times> Handler) \<Rightarrow> ('w Serving, 'a) state" where
  "with_handler f = State (\<lambda>s. case f (sv_handler s) of (x, h) \<Rightarrow> (x, s\<lparr>sv_handler := h\<rparr>))"

definition on_handler :: "(Handler \<Rightarrow> Handler) \<Rightarrow> ('w Serving, unit) state" where
  "on_handler f = State (\<lambda>s. ((), s\<lparr>sv_handler := f (sv_handler s)\<rparr>))"

definition on_down :: "(Downstream \<Rightarrow> Downstream) \<Rightarrow> ('w Serving, unit) state" where
  "on_down f = State (\<lambda>s. ((), s\<lparr>sv_down := f (sv_down s)\<rparr>))"

definition on_log :: "(RequestLog \<Rightarrow> RequestLog) \<Rightarrow> ('w Serving, unit) state" where
  "on_log f = State (\<lambda>s. ((), s\<lparr>sv_log := f (sv_log s)\<rparr>))"

definition reads :: "('w Serving \<Rightarrow> 'a) \<Rightarrow> ('w Serving, 'a) state" where
  "reads f = State (\<lambda>s. (f s, s))"

lemma wp_outside [wp_rules]: "(\<And>x w. Q x (s\<lparr>sv_world := w\<rparr>)) \<Longrightarrow> wp (outside f) Q s"
  by (simp add: wp_def outside_def split: prod.split)

lemma wp_with_handler [wp_rules]:
  "(\<And>x h. f (sv_handler s) = (x, h) \<Longrightarrow> Q x (s\<lparr>sv_handler := h\<rparr>)) \<Longrightarrow> wp (with_handler f) Q s"
  by (simp add: wp_def with_handler_def split: prod.split)

lemma wp_on_handler [wp_rules]: "Q () (s\<lparr>sv_handler := f (sv_handler s)\<rparr>) \<Longrightarrow> wp (on_handler f) Q s"
  by (simp add: wp_def on_handler_def)

lemma wp_on_down [wp_rules]: "Q () (s\<lparr>sv_down := f (sv_down s)\<rparr>) \<Longrightarrow> wp (on_down f) Q s"
  by (simp add: wp_def on_down_def)

lemma wp_on_log [wp_rules]: "Q () (s\<lparr>sv_log := f (sv_log s)\<rparr>) \<Longrightarrow> wp (on_log f) Q s"
  by (simp add: wp_def on_log_def)

lemma wp_reads [wp_rules]: "Q (f s) s \<Longrightarrow> wp (reads f) Q s"
  by (simp add: wp_def reads_def)

lemma unchanged_outside [unchanged_rules]: "(\<And>s w. p (s\<lparr>sv_world := w\<rparr>) = p s) \<Longrightarrow> unchanged p (outside f)"
  by (simp add: unchanged_def outside_def case_prod_beta)

lemma unchanged_with_handler [unchanged_rules]:
  "(\<And>s x h. f (sv_handler s) = (x, h) \<Longrightarrow> p (s\<lparr>sv_handler := h\<rparr>) = p s) \<Longrightarrow> unchanged p (with_handler f)"
  by (simp add: unchanged_def with_handler_def case_prod_beta) (metis prod.collapse)

lemma unchanged_on_handler [unchanged_rules]:
  "(\<And>s. p (s\<lparr>sv_handler := f (sv_handler s)\<rparr>) = p s) \<Longrightarrow> unchanged p (on_handler f)"
  by (simp add: unchanged_def on_handler_def)

lemma unchanged_on_down [unchanged_rules]:
  "(\<And>s. p (s\<lparr>sv_down := f (sv_down s)\<rparr>) = p s) \<Longrightarrow> unchanged p (on_down f)"
  by (simp add: unchanged_def on_down_def)

lemma unchanged_on_log [unchanged_rules]:
  "(\<And>s. p (s\<lparr>sv_log := f (sv_log s)\<rparr>) = p s) \<Longrightarrow> unchanged p (on_log f)"
  by (simp add: unchanged_def on_log_def)

lemma unchanged_reads [unchanged_rules]: "unchanged p (reads f)"
  by (simp add: unchanged_def reads_def)

text \<open>What the gateway holds on behalf of requests, and what a request shows: the response and the log.\<close>

definition resources :: "'w Serving \<Rightarrow> requestGate \<times> int \<times> byteBudget \<times> byteBudget \<times> Limits \<times> bool" where
  "resources s = (let h = sv_handler s in
     (hd_gate h, hd_auth_slots h, hd_body_budget h, hd_response_budget h, hd_limits h, hd_secure h))"

definition transcript :: "'w Serving \<Rightarrow> Downstream \<times> RequestLog" where
  "transcript s = (sv_down s, sv_log s)"

lemma resources_simps [simp]:
  "resources (s\<lparr>sv_world := w\<rparr>) = resources s" "resources (s\<lparr>sv_down := d\<rparr>) = resources s"
  "resources (s\<lparr>sv_log := l\<rparr>) = resources s"
  by (simp_all add: resources_def)

lemma transcript_simps [simp]:
  "transcript (s\<lparr>sv_world := w\<rparr>) = transcript s" "transcript (s\<lparr>sv_handler := h\<rparr>) = transcript s"
  by (simp_all add: transcript_def)

end
