(* ===== verification/Proxy.thy ===== *)
theory Proxy
  imports Gateway_State
begin

text \<open>
  The request path of \<open>internal/gateway/handler.go\<close>: authentication, admission, the choice of the
  upstreams, the attempts with failover, and the model list.
\<close>

section \<open>Small helpers\<close>

definition retryStatus :: "int \<Rightarrow> bool" where
  "retryStatus status \<longleftrightarrow> status = 401 \<or> status = 403 \<or> status = 404 \<or> status = 429 \<or> status \<ge> 500"

definition countsAsUpstreamFailure :: "int \<Rightarrow> bool" where
  "countsAsUpstreamFailure status \<longleftrightarrow> status = 401 \<or> status \<ge> 500"

text \<open>\<open>http.StatusText\<close> on the statuses that are retried.\<close>

definition status_texts :: "(int \<times> string) list" where
  "status_texts = [(401, ''Unauthorized''), (403, ''Forbidden''), (404, ''Not Found''), (429, ''Too Many Requests''),
     (500, ''Internal Server Error''), (501, ''Not Implemented''), (502, ''Bad Gateway''), (503, ''Service Unavailable''),
     (504, ''Gateway Timeout''), (505, ''HTTP Version Not Supported''), (506, ''Variant Also Negotiates''),
     (507, ''Insufficient Storage''), (508, ''Loop Detected''), (510, ''Not Extended''),
     (511, ''Network Authentication Required'')]"

definition status_text :: "int \<Rightarrow> string" where
  "status_text status = (case map_of status_texts status of None \<Rightarrow> [] | Some t \<Rightarrow> t)"

definition error_type :: "int \<Rightarrow> string" where
  "error_type status =
     (if status = 429 then ''rate_limit_error'' else if status = 401 then ''authentication_error''
      else if status = 403 then ''permission_error'' else if status = 400 then ''invalid_request_error''
      else ''api_error'')"

definition error_json :: "string \<Rightarrow> int \<Rightarrow> string \<Rightarrow> string \<Rightarrow> json" where
  "error_json protocol status code message =
     (if protocol = ProtocolMessages
      then JObj [(''error'', JObj [(''message'', JStr message), (''type'', JStr (error_type status))]), (''type'', JStr ''error'')]
      else JObj [(''error'', JObj [(''code'', JStr code), (''message'', JStr message), (''type'', JStr code)])])"

text \<open>The first status written is the one that is sent.\<close>

definition write_status :: "int \<Rightarrow> Downstream \<Rightarrow> Downstream" where
  "write_status status d = d\<lparr>ds_status := (case ds_status d of None \<Rightarrow> Some status | Some st \<Rightarrow> Some st)\<rparr>"

definition put_header :: "string \<Rightarrow> string \<Rightarrow> Downstream \<Rightarrow> Downstream" where
  "put_header k v d = d\<lparr>ds_header := header_set (ds_header d) k v\<rparr>"

definition write_body :: "string \<Rightarrow> Downstream \<Rightarrow> Downstream" where
  "write_body bytes d = d\<lparr>ds_body := ds_body d @ bytes\<rparr>"

lemma down_simps [simp]:
  "ds_status (put_header k v d) = ds_status d" "ds_body (put_header k v d) = ds_body d"
  "ds_status (write_body bytes d) = ds_status d" "ds_body (write_body bytes d) = ds_body d @ bytes"
  "ds_status (write_status status d) = Some (case ds_status d of None \<Rightarrow> status | Some st \<Rightarrow> st)"
  "ds_body (write_status status d) = ds_body d"
  by (simp_all add: put_header_def write_body_def write_status_def split: option.split)

definition set_header :: "string \<Rightarrow> string \<Rightarrow> ('w Serving, unit) state" where
  "set_header k v = on_down (put_header k v)"

definition error_response :: "Codec \<Rightarrow> string \<Rightarrow> int \<Rightarrow> string \<Rightarrow> string \<Rightarrow> Downstream \<Rightarrow> Downstream" where
  "error_response co protocol status code message d =
     write_body (co_enc co (error_json protocol status code message) @ [CHR 0x0A])
       (write_status status (put_header ''Content-Type'' ''application/json'' d))"

definition writeError :: "Codec \<Rightarrow> string \<Rightarrow> int \<Rightarrow> string \<Rightarrow> string \<Rightarrow> ('w Serving, unit) state" where
  "writeError co protocol status code message = on_down (error_response co protocol status code message)"

lemma error_status [simp]:
  "ds_status (error_response co protocol status code message d) = Some (case ds_status d of None \<Rightarrow> status | Some st \<Rightarrow> st)"
  by (simp add: error_response_def)

definition log_error :: "int \<Rightarrow> string \<Rightarrow> ('w Serving, unit) state" where
  "log_error status code = on_log (\<lambda>l. l\<lparr>rl_status_code := status, rl_error_code := code\<rparr>)"

text \<open>\<open>strings.Fields\<close>.\<close>

function fields_from :: "string \<Rightarrow> string \<Rightarrow> string list" where
  "fields_from word [] = (if word = [] then [] else [word])"
| "fields_from word (c # cs) =
     (case find (\<lambda>r. prefix r (c # cs)) space_runes of
        None \<Rightarrow> fields_from (word @ [c]) cs
      | Some r \<Rightarrow> (if word = [] then [] else [word]) @ fields_from [] (drop (length r - 1) cs))"
  by pat_completeness auto
termination by (relation "measure (length \<circ> snd)") auto

definition fields_of :: "string \<Rightarrow> string list" where "fields_of s = fields_from [] s"

text \<open>\<open>net.SplitHostPort\<close>, and the host it gives or the whole address.\<close>

fun index_of :: "char \<Rightarrow> string \<Rightarrow> nat option" where
  "index_of c [] = None"
| "index_of c (x # xs) = (if x = c then Some 0 else map_option Suc (index_of c xs))"

definition last_index :: "char \<Rightarrow> string \<Rightarrow> nat option" where
  "last_index c s = map_option (\<lambda>i. length s - 1 - i) (index_of c (rev s))"

definition split_host :: "string \<Rightarrow> string option" where
  "split_host s =
     (case last_index (CHR '':'') s of
        None \<Rightarrow> None
      | Some i \<Rightarrow>
          if hd s = CHR ''['' then
            (case index_of (CHR '']'') s of
               None \<Rightarrow> None
             | Some e \<Rightarrow>
                 if e + 1 \<noteq> i then None
                 else if CHR ''['' \<in> set (drop 1 s) \<or> CHR '']'' \<in> set (drop (e + 1) s) then None
                 else Some (take (e - 1) (drop 1 s)))
          else if CHR '':'' \<in> set (take i s) \<or> CHR ''['' \<in> set s \<or> CHR '']'' \<in> set s then None
          else Some (take i s))"

definition clientIP :: "InRequest \<Rightarrow> string" where
  "clientIP r = (case split_host (ir_remote r) of None \<Rightarrow> ir_remote r | Some h \<Rightarrow> h)"

section \<open>Health marks\<close>

definition needsSuccessWrite :: "Upstream \<Rightarrow> bool" where
  "needsSuccessWrite u \<longleftrightarrow> us_health_status u \<noteq> ''healthy'' \<and> us_health_status u \<noteq> ''unhealthy''
     \<or> us_health_status u = ''healthy'' \<and> us_consecutive_failure u > 0"

definition health_of :: "Handler \<Rightarrow> int \<Rightarrow> upstreamHealthState" where
  "health_of h i = (case hd_health h i of None \<Rightarrow> \<lparr>hs_references = 0, hs_pending = False\<rparr> | Some st \<Rightarrow> st)"

definition retain_health :: "int \<Rightarrow> Handler \<Rightarrow> Handler" where
  "retain_health i h =
     h\<lparr>hd_health := (hd_health h)(i \<mapsto> (health_of h i)\<lparr>hs_references := hs_references (health_of h i) + 1\<rparr>)\<rparr>"

definition releaseUpstreamHealth :: "int \<Rightarrow> Handler \<Rightarrow> Handler" where
  "releaseUpstreamHealth i h =
     (let st = (health_of h i)\<lparr>hs_references := hs_references (health_of h i) - 1\<rparr>
      in h\<lparr>hd_health := (if hs_references st = 0 \<and> \<not> hs_pending st then (hd_health h)(i := None)
                          else (hd_health h)(i \<mapsto> st))\<rparr>)"

definition set_pending :: "int \<Rightarrow> bool \<Rightarrow> Handler \<Rightarrow> Handler" where
  "set_pending i b h = h\<lparr>hd_health := (hd_health h)(i \<mapsto> (health_of h i)\<lparr>hs_pending := b\<rparr>)\<rparr>"

text \<open>
  The wait for the semaphore of an upstream ends with the lock or with the context; the lock is given
  up again if the context has ended by then. Giving it back frees the semaphore and the reference.
\<close>

definition lockUpstreamHealth :: "'w Outside \<Rightarrow> int \<Rightarrow> ('w Serving, bool) state" where
  "lockUpstreamHealth ou i = do {
     on_handler (retain_health i);
     locked \<leftarrow> outside (ou_health_lock ou i);
     if locked then do {
       ended \<leftarrow> outside (ou_health_done ou);
       if ended then do { on_handler (releaseUpstreamHealth i); State_Monad.return False }
       else State_Monad.return True
     } else do { on_handler (releaseUpstreamHealth i); State_Monad.return False }
   }"

definition unlockUpstreamHealth :: "int \<Rightarrow> ('w Serving, unit) state" where
  "unlockUpstreamHealth i = on_handler (releaseUpstreamHealth i)"

definition markSuccess :: "'w Outside \<Rightarrow> Upstream \<Rightarrow> ('w Serving, unit) state" where
  "markSuccess ou u = do {
     locked \<leftarrow> lockUpstreamHealth ou (us_id u);
     if \<not> locked then State_Monad.return ()
     else do {
       pending \<leftarrow> reads (\<lambda>s. hs_pending (health_of (sv_handler s) (us_id u)));
       if \<not> needsSuccessWrite u \<and> \<not> pending then unlockUpstreamHealth (us_id u)
       else do {
         res \<leftarrow> outside (ou_mark_success ou u);
         (if res = Marked then on_handler (set_pending (us_id u) False) else State_Monad.return ());
         unlockUpstreamHealth (us_id u)
       }
     }
   }"

definition markFailure :: "'w Outside \<Rightarrow> int \<Rightarrow> int \<Rightarrow> string \<Rightarrow> int \<Rightarrow> ('w Serving, unit) state" where
  "markFailure ou i status reason version = do {
     locked \<leftarrow> lockUpstreamHealth ou i;
     if \<not> locked then State_Monad.return ()
     else do {
       res \<leftarrow> outside (ou_mark_failure ou i version status reason);
       (if res = Marked then on_handler (set_pending i True) else State_Monad.return ());
       unlockUpstreamHealth i
     }
   }"

section \<open>Authentication\<close>

text \<open>A server request has \<open>http.NoBody\<close> exactly when its length is zero.\<close>

definition reject :: "Codec \<Rightarrow> InRequest \<Rightarrow> string \<Rightarrow> int \<Rightarrow> string \<Rightarrow> string \<Rightarrow> ('w Serving, unit) state" where
  "reject co r protocol status code message = do {
     (if ir_proto_major r = 1 \<and> ir_content_length r \<noteq> 0 then set_header ''Connection'' ''close''
      else State_Monad.return ());
     writeError co protocol status code message
   }"

definition bearer_token :: "InRequest \<Rightarrow> string" where
  "bearer_token r =
     (case fields_of (header_get (ir_header r) ''Authorization'') of
        [scheme, t] \<Rightarrow> (if equal_fold scheme ''Bearer'' then t else [])
      | _ \<Rightarrow> [])"

definition client_token :: "InRequest \<Rightarrow> string \<Rightarrow> string" where
  "client_token r protocol =
     (let token = (if protocol = ProtocolMessages then trim_space (header_get (ir_header r) ''X-Api-Key'') else [])
      in if token = [] then bearer_token r else token)"

definition check_token ::
  "Codec \<Rightarrow> 'w Outside \<Rightarrow> InRequest \<Rightarrow> string \<Rightarrow> ('w Serving, APIKey option) state" where
  "check_token co ou r protocol =
     (if client_token r protocol = [] then do {
        reject co r protocol 401 ''invalid_api_key'' ''missing or invalid API key'';
        State_Monad.return None
      } else do {
        res \<leftarrow> outside (ou_authenticate ou (client_token r protocol));
        ctx \<leftarrow> outside (ou_ctx ou);
        if ctx \<noteq> CtxLive then do {
          (if ctx = CtxErrDeadline then reject co r protocol 504 ''request_timeout'' ''gateway request timed out''
           else State_Monad.return ());
          State_Monad.return None
        } else case res of
          Inl e \<Rightarrow> do {
            (if e = AuthInvalid then reject co r protocol 401 ''invalid_api_key'' ''invalid API key''
             else reject co r protocol 500 ''internal_error'' ''authentication unavailable'');
            State_Monad.return None
          }
        | Inr key \<Rightarrow>
            if \<not> ak_enabled key then do {
              reject co r protocol 401 ''invalid_api_key'' ''invalid API key'';
              State_Monad.return None
            } else State_Monad.return (Some key)
      })"

definition auth_slot :: "int \<Rightarrow> Handler \<Rightarrow> Handler" where
  "auth_slot n h = h\<lparr>hd_auth_slots := hd_auth_slots h + n\<rparr>"

definition authenticate ::
  "Codec \<Rightarrow> 'w Outside \<Rightarrow> InRequest \<Rightarrow> string \<Rightarrow> ('w Serving, APIKey option) state" where
  "authenticate co ou r protocol = do {
     busy \<leftarrow> reads (\<lambda>s. hd_auth_slots (sv_handler s) \<ge> lm_max_concurrent (hd_limits (sv_handler s)));
     if busy then do {
       set_header ''Retry-After'' ''1'';
       reject co r protocol 429 ''authentication_busy'' ''too many authentication requests'';
       State_Monad.return None
     } else do {
       on_handler (auth_slot 1);
       key \<leftarrow> check_token co ou r protocol;
       on_handler (auth_slot (- 1));
       State_Monad.return key
     }
   }"

section \<open>One attempt\<close>

record Call =
  ca_request :: InRequest
  ca_protocol :: string
  ca_request_id :: string
  ca_payload :: requestPayload

text \<open>An attempt ends the request, or the next upstream is tried; then whether it was rate limited and timed out.\<close>

datatype verdict = Finished | Failover bool bool

definition new_attempt :: "Upstream \<Rightarrow> Attempt" where
  "new_attempt u = \<lparr>at_failure_class = [], at_upstream_id = us_id u, at_upstream_name = us_name u, at_status_code = 0,
     at_error = [], at_duration_ms = 0, at_ttfb_ms = None, at_ttft_ms = None\<rparr>"

definition add_attempt :: "Attempt \<Rightarrow> ('w Serving, unit) state" where
  "add_attempt a = on_log (\<lambda>l. l\<lparr>rl_attempts := rl_attempts l @ [a]\<rparr>)"

definition since :: "'w Outside \<Rightarrow> time \<Rightarrow> ('w Serving, int) state" where
  "since ou started = do {
     t \<leftarrow> outside (ou_now ou);
     State_Monad.return (milliseconds (time_sub t started))
   }"

definition fail_closed :: "Codec \<Rightarrow> string \<Rightarrow> ctx_err \<Rightarrow> ('w Serving, unit) state" where
  "fail_closed co protocol ctx =
     (if ctx = CtxErrDeadline then do {
        log_error 504 ''request_timeout'';
        writeError co protocol 504 ''request_timeout'' ''gateway request timed out''
      } else log_error 499 ''client_closed'')"

definition requestEnded :: "Codec \<Rightarrow> 'w Outside \<Rightarrow> string \<Rightarrow> ('w Serving, bool) state" where
  "requestEnded co ou protocol = do {
     ctx \<leftarrow> outside (ou_ctx ou);
     if ctx = CtxLive then State_Monad.return False
     else do { fail_closed co protocol ctx; State_Monad.return True }
   }"

text \<open>The end of an attempt that brought no usable response.\<close>

definition attempt_failed ::
  "Codec \<Rightarrow> 'w Outside \<Rightarrow> Call \<Rightarrow> Upstream \<Rightarrow> time \<Rightarrow> Attempt \<Rightarrow> gw_error \<Rightarrow> ('w Serving, verdict) state" where
  "attempt_failed co ou ca u started a e = do {
     ms \<leftarrow> since ou started;
     ctx \<leftarrow> outside (ou_ctx ou);
     add_attempt (a\<lparr>at_duration_ms := ms, at_error := Text (Some e) [us_api_key u], at_failure_class := failureClass ctx e\<rparr>);
     ctx \<leftarrow> outside (ou_ctx ou);
     if ctx \<noteq> CtxLive then do { fail_closed co (ca_protocol ca) ctx; State_Monad.return Finished }
     else if is_response_budget e then do {
       log_error 503 ''response_budget_exceeded'';
       set_header ''Retry-After'' ''1'';
       writeError co (ca_protocol ca) 503 ''response_budget_exceeded'' ''response memory budget exhausted'';
       State_Monad.return Finished
     } else do {
       markFailure ou (us_id u) 0 (Text (Some e) [us_api_key u]) (us_config_version u);
       State_Monad.return (Failover False (is_timeout e))
     }
   }"

definition retry_response ::
  "'w Outside \<Rightarrow> Upstream \<Rightarrow> time \<Rightarrow> Attempt \<Rightarrow> Response \<Rightarrow> ('w Serving, verdict) state" where
  "retry_response ou u started a re = do {
     ms \<leftarrow> since ou started;
     add_attempt (a\<lparr>at_duration_ms := ms, at_error := status_text (re_status re)\<rparr>);
     (if countsAsUpstreamFailure (re_status re)
      then markFailure ou (us_id u) (re_status re) (status_text (re_status re)) (us_config_version u)
      else State_Monad.return ());
     State_Monad.return (Failover (re_status re = 429) (re_status re = 504))
   }"

section \<open>Responses\<close>

text \<open>The timer is armed on every turn of the loops, so a schedule ends with it at the latest.\<close>

definition relay_config :: "Call \<Rightarrow> Upstream \<Rightarrow> time \<Rightarrow> Response \<Rightarrow> nat \<Rightarrow> RelayConfig" where
  "relay_config ca u started re n =
     \<lparr>rc_request_id = ca_request_id ca, rc_upstream_name = us_name u, rc_attempts = n,
      rc_first_byte = us_first_byte_timeout u, rc_idle = us_idle_timeout u, rc_protocol = ca_protocol ca,
      rc_started = started, rc_status = re_status re, rc_header = re_header re\<rparr>"

definition relay_response :: "Codec \<Rightarrow> Call \<Rightarrow> Upstream \<Rightarrow> time \<Rightarrow> Response \<Rightarrow> ('w Serving, RelayResult) state" where
  "relay_response co ca u started re = State (\<lambda>s.
     case the (relayStreamWithMetrics (co_dec co)
                 (relay_config ca u started re (length (rl_attempts (sv_log s)) + 1))
                 (re_events re @ [TimerFired]) (sv_down s)) of
       (r, d) \<Rightarrow> (r, s\<lparr>sv_down := d\<rparr>))"

definition stream_committed ::
  "'w Outside \<Rightarrow> Upstream \<Rightarrow> Response \<Rightarrow> RelayResult \<Rightarrow> ('w Serving, verdict) state" where
  "stream_committed ou u re r = do {
     on_log (\<lambda>l. l\<lparr>rl_upstream_id := Some (us_id u), rl_status_code := re_status re, rl_usage := rr_usage r,
                   rl_ttfb_ms := rr_ttfb r, rl_ttft_ms := rr_ttft r\<rparr>);
     (case rr_error r of
        None \<Rightarrow> markSuccess ou u
      | Some e \<Rightarrow> do {
          ctx \<leftarrow> outside (ou_ctx ou);
          if ctx = CtxLive \<and> \<not> is_client_closed e then do {
            on_log (\<lambda>l. l\<lparr>rl_error_code := ''stream_interrupted''\<rparr>);
            markFailure ou (us_id u) (re_status re) (Text (Some e) [us_api_key u]) (us_config_version u)
          } else do {
            ctx \<leftarrow> outside (ou_ctx ou);
            on_log (\<lambda>l. l\<lparr>rl_error_code := (if ctx = CtxErrDeadline then ''request_timeout'' else ''client_closed'')\<rparr>)
          }
        });
     State_Monad.return Finished
   }"

definition stream_dropped ::
  "Codec \<Rightarrow> 'w Outside \<Rightarrow> Call \<Rightarrow> Upstream \<Rightarrow> gw_error \<Rightarrow> ('w Serving, verdict) state" where
  "stream_dropped co ou ca u e = do {
     ctx \<leftarrow> outside (ou_ctx ou);
     if ctx \<noteq> CtxLive \<or> is_canceled e \<or> is_client_closed e then do {
       ctx \<leftarrow> outside (ou_ctx ou);
       fail_closed co (ca_protocol ca) ctx;
       State_Monad.return Finished
     } else do {
       markFailure ou (us_id u) 0 (Text (Some e) [us_api_key u]) (us_config_version u);
       State_Monad.return (Failover False (is_timeout e))
     }
   }"

text \<open>A stream that was not committed has an error; see \<open>relay_faithful\<close>.\<close>

definition stream_response ::
  "Codec \<Rightarrow> 'w Outside \<Rightarrow> Call \<Rightarrow> Upstream \<Rightarrow> time \<Rightarrow> Attempt \<Rightarrow> Response \<Rightarrow> ('w Serving, verdict) state" where
  "stream_response co ou ca u started a re = do {
     r \<leftarrow> relay_response co ca u started re;
     ms \<leftarrow> since ou started;
     a \<leftarrow> State_Monad.return (a\<lparr>at_duration_ms := ms, at_ttfb_ms := rr_ttfb r, at_ttft_ms := rr_ttft r\<rparr>);
     a \<leftarrow> (case rr_error r of
             None \<Rightarrow> State_Monad.return a
           | Some e \<Rightarrow> do {
               ctx \<leftarrow> outside (ou_ctx ou);
               State_Monad.return (a\<lparr>at_error := Text (Some e) [us_api_key u], at_failure_class := failureClass ctx e\<rparr>)
             });
     add_attempt a;
     if rr_committed r then stream_committed ou u re r
     else stream_dropped co ou ca u (the (rr_error r))
   }"

definition read_buffered ::
  "Upstream \<Rightarrow> time \<Rightarrow> Response \<Rightarrow> Handler \<Rightarrow> ((gw_error + string) \<times> int option \<times> responseBuffer) \<times> Handler" where
  "read_buffered u started re h =
     (case readResponseWithMetrics (us_first_byte_timeout u) (us_idle_timeout u) started (re_events re @ [TimerFired])
             (Some (hd_response_budget h)) (empty_buffer (lm_max_response_bytes (hd_limits h))) of
        (res, st) \<Rightarrow> ((the res, bs_ttfb st, bs_buffer st), h\<lparr>hd_response_budget := the (bs_budget st)\<rparr>))"

definition release_buffer :: "responseBuffer \<Rightarrow> Handler \<Rightarrow> Handler" where
  "release_buffer buf h =
     h\<lparr>hd_response_budget := the (fst (rb_release (Some (hd_response_budget h)) buf))\<rparr>"

definition response_header :: "Call \<Rightarrow> Upstream \<Rightarrow> Response \<Rightarrow> nat \<Rightarrow> Downstream \<Rightarrow> Downstream" where
  "response_header ca u re n d = d\<lparr>ds_header := setGatewayHeaders (ca_request_id ca) (us_name u) n
     (copyResponseHeaders (ds_header d) (re_header re))\<rparr>"

definition send_buffered :: "'w Outside \<Rightarrow> Call \<Rightarrow> Upstream \<Rightarrow> Response \<Rightarrow> string \<Rightarrow> ('w Serving, unit) state" where
  "send_buffered ou ca u re body = do {
     n \<leftarrow> reads (\<lambda>s. length (rl_attempts (sv_log s)));
     on_down (response_header ca u re n);
     deadline_set \<leftarrow> outside (ou_write_deadline ou);
     if deadline_set then do {
       on_down (write_status (re_status re));
       failed \<leftarrow> outside (ou_write ou body);
       on_down (write_body (case failed of None \<Rightarrow> body | Some n \<Rightarrow> take n body));
       flushed \<leftarrow> (if failed = None then outside (ou_flush ou) else State_Monad.return False);
       if \<not> flushed then on_log (\<lambda>l. l\<lparr>rl_error_code := ''client_closed''\<rparr>) else State_Monad.return ()
     } else on_log (\<lambda>l. l\<lparr>rl_error_code := ''client_closed''\<rparr>)
   }"

definition buffered_complete ::
  "Codec \<Rightarrow> 'w Outside \<Rightarrow> Call \<Rightarrow> Upstream \<Rightarrow> time \<Rightarrow> Attempt \<Rightarrow> Response \<Rightarrow> string \<Rightarrow> ('w Serving, verdict) state" where
  "buffered_complete co ou ca u started a re body = do {
     ms \<leftarrow> since ou started;
     add_attempt (a\<lparr>at_duration_ms := ms\<rparr>);
     on_log (\<lambda>l. l\<lparr>rl_upstream_id := Some (us_id u), rl_status_code := re_status re, rl_ttfb_ms := at_ttfb_ms a,
                   rl_usage := parseUsageWithProtocol (co_dec co) body (ca_protocol ca)\<rparr>);
     markSuccess ou u;
     ended \<leftarrow> requestEnded co ou (ca_protocol ca);
     (if ended then State_Monad.return () else send_buffered ou ca u re body);
     State_Monad.return Finished
   }"

definition buffered_response ::
  "Codec \<Rightarrow> 'w Outside \<Rightarrow> Call \<Rightarrow> Upstream \<Rightarrow> time \<Rightarrow> Attempt \<Rightarrow> Response \<Rightarrow> ('w Serving, verdict) state" where
  "buffered_response co ou ca u started a re = do {
     (res, ttfb, buf) \<leftarrow> with_handler (read_buffered u started re);
     case res of
       Inl e \<Rightarrow> do {
         on_handler (release_buffer buf);
         attempt_failed co ou ca u started (a\<lparr>at_ttfb_ms := ttfb\<rparr>) e
       }
     | Inr body \<Rightarrow> do {
         v \<leftarrow> buffered_complete co ou ca u started (a\<lparr>at_ttfb_ms := ttfb\<rparr>) re body;
         on_handler (release_buffer buf);
         State_Monad.return v
       }
   }"

section \<open>The attempts\<close>

definition get_client :: "Upstream \<Rightarrow> time \<Rightarrow> Handler \<Rightarrow> Client \<times> Handler" where
  "get_client u now h =
     (case client (hd_secure h) u now (hd_transports h) of (c, t) \<Rightarrow> (c, h\<lparr>hd_transports := t\<rparr>))"

text \<open>The text of a codec's error is not modelled; a body that has been parsed is rewritten without one.\<close>

definition attempt_request ::
  "Codec \<Rightarrow> Call \<Rightarrow> Upstream \<Rightarrow> requestBodies \<Rightarrow> (gw_error + OutRequest) \<times> requestBodies" where
  "attempt_request co ca u bodies =
     (case forModel (co_dec co) (co_enc co) bodies (UpstreamModel u (rp_model (ca_payload ca))) of
        (None, bodies) \<Rightarrow> (Inl (PlainError ''invalid JSON body''), bodies)
      | (Some body, bodies) \<Rightarrow> (upstreamRequest (co_url co) (co_new_request co) (ca_request ca) u body (ca_protocol ca), bodies))"

definition proxy_attempt ::
  "Codec \<Rightarrow> 'w Outside \<Rightarrow> Call \<Rightarrow> Upstream \<Rightarrow> requestBodies \<Rightarrow> ('w Serving, verdict \<times> requestBodies) state" where
  "proxy_attempt co ou ca u bodies = do {
     started \<leftarrow> outside (ou_now ou);
     (req, bodies) \<leftarrow> State_Monad.return (attempt_request co ca u bodies);
     v \<leftarrow> (case req of
             Inl e \<Rightarrow> attempt_failed co ou ca u started (new_attempt u) e
           | Inr req \<Rightarrow> do {
               now \<leftarrow> outside (ou_now ou);
               c \<leftarrow> with_handler (get_client u now);
               res \<leftarrow> outside (ou_do ou c req);
               case res of
                 Inl e \<Rightarrow> attempt_failed co ou ca u started (new_attempt u) e
               | Inr re \<Rightarrow>
                   (let a = (new_attempt u)\<lparr>at_status_code := re_status re\<rparr>
                    in if retryStatus (re_status re) then retry_response ou u started a re
                       else if rp_stream (ca_payload ca) then stream_response co ou ca u started a re
                       else buffered_response co ou ca u started a re)
             });
     State_Monad.return (v, bodies)
   }"

definition failure_status :: "bool \<Rightarrow> bool \<Rightarrow> int \<times> string \<times> string" where
  "failure_status all_limited all_timed_out =
     (if all_limited then (429, ''rate_limit_exceeded'', ''all upstreams are rate limited'')
      else if all_timed_out then (504, ''gateway_timeout'', ''all upstreams timed out'')
      else (502, ''bad_gateway'', ''all upstreams failed''))"

definition failure_header :: "Call \<Rightarrow> Attempt list \<Rightarrow> Downstream \<Rightarrow> Downstream" where
  "failure_header ca attempts d = d\<lparr>ds_header := setGatewayHeaders (ca_request_id ca)
     (at_upstream_name (last attempts)) (length attempts) (ds_header d)\<rparr>"

lemma header_simps [simp]:
  "ds_status (response_header ca u re n d) = ds_status d" "ds_body (response_header ca u re n d) = ds_body d"
  "ds_status (failure_header ca as d) = ds_status d" "ds_body (failure_header ca as d) = ds_body d"
  by (simp_all add: response_header_def failure_header_def)

definition all_failed ::
  "Codec \<Rightarrow> 'w Outside \<Rightarrow> Call \<Rightarrow> bool \<Rightarrow> bool \<Rightarrow> ('w Serving, unit) state" where
  "all_failed co ou ca all_limited all_timed_out = do {
     ended \<leftarrow> requestEnded co ou (ca_protocol ca);
     if ended then State_Monad.return ()
     else case failure_status all_limited all_timed_out of
       (status, code, message) \<Rightarrow> do {
         attempts \<leftarrow> reads (\<lambda>s. rl_attempts (sv_log s));
         (if attempts \<noteq> [] then
            on_down (failure_header ca attempts)
          else State_Monad.return ());
         log_error status code;
         writeError co (ca_protocol ca) status code message
       }
   }"

fun proxy_attempts ::
  "Codec \<Rightarrow> 'w Outside \<Rightarrow> Call \<Rightarrow> bool \<Rightarrow> bool \<Rightarrow> requestBodies \<Rightarrow> Upstream list \<Rightarrow> ('w Serving, unit) state" where
  "proxy_attempts co ou ca limited timed_out bodies [] = all_failed co ou ca limited timed_out"
| "proxy_attempts co ou ca limited timed_out bodies (u # us) = do {
     ended \<leftarrow> requestEnded co ou (ca_protocol ca);
     if ended then State_Monad.return ()
     else do {
       (v, bodies) \<leftarrow> proxy_attempt co ou ca u bodies;
       (case v of
          Finished \<Rightarrow> State_Monad.return ()
        | Failover l t \<Rightarrow> proxy_attempts co ou ca (limited \<and> l) (timed_out \<and> t) bodies us)
     }
   }"

section \<open>The route of a request\<close>

definition clamp_max_attempts :: "int \<Rightarrow> int" where
  "clamp_max_attempts n = (if n < 1 then 1 else if n > 5 then 5 else n)"

definition eligible_upstreams :: "string \<Rightarrow> string \<Rightarrow> time \<Rightarrow> int \<Rightarrow> Upstream list \<Rightarrow> Upstream list" where
  "eligible_upstreams protocol model now max_attempts candidates =
     take (nat max_attempts) (filter (\<lambda>u. Supports u protocol model now) (sort_key us_priority candidates))"

definition refuse ::
  "Codec \<Rightarrow> string \<Rightarrow> int \<Rightarrow> string \<Rightarrow> string \<Rightarrow> ('w Serving, unit) state" where
  "refuse co protocol status code message = do {
     log_error status code;
     writeError co protocol status code message
   }"

definition refuse_unless_ended ::
  "Codec \<Rightarrow> 'w Outside \<Rightarrow> string \<Rightarrow> string \<Rightarrow> ('w Serving, unit) state" where
  "refuse_unless_ended co ou protocol message = do {
     ended \<leftarrow> requestEnded co ou protocol;
     if ended then State_Monad.return () else refuse co protocol 500 ''internal_error'' message
   }"

definition proxy_route ::
  "Codec \<Rightarrow> 'w Outside \<Rightarrow> Call \<Rightarrow> int \<Rightarrow> requestBodies \<Rightarrow> ('w Serving, unit) state" where
  "proxy_route co ou ca group_id bodies = do {
     max_attempts \<leftarrow> outside (ou_max_attempts ou);
     case max_attempts of
       None \<Rightarrow> refuse_unless_ended co ou (ca_protocol ca) ''gateway configuration unavailable''
     | Some n \<Rightarrow> do {
         candidates \<leftarrow> outside (ou_candidates ou group_id (ca_protocol ca) (rp_model (ca_payload ca)));
         case candidates of
           None \<Rightarrow> refuse_unless_ended co ou (ca_protocol ca) ''upstream routes unavailable''
         | Some candidates \<Rightarrow> do {
             now \<leftarrow> outside (ou_now ou);
             let eligible = eligible_upstreams (ca_protocol ca) (rp_model (ca_payload ca)) now
                              (clamp_max_attempts n) candidates
             in proxy_attempts co ou ca (eligible \<noteq> []) (eligible \<noteq> []) bodies eligible
           }
       }
   }"

definition proxy_body ::
  "Codec \<Rightarrow> 'w Outside \<Rightarrow> InRequest \<Rightarrow> string \<Rightarrow> string \<Rightarrow> APIKey \<Rightarrow> ('w Serving, unit) state" where
  "proxy_body co ou r protocol request_id key = do {
     content \<leftarrow> outside (ou_read_body ou);
     case content of
       Inl e \<Rightarrow> do {
         ctx \<leftarrow> outside (ou_ctx ou);
         (if ctx = CtxErrDeadline \<or> is_timeout e
          then refuse co protocol 504 ''request_timeout'' ''invalid or timed out request body''
          else refuse co protocol 400 ''invalid_request'' ''invalid or timed out request body'')
       }
     | Inr body \<Rightarrow>
         (case parseRequestPayload (co_dec co) body of
            None \<Rightarrow> refuse co protocol 400 ''invalid_request'' ''model is required''
          | Some p \<Rightarrow>
              if trim_space (rp_model p) = [] \<or> CHR 0x00 \<in> set (rp_model p)
              then refuse co protocol 400 ''invalid_request'' ''model is required''
              else do {
                on_log (\<lambda>l. l\<lparr>rl_model := trim_space (rp_model p)\<rparr>);
                if \<not> Allows key protocol (trim_space (rp_model p))
                then refuse co protocol 403 ''permission_denied'' ''API key cannot use this protocol or model''
                else proxy_route co ou
                       \<lparr>ca_request = r, ca_protocol = protocol, ca_request_id = request_id,
                        ca_payload = p\<lparr>rp_model := trim_space (rp_model p)\<rparr>\<rparr>
                       (ak_group_id key) \<lparr>qb_body = body, qb_model = rp_model p, qb_rewritten = []\<rparr>
              })
   }"

section \<open>Admission\<close>

definition body_reservation :: "int \<Rightarrow> int" where
  "body_reservation content_length =
     (let size = (if content_length \<le> 0 \<or> content_length > maxBodyBytes then maxBodyBytes else content_length)
      in max size 1 * 8)"

definition acquire_gate :: "int \<Rightarrow> Handler \<Rightarrow> bool \<times> Handler" where
  "acquire_gate key h = (case gate_acquire (hd_gate h) key (hd_limits h) of (ok, g) \<Rightarrow> (ok, h\<lparr>hd_gate := g\<rparr>))"

definition release_gate :: "int \<Rightarrow> Handler \<Rightarrow> Handler" where
  "release_gate key h = h\<lparr>hd_gate := gate_release (hd_gate h) key\<rparr>"

definition acquire_rate :: "int \<Rightarrow> time \<Rightarrow> Handler \<Rightarrow> bool \<times> Handler" where
  "acquire_rate key now h =
     (case rate_allow (hd_rate h) key (lm_max_per_minute (hd_limits h)) now of (ok, l) \<Rightarrow> (ok, h\<lparr>hd_rate := l\<rparr>))"

definition acquire_body :: "int \<Rightarrow> Handler \<Rightarrow> bool \<times> Handler" where
  "acquire_body n h =
     (case budget_acquire (hd_body_budget h) n (lm_max_request_bytes (hd_limits h)) of
        (ok, b) \<Rightarrow> (ok, h\<lparr>hd_body_budget := b\<rparr>))"

definition release_body :: "int \<Rightarrow> Handler \<Rightarrow> Handler" where
  "release_body n h = h\<lparr>hd_body_budget := budget_release (hd_body_budget h) n\<rparr>"

text \<open>The deferred releases run after everything that follows the acquisition.\<close>

definition proxy_admitted ::
  "Codec \<Rightarrow> 'w Outside \<Rightarrow> InRequest \<Rightarrow> string \<Rightarrow> string \<Rightarrow> APIKey \<Rightarrow> ('w Serving, unit) state" where
  "proxy_admitted co ou r protocol request_id key = do {
     now \<leftarrow> outside (ou_now ou);
     allowed \<leftarrow> with_handler (acquire_rate (ak_id key) now);
     if \<not> allowed then do {
       set_header ''Retry-After'' ''60'';
       refuse co protocol 429 ''rate_limited'' ''request rate limit exceeded''
     } else do {
       reserved \<leftarrow> with_handler (acquire_body (body_reservation (ir_content_length r)));
       if \<not> reserved then do {
         (if ir_proto_major r = 1 then set_header ''Connection'' ''close'' else State_Monad.return ());
         set_header ''Retry-After'' ''1'';
         refuse co protocol 429 ''body_budget_exceeded'' ''request body memory budget exhausted''
       } else do {
         proxy_body co ou r protocol request_id key;
         on_handler (release_body (body_reservation (ir_content_length r)))
       }
     }
   }"

definition proxy_authenticated ::
  "Codec \<Rightarrow> 'w Outside \<Rightarrow> InRequest \<Rightarrow> string \<Rightarrow> string \<Rightarrow> APIKey \<Rightarrow> ('w Serving, unit) state" where
  "proxy_authenticated co ou r protocol request_id key = do {
     admitted \<leftarrow> with_handler (acquire_gate (ak_id key));
     if \<not> admitted then do {
       set_header ''Retry-After'' ''1'';
       refuse co protocol 429 ''concurrency_limited'' ''too many concurrent requests''
     } else do {
       proxy_admitted co ou r protocol request_id key;
       on_handler (release_gate (ak_id key))
     }
   }"

section \<open>The handler of a protocol\<close>

definition new_log :: "string \<Rightarrow> APIKey \<Rightarrow> string \<Rightarrow> InRequest \<Rightarrow> time \<Rightarrow> RequestLog" where
  "new_log request_id key protocol r started =
     \<lparr>rl_request_id = request_id, rl_api_key_id = ak_id key,
      rl_group_id = (if ak_group_id key > 0 then Some (ak_group_id key) else None), rl_upstream_id = None,
      rl_protocol = protocol, rl_model = [], rl_status_code = 0, rl_duration_ms = 0, rl_ttfb_ms = None,
      rl_ttft_ms = None, rl_attempts = [], rl_usage = empty_usage, rl_cost_usd = None, rl_error_code = [],
      rl_client_ip = clientIP r, rl_created_at = started\<rparr>"

definition handler_record :: "'w Outside \<Rightarrow> RequestLog \<Rightarrow> ('w Serving, unit) state" where
  "handler_record ou entry = do {
     rec \<leftarrow> reads (\<lambda>s. hd_recorder (sv_handler s));
     case rec of
       None \<Rightarrow> outside (ou_record ou entry)
     | Some _ \<Rightarrow> on_handler (\<lambda>h. h\<lparr>hd_recorder := map_option (record_entry entry) (hd_recorder h)\<rparr>)
   }"

definition start_response :: "string \<Rightarrow> ('w Serving, unit) state" where
  "start_response request_id = do {
     set_header ''X-DAPI-Request-ID'' request_id;
     set_header ''X-DAPI-Attempts'' ''0''
   }"

text \<open>The result is the entry that was recorded, if the client was authenticated.\<close>

definition proxy :: "Codec \<Rightarrow> 'w Outside \<Rightarrow> string \<Rightarrow> InRequest \<Rightarrow> ('w Serving, RequestLog option) state" where
  "proxy co ou protocol r = do {
     started \<leftarrow> outside (ou_now ou);
     request_id \<leftarrow> outside (ou_request_id ou);
     start_response request_id;
     key \<leftarrow> authenticate co ou r protocol;
     case key of
       None \<Rightarrow> State_Monad.return None
     | Some key \<Rightarrow> do {
         on_log (\<lambda>_. new_log request_id key protocol r started);
         proxy_authenticated co ou r protocol request_id key;
         ms \<leftarrow> since ou started;
         on_log (\<lambda>l. l\<lparr>rl_duration_ms := ms\<rparr>);
         entry \<leftarrow> reads sv_log;
         handler_record ou entry;
         State_Monad.return (Some entry)
       }
   }"

section \<open>The model list\<close>

definition visible_models :: "APIKey \<Rightarrow> string list \<Rightarrow> string list" where
  "visible_models key models =
     sort (fold (\<lambda>m seen. if m \<noteq> [] \<and> m \<notin> set seen \<and> (ak_models key = [] \<or> m \<in> set (ak_models key))
                          then seen @ [m] else seen) models [])"

definition models_json :: "string list \<Rightarrow> json" where
  "models_json models = JObj
     [(''data'', JArr (map (\<lambda>m. JObj [(''created'', JNum ''0''), (''id'', JStr m), (''object'', JStr ''model''),
                                        (''owned_by'', JStr ''dapi'')]) models)),
      (''object'', JStr ''list'')]"

definition send_models :: "Codec \<Rightarrow> 'w Outside \<Rightarrow> APIKey \<Rightarrow> ('w Serving, unit) state" where
  "send_models co ou key = do {
     models \<leftarrow> outside (ou_available_models ou key);
     ctx \<leftarrow> outside (ou_ctx ou);
     if ctx \<noteq> CtxLive then
       (if ctx = CtxErrDeadline then writeError co ProtocolChat 504 ''request_timeout'' ''gateway request timed out''
        else State_Monad.return ())
     else case models of
       None \<Rightarrow> writeError co ProtocolChat 500 ''internal_error'' ''model list unavailable''
     | Some models \<Rightarrow> do {
         set_header ''Content-Type'' ''application/json'';
         on_down (write_status 200);
         on_down (write_body (co_enc co (models_json (visible_models key models)) @ [CHR 0x0A]))
       }
   }"

definition models_handler :: "Codec \<Rightarrow> 'w Outside \<Rightarrow> InRequest \<Rightarrow> ('w Serving, unit) state" where
  "models_handler co ou r = do {
     request_id \<leftarrow> outside (ou_request_id ou);
     start_response request_id;
     key \<leftarrow> authenticate co ou r ProtocolChat;
     case key of
       None \<Rightarrow> State_Monad.return ()
     | Some key \<Rightarrow> do {
         admitted \<leftarrow> with_handler (acquire_gate (ak_id key));
         if \<not> admitted then do {
           set_header ''Retry-After'' ''1'';
           writeError co ProtocolChat 429 ''concurrency_limited'' ''too many concurrent requests''
         } else do {
           now \<leftarrow> outside (ou_now ou);
           allowed \<leftarrow> with_handler (acquire_rate (ak_id key) now);
           (if \<not> allowed then do {
              set_header ''Retry-After'' ''60'';
              writeError co ProtocolChat 429 ''rate_limited'' ''request rate limit exceeded''
            } else send_models co ou key);
           on_handler (release_gate (ak_id key))
         }
       }
   }"

end
