(* ===== verification/Proxy_Correct.thy ===== *)
theory Proxy_Correct
  imports Proxy
begin

text \<open>
  What the request path guarantees: every path gives back what it took from the gateway, the log entry
  states what the client was sent, a failed attempt leaves no trace in the response, the upstreams are
  tried in order and at most five, and the status of a request that found none of them usable.
\<close>

section \<open>What the steps leave alone\<close>

lemma unchanged_verdict [unchanged_rules]:
  "unchanged p m \<Longrightarrow> (\<And>l t. unchanged p (n l t)) \<Longrightarrow> unchanged p (case v of Finished \<Rightarrow> m | Failover l t \<Rightarrow> n l t)"
  by (cases v) simp_all

lemma wp_verdict [wp_rules]:
  "(v = Finished \<Longrightarrow> wp m Q s) \<Longrightarrow> (\<And>l t. v = Failover l t \<Longrightarrow> wp (n l t) Q s)
     \<Longrightarrow> wp (case v of Finished \<Rightarrow> m | Failover l t \<Rightarrow> n l t) Q s"
  by (cases v) simp_all

lemma unchanged_since [unchanged_rules]: "(\<And>s w. p (s\<lparr>sv_world := w\<rparr>) = p s) \<Longrightarrow> unchanged p (since ou started)"
  unfolding since_def by (intro unchanged_rules) simp_all

lemma health_updates [simp]:
  "resources (s\<lparr>sv_handler := retain_health i (sv_handler s)\<rparr>) = resources s"
  "resources (s\<lparr>sv_handler := releaseUpstreamHealth i (sv_handler s)\<rparr>) = resources s"
  "resources (s\<lparr>sv_handler := set_pending i b (sv_handler s)\<rparr>) = resources s"
  by (simp_all add: resources_def retain_health_def releaseUpstreamHealth_def set_pending_def Let_def)

lemma lock_unchanged [unchanged_rules]:
  "unchanged resources (lockUpstreamHealth ou i)" "unchanged transcript (lockUpstreamHealth ou i)"
  unfolding lockUpstreamHealth_def by (intro unchanged_rules; simp)+

lemma marks_unchanged [unchanged_rules]:
  "unchanged resources (markSuccess ou u)" "unchanged transcript (markSuccess ou u)"
  "unchanged resources (markFailure ou i st reason v)" "unchanged transcript (markFailure ou i st reason v)"
  unfolding markSuccess_def markFailure_def unlockUpstreamHealth_def by (intro unchanged_rules; simp)+

lemma writes_unchanged [unchanged_rules]:
  "unchanged resources (set_header k v)" "unchanged resources (writeError co protocol st code msg)"
  "unchanged resources (log_error st code)" "unchanged resources (reject co r protocol st code msg)"
  "unchanged resources (refuse co protocol st code msg)" "unchanged resources (fail_closed co protocol ctx)"
  "unchanged resources (add_attempt a)" "unchanged resources (start_response rid)"
  unfolding set_header_def writeError_def log_error_def reject_def refuse_def fail_closed_def add_attempt_def
    start_response_def
  by (intro unchanged_rules; simp)+

lemma ended_unchanged [unchanged_rules]:
  "unchanged resources (requestEnded co ou protocol)" "unchanged resources (refuse_unless_ended co ou protocol msg)"
  unfolding requestEnded_def refuse_unless_ended_def by (intro unchanged_rules; simp)+

lemma token_unchanged [unchanged_rules]: "unchanged resources (check_token co ou r protocol)"
  unfolding check_token_def by (intro unchanged_rules; simp)+

lemma relay_unchanged [unchanged_rules]: "unchanged resources (relay_response co ca u started re)"
  by (simp add: unchanged_def relay_response_def split: prod.split)

lemma responses_unchanged [unchanged_rules]:
  "unchanged resources (attempt_failed co ou ca u started a e)" "unchanged resources (retry_response ou u started a re)"
  "unchanged resources (stream_committed ou u re r)" "unchanged resources (stream_dropped co ou ca u e)"
  "unchanged resources (send_buffered ou ca u re body)"
  unfolding attempt_failed_def retry_response_def stream_committed_def stream_dropped_def send_buffered_def
  by (intro unchanged_rules; simp)+

lemma complete_unchanged [unchanged_rules]:
  "unchanged resources (stream_response co ou ca u started a re)"
  "unchanged resources (buffered_complete co ou ca u started a re body)"
  unfolding stream_response_def buffered_complete_def by (intro unchanged_rules; simp)+

section \<open>Resources\<close>

lemma timer_final: "\<exists>ev \<in> set (evs @ [TimerFired]). final_event ev"
  by (simp add: final_event_def)

lemma read_buffered_budget:
  assumes "read_buffered u started re h = ((res, ttfb, buf), h')"
  shows "release_buffer buf h' = h \<and> (\<exists>g. h' = h\<lparr>hd_response_budget := g\<rparr>)"
proof -
  let ?run = "readResponseWithMetrics (us_first_byte_timeout u) (us_idle_timeout u) started (re_events re @ [TimerFired])
             (Some (hd_response_budget h)) (empty_buffer (lm_max_response_bytes (hd_limits h)))"
  obtain x st where run: "?run = (Some x, st)"
    using loops_return [OF timer_final] by (metis prod.collapse option.exhaust)
  note post = buffered_run_post [OF run, THEN conjunct2]
  then obtain g where g: "bs_budget st = Some g" by (cases "bs_budget st") (simp_all add: rb_release_def)
  have "h' = h\<lparr>hd_response_budget := g\<rparr>" "buf = bs_buffer st"
    using assms run g by (auto simp: read_buffered_def)
  then show ?thesis using post g by (auto simp: release_buffer_def)
qed

lemma release_other: "release_buffer buf (h\<lparr>hd_response_budget := g\<rparr>)
    = h\<lparr>hd_response_budget := the (fst (rb_release (Some g) buf))\<rparr>"
  by (simp add: release_buffer_def)

lemma resources_budget:
  "resources s' = resources (s\<lparr>sv_handler := (sv_handler s)\<lparr>hd_response_budget := g\<rparr>\<rparr>) \<Longrightarrow>
   release_buffer buf ((sv_handler s)\<lparr>hd_response_budget := g\<rparr>) = sv_handler s \<Longrightarrow>
   resources (s'\<lparr>sv_handler := release_buffer buf (sv_handler s')\<rparr>) = resources s"
  by (simp add: resources_def Let_def release_buffer_def) (metis Handler.select_convs(6) Handler.surjective Handler.update_convs(6))

lemma buffered_unchanged [unchanged_rules]: "unchanged resources (buffered_response co ou ca u started a re)"
proof (rule unchangedI)
  fix s
  show "wp (buffered_response co ou ca u started a re) (\<lambda>_ s'. resources s' = resources s) s"
    unfolding buffered_response_def
  proof (rule wp_bind, rule wp_with_handler, rule wp_prod, rule wp_prod, hypsubst, goal_cases)
    case (1 x h res y ttfb buf)
    note restored = read_buffered_budget [OF 1]
    then obtain g where h: "h = (sv_handler s)\<lparr>hd_response_budget := g\<rparr>" by blast
    show ?case
    proof (cases res)
      case (Inl e)
      have "wp (attempt_failed co ou ca u started (a\<lparr>at_ttfb_ms := ttfb\<rparr>) e) (\<lambda>_ s'. resources s' = resources s) s"
        by (rule unchanged_wp [OF responses_unchanged(1)])
      then show ?thesis
        using restored by (simp add: Inl) (intro wp_rules, simp)
    next
      case (Inr body)
      show ?thesis
        unfolding Inr sum.case
        by (intro wp_rules, rule unchanged_wp [OF complete_unchanged(2)], intro wp_rules)
          (rule resources_budget [where g = g], simp_all add: h [symmetric] restored)
    qed
  qed
qed

lemma get_client_resources:
  "get_client u now (sv_handler s) = (c, h) \<Longrightarrow> resources (s\<lparr>sv_handler := h\<rparr>) = resources s"
  by (auto simp: get_client_def resources_def Let_def split: prod.splits)

lemma attempt_unchanged [unchanged_rules]: "unchanged resources (proxy_attempt co ou ca u bodies)"
  unfolding proxy_attempt_def by (intro unchanged_rules) (simp_all add: get_client_resources)

lemma failed_unchanged [unchanged_rules]: "unchanged resources (all_failed co ou ca l t)"
  unfolding all_failed_def by (intro unchanged_rules; simp)+

lemma attempts_unchanged [unchanged_rules]: "unchanged resources (proxy_attempts co ou ca l t bodies us)"
proof (induction us arbitrary: l t bodies)
  case (Cons u us)
  then show ?case by (simp only: proxy_attempts.simps) (intro unchanged_rules)
qed (simp add: failed_unchanged)

lemma body_unchanged [unchanged_rules]:
  "unchanged resources (proxy_route co ou ca i bodies)" "unchanged resources (proxy_body co ou r protocol rid key)"
  unfolding proxy_body_def proxy_route_def by (intro unchanged_rules; simp)+

lemma slot_bracket:
  "resources s' = resources (s\<lparr>sv_handler := auth_slot 1 (sv_handler s)\<rparr>) \<Longrightarrow>
   resources (s'\<lparr>sv_handler := auth_slot (- 1) (sv_handler s')\<rparr>) = resources s"
  by (simp add: resources_def Let_def auth_slot_def)

lemma authenticate_unchanged [unchanged_rules]: "unchanged resources (authenticate co ou r protocol)"
proof (rule unchangedI)
  fix s
  have busy: "unchanged resources (do { set_header ''Retry-After'' ''1'';
      reject co r protocol 429 ''authentication_busy'' ''too many authentication requests''; State_Monad.return None })"
    by (intro unchanged_rules)
  show "wp (authenticate co ou r protocol) (\<lambda>_ s'. resources s' = resources s) s"
    unfolding authenticate_def
  proof (rule wp_bind, rule wp_reads, rule wp_if, goal_cases)
    case 1
    show ?case by (rule unchanged_wp [OF busy])
  next
    case 2
    show ?case
      by (rule wp_bind, rule wp_on_handler, rule wp_bind, rule unchanged_wp [OF token_unchanged], intro wp_rules)
        (erule slot_bracket)
  qed
qed

lemma rate_resources: "acquire_rate k now (sv_handler s) = (ok, h) \<Longrightarrow> resources (s\<lparr>sv_handler := h\<rparr>) = resources s"
  by (auto simp: acquire_rate_def resources_def Let_def split: prod.splits)

lemma refused_body: "acquire_body n (sv_handler s) = (False, h) \<Longrightarrow> resources (s\<lparr>sv_handler := h\<rparr>) = resources s"
  by (auto simp: acquire_body_def resources_def Let_def dest: budget_acquire_refused split: prod.splits)

lemma body_bracket:
  "acquire_body n (sv_handler s) = (True, h) \<Longrightarrow> resources s' = resources (s\<lparr>sv_handler := h\<rparr>) \<Longrightarrow>
   resources (s'\<lparr>sv_handler := release_body n (sv_handler s')\<rparr>) = resources s"
  by (auto simp: acquire_body_def release_body_def resources_def Let_def split: prod.splits)

lemma refused_gate: "acquire_gate k (sv_handler s) = (False, h) \<Longrightarrow> resources (s\<lparr>sv_handler := h\<rparr>) = resources s"
  by (auto simp: acquire_gate_def resources_def Let_def gate_acquire_def split: prod.splits if_splits)

lemma gate_rep_unique: "gate_rep g M \<Longrightarrow> gate_rep g' M \<Longrightarrow> g' = g"
  by (simp add: gate_rep_def)

lemma gate_bracket:
  assumes "gate_rep (hd_gate (sv_handler s)) M" "acquire_gate k (sv_handler s) = (True, h)"
    and "resources s' = resources (s\<lparr>sv_handler := h\<rparr>)"
  shows "resources (s'\<lparr>sv_handler := release_gate k (sv_handler s')\<rparr>) = resources s"
proof -
  obtain g where g: "gate_acquire (hd_gate (sv_handler s)) k (hd_limits (sv_handler s)) = (True, g)"
    "h = (sv_handler s)\<lparr>hd_gate := g\<rparr>"
    using assms(2) by (auto simp: acquire_gate_def split: prod.splits)
  have "gate_release g k = hd_gate (sv_handler s)"
    using gate_rep_unique [OF assms(1) gate.acq_then_rel [OF assms(1) g(1)]] .
  then show ?thesis using assms(3) by (simp add: resources_def Let_def release_gate_def g(2))
qed

lemma admitted_unchanged [unchanged_rules]: "unchanged resources (proxy_admitted co ou r protocol rid key)"
proof (rule unchangedI)
  fix s
  have limited: "unchanged resources (do { set_header ''Retry-After'' ''60'';
      refuse co protocol 429 ''rate_limited'' ''request rate limit exceeded'' })"
    and full: "unchanged resources (do {
      (if ir_proto_major r = 1 then set_header ''Connection'' ''close'' else State_Monad.return ());
      set_header ''Retry-After'' ''1'';
      refuse co protocol 429 ''body_budget_exceeded'' ''request body memory budget exhausted'' })"
    by (intro unchanged_rules)+
  show "wp (proxy_admitted co ou r protocol rid key) (\<lambda>_ s'. resources s' = resources s) s"
    unfolding proxy_admitted_def
  proof (rule wp_bind, rule wp_outside, rule wp_bind, rule wp_with_handler, rule wp_if, goal_cases)
    case (1 now w ok h)
    then show ?case by (intro unchanged_wp [OF limited]) (simp add: rate_resources)
  next
    case (2 now w ok h)
    then have rate: "resources (s\<lparr>sv_world := w, sv_handler := h\<rparr>) = resources s"
      using rate_resources [of "ak_id key" now "s\<lparr>sv_world := w\<rparr>" ok h] by simp
    show ?case
    proof (rule wp_bind, rule wp_with_handler, rule wp_if, goal_cases)
      case (1 reserved h')
      then show ?case
        using rate refused_body [of "body_reservation (ir_content_length r)" "s\<lparr>sv_world := w, sv_handler := h\<rparr>" h']
        by (intro unchanged_wp [OF full]) simp
    next
      case (2 reserved h')
      then show ?case
        using rate body_bracket [of "body_reservation (ir_content_length r)" "s\<lparr>sv_world := w, sv_handler := h\<rparr>" h']
        by (intro wp_bind unchanged_wp [OF body_unchanged(2)] wp_on_handler) simp
    qed
  qed
qed

lemma authenticated_resources:
  assumes "gate_rep (hd_gate (sv_handler s)) M"
  shows "wp (proxy_authenticated co ou r protocol rid key) (\<lambda>_ s'. resources s' = resources s) s"
  unfolding proxy_authenticated_def
proof (rule wp_bind, rule wp_with_handler, rule wp_if, goal_cases)
  case (1 ok h)
  have "unchanged resources (do { set_header ''Retry-After'' ''1'';
      refuse co protocol 429 ''concurrency_limited'' ''too many concurrent requests'' })"
    by (intro unchanged_rules)
  then show ?case by (rule unchanged_wp) (use 1 in \<open>simp add: refused_gate\<close>)
next
  case (2 ok h)
  then show ?case
    by (intro wp_bind unchanged_wp [OF admitted_unchanged] wp_on_handler) (rule gate_bracket [OF assms], simp_all)
qed

section \<open>The transcript\<close>

lemmas mark_rules [wp_rules] =
  unchanged_wp [OF marks_unchanged(2)] unchanged_wp [OF marks_unchanged(4)]

text \<open>Nothing has been sent and no error logged; the log states what was sent.\<close>

definition fresh :: "'w Serving \<Rightarrow> bool" where
  "fresh s \<longleftrightarrow> ds_status (sv_down s) = None \<and> ds_body (sv_down s) = [] \<and> rl_error_code (sv_log s) = []"

definition answered :: "'w Serving \<Rightarrow> bool" where
  "answered s \<longleftrightarrow>
     (case ds_status (sv_down s) of
        Some status \<Rightarrow> rl_status_code (sv_log s) = status
      | None \<Rightarrow> ds_body (sv_down s) = [] \<and> rl_error_code (sv_log s) = ''client_closed'')"

definition giving_up :: "string set" where
  "giving_up = {''rate_limit_exceeded'', ''gateway_timeout'', ''bad_gateway''}"

definition gave_up :: "'w Serving \<Rightarrow> bool" where
  "gave_up s \<longleftrightarrow> rl_error_code (sv_log s) \<in> giving_up"

lemma giving_up_codes [simp]:
  "[] \<notin> giving_up" "''client_closed'' \<notin> giving_up" "''request_timeout'' \<notin> giving_up" "''stream_interrupted'' \<notin> giving_up"
  "''response_budget_exceeded'' \<notin> giving_up" "''invalid_request'' \<notin> giving_up" "''internal_error'' \<notin> giving_up"
  "''permission_denied'' \<notin> giving_up" "''rate_limited'' \<notin> giving_up" "''concurrency_limited'' \<notin> giving_up"
  "''body_budget_exceeded'' \<notin> giving_up"
  "''rate_limit_exceeded'' \<in> giving_up" "''gateway_timeout'' \<in> giving_up" "''bad_gateway'' \<in> giving_up"
  by (simp_all add: giving_up_def)

lemma fresh_transcript: "transcript s' = transcript s \<Longrightarrow> fresh s' = fresh s"
  by (simp add: transcript_def fresh_def)

lemma answered_transcript: "transcript s' = transcript s \<Longrightarrow> answered s' = answered s \<and> gave_up s' = gave_up s"
  by (simp add: transcript_def answered_def gave_up_def split: option.split)

definition settled :: "'w Serving \<Rightarrow> bool" where
  "settled s \<longleftrightarrow> answered s \<and> \<not> gave_up s"

lemma refuse_settled:
  assumes "ds_status (sv_down s) = None" "code \<notin> giving_up"
  shows "wp (refuse co protocol status code msg) (\<lambda>_ s'. settled s' \<and> rl_attempts (sv_log s') = rl_attempts (sv_log s)) s"
  unfolding refuse_def log_error_def writeError_def set_header_def
  by (intro wp_rules) (use assms in \<open>simp add: settled_def answered_def gave_up_def\<close>)

lemma fail_closed_settled:
  assumes "fresh s"
  shows "wp (fail_closed co protocol ctx) (\<lambda>_ s'. settled s' \<and> rl_attempts (sv_log s') = rl_attempts (sv_log s)) s"
  unfolding fail_closed_def log_error_def writeError_def set_header_def
  by (intro wp_rules) (use assms in \<open>simp_all add: fresh_def settled_def answered_def gave_up_def\<close>)

lemma requestEnded_settled:
  assumes "fresh s"
  shows "wp (requestEnded co ou protocol) (\<lambda>b s'. rl_attempts (sv_log s') = rl_attempts (sv_log s)
    \<and> (if b then settled s' else transcript s' = transcript s)) s"
  unfolding requestEnded_def
  by (intro wp_rules, simp, rule wp_mono [OF fail_closed_settled])
    (use assms in \<open>simp_all add: fresh_def wp_return\<close>)

text \<open>The outcome of an attempt on \<open>u\<close>.\<close>

definition attempt_outcome :: "Upstream \<Rightarrow> 'w Serving \<Rightarrow> verdict \<Rightarrow> 'w Serving \<Rightarrow> bool" where
  "attempt_outcome u s v s' \<longleftrightarrow>
     (\<exists>a. at_upstream_id a = us_id u \<and> rl_attempts (sv_log s') = rl_attempts (sv_log s) @ [a] \<and>
       (case v of
          Finished \<Rightarrow> settled s'
        | Failover l t \<Rightarrow> sv_down s' = sv_down s \<and> (l \<longleftrightarrow> at_status_code a = 429)
            \<and> (retryStatus (at_status_code a) \<longrightarrow> (t \<longleftrightarrow> at_status_code a = 504))
            \<and> sv_log s' = (sv_log s)\<lparr>rl_attempts := rl_attempts (sv_log s) @ [a]\<rparr>))"

lemmas outcome_defs = attempt_outcome_def settled_def answered_def gave_up_def fresh_def transcript_def

lemma outcome_settled:
  "settled s' \<Longrightarrow> rl_attempts (sv_log s') = rl_attempts (sv_log s) @ [a] \<Longrightarrow> at_upstream_id a = us_id u \<Longrightarrow>
   attempt_outcome u s Finished s'"
  by (simp add: attempt_outcome_def)

lemma outcome_failover:
  "transcript s' = (sv_down s, (sv_log s)\<lparr>rl_attempts := rl_attempts (sv_log s) @ [a]\<rparr>) \<Longrightarrow> at_upstream_id a = us_id u \<Longrightarrow>
   (l \<longleftrightarrow> at_status_code a = 429) \<Longrightarrow> (retryStatus (at_status_code a) \<longrightarrow> (t \<longleftrightarrow> at_status_code a = 504)) \<Longrightarrow>
   attempt_outcome u s (Failover l t) s'"
  by (auto simp: attempt_outcome_def transcript_def)

text \<open>A transcript to which one attempt has been added.\<close>

definition with_attempt :: "Attempt \<Rightarrow> 'w Serving \<Rightarrow> 'w Serving \<Rightarrow> bool" where
  "with_attempt a s s1 \<longleftrightarrow> transcript s1 = (sv_down s, (sv_log s)\<lparr>rl_attempts := rl_attempts (sv_log s) @ [a]\<rparr>)"

lemma with_attempt_facts:
  assumes "with_attempt a s s1"
  shows "fresh s1 = fresh s" "rl_attempts (sv_log s1) = rl_attempts (sv_log s) @ [a]"
    "ds_status (sv_down s1) = ds_status (sv_down s)" "with_attempt a s (s1\<lparr>sv_world := w\<rparr>)"
  using assms by (auto simp: with_attempt_def transcript_def fresh_def)

lemma closed_outcome:
  assumes "with_attempt a s s1" "fresh s" "at_upstream_id a = us_id u"
  shows "wp (do { fail_closed co protocol ctx; State_Monad.return Finished }) (attempt_outcome u s) s1"
proof -
  have "fresh s1" using assms by (simp add: with_attempt_facts)
  from wp_mono [OF fail_closed_settled [OF this]] with_attempt_facts(2) [OF assms(1)] assms(3) show ?thesis
    by (intro wp_bind) (rule wp_mono [OF fail_closed_settled [OF \<open>fresh s1\<close>]], auto intro!: wp_return outcome_settled)
qed

lemma failover_outcome:
  assumes "with_attempt a s s1" "at_upstream_id a = us_id u" "\<not> retryStatus (at_status_code a)"
  shows "wp (do { markFailure ou i st msg v; State_Monad.return (Failover False t) }) (attempt_outcome u s) s1"
proof -
  have "at_status_code a \<noteq> 429" using assms(3) by (auto simp: retryStatus_def)
  then show ?thesis
    using assms by (intro wp_rules) (auto simp: with_attempt_def intro: outcome_failover)
qed

lemma attempt_failed_outcome:
  assumes "fresh s" "at_upstream_id a = us_id u" "\<not> retryStatus (at_status_code a)"
  shows "wp (attempt_failed co ou ca u started a e) (attempt_outcome u s) s"
  unfolding attempt_failed_def since_def add_attempt_def bind_assoc bind_left_identity
proof (rule wp_bind, rule wp_outside, rule wp_bind, rule wp_outside, rule wp_bind, rule wp_on_log, rule wp_bind,
    rule wp_outside, goal_cases)
  case (1 now w ctx w1 ctx2 w2)
  define a2 where "a2 = a\<lparr>at_duration_ms := milliseconds (time_sub now started), at_error := Text (Some e) [us_api_key u],
    at_failure_class := failureClass ctx e\<rparr>"
  have a2: "at_upstream_id a2 = us_id u" "\<not> retryStatus (at_status_code a2)" using assms by (simp_all add: a2_def)
  let ?s = "s\<lparr>sv_world := w, sv_world := w1, sv_log := (sv_log (s\<lparr>sv_world := w, sv_world := w1\<rparr>))
      \<lparr>rl_attempts := rl_attempts (sv_log (s\<lparr>sv_world := w, sv_world := w1\<rparr>)) @ [a2]\<rparr>, sv_world := w2\<rparr>"
  have s2: "with_attempt a2 s ?s" by (simp add: with_attempt_def transcript_def)
  show ?case
    unfolding a2_def [symmetric]
  proof (rule wp_if, rule closed_outcome [OF s2 assms(1) a2(1)], rule wp_if, goal_cases)
    case 1
    have "ds_status (sv_down ?s) = None" using assms(1) by (simp add: fresh_def)
    then show ?case
      unfolding log_error_def set_header_def writeError_def
      by (intro wp_rules outcome_settled [where a = a2]) (use a2 in \<open>simp_all add: settled_def answered_def gave_up_def\<close>)
  qed (rule failover_outcome [OF s2 a2])
qed

lemma retry_response_outcome:
  assumes "fresh s" "at_upstream_id a = us_id u" "at_status_code a = re_status re" "retryStatus (re_status re)"
  shows "wp (retry_response ou u started a re) (attempt_outcome u s) s"
  unfolding retry_response_def since_def add_attempt_def
  by (intro wp_rules) (use assms in \<open>simp_all add: outcome_defs\<close>)

lemma relay_response_wp [wp_rules]:
  assumes "\<And>r d. relayStreamWithMetrics (co_dec co) (relay_config ca u started re (length (rl_attempts (sv_log s)) + 1))
      (re_events re @ [TimerFired]) (sv_down s) = Some (r, d) \<Longrightarrow> Q r (s\<lparr>sv_down := d\<rparr>)"
  shows "wp (relay_response co ca u started re) Q s"
proof -
  obtain r d where run: "relayStreamWithMetrics (co_dec co) (relay_config ca u started re (length (rl_attempts (sv_log s)) + 1))
      (re_events re @ [TimerFired]) (sv_down s) = Some (r, d)"
    using loops_return [OF timer_final, THEN conjunct1] by fast
  then show ?thesis using assms [OF run] by (simp add: wp_def relay_response_def)
qed

lemma committed_outcome:
  assumes "rl_attempts (sv_log s1) = rl_attempts (sv_log s) @ [a]" "at_upstream_id a = us_id u"
    "ds_status (sv_down s1) = Some (re_status re)" "rl_error_code (sv_log s1) = []"
  shows "wp (stream_committed ou u re r) (attempt_outcome u s) s1"
  unfolding stream_committed_def
  by (intro wp_rules outcome_settled [where a = a])
    (use assms in \<open>simp_all add: settled_def answered_def gave_up_def transcript_def\<close>)

lemma dropped_outcome:
  assumes "with_attempt a s s1" "fresh s" "at_upstream_id a = us_id u" "\<not> retryStatus (at_status_code a)"
  shows "wp (stream_dropped co ou ca u e) (attempt_outcome u s) s1"
  unfolding stream_dropped_def
  by (rule wp_bind, rule wp_outside, rule wp_if, rule wp_bind, rule wp_outside)
    (use assms in \<open>auto intro!: closed_outcome failover_outcome with_attempt_facts(4)\<close>)

lemma stream_response_outcome:
  assumes "fresh s" "at_upstream_id a = us_id u" "\<not> retryStatus (re_status re)" "at_status_code a = re_status re"
  shows "wp (stream_response co ou ca u started a re) (attempt_outcome u s) s"
  unfolding stream_response_def since_def add_attempt_def bind_assoc bind_left_identity
proof (rule wp_bind, rule relay_response_wp, rule wp_bind, rule wp_outside, rule wp_bind, goal_cases)
  case (1 r d now w)
  have body: "ds_body (sv_down s) = []" using assms(1) by (simp add: fresh_def)
  note post = relay_run_post [OF 1 body]
  define good where "good = (\<lambda>(a' :: Attempt) (s' :: 'a Serving). at_upstream_id a' = us_id u \<and> at_status_code a' = re_status re
    \<and> transcript s' = (d, sv_log s))"
  have final: "wp (on_log (\<lambda>l. l\<lparr>rl_attempts := rl_attempts l @ [a']\<rparr>) \<bind>
      (\<lambda>_. if rr_committed r then stream_committed ou u re r else stream_dropped co ou ca u (the (rr_error r))))
      (attempt_outcome u s) s'" if "good a' s'" for a' s'
  proof (cases "rr_committed r")
    case True
    then have "ds_status d = Some (re_status re)" using post by (simp add: relay_config_def)
    then show ?thesis
      using that True assms(1)
      by (intro wp_bind wp_on_log) (simp, rule committed_outcome [where a = a'], simp_all add: good_def transcript_def fresh_def)
  next
    case False
    then have "d = sv_down s" using post by auto
    then show ?thesis
      using that False assms
      by (intro wp_bind wp_on_log) (simp, rule dropped_outcome [where a = a'],
          simp_all add: good_def transcript_def with_attempt_def)
  qed
  show ?case
    by (rule wp_option, rule wp_return, rule final, goal_cases, rule_tac [2] wp_bind, rule_tac [2] wp_outside,
        rule_tac [2] wp_return, rule_tac [2] final) (use assms in \<open>simp_all add: good_def transcript_def\<close>)
qed

lemma send_buffered_settled:
  assumes "fresh s" "rl_status_code (sv_log s) = re_status re"
  shows "wp (send_buffered ou ca u re body) (\<lambda>_ s'. settled s' \<and> rl_attempts (sv_log s') = rl_attempts (sv_log s)) s"
  unfolding send_buffered_def
  by (rule wp_bind, rule wp_reads, rule wp_bind, rule wp_on_down, rule wp_bind, rule wp_outside, intro wp_rules)
    (use assms in \<open>simp_all add: settled_def answered_def gave_up_def fresh_def\<close>)

lemma complete_outcome:
  assumes "fresh s" "at_upstream_id a = us_id u"
  shows "wp (buffered_complete co ou ca u started a re body) (attempt_outcome u s) s"
  unfolding buffered_complete_def since_def add_attempt_def bind_assoc bind_left_identity
proof (rule wp_bind, rule wp_outside, rule wp_bind, rule wp_on_log, rule wp_bind, rule wp_on_log, rule wp_bind,
    rule unchanged_wp [OF marks_unchanged(2)], rule wp_bind, goal_cases)
  case (1 now w x s1)
  then have s1: "fresh s1" "rl_status_code (sv_log s1) = re_status re"
    "rl_attempts (sv_log s1) = rl_attempts (sv_log s) @ [a\<lparr>at_duration_ms := milliseconds (time_sub now started)\<rparr>]"
    using assms(1) by (simp_all add: fresh_def transcript_def)
  show ?case
  proof (rule wp_mono [OF requestEnded_settled [OF s1(1)]], rule wp_bind, rule wp_if, goal_cases)
    case (1 b s2)
    then show ?case by (intro wp_rules) (use s1 assms in \<open>simp add: attempt_outcome_def\<close>)
  next
    case (2 b s2)
    then have "fresh s2" "rl_status_code (sv_log s2) = re_status re" using s1 by (simp_all add: fresh_def transcript_def)
    from wp_mono [OF send_buffered_settled [OF this]] 2 show ?case
      by (rule_tac wp_mono [OF send_buffered_settled [OF \<open>fresh s2\<close>]])
        (use s1 assms \<open>rl_status_code (sv_log s2) = re_status re\<close> in \<open>simp_all add: attempt_outcome_def wp_return\<close>)
  qed
qed

lemma settled_other [simp]:
  "settled (s\<lparr>sv_handler := h\<rparr>) = settled s" "settled (s\<lparr>sv_world := w\<rparr>) = settled s"
  "fresh (s\<lparr>sv_handler := h\<rparr>) = fresh s" "fresh (s\<lparr>sv_world := w\<rparr>) = fresh s"
  by (simp_all add: settled_def answered_def gave_up_def fresh_def split: option.split)

lemma outcome_handler [simp]:
  "attempt_outcome u (s\<lparr>sv_handler := h\<rparr>) v s' = attempt_outcome u s v s'"
  "attempt_outcome u (s\<lparr>sv_world := w\<rparr>) v s' = attempt_outcome u s v s'"
  "attempt_outcome u s v (s'\<lparr>sv_handler := h\<rparr>) = attempt_outcome u s v s'"
  by (simp_all add: attempt_outcome_def split: verdict.split)

lemma outcome_same [simp]:
  "attempt_outcome u (s\<lparr>sv_handler := h\<rparr>) = attempt_outcome u s"
  "attempt_outcome u (s\<lparr>sv_world := w\<rparr>) = attempt_outcome u s"
  by (intro ext, simp)+

lemma outcome_from:
  assumes "\<And>s. fresh s \<Longrightarrow> wp m (attempt_outcome u s) s" "fresh s"
  shows "wp m (attempt_outcome u s) (s\<lparr>sv_handler := h\<rparr>)" "wp m (attempt_outcome u s) (s\<lparr>sv_world := w\<rparr>)"
    "wp m (attempt_outcome u s) (s\<lparr>sv_world := w1, sv_world := w2, sv_handler := h, sv_world := w\<rparr>)"
  using assms(1) [of "s\<lparr>sv_handler := h\<rparr>"] assms(1) [of "s\<lparr>sv_world := w\<rparr>"]
    assms(1) [of "s\<lparr>sv_world := w1, sv_world := w2, sv_handler := h, sv_world := w\<rparr>"] assms(2)
  by (simp_all del: Serving.update_convs)

lemma buffered_response_outcome:
  assumes "fresh s" "at_upstream_id a = us_id u" "\<not> retryStatus (re_status re)" "at_status_code a = re_status re"
  shows "wp (buffered_response co ou ca u started a re) (attempt_outcome u s) s"
  unfolding buffered_response_def
proof (rule wp_bind, rule wp_with_handler, rule wp_prod, rule wp_prod, rule wp_sum, goal_cases)
  case (1 x h res y ttfb buf e)
  have "wp (attempt_failed co ou ca u started (a\<lparr>at_ttfb_ms := ttfb\<rparr>) e) (attempt_outcome u s)
      (s\<lparr>sv_handler := release_buffer buf h\<rparr>)"
    by (rule outcome_from(1) [OF attempt_failed_outcome]) (use assms in simp_all)
  then show ?case by (intro wp_bind wp_on_handler) simp
next
  case (2 x h res y ttfb buf body)
  have "wp (buffered_complete co ou ca u started (a\<lparr>at_ttfb_ms := ttfb\<rparr>) re body) (attempt_outcome u s)
      (s\<lparr>sv_handler := h\<rparr>)"
    by (rule outcome_from(1) [OF complete_outcome]) (use assms in simp_all)
  then show ?case by (rule wp_bind [OF wp_mono]) (intro wp_rules, simp)
qed

lemma attempt_outcome:
  assumes "fresh s"
  shows "wp (proxy_attempt co ou ca u bodies) (\<lambda>(v, _) s'. attempt_outcome u s v s') s"
proof -
  have id: "at_upstream_id (new_attempt u) = us_id u" "\<not> retryStatus (at_status_code (new_attempt u))"
    by (simp_all add: new_attempt_def retryStatus_def)
  note failed = outcome_from [OF attempt_failed_outcome [OF _ id] assms]
  show ?thesis
    unfolding proxy_attempt_def Let_def
  proof (rule wp_bind, rule wp_outside, rule wp_bind, rule wp_return, rule wp_prod, rule wp_bind, rule wp_mono [where P = "attempt_outcome u s"],
      rule wp_sum,
      goal_cases)
    case (2 started w req bodies' out)
    show ?case
    proof (rule wp_bind, rule wp_outside, rule wp_bind, rule wp_with_handler, rule wp_bind, rule wp_outside, rule wp_sum, goal_cases)
      case (2 now w1 c h res w2 re)
      then show ?case
        using id(1) assms
        by (intro wp_if outcome_from(3) [OF retry_response_outcome] outcome_from(3) [OF stream_response_outcome]
            outcome_from(3) [OF buffered_response_outcome]) simp_all
    qed (rule failed(3))
  qed (use failed(2) in \<open>auto intro: wp_return\<close>)
qed

text \<open>
  The outcome of the attempts: how the log ends when no upstream was usable, with \<open>limited\<close> and
  \<open>timed_out\<close> what holds of the attempts before.
\<close>

definition failure_logged :: "bool \<Rightarrow> bool \<Rightarrow> Attempt list \<Rightarrow> RequestLog \<Rightarrow> bool" where
  "failure_logged limited timed_out as l \<longleftrightarrow>
     (\<exists>t msg. failure_status (limited \<and> (\<forall>a \<in> set as. at_status_code a = 429)) t = (rl_status_code l, rl_error_code l, msg)
        \<and> ((\<forall>a \<in> set as. retryStatus (at_status_code a)) \<longrightarrow>
             (t \<longleftrightarrow> timed_out \<and> (\<forall>a \<in> set as. at_status_code a = 504))))"

definition attempts_outcome :: "bool \<Rightarrow> bool \<Rightarrow> Upstream list \<Rightarrow> Attempt list \<Rightarrow> 'w Serving \<Rightarrow> bool" where
  "attempts_outcome limited timed_out us before s' \<longleftrightarrow> answered s' \<and>
     (\<exists>as. rl_attempts (sv_log s') = before @ as \<and> prefix (map at_upstream_id as) (map us_id us)
        \<and> (gave_up s' \<longrightarrow> length as = length us \<and> failure_logged limited timed_out as (sv_log s')))"

lemma settled_outcome: "settled s' \<Longrightarrow> rl_attempts (sv_log s') = before \<Longrightarrow> attempts_outcome l t us before s'"
  by (simp add: attempts_outcome_def settled_def)

lemma all_failed_outcome:
  assumes "fresh s"
  shows "wp (all_failed co ou ca l t) (\<lambda>_ s'. attempts_outcome l t [] (rl_attempts (sv_log s)) s') s"
  unfolding all_failed_def
proof (rule wp_bind, rule wp_mono [OF requestEnded_settled [OF assms]], rule wp_if, goal_cases)
  case (1 b s1)
  then show ?case by (intro wp_rules) (simp add: settled_outcome)
next
  case (2 b s1)
  then have "transcript s1 = transcript s" by simp
  then show ?case
    using assms unfolding log_error_def writeError_def set_header_def
    by (intro wp_rules)
      (simp_all add: attempts_outcome_def failure_logged_def answered_def transcript_def fresh_def)
qed

lemma failure_logged_cons:
  "failure_logged (limited \<and> l) (timed_out \<and> t) as e \<Longrightarrow> (l \<longleftrightarrow> at_status_code a = 429) \<Longrightarrow>
   (retryStatus (at_status_code a) \<longrightarrow> (t \<longleftrightarrow> at_status_code a = 504)) \<Longrightarrow> failure_logged limited timed_out (a # as) e"
  by (force simp: failure_logged_def)

lemma attempts_outcome:
  "fresh s \<Longrightarrow> wp (proxy_attempts co ou ca l t bodies us) (\<lambda>_ s'. attempts_outcome l t us (rl_attempts (sv_log s)) s') s"
proof (induction us arbitrary: s l t bodies)
  case (Cons u us)
  show ?case
    unfolding proxy_attempts.simps
  proof (rule wp_bind, rule wp_mono [OF requestEnded_settled [OF Cons.prems]], rule wp_if, goal_cases)
    case (1 b s1)
    then show ?case by (intro wp_rules) (simp add: settled_outcome)
  next
    case (2 b s1)
    then have same: "transcript s1 = transcript s" by simp
    then have "fresh s1" using Cons.prems fresh_transcript [OF same] by simp
    show ?case
    proof (rule wp_bind, rule wp_mono [OF attempt_outcome [OF \<open>fresh s1\<close>]], rule wp_prod, rule wp_verdict, goal_cases)
      case (1 x s2 v bodies')
      then obtain a where "settled s2" "at_upstream_id a = us_id u" "rl_attempts (sv_log s2) = rl_attempts (sv_log s1) @ [a]"
        by (auto simp: attempt_outcome_def)
      then show ?case
        using same by (intro wp_rules) (auto simp: attempts_outcome_def settled_def transcript_def)
    next
      case (2 x s2 v bodies' l' t')
      then obtain a where a: "at_upstream_id a = us_id u" "rl_attempts (sv_log s2) = rl_attempts (sv_log s1) @ [a]"
        "sv_down s2 = sv_down s1" "l' \<longleftrightarrow> at_status_code a = 429"
        "retryStatus (at_status_code a) \<longrightarrow> (t' \<longleftrightarrow> at_status_code a = 504)"
        "sv_log s2 = (sv_log s1)\<lparr>rl_attempts := rl_attempts (sv_log s1) @ [a]\<rparr>"
        by (auto simp: attempt_outcome_def)
      have "fresh s2" using \<open>fresh s1\<close> a(3,6) by (simp add: fresh_def)
      show ?case
      proof (rule wp_mono [OF Cons.IH [OF \<open>fresh s2\<close>]])
        fix y s3
        assume "attempts_outcome (l \<and> l') (t \<and> t') us (rl_attempts (sv_log s2)) s3"
        then obtain as where as: "answered s3" "rl_attempts (sv_log s3) = rl_attempts (sv_log s) @ a # as"
          "prefix (map at_upstream_id as) (map us_id us)"
          "gave_up s3 \<longrightarrow> length as = length us \<and> failure_logged (l \<and> l') (t \<and> t') as (sv_log s3)"
          using a(2) same by (auto simp: attempts_outcome_def transcript_def)
        then show "attempts_outcome l t (u # us) (rl_attempts (sv_log s)) s3"
          unfolding attempts_outcome_def using a(1) failure_logged_cons [OF _ a(4,5)]
          by (intro conjI exI [where x = "a # as"]) auto
      qed
    qed
  qed
qed (simp add: all_failed_outcome)

section \<open>Whole requests\<close>

lemma eligible_facts:
  "sorted (map us_priority (eligible_upstreams protocol model now n cs))"
  "u \<in> set (eligible_upstreams protocol model now n cs) \<Longrightarrow> Supports u protocol model now \<and> u \<in> set cs"
  "length (eligible_upstreams protocol model now (clamp_max_attempts n) cs) \<le> 5"
  by (auto simp: eligible_upstreams_def clamp_max_attempts_def take_map [symmetric] filter_sort
      intro: sorted_wrt_take dest: in_set_takeD)

definition request_outcome :: "'w Serving \<Rightarrow> bool" where
  "request_outcome s \<longleftrightarrow> answered s \<and> length (rl_attempts (sv_log s)) \<le> 5"

lemma refused_outcome:
  assumes "ds_status (sv_down s) = None" "rl_attempts (sv_log s) = []" "code \<notin> giving_up"
  shows "wp (refuse co protocol status code msg) (\<lambda>_. request_outcome) s"
  by (rule wp_mono [OF refuse_settled [OF assms(1,3)]]) (simp add: request_outcome_def settled_def assms(2))

lemma refuse_ended_outcome:
  assumes "fresh s" "rl_attempts (sv_log s) = []"
  shows "wp (refuse_unless_ended co ou protocol msg) (\<lambda>_. request_outcome) s"
  unfolding refuse_unless_ended_def
proof (rule wp_bind, rule wp_mono [OF requestEnded_settled [OF assms(1)]], rule wp_if, goal_cases)
  case (1 b s1)
  then show ?case using assms by (intro wp_rules) (simp add: request_outcome_def settled_def)
next
  case (2 b s1)
  then show ?case using assms by (intro refused_outcome) (simp_all add: fresh_def transcript_def)
qed

lemma attempts_bounded:
  assumes "attempts_outcome l t us [] s'" "length us \<le> 5"
  shows "request_outcome s'"
  using assms by (auto simp: attempts_outcome_def request_outcome_def dest!: prefix_length_le)

lemma route_outcome:
  assumes "fresh s" "rl_attempts (sv_log s) = []"
  shows "wp (proxy_route co ou ca i bodies) (\<lambda>_. request_outcome) s"
  unfolding proxy_route_def
proof (rule wp_bind, rule wp_outside, rule wp_option, goal_cases)
  case (1 x w)
  then show ?case using assms by (intro refuse_ended_outcome) simp_all
next
  case (2 x w n)
  show ?case
  proof (rule wp_bind, rule wp_outside, rule wp_option, goal_cases)
    case (1 x w)
    then show ?case using assms by (intro refuse_ended_outcome) simp_all
  next
    case (2 x w cs)
    show ?case
      by (rule wp_bind, rule wp_outside, rule wp_let, rule wp_mono [OF attempts_outcome])
        (use assms eligible_facts(3) in \<open>auto intro: attempts_bounded\<close>)
  qed
qed

lemma body_outcome:
  assumes "fresh s" "rl_attempts (sv_log s) = []"
  shows "wp (proxy_body co ou r protocol rid key) (\<lambda>_. request_outcome) s"
  unfolding proxy_body_def
proof (rule wp_bind, rule wp_outside, rule wp_sum, goal_cases)
  case (1 x w e)
  show ?case
    by (rule wp_bind, rule wp_outside, rule wp_if; rule refused_outcome) (use assms in \<open>simp_all add: fresh_def\<close>)
next
  case (2 x w body)
  have *: "fresh (s\<lparr>sv_world := w, sv_log := (sv_log s)\<lparr>rl_model := m\<rparr>\<rparr>)" for m
    using assms by (simp add: fresh_def)
  show ?case
  proof (rule wp_option, goal_cases)
    case (2 p)
    show ?case
    proof (rule wp_if, goal_cases)
      case 2
      show ?case
        by (rule wp_bind, rule wp_on_log, rule wp_if, rule refused_outcome, goal_cases)
          (use assms * in \<open>simp_all add: fresh_def route_outcome\<close>)
    qed (rule refused_outcome, use assms in \<open>simp_all add: fresh_def\<close>)
  qed (rule refused_outcome, use assms in \<open>simp_all add: fresh_def\<close>)
qed

lemma request_outcome_handler [simp]: "request_outcome (s\<lparr>sv_handler := h\<rparr>) = request_outcome s"
  by (simp add: request_outcome_def answered_def split: option.split)

lemma with_headers_refused:
  assumes "ds_status (sv_down s) = None" "rl_attempts (sv_log s) = []" "code \<notin> giving_up"
  shows "wp (do { set_header k v; refuse co protocol status code msg }) (\<lambda>_. request_outcome) s"
  unfolding set_header_def by (rule wp_bind, rule wp_on_down, rule refused_outcome) (use assms in simp_all)

lemma admitted_outcome:
  assumes "fresh s" "rl_attempts (sv_log s) = []"
  shows "wp (proxy_admitted co ou r protocol rid key) (\<lambda>_. request_outcome) s"
  unfolding proxy_admitted_def
proof (rule wp_bind, rule wp_outside, rule wp_bind, rule wp_with_handler, rule wp_if, goal_cases)
  case (1 now w ok h)
  then show ?case by (intro with_headers_refused) (use assms in \<open>simp_all add: fresh_def\<close>)
next
  case (2 now w ok h)
  show ?case
  proof (rule wp_bind, rule wp_with_handler, rule wp_if, goal_cases)
    case (1 ok h')
    have "unchanged (\<lambda>s. (ds_status (sv_down s), sv_log s))
        ((if ir_proto_major r = 1 then set_header ''Connection'' ''close'' else State_Monad.return ()) :: (_ Serving, unit) state)"
      unfolding set_header_def by (intro unchanged_rules) simp
    then show ?case
      by (rule wp_bind [OF unchanged_wp]) (rule with_headers_refused, use assms in \<open>simp_all add: fresh_def\<close>)
  next
    case (2 ok h')
    show ?case
      by (rule wp_bind, rule wp_mono [OF body_outcome]) (use assms in \<open>simp_all add: fresh_def wp_on_handler\<close>)
  qed
qed

lemma authenticated_outcome:
  assumes "fresh s" "rl_attempts (sv_log s) = []"
  shows "wp (proxy_authenticated co ou r protocol rid key) (\<lambda>_. request_outcome) s"
  unfolding proxy_authenticated_def
proof (rule wp_bind, rule wp_with_handler, rule wp_if, goal_cases)
  case (1 ok h)
  then show ?case by (intro with_headers_refused) (use assms in \<open>simp_all add: fresh_def\<close>)
next
  case (2 ok h)
  show ?case
    by (rule wp_bind, rule wp_mono [OF admitted_outcome]) (use assms in \<open>simp_all add: fresh_def wp_on_handler\<close>)
qed

lemma start_unchanged:
  "unchanged (\<lambda>s. (ds_status (sv_down s), ds_body (sv_down s), sv_log s, sv_handler s)) (start_response rid)"
  unfolding start_response_def set_header_def by (intro unchanged_rules; simp)+

lemma token_down: "wp (check_token co ou r protocol) (\<lambda>k s'. k \<noteq> None \<longrightarrow> sv_down s' = sv_down s) s"
  unfolding check_token_def reject_def writeError_def set_header_def by (intro wp_rules) simp_all

lemma authenticated_down: "wp (authenticate co ou r protocol) (\<lambda>k s'. k \<noteq> None \<longrightarrow> sv_down s' = sv_down s) s"
  unfolding authenticate_def
proof (rule wp_bind, rule wp_reads, rule wp_if, goal_cases)
  case 1
  show ?case unfolding reject_def writeError_def set_header_def by (intro wp_rules) simp_all
next
  case 2
  show ?case by (rule wp_bind, rule wp_on_handler, rule wp_bind, rule wp_mono [OF token_down]) (intro wp_rules, simp)
qed

lemma record_transcript: "unchanged transcript (handler_record ou entry)"
  unfolding handler_record_def by (intro unchanged_rules) simp_all

lemma proxy_outcome:
  assumes "ds_status (sv_down s) = None" "ds_body (sv_down s) = []"
  shows "wp (proxy co ou protocol r) (\<lambda>entry s'. entry \<noteq> None \<longrightarrow> request_outcome s' \<and> entry = Some (sv_log s')) s"
  unfolding proxy_def since_def bind_assoc bind_left_identity
proof (rule wp_bind, rule wp_outside, rule wp_bind, rule wp_outside, rule wp_bind, rule unchanged_wp [OF start_unchanged],
    rule wp_bind, rule wp_mono [OF authenticated_down], rule wp_option, goal_cases)
  case 1
  show ?case by (intro wp_rules) simp
next
  case (2 started w rid w1 x s1 k s2 key)
  show ?case
    by (rule wp_bind, rule wp_on_log, rule wp_bind, rule wp_mono [OF authenticated_outcome])
      (use 2 assms in \<open>auto simp: fresh_def new_log_def request_outcome_def answered_def transcript_def
         intro!: wp_rules unchanged_wp [OF record_transcript] split: option.splits\<close>)
qed

end
