(* ===== verification/Proxy_Guarantees.thy ===== *)
theory Proxy_Guarantees
  imports Proxy_Correct
begin

text \<open>
  The guarantees of the request path, over every behaviour of the client, the repository, the upstreams
  and the clock: resources, the log, failover, authentication and the health marks.
\<close>

section \<open>Whole requests\<close>

lemma wp_outside_eq: "f (sv_world s) = (x, w) \<Longrightarrow> Q x (s\<lparr>sv_world := w\<rparr>) \<Longrightarrow> wp (outside f) Q s"
  by (simp add: wp_def outside_def)

lemma record_resources: "unchanged resources (handler_record ou entry)"
  unfolding handler_record_def by (intro unchanged_rules) (simp_all add: resources_def Let_def)

lemma proxy_resources:
  assumes "gate_rep (hd_gate (sv_handler s)) M"
  shows "wp (proxy co ou protocol r) (\<lambda>_ s'. resources s' = resources s) s"
  unfolding proxy_def since_def bind_assoc bind_left_identity
proof (rule wp_bind, rule wp_outside, rule wp_bind, rule wp_outside, rule wp_bind, rule unchanged_wp [OF writes_unchanged(8)],
    rule wp_bind, rule unchanged_wp [OF authenticate_unchanged], rule wp_option, goal_cases)
  case 1
  then show ?case by (intro wp_rules) simp
next
  case (2 started w rid w1 y s1 k s2 key)
  then have same: "resources s2 = resources s" by simp
  then have "hd_gate (sv_handler s2) = hd_gate (sv_handler s)" by (simp add: resources_def Let_def)
  then have rep: "gate_rep (hd_gate (sv_handler (s2\<lparr>sv_log := new_log rid key protocol r started\<rparr>))) M" using assms by simp
  show ?case
    by (rule wp_bind, rule wp_on_log, rule wp_bind, rule wp_mono [OF authenticated_resources [OF rep]])
      (use same in \<open>auto intro!: wp_rules unchanged_wp [OF record_resources]\<close>)
qed

text \<open>A client with a valid key is served: the request is recorded, whatever becomes of it.\<close>

lemma proxy_records:
  assumes "client_token r protocol \<noteq> []" "ak_enabled key"
    and "\<And>w. \<exists>w'. ou_authenticate ou (client_token r protocol) w = (Inr key, w')" "\<And>w. \<exists>w'. ou_ctx ou w = (CtxLive, w')"
    and "hd_auth_slots (sv_handler s) < lm_max_concurrent (hd_limits (sv_handler s))"
  shows "wp (proxy co ou protocol r) (\<lambda>entry _. entry \<noteq> None) s"
proof -
  have auth: "wp (authenticate co ou r protocol) (\<lambda>k _. k \<noteq> None) s'" if "sv_handler s' = sv_handler s" for s'
    unfolding authenticate_def
  proof (rule wp_bind, rule wp_reads, rule wp_if, goal_cases)
    case 2
    obtain w1 where w1: "ou_authenticate ou (client_token r protocol) (sv_world s') = (Inr key, w1)" using assms(3) by blast
    obtain w2 where "ou_ctx ou w1 = (CtxLive, w2)" using assms(4) by blast
    then show ?case
      unfolding check_token_def
      by (intro wp_bind wp_on_handler) (simp add: assms(1),
          intro wp_bind, rule wp_outside_eq, simp, rule w1, rule wp_bind, rule wp_outside_eq, simp, simp add: assms(2),
          intro wp_rules, simp)
  qed (use assms(5) that in simp)
  show ?thesis
    unfolding proxy_def
    by (rule wp_bind, rule wp_outside, rule wp_bind, rule wp_outside, rule wp_bind, rule unchanged_wp [OF start_unchanged],
        rule wp_bind, rule wp_mono [OF auth], simp, rule wp_option, simp)
      (auto simp: wp_def split: prod.split)
qed

section \<open>A sample gateway\<close>

definition sample_key :: APIKey where
  "sample_key = \<lparr>ak_id = 3, ak_name = [], ak_group_id = 1, ak_group_name = [], ak_group_enabled = True, ak_prefix = [],
     ak_enabled = True, ak_protocols = [], ak_models = [], ak_last_used = None, ak_created_at = 0\<rparr>"

definition sample_codec :: Codec where
  "sample_codec = \<lparr>co_dec = (\<lambda>_. Some (JObj [(''model'', JStr ''m'')])), co_enc = (\<lambda>_. ''{}''), co_url = (\<lambda>_. Some sample_url),
     co_new_request = (\<lambda>_ _. None)\<rparr>"

definition sample_outside :: "unit Outside" where
  "sample_outside = \<lparr>ou_now = Pair 0, ou_request_id = Pair ''r'', ou_ctx = Pair CtxLive,
     ou_authenticate = (\<lambda>_. Pair (Inr sample_key)), ou_max_attempts = Pair (Some 3),
     ou_candidates = (\<lambda>_ _ _. Pair (Some [sample_upstream])), ou_available_models = (\<lambda>_. Pair (Some [])),
     ou_mark_success = (\<lambda>_. Pair Marked), ou_mark_failure = (\<lambda>_ _ _ _. Pair Marked), ou_record = (\<lambda>_. Pair ()),
     ou_health_lock = (\<lambda>_. Pair True), ou_health_done = Pair False, ou_read_body = Pair (Inr ''{}''),
     ou_do = (\<lambda>_ _. Pair (Inr \<lparr>re_status = 429, re_header = [], re_events = []\<rparr>)),
     ou_write_deadline = Pair True, ou_write = (\<lambda>_. Pair None), ou_flush = Pair True\<rparr>"

definition sample_serving :: "unit Serving" where
  "sample_serving = \<lparr>sv_handler = newHandler False [], sv_down = fresh_client,
     sv_log = new_log [] sample_key [] sample_request 0, sv_world = ()\<rparr>"

definition sample_call :: Call where
  "sample_call = \<lparr>ca_request = sample_request, ca_protocol = ProtocolChat, ca_request_id = ''r'',
     ca_payload = \<lparr>rp_model = ''m'', rp_stream = False\<rparr>\<rparr>"

definition keyed_request :: InRequest where
  "keyed_request = sample_request\<lparr>ir_header := [(''X-Api-Key'', [''k''])]\<rparr>"

lemma sample_token: "client_token keyed_request ProtocolMessages \<noteq> []"
proof -
  have "trim_space ''k'' = ''k''" "CanonicalHeaderKey ''X-Api-Key'' = ''X-Api-Key''"
    using canonical_names(4) by (simp_all add: trim_space_graphic graphic_def)
  then show ?thesis
    by (simp add: client_token_def keyed_request_def header_get_def header_values_def)
qed

lemma sample_runs:
  "\<exists>entry s'. run_state (proxy sample_codec sample_outside ProtocolMessages keyed_request) sample_serving = (Some entry, s')"
proof -
  have "wp (proxy sample_codec sample_outside ProtocolMessages keyed_request) (\<lambda>entry _. entry \<noteq> None) sample_serving"
    by (rule proxy_records [where key = sample_key])
      (simp_all add: sample_token sample_outside_def sample_key_def sample_serving_def newHandler_def new_limits_def
        cap_limits_def default_limits_def)
  then show ?thesis by (auto simp: wp_def split: prod.splits)
qed

text \<open>
  C4: every path gives back what it took. Whatever the client, the repository, the upstreams and the
  clock do, and on whichever path a request ends, the concurrency gate, the authentication slots and both
  memory budgets are afterwards exactly as before.
\<close>

theorem proxy_gives_back:
  assumes "gate_rep (hd_gate (sv_handler s)) M" "run_state (proxy co ou protocol r) s = (entry, s')"
  shows "hd_gate (sv_handler s') = hd_gate (sv_handler s)
    \<and> hd_auth_slots (sv_handler s') = hd_auth_slots (sv_handler s)
    \<and> hd_body_budget (sv_handler s') = hd_body_budget (sv_handler s)
    \<and> hd_response_budget (sv_handler s') = hd_response_budget (sv_handler s)"
  using wp_run [OF proxy_resources [OF assms(1)] assms(2)] by (simp add: resources_def Let_def)

theorem proxy_gives_back_witness:
  "\<exists>entry s'. run_state (proxy sample_codec sample_outside ProtocolMessages keyed_request) sample_serving = (Some entry, s')
     \<and> hd_gate (sv_handler s') = empty_gate"
proof -
  obtain entry s' where run: "run_state (proxy sample_codec sample_outside ProtocolMessages keyed_request) sample_serving
      = (Some entry, s')" using sample_runs by blast
  have "gate_rep (hd_gate (sv_handler sample_serving)) {#}"
    by (simp add: sample_serving_def newHandler_def gate_rep_empty)
  from proxy_gives_back [OF this run] run show ?thesis by (simp add: sample_serving_def newHandler_def)
qed

text \<open>
  C5: the log tells what the client got. The entry recorded for a request has the status that was sent
  to the client; if nothing was sent, it says that the client had closed. At most five upstreams were
  tried.
\<close>

theorem proxy_log_truthful:
  assumes "ds_status (sv_down s) = None" "ds_body (sv_down s) = []"
    and "run_state (proxy co ou protocol r) s = (Some entry, s')"
  shows "(case ds_status (sv_down s') of
            Some status \<Rightarrow> rl_status_code entry = status
          | None \<Rightarrow> ds_body (sv_down s') = [] \<and> rl_error_code entry = ''client_closed'')
    \<and> length (rl_attempts entry) \<le> 5"
  using wp_run [OF proxy_outcome [OF assms(1,2)] assms(3)] by (auto simp: request_outcome_def answered_def split: option.split)

theorem proxy_log_truthful_witness:
  "\<exists>entry s'. run_state (proxy sample_codec sample_outside ProtocolMessages keyed_request) sample_serving = (Some entry, s')
     \<and> length (rl_attempts entry) \<le> 5"
proof -
  obtain entry s' where run: "run_state (proxy sample_codec sample_outside ProtocolMessages keyed_request) sample_serving
      = (Some entry, s')" using sample_runs by blast
  from proxy_log_truthful [OF _ _ run] run show ?thesis by (simp add: sample_serving_def fresh_client_def)
qed

text \<open>
  C6: failover follows the priorities. The upstreams tried are the first of at most five candidates that
  support the request, in order of priority. A request is answered with the failure of all upstreams
  only when each of them was tried; the answer is 429 exactly when there was one and all were rate limited,
  and, if all answered, 504 exactly when all timed out, else 502.
\<close>

theorem failover_order:
  assumes "ds_status (sv_down s) = None" "ds_body (sv_down s) = []" "rl_error_code (sv_log s) = []"
    and "rl_attempts (sv_log s) = []"
    and "ou_max_attempts ou (sv_world s) = (Some n, w1)"
    and "ou_candidates ou i (ca_protocol ca) (rp_model (ca_payload ca)) w1 = (Some cs, w2)" "ou_now ou w2 = (now, w3)"
    and "run_state (proxy_route co ou ca i bodies) s = (x, s')"
    and "us = eligible_upstreams (ca_protocol ca) (rp_model (ca_payload ca)) now (clamp_max_attempts n) cs"
  shows "prefix (map at_upstream_id (rl_attempts (sv_log s'))) (map us_id us)
    \<and> length us \<le> 5 \<and> sorted (map us_priority us)
    \<and> (\<forall>u \<in> set us. u \<in> set cs \<and> Supports u (ca_protocol ca) (rp_model (ca_payload ca)) now)
    \<and> (rl_error_code (sv_log s') \<in> giving_up \<longrightarrow>
         length (rl_attempts (sv_log s')) = length us
         \<and> failure_logged (us \<noteq> []) (us \<noteq> []) (rl_attempts (sv_log s')) (sv_log s'))"
proof -
  have "fresh s" using assms(1-3) by (simp add: fresh_def)
  have "wp (proxy_route co ou ca i bodies) (\<lambda>_ s'. attempts_outcome (us \<noteq> []) (us \<noteq> []) us [] s') s"
    unfolding proxy_route_def
  proof (rule wp_bind, rule wp_outside_eq, rule assms(5), simp, rule wp_bind, rule wp_outside_eq, simp, rule assms(6),
      simp, rule wp_bind, rule wp_outside_eq, simp, rule assms(7), simp add: Let_def assms(9) [symmetric])
    have "fresh (s\<lparr>sv_world := w3\<rparr>)" using \<open>fresh s\<close> by simp
    from attempts_outcome [OF this] assms(4)
    show "wp (proxy_attempts co ou ca (us \<noteq> []) (us \<noteq> []) bodies us) (\<lambda>_. attempts_outcome (us \<noteq> []) (us \<noteq> []) us [])
      (s\<lparr>sv_world := w3\<rparr>)" by fastforce
  qed
  from wp_run [OF this assms(8)] eligible_facts assms(9) show ?thesis
    by (auto simp: attempts_outcome_def gave_up_def)
qed

theorem failover_order_witness:
  "\<exists>x s'. run_state (proxy_route sample_codec sample_outside sample_call 1
       \<lparr>qb_body = [], qb_model = ''m'', qb_rewritten = []\<rparr>) sample_serving = (x, s')
     \<and> prefix (map at_upstream_id (rl_attempts (sv_log s'))) [7]"
proof -
  obtain x s' where run: "run_state (proxy_route sample_codec sample_outside sample_call 1
      \<lparr>qb_body = [], qb_model = ''m'', qb_rewritten = []\<rparr>) sample_serving = (x, s')" by (rule prod.exhaust)
  have "eligible_upstreams ProtocolChat ''m'' 0 (clamp_max_attempts 3) [sample_upstream] = [sample_upstream]"
    by (simp add: eligible_upstreams_def clamp_max_attempts_def Supports_def sample_upstream_def circuit_open_def
        ProtocolChat_def)
  then show ?thesis
    using failover_order [OF _ _ _ _ _ _ _ run, of 3 "()" "[sample_upstream]" "()" 0 "()" "[sample_upstream]"] run
    by (simp add: sample_serving_def fresh_client_def new_log_def sample_outside_def sample_call_def) (simp add: sample_upstream_def)
qed

text \<open>
  A failed attempt leaves no trace. When an attempt fails over to the next upstream the response to
  the client is untouched, and the log has one more attempt and is otherwise as before.
\<close>

theorem failover_leaves_no_trace:
  assumes "ds_status (sv_down s) = None" "ds_body (sv_down s) = []" "rl_error_code (sv_log s) = []"
    and "run_state (proxy_attempt co ou ca u bodies) s = ((Failover limited timed_out, bodies'), s')"
  shows "sv_down s' = sv_down s
    \<and> (\<exists>a. at_upstream_id a = us_id u \<and> sv_log s' = (sv_log s)\<lparr>rl_attempts := rl_attempts (sv_log s) @ [a]\<rparr>)"
proof -
  have "fresh s" using assms(1-3) by (simp add: fresh_def)
  from wp_run [OF attempt_outcome [OF this] assms(4)] show ?thesis by (auto simp: attempt_outcome_def)
qed

lemma sample_failover:
  "wp (proxy_attempt (sample_codec\<lparr>co_url := \<lambda>_. None\<rparr>) sample_outside sample_call sample_upstream
     \<lparr>qb_body = [], qb_model = ''m'', qb_rewritten = []\<rparr>) (\<lambda>(v, _) _. \<exists>l t. v = Failover l t) sample_serving"
proof -
  have req: "\<exists>b. attempt_request (sample_codec\<lparr>co_url := \<lambda>_. None\<rparr>) sample_call sample_upstream
      \<lparr>qb_body = [], qb_model = ''m'', qb_rewritten = []\<rparr> = (Inl (PlainError ''invalid upstream URL''), b)"
    by (simp add: attempt_request_def forModel_def sample_call_def UpstreamModel_def alias_of_def sample_upstream_def
        upstreamRequest_def)
  have live: "wp (outside (ou_ctx sample_outside)) (\<lambda>ctx _. ctx = CtxLive) s" for s
    by (rule wp_outside_eq) (simp_all add: sample_outside_def)
  have "wp (attempt_failed co sample_outside ca u started a (PlainError e)) (\<lambda>v _. \<exists>l t. v = Failover l t) s"
    for co ca u started a e s
    unfolding attempt_failed_def since_def add_attempt_def bind_assoc bind_left_identity
    by (rule wp_bind, rule wp_outside, rule wp_bind, rule wp_outside, rule wp_bind, rule wp_on_log, rule wp_bind,
        rule wp_mono [OF live]) (auto intro!: wp_rules)
  then show ?thesis
    unfolding proxy_attempt_def using req
    by (intro wp_bind wp_outside wp_return) (auto intro!: wp_bind wp_mono [OF _ wp_return])
qed

theorem failover_leaves_no_trace_witness:
  "\<exists>l t b s'. run_state (proxy_attempt (sample_codec\<lparr>co_url := \<lambda>_. None\<rparr>) sample_outside sample_call sample_upstream
       \<lparr>qb_body = [], qb_model = ''m'', qb_rewritten = []\<rparr>) sample_serving = ((Failover l t, b), s') \<and> sv_down s' = fresh_client"
proof -
  obtain l t b s' where run: "run_state (proxy_attempt (sample_codec\<lparr>co_url := \<lambda>_. None\<rparr>) sample_outside sample_call
      sample_upstream \<lparr>qb_body = [], qb_model = ''m'', qb_rewritten = []\<rparr>) sample_serving = ((Failover l t, b), s')"
    using sample_failover by (auto simp: wp_def split: prod.splits)
  from failover_leaves_no_trace [OF _ _ _ run] run show ?thesis
    by (simp add: sample_serving_def fresh_client_def new_log_def)
qed

text \<open>
  Who is refused and how, over the answers of the world: the status, or nothing for a client that has gone.
\<close>

definition token_refusal :: "'w Outside \<Rightarrow> InRequest \<Rightarrow> string \<Rightarrow> 'w \<Rightarrow> int option option" where
  "token_refusal ou r protocol w0 =
     (if client_token r protocol = [] then Some (Some 401)
      else case ou_authenticate ou (client_token r protocol) w0 of (res, w) \<Rightarrow>
        (case fst (ou_ctx ou w) of
           CtxErrCanceled \<Rightarrow> Some None
         | CtxErrDeadline \<Rightarrow> Some (Some 504)
         | CtxLive \<Rightarrow> (case res of
               Inl AuthInvalid \<Rightarrow> Some (Some 401)
             | Inl AuthUnavailable \<Rightarrow> Some (Some 500)
             | Inr key \<Rightarrow> if ak_enabled key then None else Some (Some 401))))"

definition refusal :: "'w Outside \<Rightarrow> InRequest \<Rightarrow> string \<Rightarrow> Handler \<Rightarrow> 'w \<Rightarrow> int option option" where
  "refusal ou r protocol h w =
     (if lm_max_concurrent (hd_limits h) \<le> hd_auth_slots h then Some (Some 429) else token_refusal ou r protocol w)"

definition answered :: "'w Serving \<Rightarrow> int option option \<Rightarrow> 'a option \<Rightarrow> 'w Serving \<Rightarrow> bool" where
  "answered s refused k s' \<longleftrightarrow> sv_handler s' = sv_handler s \<and> sv_log s' = sv_log s
    \<and> (case refused of None \<Rightarrow> k \<noteq> None | Some status \<Rightarrow> k = None \<and> ds_status (sv_down s') = status)"

lemma wp_outside_exact:
  "Q (fst (f (sv_world s))) (s\<lparr>sv_world := snd (f (sv_world s))\<rparr>) \<Longrightarrow> wp (outside f) Q s"
  by (rule wp_outside_eq [of f s "fst (f (sv_world s))" "snd (f (sv_world s))"]) simp_all

lemma check_token_answered:
  assumes "ds_status (sv_down s) = None"
  shows "wp (check_token co ou r protocol) (answered s (token_refusal ou r protocol (sv_world s))) s"
  unfolding check_token_def reject_def writeError_def set_header_def
  using assms
  by (intro wp_if wp_bind wp_outside_exact wp_sum wp_return wp_on_down)
    (auto simp: answered_def token_refusal_def split: prod.split auth_error.split ctx_err.split)

lemma authenticate_answered:
  assumes "ds_status (sv_down s) = None"
  shows "wp (authenticate co ou r protocol) (answered s (refusal ou r protocol (sv_handler s) (sv_world s))) s"
  unfolding authenticate_def
proof (rule wp_bind, rule wp_reads, rule wp_if, goal_cases)
  case 1
  then show ?case
    unfolding reject_def writeError_def set_header_def
    by (intro wp_rules) (simp_all add: answered_def refusal_def assms)
next
  case 2
  have "auth_slot (- 1) (auth_slot 1 h) = h" for h by (simp add: auth_slot_def)
  then show ?case using 2 assms
    by (intro wp_bind wp_on_handler) (rule wp_mono [OF check_token_answered],
      auto intro!: wp_rules simp: answered_def refusal_def split: option.splits)
qed

lemma start_keeps: "unchanged (\<lambda>s. (ds_status (sv_down s), sv_log s, sv_handler s, sv_world s)) (start_response rid)"
  unfolding start_response_def set_header_def by (intro unchanged_rules; simp)+

text \<open>
  C7: exactly the clients that authenticate get in. A client is refused with 429 when all authentication
  slots are taken, 401 without a token or with an unknown or disabled key, 504 when the request's time is
  over, 500 when keys cannot be checked, and with silence exactly when the client itself has gone; then
  the handler (gates, limits, budgets, clients, recorded logs, health marks) is as before and nothing is
  logged. Every other client's request is served and logged.
\<close>

theorem unauthenticated_refused:
  assumes "ds_status (sv_down s) = None"
    and "w = snd (ou_request_id ou (snd (ou_now ou (sv_world s))))"
    and "run_state (proxy co ou protocol r) s = (entry, s')"
  shows "case refusal ou r protocol (sv_handler s) w of
      None \<Rightarrow> entry \<noteq> None
    | Some status \<Rightarrow> entry = None \<and> sv_handler s' = sv_handler s \<and> sv_log s' = sv_log s \<and> ds_status (sv_down s') = status"
proof -
  have "wp (proxy co ou protocol r) (\<lambda>entry s'. case refusal ou r protocol (sv_handler s) w of
      None \<Rightarrow> entry \<noteq> None
    | Some status \<Rightarrow> entry = None \<and> sv_handler s' = sv_handler s \<and> sv_log s' = sv_log s \<and> ds_status (sv_down s') = status) s"
    unfolding proxy_def
  proof (rule wp_bind, rule wp_outside_exact, rule wp_bind, rule wp_outside_exact, rule wp_bind, rule unchanged_wp [OF start_keeps],
      rule wp_bind, rule wp_mono [OF authenticate_answered], goal_cases)
    case (1 x s1)
    then show ?case using assms(1) by simp
  next
    case (2 x s1 k s2)
    then have "answered s (refusal ou r protocol (sv_handler s) w) k s2" using assms(2) by (simp add: answered_def)
    then show ?case
      by (cases k) (auto intro!: wp_rules simp: wp_def answered_def split: prod.split option.splits)
  qed
  from wp_run [OF this assms(3)] show ?thesis .
qed

theorem unauthenticated_refused_witness:
  "\<exists>s'. run_state (proxy sample_codec sample_outside ProtocolChat (sample_request\<lparr>ir_header := []\<rparr>)) sample_serving
     = (None, s') \<and> sv_handler s' = sv_handler sample_serving \<and> ds_status (sv_down s') = Some 401"
proof -
  let ?r = "sample_request\<lparr>ir_header := []\<rparr>"
  obtain entry s' where run: "run_state (proxy sample_codec sample_outside ProtocolChat ?r) sample_serving = (entry, s')"
    by fastforce
  have "client_token ?r ProtocolChat = []"
    by (simp add: client_token_def bearer_token_def header_get_def header_values_def fields_of_def)
  moreover have "hd_auth_slots (sv_handler sample_serving) < lm_max_concurrent (hd_limits (sv_handler sample_serving))"
    by code_simp
  ultimately have "refusal sample_outside ?r ProtocolChat (sv_handler sample_serving) w = Some (Some 401)" for w
    by (simp add: refusal_def token_refusal_def)
  with unauthenticated_refused [OF _ refl run] run show ?thesis
    by (simp add: sample_serving_def fresh_client_def)
qed

section \<open>Health marks\<close>

lemma lock_free:
  assumes "\<And>w. ou_health_lock ou i w = (True, w)" "\<And>w. ou_health_done ou w = (False, w)"
  shows "wp (lockUpstreamHealth ou i) (\<lambda>b s'. b \<and> s' = s\<lparr>sv_handler := retain_health i (sv_handler s)\<rparr>) s"
  unfolding lockUpstreamHealth_def
  by (rule wp_bind, rule wp_on_handler, rule wp_bind, rule wp_outside_eq, rule assms(1), rule wp_if, rule wp_bind,
      rule wp_outside_eq, rule assms(2)) (simp_all add: wp_return)

text \<open>The entry of an upstream before and after a mark, of which \<open>b\<close> is the failure it leaves outstanding.\<close>

definition health_left :: "int \<Rightarrow> bool \<Rightarrow> Handler \<Rightarrow> Handler \<Rightarrow> bool" where
  "health_left i b h h' \<longleftrightarrow> hs_pending (health_of h' i) = b \<and> hs_references (health_of h' i) = hs_references (health_of h i)
     \<and> (hs_references (health_of h i) = 0 \<longrightarrow> (hd_health h' i = None \<longleftrightarrow> \<not> b)) \<and> (\<forall>j. j \<noteq> i \<longrightarrow> hd_health h' j = hd_health h j)"

lemma release_left:
  "health_left i (hs_pending (health_of h i)) h (releaseUpstreamHealth i (retain_health i h))"
  "health_left i b h (releaseUpstreamHealth i (set_pending i b (retain_health i h)))"
  by (auto simp: health_left_def health_of_def retain_health_def releaseUpstreamHealth_def set_pending_def Let_def
      split: option.split)

text \<open>
  Successes are written when they matter. When the semaphore of the upstream is free, a success is
  written to the store exactly if the upstream is not yet known to be healthy or a failure was written
  since; afterwards a failure is outstanding only if that write failed, and the entry of an upstream
  that nobody holds stays only for an outstanding failure.
\<close>

theorem success_write_exact:
  assumes "\<And>w. ou_health_lock ou (us_id u) w = (True, w)" "\<And>w. ou_health_done ou w = (False, w)"
    and "ou_mark_success ou u (sv_world s) = (res, w')" "run_state (markSuccess ou u) s = (x, s')"
    and "needed = (needsSuccessWrite u \<or> hs_pending (health_of (sv_handler s) (us_id u)))"
    and "hs_references (health_of (sv_handler s) (us_id u)) = n"
  shows "sv_world s' = (if needed then w' else sv_world s)
    \<and> hs_pending (health_of (sv_handler s') (us_id u)) = (hs_pending (health_of (sv_handler s) (us_id u)) \<and> res \<noteq> Marked)
    \<and> hs_references (health_of (sv_handler s') (us_id u)) = n
    \<and> (n = 0 \<longrightarrow> (hd_health (sv_handler s') (us_id u) = None \<longleftrightarrow> \<not> hs_pending (health_of (sv_handler s') (us_id u))))
    \<and> (\<forall>i. i \<noteq> us_id u \<longrightarrow> hd_health (sv_handler s') i = hd_health (sv_handler s) i)"
proof -
  let ?pending = "hs_pending (health_of (sv_handler s) (us_id u))"
  have "wp (markSuccess ou u) (\<lambda>_ s'. sv_world s' = (if needed then w' else sv_world s)
    \<and> health_left (us_id u) (?pending \<and> res \<noteq> Marked) (sv_handler s) (sv_handler s')) s"
    unfolding markSuccess_def unlockUpstreamHealth_def
  proof (rule wp_bind, rule wp_mono [OF lock_free [OF assms(1,2)]], clarify, rule wp_if, simp, rule wp_bind, rule wp_reads,
      rule wp_if, goal_cases)
    case 1
    then show ?case
      using assms(5) release_left(1) [of "us_id u" "sv_handler s"]
      by (intro wp_on_handler) (simp add: health_of_def retain_health_def)
  next
    case 2
    then have "needed" using assms(5) by (simp add: health_of_def retain_health_def)
    then show ?case
      using release_left(1) [of "us_id u" "sv_handler s"] release_left(2) [of "us_id u" False "sv_handler s"]
      by (intro wp_bind) (rule wp_outside_eq, simp, rule assms(3), intro wp_rules, simp_all)
  qed
  from wp_run [OF this assms(4)] assms(6) show ?thesis by (auto simp: health_left_def)
qed

theorem success_write_exact_witness:
  "\<exists>s'. run_state (markSuccess sample_outside sample_upstream) sample_serving = ((), s')
     \<and> hd_health (sv_handler s') 7 = None"
proof -
  obtain s' where run: "run_state (markSuccess sample_outside sample_upstream) sample_serving = ((), s')"
    by (metis (full_types) old.unit.exhaust surj_pair)
  from success_write_exact [OF _ _ _ run refl refl] run show ?thesis
    by (auto simp: sample_outside_def sample_serving_def newHandler_def health_of_def sample_upstream_def)
qed

end
