(* ===== verification/Outbox.thy ===== *)
theory Outbox
  imports JSON_Values Safe_Error "HOL-Library.Product_Lexorder"
begin

text \<open>
  The notification outbox of \<open>internal/store/notifications.go\<close>: jobs are leased to a worker for a while, and
  every report of a worker is fenced by the version of its lease. A statement is atomic and sees one
  \<open>now()\<close>; a transaction that fails leaves the tables as they were. Payloads are the values of the
  \<open>jsonb\<close> column. Rows locked by another transaction, which a claim skips, do not arise between atomic
  statements.
\<close>

section \<open>Tables\<close>

record OutboxRow =
  ob_id :: int
  ob_channel :: "int option"
  ob_payload :: json
  ob_attempts :: int
  ob_next :: time
  ob_last_error :: string
  ob_dead :: "time option"
  ob_lease :: int

record ChannelRow =
  ch_id :: int
  ch_name :: string
  ch_enabled :: bool

record ArchivedEvent =
  ae_upstream :: "int option"
  ae_event :: string
  ae_state :: string
  ae_message :: string
  ae_payload :: json

record OutboxDB =
  od_rows :: "OutboxRow list"
  od_channels :: "ChannelRow list"
  od_events :: "ArchivedEvent list"
  od_upstream_ids :: "int list"
  od_next_id :: int

record NotificationJob =
  nj_lease :: int
  nj_id :: int
  nj_channel :: int
  nj_payload :: json
  nj_attempts :: int

datatype outbox_error = ErrNotificationLeaseLost | OutboxNotNull | OutboxBadCast | OutboxForeignKey | StatementFailed

section \<open>Enqueueing\<close>

text \<open>\<open>p->>'name'\<close>: the text of a field, NULL when it is missing or null; \<open>enc\<close> is the text of a nested value.\<close>

definition text_field :: "(json \<Rightarrow> string) \<Rightarrow> string \<Rightarrow> json \<Rightarrow> string option" where
  "text_field enc name p =
     (case p of
        JObj es \<Rightarrow>
          (case map_of (rev es) name of
             Some (JStr s) \<Rightarrow> Some s
           | Some (JNum n) \<Rightarrow> Some n
           | Some (JBool b) \<Rightarrow> Some (if b then ''true'' else ''false'')
           | Some (JArr vs) \<Rightarrow> Some (enc (JArr vs))
           | Some (JObj fs) \<Rightarrow> Some (enc (JObj fs))
           | _ \<Rightarrow> None)
      | _ \<Rightarrow> None)"

definition archived_types :: "string list" where
  "archived_types = [''error_rate'', ''latency'', ''low_balance'', ''balance_unavailable'', ''client_error_rate'',
     ''login_failure'', ''new_login_ip'']"

definition archive_event :: "(json \<Rightarrow> string) \<Rightarrow> json \<Rightarrow> OutboxDB \<Rightarrow> outbox_error + OutboxDB" where
  "archive_event enc p db =
     (case text_field enc ''type'' p of
        None \<Rightarrow> Inr db
      | Some t \<Rightarrow>
          if t \<notin> set archived_types then Inr db
          else let upstream = (case text_field enc ''upstream_id'' p of
                                 None \<Rightarrow> Some 0 | Some x \<Rightarrow> parse_int64 x)
               in case (upstream, text_field enc ''state'' p, text_field enc ''message'' p) of
                    (None, _, _) \<Rightarrow> Inl OutboxBadCast
                  | (Some u, Some st, Some msg) \<Rightarrow>
                      Inr (db\<lparr>od_events := od_events db @ [\<lparr>ae_upstream = (if u \<noteq> 0 \<and> u \<in> set (od_upstream_ids db) then Some u else None),
                        ae_event = t, ae_state = st, ae_message = msg, ae_payload = p\<rparr>]\<rparr>)
                  | _ \<Rightarrow> Inl OutboxNotNull)"

definition insert_job :: "int option \<Rightarrow> json \<Rightarrow> time \<Rightarrow> OutboxDB \<Rightarrow> OutboxDB" where
  "insert_job channel p not_before db =
     db\<lparr>od_rows := od_rows db @ [\<lparr>ob_id = od_next_id db, ob_channel = channel, ob_payload = p, ob_attempts = 0,
          ob_next = not_before, ob_last_error = [], ob_dead = None, ob_lease = 0\<rparr>],
        od_next_id := od_next_id db + 1\<rparr>"

fun insert_jobs :: "int list \<Rightarrow> json \<Rightarrow> time \<Rightarrow> OutboxDB \<Rightarrow> outbox_error + OutboxDB" where
  "insert_jobs [] p not_before db = Inr db"
| "insert_jobs (c # cs) p not_before db =
     (if c \<notin> ch_id ` set (od_channels db) then Inl OutboxForeignKey
      else insert_jobs cs p not_before (insert_job (Some c) p not_before db))"

definition EnqueueNotificationsForChannels ::
  "(json \<Rightarrow> string) \<Rightarrow> int list \<Rightarrow> json \<Rightarrow> time \<Rightarrow> OutboxDB \<Rightarrow> outbox_error option \<times> OutboxDB" where
  "EnqueueNotificationsForChannels enc channels p not_before db =
     (case archive_event enc p db of
        Inl e \<Rightarrow> (Some e, db)
      | Inr db1 \<Rightarrow>
          if channels = [] then (None, insert_job None p not_before db1)
          else case insert_jobs channels p not_before db1 of
                 Inl e \<Rightarrow> (Some e, db)
               | Inr db2 \<Rightarrow> (None, db2))"

definition EnqueueNotification :: "(json \<Rightarrow> string) \<Rightarrow> json \<Rightarrow> time \<Rightarrow> OutboxDB \<Rightarrow> outbox_error option \<times> OutboxDB" where
  "EnqueueNotification enc p not_before db = EnqueueNotificationsForChannels enc [] p not_before db"

definition EnqueueNotificationForChannel :: "int \<Rightarrow> json \<Rightarrow> time \<Rightarrow> OutboxDB \<Rightarrow> outbox_error option \<times> OutboxDB" where
  "EnqueueNotificationForChannel c p not_before db =
     (if c \<notin> ch_id ` set (od_channels db) then (Some OutboxForeignKey, db)
      else (None, insert_job (Some c) p not_before db))"

definition ListEnabledChannelIDs :: "OutboxDB \<Rightarrow> int list" where
  "ListEnabledChannelIDs db = sort (map ch_id (filter ch_enabled (od_channels db)))"

text \<open>Deleting a channel deletes its jobs (\<open>ON DELETE CASCADE\<close>).\<close>

definition DeleteChannel :: "int \<Rightarrow> OutboxDB \<Rightarrow> bool \<times> OutboxDB" where
  "DeleteChannel c db =
     (if c \<notin> ch_id ` set (od_channels db) then (False, db)
      else (True, db\<lparr>od_channels := filter (\<lambda>x. ch_id x \<noteq> c) (od_channels db),
                     od_rows := filter (\<lambda>r. ob_channel r \<noteq> Some c) (od_rows db)\<rparr>))"

section \<open>Leases\<close>

definition lease_seconds :: "int \<Rightarrow> int" where
  "lease_seconds attempts = min 900 (max 60 ((attempts + 1) * 60))"

definition due :: "time \<Rightarrow> OutboxRow \<Rightarrow> bool" where
  "due now r \<longleftrightarrow> ob_dead r = None \<and> ob_next r \<le> now"

definition picked :: "nat \<Rightarrow> time \<Rightarrow> OutboxDB \<Rightarrow> OutboxRow list" where
  "picked limit now db = take limit (sort_key (\<lambda>r. (ob_next r, ob_id r)) (filter (due now) (od_rows db)))"

definition lease_row :: "time \<Rightarrow> OutboxRow \<Rightarrow> OutboxRow" where
  "lease_row now r = r\<lparr>ob_attempts := ob_attempts r + 1, ob_lease := ob_lease r + 1,
     ob_next := now + lease_seconds (ob_attempts r) * second\<rparr>"

definition job_of :: "OutboxRow \<Rightarrow> NotificationJob" where
  "job_of r = \<lparr>nj_lease = ob_lease r, nj_id = ob_id r, nj_channel = (case ob_channel r of None \<Rightarrow> 0 | Some c \<Rightarrow> c),
     nj_payload = ob_payload r, nj_attempts = ob_attempts r\<rparr>"

text \<open>\<open>RETURNING\<close> gives the updated rows in an order SQL does not fix; here it is that of the pick.\<close>

definition ClaimNotificationJobs :: "int \<Rightarrow> time \<Rightarrow> OutboxDB \<Rightarrow> NotificationJob list \<times> OutboxDB" where
  "ClaimNotificationJobs limit now db =
     (let ps = picked (nat (if limit \<le> 0 then 20 else limit)) now db
      in (map (job_of \<circ> lease_row now) ps,
          db\<lparr>od_rows := map (\<lambda>r. if ob_id r \<in> ob_id ` set ps then lease_row now r else r) (od_rows db)\<rparr>))"

text \<open>The condition of every report: the lease is the job's, the job is not dead and the lease has not run out.\<close>

definition holds_lease :: "NotificationJob \<Rightarrow> time \<Rightarrow> OutboxRow \<Rightarrow> bool" where
  "holds_lease j now r \<longleftrightarrow> ob_id r = nj_id j \<and> ob_lease r = nj_lease j \<and> ob_dead r = None \<and> ob_next r > now"

definition lease_result :: "NotificationJob \<Rightarrow> time \<Rightarrow> OutboxDB \<Rightarrow> outbox_error option" where
  "lease_result j now db =
     (if length (filter (holds_lease j now) (od_rows db)) \<noteq> 1 then Some ErrNotificationLeaseLost else None)"

definition update_leased ::
  "(OutboxRow \<Rightarrow> OutboxRow) \<Rightarrow> NotificationJob \<Rightarrow> time \<Rightarrow> OutboxDB \<Rightarrow> outbox_error option \<times> OutboxDB" where
  "update_leased f j now db =
     (lease_result j now db, db\<lparr>od_rows := map (\<lambda>r. if holds_lease j now r then f r else r) (od_rows db)\<rparr>)"

definition RenewNotification :: "NotificationJob \<Rightarrow> time \<Rightarrow> OutboxDB \<Rightarrow> outbox_error option \<times> OutboxDB" where
  "RenewNotification j now = update_leased (\<lambda>r. r\<lparr>ob_next := now + 60 * second\<rparr>) j now"

definition CompleteNotification :: "NotificationJob \<Rightarrow> time \<Rightarrow> OutboxDB \<Rightarrow> outbox_error option \<times> OutboxDB" where
  "CompleteNotification j now db =
     (lease_result j now db, db\<lparr>od_rows := filter (\<lambda>r. \<not> holds_lease j now r) (od_rows db)\<rparr>)"

text \<open>The message is cut to 2000 bytes and then to the longest valid UTF-8.\<close>

function valid_utf8_from :: "nat list \<Rightarrow> bool" where
  "valid_utf8_from [] = True"
| "valid_utf8_from (b # bs) =
     (if rune_width (b # bs) = 1 \<and> b \<ge> 128 then False else valid_utf8_from (drop (rune_width (b # bs) - 1) bs))"
  by pat_completeness auto
termination by (relation "measure length") auto

definition valid_utf8 :: "string \<Rightarrow> bool" where
  "valid_utf8 s \<longleftrightarrow> valid_utf8_from (map of_char s)"

function cut_valid :: "string \<Rightarrow> string" where
  "cut_valid s = (if valid_utf8 s then s else cut_valid (butlast s))"
  by pat_completeness auto
termination
proof (relation "measure length", goal_cases)
  case (2 s)
  then have "s \<noteq> []" by (auto simp: valid_utf8_def)
  then show ?case by (cases s rule: rev_cases) auto
qed simp

declare cut_valid.simps [simp del]

definition stored_message :: "string \<Rightarrow> string" where
  "stored_message message =
     (let m = Text (Some (PlainError message)) []
      in if length m > 2000 then cut_valid (take 2000 m) else m)"

definition FailNotification ::
  "NotificationJob \<Rightarrow> string \<Rightarrow> time \<Rightarrow> time \<Rightarrow> OutboxDB \<Rightarrow> outbox_error option \<times> OutboxDB" where
  "FailNotification j message next_attempt now =
     update_leased (\<lambda>r. r\<lparr>ob_last_error := stored_message message, ob_next := next_attempt, ob_lease := ob_lease r + 1\<rparr>) j now"

definition MarkDeadNotification :: "NotificationJob \<Rightarrow> string \<Rightarrow> time \<Rightarrow> OutboxDB \<Rightarrow> outbox_error option \<times> OutboxDB" where
  "MarkDeadNotification j message now =
     update_leased (\<lambda>r. r\<lparr>ob_last_error := stored_message message, ob_dead := Some now, ob_lease := ob_lease r + 1\<rparr>) j now"

section \<open>Dead letters\<close>

definition NotificationCounts :: "OutboxDB \<Rightarrow> nat \<times> nat" where
  "NotificationCounts db =
     (length (filter (\<lambda>r. ob_dead r = None) (od_rows db)), length (filter (\<lambda>r. ob_dead r \<noteq> None) (od_rows db)))"

definition RetryDeadNotification :: "int \<Rightarrow> time \<Rightarrow> OutboxDB \<Rightarrow> bool \<times> OutboxDB" where
  "RetryDeadNotification i now db =
     (let hit = (\<lambda>r. ob_id r = i \<and> ob_dead r \<noteq> None \<and>
                   (\<exists>c \<in> set (od_channels db). ob_channel r = Some (ch_id c) \<and> ch_enabled c))
      in (length (filter hit (od_rows db)) = 1,
          db\<lparr>od_rows := map (\<lambda>r. if hit r then r\<lparr>ob_attempts := 0, ob_last_error := [], ob_dead := None, ob_next := now,
                ob_lease := ob_lease r + 1\<rparr> else r) (od_rows db)\<rparr>))"

record DeadLetter =
  dl_id :: int
  dl_channel_id :: int
  dl_channel_name :: string
  dl_attempts :: int
  dl_last_error :: string
  dl_dead_at :: time
  dl_retryable :: bool

definition dead_letter :: "OutboxDB \<Rightarrow> OutboxRow \<Rightarrow> DeadLetter" where
  "dead_letter db r =
     (let c = find (\<lambda>c. ob_channel r = Some (ch_id c)) (od_channels db)
      in \<lparr>dl_id = ob_id r, dl_channel_id = (case ob_channel r of None \<Rightarrow> 0 | Some i \<Rightarrow> i),
          dl_channel_name = (case c of None \<Rightarrow> [] | Some c \<Rightarrow> ch_name c), dl_attempts = ob_attempts r,
          dl_last_error = Text (Some (PlainError (ob_last_error r))) [], dl_dead_at = the (ob_dead r),
          dl_retryable = (case c of None \<Rightarrow> False | Some c \<Rightarrow> ch_enabled c)\<rparr>)"

text \<open>Newest first, from an offset or from after a cursor (its instant and identifier).\<close>

definition listDeadNotifications :: "int \<Rightarrow> nat \<Rightarrow> (time \<times> int) option \<Rightarrow> OutboxDB \<Rightarrow> DeadLetter list" where
  "listDeadNotifications offset limit cursor db =
     (let offset = (if offset < 0 then 0 else if offset > 100000 then 100000 else offset);
          key = (\<lambda>r. (the (ob_dead r), ob_id r));
          rows = filter (\<lambda>r. ob_dead r \<noteq> None \<and> (case cursor of None \<Rightarrow> True | Some c \<Rightarrow> key r < c)) (od_rows db)
      in map (dead_letter db) (take limit (drop (nat offset) (rev (sort_key key rows)))))"

definition ListDeadNotifications :: "int \<Rightarrow> OutboxDB \<Rightarrow> DeadLetter list" where
  "ListDeadNotifications offset db = listDeadNotifications offset 50 None db"

section \<open>Runs of the outbox\<close>

text \<open>
  Any number of workers, and administrators, run statements in any order, with any jobs as arguments. The
  history keeps the jobs handed out and the reports that were accepted.
\<close>

datatype OutboxStep =
    OEnqueue "int list" json time
  | OEnqueueFor int json time
  | OClaim int
  | ORenew NotificationJob
  | OComplete NotificationJob
  | OFail NotificationJob string time
  | ODead NotificationJob string
  | ORetry int
  | ODeleteChannel int

record OutboxRun =
  or_db :: OutboxDB
  or_handed :: "NotificationJob list"
  or_settled :: "NotificationJob list"

definition settle :: "NotificationJob \<Rightarrow> outbox_error option \<times> OutboxDB \<Rightarrow> OutboxRun \<Rightarrow> OutboxRun" where
  "settle j res s = s\<lparr>or_db := snd res, or_settled := (if fst res = None then or_settled s @ [j] else or_settled s)\<rparr>"

fun outbox_step :: "(json \<Rightarrow> string) \<Rightarrow> OutboxStep \<times> time \<Rightarrow> OutboxRun \<Rightarrow> OutboxRun" where
  "outbox_step enc (OEnqueue cs p nb, now) s = s\<lparr>or_db := snd (EnqueueNotificationsForChannels enc cs p nb (or_db s))\<rparr>"
| "outbox_step enc (OEnqueueFor c p nb, now) s = s\<lparr>or_db := snd (EnqueueNotificationForChannel c p nb (or_db s))\<rparr>"
| "outbox_step enc (OClaim limit, now) s =
     s\<lparr>or_db := snd (ClaimNotificationJobs limit now (or_db s)),
       or_handed := or_handed s @ fst (ClaimNotificationJobs limit now (or_db s))\<rparr>"
| "outbox_step enc (ORenew j, now) s = s\<lparr>or_db := snd (RenewNotification j now (or_db s))\<rparr>"
| "outbox_step enc (OComplete j, now) s = settle j (CompleteNotification j now (or_db s)) s"
| "outbox_step enc (OFail j m t, now) s = settle j (FailNotification j m t now (or_db s)) s"
| "outbox_step enc (ODead j m, now) s = settle j (MarkDeadNotification j m now (or_db s)) s"
| "outbox_step enc (ORetry i, now) s = s\<lparr>or_db := snd (RetryDeadNotification i now (or_db s))\<rparr>"
| "outbox_step enc (ODeleteChannel c, now) s = s\<lparr>or_db := snd (DeleteChannel c (or_db s))\<rparr>"

definition outbox_run :: "(json \<Rightarrow> string) \<Rightarrow> (OutboxStep \<times> time) list \<Rightarrow> OutboxRun \<Rightarrow> OutboxRun" where
  "outbox_run enc steps s = fold (outbox_step enc) steps s"

definition lease_key :: "NotificationJob \<Rightarrow> int \<times> int" where "lease_key j = (nj_id j, nj_lease j)"

text \<open>Identifiers are never reused, and every lease handed out or reported on is older than or is the row's.\<close>

definition rows_ok :: "OutboxDB \<Rightarrow> bool" where
  "rows_ok db \<longleftrightarrow> distinct (map ob_id (od_rows db)) \<and> (\<forall>r \<in> set (od_rows db). ob_id r < od_next_id db)"

definition below :: "bool \<Rightarrow> OutboxDB \<Rightarrow> NotificationJob \<Rightarrow> bool" where
  "below strict db j \<longleftrightarrow> nj_id j < od_next_id db
     \<and> (\<forall>r \<in> set (od_rows db). ob_id r = nj_id j \<longrightarrow> (if strict then nj_lease j < ob_lease r else nj_lease j \<le> ob_lease r))"

definition run_ok :: "OutboxRun \<Rightarrow> bool" where
  "run_ok s \<longleftrightarrow> rows_ok (or_db s) \<and> list_all (below False (or_db s)) (or_handed s) \<and> distinct (map lease_key (or_handed s))
     \<and> list_all (below True (or_db s)) (or_settled s) \<and> distinct (map lease_key (or_settled s))"

text \<open>One row version after another: what a statement may do to the rows.\<close>

definition rows_advance :: "OutboxDB \<Rightarrow> OutboxDB \<Rightarrow> bool" where
  "rows_advance db db' \<longleftrightarrow> od_next_id db \<le> od_next_id db' \<and> rows_ok db'
     \<and> (\<forall>r' \<in> set (od_rows db'). (\<exists>r \<in> set (od_rows db). ob_id r' = ob_id r \<and> ob_lease r \<le> ob_lease r') \<or> od_next_id db \<le> ob_id r')"

lemma below_advance:
  assumes "rows_advance db db'" "below strict db j"
  shows "below strict db' j"
  unfolding below_def
proof (intro conjI ballI impI)
  show "nj_id j < od_next_id db'" using assms by (auto simp: rows_advance_def below_def)
  fix r' assume r': "r' \<in> set (od_rows db')" "ob_id r' = nj_id j"
  with assms obtain r where "r \<in> set (od_rows db)" "ob_id r = nj_id j" "ob_lease r \<le> ob_lease r'"
    unfolding rows_advance_def below_def by fastforce
  moreover then have "if strict then nj_lease j < ob_lease r else nj_lease j \<le> ob_lease r"
    using assms(2) by (simp add: below_def)
  ultimately show "if strict then nj_lease j < ob_lease r' else nj_lease j \<le> ob_lease r'"
    by (simp split: if_splits)
qed

lemma advance_refl: "rows_ok db \<Longrightarrow> rows_advance db db"
  by (auto simp: rows_advance_def)

lemma advance_trans: "rows_advance a b \<Longrightarrow> rows_advance b c \<Longrightarrow> rows_advance a c"
proof -
  assume ab: "rows_advance a b" and bc: "rows_advance b c"
  have "(\<exists>r \<in> set (od_rows a). ob_id r'' = ob_id r \<and> ob_lease r \<le> ob_lease r'') \<or> od_next_id a \<le> ob_id r''"
    if r'': "r'' \<in> set (od_rows c)" for r''
  proof (cases "od_next_id b \<le> ob_id r''")
    case False
    then obtain r' where r': "r' \<in> set (od_rows b)" "ob_id r'' = ob_id r'" "ob_lease r' \<le> ob_lease r''"
      using bc r'' by (auto simp: rows_advance_def)
    then show ?thesis using ab by (force simp: rows_advance_def)
  qed (use ab in \<open>auto simp: rows_advance_def\<close>)
  then show ?thesis using ab bc by (auto simp: rows_advance_def)
qed

lemma advance_map:
  assumes "rows_ok db" "\<And>r. ob_id (f r) = ob_id r \<and> ob_lease r \<le> ob_lease (f r)"
  shows "rows_advance db (db\<lparr>od_rows := map f (od_rows db)\<rparr>)"
proof -
  have "ob_id \<circ> f = ob_id" using assms(2) by (intro ext) simp
  then have "rows_ok (db\<lparr>od_rows := map f (od_rows db)\<rparr>)" using assms by (simp add: rows_ok_def)
  then show ?thesis using assms(2) by (auto simp: rows_advance_def)
qed

lemma advance_filter: "rows_ok db \<Longrightarrow> rows_advance db (db\<lparr>od_rows := filter P (od_rows db)\<rparr>)"
  by (auto simp: rows_advance_def rows_ok_def distinct_map_filter)

lemma advance_insert: "rows_ok db \<Longrightarrow> rows_advance db (insert_job c p nb db)"
  by (force simp: rows_advance_def rows_ok_def insert_job_def)

lemma advance_inserts: "rows_ok db \<Longrightarrow> insert_jobs cs p nb db = Inr db' \<Longrightarrow> rows_advance db db'"
proof (induction cs arbitrary: db)
  case (Cons c cs)
  have *: "rows_advance db (insert_job (Some c) p nb db)" by (rule advance_insert [OF Cons.prems(1)])
  then have "rows_ok (insert_job (Some c) p nb db)" by (simp add: rows_advance_def)
  from Cons.IH [OF this] Cons.prems(2) * show ?case by (auto split: if_splits intro: advance_trans)
qed (simp add: advance_refl)

lemma archive_rows: "archive_event enc p db = Inr db' \<Longrightarrow> od_rows db' = od_rows db \<and> od_next_id db' = od_next_id db"
  by (auto simp: archive_event_def Let_def split: option.splits if_splits)

lemma advance_enqueue:
  assumes "rows_ok db"
  shows "rows_advance db (snd (EnqueueNotificationsForChannels enc cs p nb db))"
proof (cases "archive_event enc p db")
  case (Inr db1)
  then have same: "od_rows db1 = od_rows db" "od_next_id db1 = od_next_id db" using archive_rows by blast+
  then have ok1: "rows_ok db1" using assms by (simp add: rows_ok_def)
  have "rows_advance db db2" if "rows_advance db1 db2" for db2 using that same by (simp add: rows_advance_def)
  then show ?thesis
    using Inr advance_insert [OF ok1] advance_inserts [OF ok1] advance_refl [OF assms]
    by (auto simp: EnqueueNotificationsForChannels_def split: sum.split)
qed (simp add: EnqueueNotificationsForChannels_def advance_refl assms)

lemma advance_update:
  "rows_ok db \<Longrightarrow> (\<And>r. ob_id (f r) = ob_id r \<and> ob_lease r \<le> ob_lease (f r)) \<Longrightarrow> rows_advance db (snd (update_leased f j now db))"
  unfolding update_leased_def snd_conv by (rule advance_map) simp_all

lemma advance_claim: "rows_ok db \<Longrightarrow> rows_advance db (snd (ClaimNotificationJobs limit now db))"
  unfolding ClaimNotificationJobs_def Let_def snd_conv by (rule advance_map) (simp_all add: lease_row_def)

lemma advance_retry: "rows_ok db \<Longrightarrow> rows_advance db (snd (RetryDeadNotification i now db))"
  unfolding RetryDeadNotification_def Let_def snd_conv by (rule advance_map) simp_all

lemma advance_delete: "rows_ok db \<Longrightarrow> rows_advance db (snd (DeleteChannel c db))"
  using advance_filter [of db "\<lambda>r. ob_channel r \<noteq> Some c"]
  by (auto simp: DeleteChannel_def advance_refl rows_advance_def rows_ok_def)

lemma reports_advance:
  assumes "rows_ok db"
  shows "rows_advance db (snd (RenewNotification j now db))" "rows_advance db (snd (CompleteNotification j now db))"
    "rows_advance db (snd (FailNotification j m t now db))" "rows_advance db (snd (MarkDeadNotification j m now db))"
    "rows_advance db (snd (EnqueueNotificationForChannel c p nb db))"
  using assms advance_filter [OF assms]
  by (simp_all add: RenewNotification_def CompleteNotification_def FailNotification_def MarkDeadNotification_def
      EnqueueNotificationForChannel_def advance_update advance_insert advance_refl)

text \<open>An accepted report had the lease of the row, and after it no row has the lease any more.\<close>

lemma lease_accepted:
  assumes "lease_result j now db = None"
  obtains r where "r \<in> set (od_rows db)" "holds_lease j now r"
proof -
  have "filter (holds_lease j now) (od_rows db) \<noteq> []" using assms by (auto simp: lease_result_def split: if_splits)
  then show thesis using that by (auto simp: filter_empty_conv)
qed

lemma only_row:
  "rows_ok db \<Longrightarrow> r \<in> set (od_rows db) \<Longrightarrow> x \<in> set (od_rows db) \<Longrightarrow> ob_id x = ob_id r \<Longrightarrow> x = r"
  unfolding rows_ok_def distinct_map by (meson inj_onD)

lemma only_held:
  assumes "rows_ok db" "r \<in> set (od_rows db)" "holds_lease j now r"
  shows "length (filter (holds_lease j now) (od_rows db)) = 1"
proof -
  have "filter (holds_lease j now) (od_rows db) = filter (\<lambda>x. ob_id x = ob_id r) (od_rows db)"
    using only_row [OF assms(1,2)] assms(3) by (intro filter_cong) (auto simp: holds_lease_def)
  moreover have "length (filter (\<lambda>x. ob_id x = ob_id r) xs) = 1" if "distinct (map ob_id xs)" "r \<in> set xs" for xs
    using that by (induction xs) (auto simp: filter_empty_conv image_iff)
  ultimately show ?thesis using assms(1,2) by (simp add: rows_ok_def)
qed

lemma settled_below:
  assumes "rows_ok db" "fst res = None"
    and "res = CompleteNotification j now db \<or> res = FailNotification j m t now db \<or> res = MarkDeadNotification j m now db"
  shows "below True (snd res) j" "\<not> below True db j"
proof -
  have acc: "lease_result j now db = None"
    using assms(2,3) by (auto simp: CompleteNotification_def FailNotification_def MarkDeadNotification_def update_leased_def)
  obtain r where r: "r \<in> set (od_rows db)" "holds_lease j now r" using lease_accepted [OF acc] .
  have one: "x = r" if "x \<in> set (od_rows db)" "ob_id x = nj_id j" for x
    using only_row [OF assms(1) r(1) that(1)] that(2) r(2) by (simp add: holds_lease_def)
  show "\<not> below True db j" using r by (auto simp: below_def holds_lease_def)
  have "nj_id j < od_next_id db" using assms(1) r by (auto simp: rows_ok_def holds_lease_def)
  then show "below True (snd res) j"
    using assms(3) one r(2)
    by (auto simp: below_def CompleteNotification_def FailNotification_def MarkDeadNotification_def update_leased_def
        holds_lease_def split: if_splits)
qed

lemma run_ok_advance:
  assumes "run_ok s" "rows_advance (or_db s) db"
  shows "run_ok (s\<lparr>or_db := db\<rparr>)"
  using assms below_advance [OF assms(2)] by (auto simp: run_ok_def rows_advance_def list_all_iff)

lemma run_ok_rows: "run_ok s \<Longrightarrow> rows_ok (or_db s)"
  by (simp add: run_ok_def)

lemma run_ok_settle:
  assumes "run_ok s"
    and "res = CompleteNotification j now (or_db s) \<or> res = FailNotification j m t now (or_db s) \<or> res = MarkDeadNotification j m now (or_db s)"
  shows "run_ok (settle j res s)"
proof -
  have ok: "rows_ok (or_db s)" using assms(1) by (simp add: run_ok_def)
  have adv: "rows_advance (or_db s) (snd res)" using assms(2) reports_advance [OF ok] by blast
  note base = run_ok_advance [OF assms(1) adv]
  show ?thesis
  proof (cases "fst res = None")
    case True
    have "lease_key j \<notin> lease_key ` set (or_settled s)"
    proof
      assume "lease_key j \<in> lease_key ` set (or_settled s)"
      then obtain x where "x \<in> set (or_settled s)" "lease_key x = lease_key j" by force
      then have "below True (or_db s) j" using assms(1) by (auto simp: run_ok_def list_all_iff below_def lease_key_def)
      then show False using settled_below(2) [OF ok True assms(2)] by contradiction
    qed
    then show ?thesis
      using base settled_below(1) [OF ok True assms(2)] True by (auto simp: run_ok_def settle_def)
  next
    case False
    then have "settle j res s = s\<lparr>or_db := snd res\<rparr>" by (simp add: settle_def)
    then show ?thesis using base by simp
  qed
qed

lemma run_ok_claim:
  assumes "run_ok s"
  shows "run_ok (outbox_step enc (OClaim limit, now) s)"
proof -
  let ?db = "or_db s" and ?ps = "picked (nat (if limit \<le> 0 then 20 else limit)) now (or_db s)"
  have ok: "rows_ok ?db" using assms by (simp add: run_ok_def)
  have sub: "set ?ps \<subseteq> set (od_rows ?db)" by (auto simp: picked_def dest: in_set_takeD)
  have "distinct (map ob_id (filter (due now) (od_rows ?db)))" using ok by (simp add: rows_ok_def distinct_map_filter)
  then have "distinct (map ob_id (sort_key (\<lambda>r. (ob_next r, ob_id r)) (filter (due now) (od_rows ?db))))"
    by (simp add: distinct_map)
  then have ids: "distinct (map ob_id ?ps)" by (simp add: picked_def take_map [symmetric])
  define jobs where "jobs = map (job_of \<circ> lease_row now) ?ps"
  have claim: "ClaimNotificationJobs limit now ?db = (jobs, snd (ClaimNotificationJobs limit now ?db))"
    by (simp add: ClaimNotificationJobs_def Let_def jobs_def)
  have "distinct (map nj_id jobs)" using ids by (simp add: jobs_def job_of_def lease_row_def comp_def)
  then have "distinct (map lease_key jobs)"
    by (simp add: distinct_map inj_on_def lease_key_def)
  moreover have "lease_key j \<notin> lease_key ` set (or_handed s)" if j: "j \<in> set jobs" for j
  proof
    assume "lease_key j \<in> lease_key ` set (or_handed s)"
    then obtain x where x: "x \<in> set (or_handed s)" "lease_key x = lease_key j" by force
    obtain r where "r \<in> set (od_rows ?db)" "j = job_of (lease_row now r)" using j sub by (auto simp: jobs_def)
    moreover have "below False ?db x" using assms x(1) by (simp add: run_ok_def list_all_iff)
    ultimately show False using x(2) by (auto simp: below_def lease_key_def job_of_def lease_row_def)
  qed
  moreover have "below False (snd (ClaimNotificationJobs limit now ?db)) j" if j: "j \<in> set jobs" for j
  proof -
    obtain r where r: "r \<in> set ?ps" "j = job_of (lease_row now r)" using j by (auto simp: jobs_def)
    then have "r \<in> set (od_rows ?db)" using sub by blast
    then show ?thesis
      using r ok
      by (auto simp: below_def ClaimNotificationJobs_def Let_def job_of_def lease_row_def rows_ok_def split: if_splits
          dest: only_row [OF ok \<open>r \<in> set (od_rows ?db)\<close>])
  qed
  ultimately have "list_all (below False (snd (ClaimNotificationJobs limit now ?db))) jobs"
    "distinct (map lease_key (or_handed s @ jobs))"
    unfolding map_append distinct_append using assms by (fastforce simp: list_all_iff run_ok_def)+
  then show ?thesis
    using run_ok_advance [OF assms advance_claim [OF ok, of limit now]]
    by (simp add: run_ok_def claim [THEN arg_cong [where f = fst]])
qed

lemma outbox_step_ok: "run_ok s \<Longrightarrow> run_ok (outbox_step enc st s)"
proof (induction enc st s rule: outbox_step.induct)
  case (3 enc limit now s)
  then show ?case by (rule run_ok_claim)
next
  case (5 enc j now s)
  show ?case unfolding outbox_step.simps by (rule run_ok_settle [OF 5]) blast
next
  case (6 enc j m t now s)
  show ?case unfolding outbox_step.simps by (rule run_ok_settle [OF 6]) blast
next
  case (7 enc j m now s)
  show ?case unfolding outbox_step.simps by (rule run_ok_settle [OF 7]) blast
qed (simp_all add: run_ok_advance run_ok_rows reports_advance advance_enqueue advance_retry advance_delete)

lemma outbox_run_ok: "run_ok s \<Longrightarrow> run_ok (outbox_run enc steps s)"
  unfolding outbox_run_def by (induction steps arbitrary: s) (auto intro: outbox_step_ok)

section \<open>Properties\<close>

definition empty_run :: "ChannelRow list \<Rightarrow> int list \<Rightarrow> OutboxRun" where
  "empty_run channels upstreams = \<lparr>or_db = \<lparr>od_rows = [], od_channels = channels, od_events = [],
     od_upstream_ids = upstreams, od_next_id = 1\<rparr>, or_handed = [], or_settled = []\<rparr>"

lemma empty_run_ok: "run_ok (empty_run channels upstreams)"
  by (simp add: run_ok_def rows_ok_def empty_run_def)

text \<open>The four ways in which a worker reports on a job.\<close>

definition lease_reports ::
  "NotificationJob \<Rightarrow> string \<Rightarrow> time \<Rightarrow> time \<Rightarrow> (OutboxDB \<Rightarrow> outbox_error option \<times> OutboxDB) list" where
  "lease_reports j message next_attempt now =
     [RenewNotification j now, CompleteNotification j now, FailNotification j message next_attempt now,
      MarkDeadNotification j message now]"

lemma reports_fenced:
  assumes "rows_ok db" "report \<in> set (lease_reports j message next_attempt now)"
  shows "if \<exists>r \<in> set (od_rows db). holds_lease j now r then fst (report db) = None
    else report db = (Some ErrNotificationLeaseLost, db)"
proof (cases "\<exists>r \<in> set (od_rows db). holds_lease j now r")
  case True
  then have "lease_result j now db = None" using only_held [OF assms(1)] by (auto simp: lease_result_def)
  then show ?thesis
    using assms(2) True
    by (auto simp: lease_reports_def RenewNotification_def CompleteNotification_def FailNotification_def MarkDeadNotification_def
        update_leased_def)
next
  case False
  then have "lease_result j now db = Some ErrNotificationLeaseLost" by (simp add: lease_result_def filter_empty_conv)
  moreover have "map (\<lambda>r. if holds_lease j now r then f r else r) (od_rows db) = od_rows db" for f
    using False by (auto intro!: map_idI)
  moreover have "filter (\<lambda>r. \<not> holds_lease j now r) (od_rows db) = od_rows db"
    using False by (auto intro!: filter_True)
  ultimately show ?thesis
    using assms(2) False
    by (auto simp: lease_reports_def RenewNotification_def CompleteNotification_def FailNotification_def MarkDeadNotification_def
        update_leased_def)
qed

text \<open>
  C28: leases fence the workers. However workers, retries and administrators interleave, no lease is
  handed out twice, and at most one completion, failure or burial is accepted for a lease. A renewal, a
  completion, a failure or a burial is accepted exactly when a job that is not dead is held under the
  lease it names and the lease has not run out; every other report is refused and changes nothing.
\<close>

theorem leases_fence:
  "distinct (map lease_key (or_handed (outbox_run enc steps (empty_run channels upstreams))))
    \<and> distinct (map lease_key (or_settled (outbox_run enc steps (empty_run channels upstreams))))
    \<and> (\<forall>j message next_attempt now. let db = or_db (outbox_run enc steps (empty_run channels upstreams)) in
         list_all (\<lambda>report.
           if \<exists>r \<in> set (od_rows db). ob_id r = nj_id j \<and> ob_lease r = nj_lease j \<and> ob_dead r = None \<and> now < ob_next r
           then fst (report db) = None
           else report db = (Some ErrNotificationLeaseLost, db)) (lease_reports j message next_attempt now))"
proof -
  let ?s = "outbox_run enc steps (empty_run channels upstreams)"
  have ok: "run_ok ?s" by (rule outbox_run_ok [OF empty_run_ok])
  then have rows: "rows_ok (or_db ?s)" by (simp add: run_ok_def)
  note fenced = reports_fenced [OF rows, unfolded holds_lease_def]
  show ?thesis
    using ok fenced unfolding run_ok_def Let_def list_all_iff by blast
qed

end
