(* ===== verification/Outbox_Worker.thy ===== *)
theory Outbox_Worker
  imports Outbox Ops_Event Transport
begin

text \<open>
  The notification worker and the notifier of \<open>internal/app/notifications.go\<close>. The worker runs on an
  arbitrary world: each statement either fails or runs at an instant the world gives, deliveries
  succeed or fail, and the context may end. The JSON of events is a pair of functions.
\<close>

section \<open>The world of the worker\<close>

record 'w WorkerEnv =
  we_statement :: "'w \<Rightarrow> time option \<times> 'w"
  we_now :: "'w \<Rightarrow> time \<times> 'w"
  we_ended :: "'w \<Rightarrow> bool \<times> 'w"
  we_deliver :: "int option \<Rightarrow> Event \<Rightarrow> 'w \<Rightarrow> gw_error option \<times> 'w"
  we_channels :: bool
  we_event :: "json \<Rightarrow> Event option"
  we_json :: "Event \<Rightarrow> json"
  we_text :: "json \<Rightarrow> string"

definition notificationGroupWait :: duration where "notificationGroupWait = 10 * second"
definition notificationBatchSize :: int where "notificationBatchSize = 5"
definition notificationMaxAttempts :: int where "notificationMaxAttempts = 5"

definition statement ::
  "'w WorkerEnv \<Rightarrow> (time \<Rightarrow> OutboxDB \<Rightarrow> outbox_error option \<times> OutboxDB) \<Rightarrow> OutboxDB \<times> 'w
     \<Rightarrow> outbox_error option \<times> OutboxDB \<times> 'w" where
  "statement env f s =
     (case we_statement env (snd s) of
        (None, w) \<Rightarrow> (Some StatementFailed, fst s, w)
      | (Some now, w) \<Rightarrow> (fst (f now (fst s)), snd (f now (fst s)), w))"

section \<open>Accepting an event\<close>

definition Notify :: "'w WorkerEnv \<Rightarrow> Event \<Rightarrow> OutboxDB \<times> 'w \<Rightarrow> outbox_error option \<times> OutboxDB \<times> 'w" where
  "Notify env event s =
     (case we_statement env (snd s) of
        (None, w) \<Rightarrow> (Some StatementFailed, fst s, w)
      | (Some _, w) \<Rightarrow>
          (let ids = ListEnabledChannelIDs (fst s)
           in case we_now env w of (now, w) \<Rightarrow>
                (if ids = []
                 then statement env (\<lambda>_. EnqueueNotification (we_text env) (we_json env event) (now + notificationGroupWait)) (fst s, w)
                 else statement env (\<lambda>_. EnqueueNotificationsForChannels (we_text env) ids (we_json env event)
                                           (now + notificationGroupWait)) (fst s, w))))"

section \<open>Grouping\<close>

record notificationGroup =
  ng_type :: string
  ng_state :: string
  ng_severity :: string
  ng_channel :: int

definition group_of :: "Event \<Rightarrow> NotificationJob \<Rightarrow> notificationGroup" where
  "group_of e j = \<lparr>ng_type = ev_type e, ng_state = ev_state e, ng_severity = ev_severity e, ng_channel = nj_channel j\<rparr>"

definition add_to_group ::
  "notificationGroup \<Rightarrow> NotificationJob \<Rightarrow> (notificationGroup \<times> NotificationJob list) list
     \<Rightarrow> (notificationGroup \<times> NotificationJob list) list" where
  "add_to_group key j groups =
     (case map_of groups key of
        None \<Rightarrow> groups @ [(key, [j])]
      | Some js \<Rightarrow> AList.update key (js @ [j]) groups)"

text \<open>A job whose payload is not an event is completed at once; the others are grouped in order of appearance.\<close>

fun group_jobs ::
  "'w WorkerEnv \<Rightarrow> NotificationJob list \<Rightarrow> (notificationGroup \<times> NotificationJob list) list \<Rightarrow> OutboxDB \<times> 'w
     \<Rightarrow> (notificationGroup \<times> NotificationJob list) list \<times> OutboxDB \<times> 'w" where
  "group_jobs env [] groups s = (groups, s)"
| "group_jobs env (j # js) groups s =
     (case we_event env (nj_payload j) of
        None \<Rightarrow> group_jobs env js groups (snd (statement env (CompleteNotification j) s))
      | Some e \<Rightarrow> group_jobs env js (add_to_group (group_of e j) j groups) s)"

section \<open>Aggregation\<close>

text \<open>The name \<open>system\<close>, the reminder number in parentheses and the colon, in Chinese as in the source.\<close>

definition system_name :: string where
  "system_name = utf8 [0xE7, 0xB3, 0xBB, 0xE7, 0xBB, 0x9F]"

definition reminder :: "int \<Rightarrow> string" where
  "reminder n = utf8 [0xEF, 0xBC, 0x88, 0xE7, 0xAC, 0xAC, 0x20] @ show_nat (nat n)
     @ utf8 [0x20, 0xE6, 0xAC, 0xA1, 0xE6, 0x8F, 0x90, 0xE9, 0x86, 0x92, 0xEF, 0xBC, 0x89]"

definition event_line :: "Event \<Rightarrow> string" where
  "event_line e =
     ''- '' @ (if ev_upstream_name e = [] then system_name else ev_upstream_name e)
       @ (if ev_notification_number e > 0 then reminder (ev_notification_number e) else [])
       @ utf8 [0xEF, 0xBC, 0x9A] @ ev_message e"

fun join_lines :: "string list \<Rightarrow> string" where
  "join_lines [] = []"
| "join_lines [l] = l"
| "join_lines (l # ls) = l @ [CHR 0x0A] @ join_lines ls"

definition aggregateNotificationEvents :: "Event list \<Rightarrow> Event" where
  "aggregateNotificationEvents events =
     (case events of
        [] \<Rightarrow> empty_event
      | [e] \<Rightarrow> e
      | e # _ \<Rightarrow> e\<lparr>ev_evidence := None, ev_active_since := None, ev_notification_number := 0, ev_previous := [],
                   ev_upstream_id := 0, ev_upstream_name := [], ev_count := int (length events),
                   ev_message := join_lines (map event_line events),
                   ev_at := fold (\<lambda>x t. if ev_at x > t then ev_at x else t) events (ev_at e)\<rparr>)"

definition notificationRetryDelay :: "int \<Rightarrow> duration" where
  "notificationRetryDelay attempts =
     (if attempts \<le> 1 then 10 * second else if attempts = 2 then minute else 5 * minute)"

section \<open>Delivering a group\<close>

fun renew_all :: "'w WorkerEnv \<Rightarrow> NotificationJob list \<Rightarrow> OutboxDB \<times> 'w \<Rightarrow> NotificationJob list \<times> OutboxDB \<times> 'w" where
  "renew_all env [] s = ([], s)"
| "renew_all env (j # js) s =
     (case statement env (RenewNotification j) s of (err, s) \<Rightarrow>
      case renew_all env js s of (renewed, s) \<Rightarrow> (if err = None then j # renewed else renewed, s))"

definition complete_all :: "'w WorkerEnv \<Rightarrow> NotificationJob list \<Rightarrow> OutboxDB \<times> 'w \<Rightarrow> OutboxDB \<times> 'w" where
  "complete_all env js s = fold (\<lambda>j s. snd (statement env (CompleteNotification j) s)) js s"

definition report_failure :: "'w WorkerEnv \<Rightarrow> gw_error \<Rightarrow> NotificationJob \<Rightarrow> OutboxDB \<times> 'w \<Rightarrow> OutboxDB \<times> 'w" where
  "report_failure env err j s =
     (if nj_attempts j \<ge> notificationMaxAttempts
      then snd (statement env (MarkDeadNotification j (Text (Some err) [])) s)
      else case we_now env (snd s) of (now, w) \<Rightarrow>
        snd (statement env (FailNotification j (Text (Some err) []) (now + notificationRetryDelay (nj_attempts j))) (fst s, w)))"

definition deliver_group ::
  "'w WorkerEnv \<Rightarrow> notificationGroup \<times> NotificationJob list \<Rightarrow> OutboxDB \<times> 'w \<Rightarrow> bool \<times> OutboxDB \<times> 'w" where
  "deliver_group env g s =
     (case renew_all env (snd g) s of (jobs, s) \<Rightarrow>
      let events = List.map_filter (\<lambda>j. we_event env (nj_payload j)) jobs
      in if events = [] then (True, complete_all env jobs s)
         else case we_deliver env (if we_channels env \<and> ng_channel (fst g) > 0 then Some (ng_channel (fst g)) else None)
                     (aggregateNotificationEvents events) (snd s) of
           (err, w) \<Rightarrow>
             (case we_ended env w of (ended, w) \<Rightarrow>
              if ended then (False, fst s, w)
              else case err of
                Some e \<Rightarrow> (True, fold (report_failure env e) jobs (fst s, w))
              | None \<Rightarrow> (True, complete_all env jobs (fst s, w))))"

fun deliver_groups ::
  "'w WorkerEnv \<Rightarrow> (notificationGroup \<times> NotificationJob list) list \<Rightarrow> OutboxDB \<times> 'w \<Rightarrow> bool \<times> OutboxDB \<times> 'w" where
  "deliver_groups env [] s = (True, s)"
| "deliver_groups env (g # gs) s =
     (case deliver_group env g s of (continue, s) \<Rightarrow> if continue then deliver_groups env gs s else (False, s))"

text \<open>One round of the worker; the result says whether to go on at once.\<close>

definition worker_round :: "'w WorkerEnv \<Rightarrow> OutboxDB \<times> 'w \<Rightarrow> bool \<times> OutboxDB \<times> 'w" where
  "worker_round env s =
     (case we_statement env (snd s) of
        (None, w) \<Rightarrow> (False, fst s, w)
      | (Some now, w) \<Rightarrow>
          (case ClaimNotificationJobs notificationBatchSize now (fst s) of (jobs, db) \<Rightarrow>
           case group_jobs env jobs [] (db, w) of (groups, s) \<Rightarrow>
           case deliver_groups env groups s of (finished, s) \<Rightarrow>
             (finished \<and> int (length jobs) = notificationBatchSize, s)))"

section \<open>A round settles what it claimed\<close>

text \<open>
  During a round that is not interrupted every statement runs within the 60 seconds of the shortest
  lease. \<open>progress\<close> relates the rows to those of before the claim: a row that was not claimed (\<open>K\<close> are
  the claimed ones) is untouched; one still in hand (\<open>Q\<close>) has its lease; any other is gone, dead, or
  waits for another attempt.
\<close>

definition steady :: "'w WorkerEnv \<Rightarrow> time \<Rightarrow> bool" where
  "steady env t \<longleftrightarrow> (\<forall>w. \<exists>t' w'. we_statement env w = (Some t', w') \<and> t \<le> t' \<and> t' < t + 60 * second)
     \<and> (\<forall>w. \<not> fst (we_ended env w))"

definition progress :: "time \<Rightarrow> int set \<Rightarrow> OutboxDB \<Rightarrow> int set \<Rightarrow> OutboxDB \<Rightarrow> bool" where
  "progress t K base Q db \<longleftrightarrow> rows_ok db \<and> (\<forall>r \<in> set (od_rows db). \<exists>r0 \<in> set (od_rows base). ob_id r = ob_id r0
     \<and> (ob_id r \<notin> K \<longrightarrow> r = r0)
     \<and> (ob_id r \<in> K \<longrightarrow> ob_dead r \<noteq> None \<or> ob_attempts r = ob_attempts r0 + 1
          \<and> (if ob_id r \<in> Q then ob_lease r = ob_lease r0 + 1 \<and> ob_next r \<ge> t + 60 * second
             else ob_attempts r < notificationMaxAttempts)))"

definition job_for :: "int set \<Rightarrow> OutboxDB \<Rightarrow> NotificationJob \<Rightarrow> bool" where
  "job_for K base j \<longleftrightarrow> nj_id j \<in> K \<and> (\<exists>r0 \<in> set (od_rows base). nj_id j = ob_id r0 \<and> nj_lease j = ob_lease r0 + 1
     \<and> nj_attempts j = ob_attempts r0 + 1)"

lemma progress_row:
  assumes "rows_ok base" "progress t K base Q db" "job_for K base j" "r \<in> set (od_rows db)" "ob_id r = nj_id j" "ob_dead r = None"
  shows "ob_attempts r = nj_attempts j"
    and "nj_id j \<in> Q \<Longrightarrow> ob_lease r = nj_lease j \<and> ob_next r \<ge> t + 60 * second"
proof -
  obtain r0 where r0: "r0 \<in> set (od_rows base)" "nj_id j = ob_id r0" "nj_lease j = ob_lease r0 + 1"
    "nj_attempts j = ob_attempts r0 + 1" using assms(3) by (auto simp: job_for_def)
  have K: "nj_id j \<in> K" using assms(3) by (simp add: job_for_def)
  obtain r1 where r1: "r1 \<in> set (od_rows base)" "ob_id r = ob_id r1" "ob_attempts r = ob_attempts r1 + 1"
    "if ob_id r \<in> Q then ob_lease r = ob_lease r1 + 1 \<and> ob_next r \<ge> t + 60 * second else ob_attempts r < notificationMaxAttempts"
    using assms(2,4-6) K unfolding progress_def by metis
  have "r1 = r0" using only_row [OF assms(1) r0(1) r1(1)] r1(2) r0(2) assms(5) by simp
  then show "ob_attempts r = nj_attempts j" "nj_id j \<in> Q \<Longrightarrow> ob_lease r = nj_lease j \<and> ob_next r \<ge> t + 60 * second"
    using r0 r1 assms(5) by (auto split: if_splits)
qed

lemma progress_drop:
  assumes "progress t K base Q db" "\<And>r. r \<in> set (od_rows db) \<Longrightarrow> ob_id r = i \<Longrightarrow> ob_dead r \<noteq> None"
  shows "progress t K base (Q - {i}) db"
  using assms unfolding progress_def by (intro conjI ballI) (fastforce+)

lemma progress_complete:
  assumes "rows_ok base" "progress t K base Q db" "job_for K base j" "now < t + 60 * second"
  shows "progress t K base (Q - {nj_id j}) (snd (CompleteNotification j now db))"
proof (cases "nj_id j \<in> Q")
  case True
  have "progress t K base Q (snd (CompleteNotification j now db))"
    using assms(2) reports_advance(2) [of db j now] by (auto simp: progress_def rows_advance_def CompleteNotification_def)
  then show ?thesis
  proof (rule progress_drop)
    fix r assume r: "r \<in> set (od_rows (snd (CompleteNotification j now db)))" "ob_id r = nj_id j"
    then have "r \<in> set (od_rows db)" "\<not> holds_lease j now r" by (auto simp: CompleteNotification_def)
    then show "ob_dead r \<noteq> None"
      using progress_row(2) [OF assms(1-3) _ r(2)] True r(2) assms(4) by (force simp: holds_lease_def)
  qed
next
  case False
  then show ?thesis
    using assms(2) reports_advance(2) [of db j now] by (auto simp: progress_def rows_advance_def CompleteNotification_def)
qed

lemma progress_update:
  assumes "rows_ok base" "progress t K base Q db" "job_for K base j" "now < t + 60 * second"
    and "\<And>r. ob_id (f r) = ob_id r \<and> ob_lease r \<le> ob_lease (f r)"
    and "\<And>r. ob_attempts r = nj_attempts j \<Longrightarrow> ob_dead (f r) \<noteq> None \<or>
           (ob_attempts (f r) = nj_attempts j \<and> nj_attempts j < notificationMaxAttempts)"
  shows "progress t K base (Q - {nj_id j}) (snd (update_leased f j now db))"
proof -
  have ok: "rows_ok db" using assms(2) by (simp add: progress_def)
  have "rows_ok (snd (update_leased f j now db))" using advance_update [OF ok assms(5)] by (simp add: rows_advance_def)
  moreover have "\<exists>r0 \<in> set (od_rows base). ob_id r' = ob_id r0 \<and> (ob_id r' \<notin> K \<longrightarrow> r' = r0)
     \<and> (ob_id r' \<in> K \<longrightarrow> ob_dead r' \<noteq> None \<or> ob_attempts r' = ob_attempts r0 + 1
          \<and> (if ob_id r' \<in> Q - {nj_id j} then ob_lease r' = ob_lease r0 + 1 \<and> ob_next r' \<ge> t + 60 * second
             else ob_attempts r' < notificationMaxAttempts))"
    if r': "r' \<in> set (od_rows (snd (update_leased f j now db)))" for r'
  proof -
    obtain r where r: "r \<in> set (od_rows db)" "r' = (if holds_lease j now r then f r else r)"
      using r' by (auto simp: update_leased_def)
    obtain r0 where r0: "r0 \<in> set (od_rows base)" "ob_id r = ob_id r0" "ob_id r \<notin> K \<longrightarrow> r = r0"
      "ob_id r \<in> K \<longrightarrow> ob_dead r \<noteq> None \<or> ob_attempts r = ob_attempts r0 + 1
          \<and> (if ob_id r \<in> Q then ob_lease r = ob_lease r0 + 1 \<and> ob_next r \<ge> t + 60 * second
             else ob_attempts r < notificationMaxAttempts)"
      using assms(2) r(1) unfolding progress_def by blast
    show ?thesis
    proof (cases "ob_id r = nj_id j \<and> ob_dead r = None")
      case True
      note row = progress_row [OF assms(1-3) r(1)]
      have K: "ob_id r \<in> K" using True assms(3) by (simp add: job_for_def)
      then have att: "ob_attempts r0 + 1 = nj_attempts j" using row(1) True r0(4) by auto
      show ?thesis
      proof (cases "holds_lease j now r")
        case True': True
        then show ?thesis
          using r r0(1,2) assms(5) [of r] assms(6) [of r] row(1) True att K by (intro bexI [where x = r0]) auto
      next
        case False
        then have "nj_id j \<notin> Q" using row(2) True assms(4) by (auto simp: holds_lease_def)
        then show ?thesis using r r0 True False by (intro bexI [where x = r0]) auto
      qed
    next
      case False
      then have "r' = r" using r(2) by (auto simp: holds_lease_def)
      then show ?thesis using r0 False by (intro bexI [where x = r0]) auto
    qed
  qed
  ultimately show ?thesis by (simp add: progress_def)
qed

lemma progress_renew:
  assumes "rows_ok base" "progress t K base Q db" "job_for K base j" "t \<le> now" "now < t + 60 * second"
  shows "progress t K base (if fst (RenewNotification j now db) = None then Q else Q - {nj_id j})
           (snd (RenewNotification j now db))"
proof (cases "fst (RenewNotification j now db) = None")
  case True
  have "\<exists>r0 \<in> set (od_rows base). ob_id r' = ob_id r0 \<and> (ob_id r' \<notin> K \<longrightarrow> r' = r0)
     \<and> (ob_id r' \<in> K \<longrightarrow> ob_dead r' \<noteq> None \<or> ob_attempts r' = ob_attempts r0 + 1
          \<and> (if ob_id r' \<in> Q then ob_lease r' = ob_lease r0 + 1 \<and> ob_next r' \<ge> t + 60 * second
             else ob_attempts r' < notificationMaxAttempts))"
    if r': "r' \<in> set (od_rows (snd (RenewNotification j now db)))" for r'
  proof -
    obtain r where r: "r \<in> set (od_rows db)" "r' = (if holds_lease j now r then r\<lparr>ob_next := now + 60 * second\<rparr> else r)"
      using r' by (auto simp: RenewNotification_def update_leased_def)
    obtain r0 where r0: "r0 \<in> set (od_rows base)" "ob_id r = ob_id r0" "ob_id r \<notin> K \<longrightarrow> r = r0"
      "ob_id r \<in> K \<longrightarrow> ob_dead r \<noteq> None \<or> ob_attempts r = ob_attempts r0 + 1
          \<and> (if ob_id r \<in> Q then ob_lease r = ob_lease r0 + 1 \<and> ob_next r \<ge> t + 60 * second
             else ob_attempts r < notificationMaxAttempts)"
      using assms(2) r(1) unfolding progress_def by blast
    show ?thesis
      using r0 r(2) assms(3,4) by (intro bexI [where x = r0]) (auto simp: holds_lease_def job_for_def)
  qed
  moreover have "rows_ok (snd (RenewNotification j now db))"
    using assms(2) reports_advance(1) [of db j now] by (simp add: progress_def rows_advance_def)
  ultimately show ?thesis using True by (simp add: progress_def)
next
  case False
  then have same: "snd (RenewNotification j now db) = db" if "\<forall>r \<in> set (od_rows db). \<not> holds_lease j now r"
    using that by (simp add: RenewNotification_def update_leased_def map_idI)
  have none: "\<not> holds_lease j now r" if "r \<in> set (od_rows db)" for r
    using False only_held [OF _ that] assms(2) by (auto simp: RenewNotification_def update_leased_def lease_result_def progress_def)
  have "progress t K base (Q - {nj_id j}) db"
  proof (cases "nj_id j \<in> Q")
    case True
    show ?thesis
    proof (rule progress_drop [OF assms(2)])
      fix r assume r: "r \<in> set (od_rows db)" "ob_id r = nj_id j"
      then show "ob_dead r \<noteq> None"
        using progress_row(2) [OF assms(1-3) r] True none [OF r(1)] assms(5) by (force simp: holds_lease_def)
    qed
  qed (use assms(2) in simp)
  then show ?thesis unfolding if_not_P [OF False] using same none by simp
qed

text \<open>\<open>settles\<close>: the jobs \<open>J\<close> are no longer in hand, and the others are as they were.\<close>

definition settles :: "time \<Rightarrow> int set \<Rightarrow> OutboxDB \<Rightarrow> int set \<Rightarrow> OutboxDB \<times> 'w \<Rightarrow> OutboxDB \<times> 'w \<Rightarrow> bool" where
  "settles t K base J s s' \<longleftrightarrow>
     (\<forall>Q. progress t K base Q (fst s) \<longrightarrow> (\<exists>Q' \<subseteq> Q. Q' \<inter> J = {} \<and> progress t K base Q' (fst s')))"

lemma settlesI:
  "(\<And>Q. progress t K base Q (fst s) \<Longrightarrow> \<exists>Q' \<subseteq> Q. Q' \<inter> J = {} \<and> progress t K base Q' (fst s')) \<Longrightarrow> settles t K base J s s'"
  unfolding settles_def by iprover

lemma settlesE:
  assumes "settles t K base J s s'" "progress t K base Q (fst s)"
  obtains Q' where "Q' \<subseteq> Q" "Q' \<inter> J = {}" "progress t K base Q' (fst s')"
proof -
  have "\<exists>Q' \<subseteq> Q. Q' \<inter> J = {} \<and> progress t K base Q' (fst s')"
    by (rule assms(1) [unfolded settles_def, THEN spec, THEN mp, OF assms(2)])
  then show thesis by (elim exE conjE) (rule that)
qed

lemma settles_trans:
  assumes "settles t K base J s s'" "settles t K base J' s' s''"
  shows "settles t K base (J \<union> J') s s''"
proof (rule settlesI)
  fix Q assume "progress t K base Q (fst s)"
  then obtain Q1 where Q1: "Q1 \<subseteq> Q" "Q1 \<inter> J = {}" "progress t K base Q1 (fst s')" by (rule settlesE [OF assms(1)])
  obtain Q2 where Q2: "Q2 \<subseteq> Q1" "Q2 \<inter> J' = {}" "progress t K base Q2 (fst s'')" by (rule settlesE [OF assms(2) Q1(3)])
  have "Q2 \<subseteq> Q" "Q2 \<inter> (J \<union> J') = {}" using Q1(1,2) Q2(1,2) by auto
  then show "\<exists>Q' \<subseteq> Q. Q' \<inter> (J \<union> J') = {} \<and> progress t K base Q' (fst s'')" using Q2(3) by iprover
qed

lemma settles_mono:
  assumes "settles t K base J s s'" "J' \<subseteq> J"
  shows "settles t K base J' s s'"
proof (rule settlesI)
  fix Q assume "progress t K base Q (fst s)"
  then obtain Q' where Q': "Q' \<subseteq> Q" "Q' \<inter> J = {}" "progress t K base Q' (fst s')" by (rule settlesE [OF assms(1)])
  have "Q' \<inter> J' = {}" using Q'(2) assms(2) by auto
  then show "\<exists>Q' \<subseteq> Q. Q' \<inter> J' = {} \<and> progress t K base Q' (fst s')" using Q'(1,3) by iprover
qed

lemma settles_refl: "fst s = fst s' \<Longrightarrow> settles t K base {} s s'"
  by (auto simp: settles_def)

lemma settles_fold:
  "(\<And>j s. j \<in> set js \<Longrightarrow> settles t K base {nj_id j} s (f j s)) \<Longrightarrow> settles t K base (nj_id ` set js) s (fold f js s)"
proof (induction js arbitrary: s)
  case (Cons j js)
  have "settles t K base ({nj_id j} \<union> nj_id ` set js) s (fold f js (f j s))"
    by (rule settles_trans [OF Cons.prems Cons.IH]) (simp_all add: Cons.prems)
  then show ?case by simp
qed (simp add: settles_refl)

lemma steady_statement:
  assumes "steady env t"
  obtains now w where "t \<le> now" "now < t + 60 * second" "statement env f s = (fst (f now (fst s)), snd (f now (fst s)), w)"
proof -
  obtain now w where "we_statement env (snd s) = (Some now, w)" "t \<le> now" "now < t + 60 * second"
    using assms unfolding steady_def by meson
  then show thesis using that by (simp add: statement_def)
qed

lemma settles_statement:
  assumes "steady env t"
    and "\<And>now Q. now < t + 60 * second \<Longrightarrow> progress t K base Q (fst s) \<Longrightarrow> progress t K base (Q - {i}) (snd (f now (fst s)))"
  shows "settles t K base {i} s (snd (statement env f s))"
proof (rule steady_statement [OF assms(1), of f s])
  fix now w assume "now < t + 60 * second" and eq: "statement env f s = (fst (f now (fst s)), snd (f now (fst s)), w)"
  then have "progress t K base (Q - {i}) (snd (f now (fst s)))" if "progress t K base Q (fst s)" for Q
    using assms(2) that by blast
  then show ?thesis unfolding settles_def eq by (metis Diff_disjoint Diff_subset Int_commute fst_conv snd_conv)
qed

lemma settles_complete:
  assumes "steady env t" "rows_ok base" "job_for K base j"
  shows "settles t K base {nj_id j} s (snd (statement env (CompleteNotification j) s))"
  by (rule settles_statement [OF assms(1) progress_complete [OF assms(2) _ assms(3)]])

lemma settles_complete_all:
  assumes "steady env t" "rows_ok base" "\<And>j. j \<in> set js \<Longrightarrow> job_for K base j"
  shows "settles t K base (nj_id ` set js) s (complete_all env js s)"
  unfolding complete_all_def by (rule settles_fold) (rule settles_complete [OF assms])

lemma settles_failure:
  assumes "steady env t" "rows_ok base" "job_for K base j"
  shows "settles t K base {nj_id j} s (report_failure env err j s)"
proof (cases "nj_attempts j \<ge> notificationMaxAttempts")
  case True
  have "settles t K base {nj_id j} s (snd (statement env (MarkDeadNotification j (Text (Some err) [])) s))"
  proof (rule settles_statement [OF assms(1)])
    fix now Q assume "now < t + 60 * second" "progress t K base Q (fst s)"
    then show "progress t K base (Q - {nj_id j}) (snd (MarkDeadNotification j (Text (Some err) []) now (fst s)))"
      unfolding MarkDeadNotification_def by (intro progress_update [OF assms(2) _ assms(3)]) simp_all
  qed
  then show ?thesis using True by (simp add: report_failure_def)
next
  case False
  obtain now' w where now': "we_now env (snd s) = (now', w)" by fastforce
  let ?f = "FailNotification j (Text (Some err) []) (now' + notificationRetryDelay (nj_attempts j))"
  have "settles t K base {nj_id j} (fst s, w) (snd (statement env ?f (fst s, w)))"
  proof (rule settles_statement [OF assms(1)])
    fix now Q assume "now < t + 60 * second" "progress t K base Q (fst (fst s, w))"
    then show "progress t K base (Q - {nj_id j}) (snd (?f now (fst (fst s, w))))"
      unfolding FailNotification_def using False by (intro progress_update [OF assms(2) _ assms(3)]) simp_all
  qed
  then show ?thesis using False now' by (simp add: report_failure_def settles_def)
qed

lemma settles_renew:
  assumes "steady env t" "rows_ok base" "\<And>j. j \<in> set js \<Longrightarrow> job_for K base j"
  shows "settles t K base (nj_id ` set js - nj_id ` set (fst (renew_all env js s))) s (snd (renew_all env js s))
    \<and> set (fst (renew_all env js s)) \<subseteq> set js"
  using assms(3)
proof (induction js arbitrary: s)
  case (Cons j js)
  have j: "job_for K base j" using Cons.prems by simp
  obtain now w where now: "t \<le> now" "now < t + 60 * second"
    and eq: "statement env (RenewNotification j) s =
      (fst (RenewNotification j now (fst s)), snd (RenewNotification j now (fst s)), w)"
    by (rule steady_statement [OF assms(1), of "RenewNotification j" s])
  let ?s1 = "(snd (RenewNotification j now (fst s)), w)" and ?ok = "fst (RenewNotification j now (fst s)) = None"
  have "settles t K base (if ?ok then {} else {nj_id j}) s ?s1"
  proof (rule settlesI)
    fix Q assume Q: "progress t K base Q (fst s)"
    show "\<exists>Q' \<subseteq> Q. Q' \<inter> (if ?ok then {} else {nj_id j}) = {} \<and> progress t K base Q' (fst ?s1)"
      using progress_renew [OF assms(2) Q j now] by (intro exI [where x = "if ?ok then Q else Q - {nj_id j}"]) simp
  qed
  note 1 = settles_trans [OF this] and IH = Cons.IH [of ?s1]
  have IH: "settles t K base (nj_id ` set js - nj_id ` set (fst (renew_all env js ?s1))) ?s1 (snd (renew_all env js ?s1))"
    "set (fst (renew_all env js ?s1)) \<subseteq> set js" using Cons.IH [of ?s1] Cons.prems by auto
  have run: "renew_all env (j # js) s =
     (if ?ok then j # fst (renew_all env js ?s1) else fst (renew_all env js ?s1), snd (renew_all env js ?s1))"
    by (simp add: eq split_beta)
  show ?case
    unfolding run fst_conv snd_conv using IH(2) by (auto intro: settles_mono [OF 1 [OF IH(1)]])
qed (simp add: settles_refl)

lemma settles_group:
  assumes "steady env t" "rows_ok base" "\<And>j. j \<in> set (snd g) \<Longrightarrow> job_for K base j"
  shows "fst (deliver_group env g s) \<and> settles t K base (nj_id ` set (snd g)) s (snd (deliver_group env g s))"
proof -
  obtain jobs s1 where jobs: "renew_all env (snd g) s = (jobs, s1)" by (cases "renew_all env (snd g) s") blast
  have 1: "settles t K base (nj_id ` set (snd g) - nj_id ` set jobs) s s1" and sub: "set jobs \<subseteq> set (snd g)"
    using settles_renew [OF assms(1,2), where js = "snd g" and s = s and K = K] assms(3) by (simp_all add: jobs)
  have fors: "job_for K base j" if "j \<in> set jobs" for j using assms(3) sub that by blast
  have join: "settles t K base (nj_id ` set (snd g)) s s2" if "settles t K base (nj_id ` set jobs) s1' s2" "fst s1' = fst s1" for s1' s2
  proof -
    have "settles t K base (nj_id ` set jobs) s1 s2" using that by (simp add: settles_def)
    from settles_trans [OF 1 this] show ?thesis by (rule settles_mono) blast
  qed
  have quiet: "fst (we_ended env w) = False" for w using assms(1) by (simp add: steady_def)
  let ?events = "List.map_filter (\<lambda>j. we_event env (nj_payload j)) jobs"
  let ?to = "if we_channels env \<and> ng_channel (fst g) > 0 then Some (ng_channel (fst g)) else None"
  obtain err w where sent: "we_deliver env ?to (aggregateNotificationEvents ?events) (snd s1) = (err, w)"
    by (cases "we_deliver env ?to (aggregateNotificationEvents ?events) (snd s1)") blast
  obtain w' where ended: "we_ended env w = (False, w')" using quiet [of w] by (cases "we_ended env w") simp
  have result: "deliver_group env g s = (True, if ?events = [] then complete_all env jobs s1
      else case err of Some e \<Rightarrow> fold (report_failure env e) jobs (fst s1, w') | None \<Rightarrow> complete_all env jobs (fst s1, w'))"
    by (simp add: deliver_group_def jobs Let_def sent ended split: option.split)
  have "settles t K base (nj_id ` set (snd g)) s (snd (deliver_group env g s))"
    unfolding result snd_conv
    using join [OF settles_complete_all [OF assms(1,2) fors]] join [OF settles_fold [OF settles_failure [OF assms(1,2) fors]]]
    by (simp split: option.split)
  then show ?thesis by (simp add: result)
qed

definition grouped :: "(notificationGroup \<times> NotificationJob list) list \<Rightarrow> NotificationJob set" where
  "grouped groups = (\<Union>g \<in> set groups. set (snd g))"

lemma grouped_Cons: "grouped (g # gs) = set (snd g) \<union> grouped gs"
  by (simp add: grouped_def)

lemma grouped_update: "map_of gs k = Some js \<Longrightarrow> grouped (AList.update k (js @ [j]) gs) = insert j (grouped gs)"
  by (induction gs) (auto simp: grouped_Cons split: if_splits)

lemma grouped_add: "grouped (add_to_group key j groups) = insert j (grouped groups)"
  by (auto simp: add_to_group_def grouped_update split: option.split) (auto simp: grouped_def)

lemma settles_grouping:
  assumes "steady env t" "rows_ok base"
  shows "(\<And>j. j \<in> set js \<Longrightarrow> job_for K base j) \<Longrightarrow> group_jobs env js groups s = (groups', s') \<Longrightarrow>
     grouped groups' \<subseteq> set js \<union> grouped groups \<and> grouped groups \<subseteq> grouped groups'
     \<and> settles t K base (nj_id ` (set js - grouped groups')) s s'"
proof (induction js arbitrary: groups s)
  case (Cons j js)
  have j: "job_for K base j" using Cons.prems(1) by simp
  show ?case
  proof (cases "we_event env (nj_payload j)")
    case None
    let ?s1 = "snd (statement env (CompleteNotification j) s)"
    have rest: "grouped groups' \<subseteq> set js \<union> grouped groups" "grouped groups \<subseteq> grouped groups'"
      "settles t K base (nj_id ` (set js - grouped groups')) ?s1 s'"
      using Cons.IH [of groups ?s1] Cons.prems None by simp_all
    show ?thesis
      using rest(1,2) settles_mono [OF settles_trans [OF settles_complete [OF assms j] rest(3)], where J' = "nj_id ` (set (j # js) - grouped groups')"]
      by auto
  next
    case (Some e)
    then show ?thesis
      using Cons.IH [of "add_to_group (group_of e j) j groups" s] Cons.prems
      by (auto simp: grouped_add intro: settles_mono)
  qed
qed (auto simp: settles_refl)

lemma settles_groups:
  assumes "steady env t" "rows_ok base"
  shows "(\<And>j. j \<in> grouped gs \<Longrightarrow> job_for K base j) \<Longrightarrow>
     fst (deliver_groups env gs s) \<and> settles t K base (nj_id ` grouped gs) s (snd (deliver_groups env gs s))"
proof (induction gs arbitrary: s)
  case (Cons g gs)
  have g: "fst (deliver_group env g s)" "settles t K base (nj_id ` set (snd g)) s (snd (deliver_group env g s))"
    using settles_group [OF assms, where g = g and K = K and s = s] Cons.prems by (auto simp: grouped_Cons)
  have gs: "fst (deliver_groups env gs (snd (deliver_group env g s)))"
    "settles t K base (nj_id ` grouped gs) (snd (deliver_group env g s)) (snd (deliver_groups env gs (snd (deliver_group env g s))))"
    using Cons.IH Cons.prems by (auto simp: grouped_Cons)
  show ?case
    using g(1) gs(1) settles_trans [OF g(2) gs(2)] by (simp add: split_beta grouped_Cons image_Un)
qed (simp add: settles_refl grouped_def)

text \<open>After a claim everything claimed is in hand.\<close>

lemma progress_claim:
  assumes "rows_ok base" "t \<le> now" and claim: "ClaimNotificationJobs limit now base = (jobs, db)"
  shows "progress t (nj_id ` set jobs) base (nj_id ` set jobs) db"
    and "j \<in> set jobs \<Longrightarrow> job_for (nj_id ` set jobs) base j"
proof -
  let ?ps = "picked (nat (if limit \<le> 0 then 20 else limit)) now base"
  have sub: "set ?ps \<subseteq> set (od_rows base)" by (auto simp: picked_def dest: in_set_takeD)
  have jobs: "jobs = map (job_of \<circ> lease_row now) ?ps"
    and db: "od_rows db = map (\<lambda>r. if ob_id r \<in> ob_id ` set ?ps then lease_row now r else r) (od_rows base)"
    using claim by (auto simp: ClaimNotificationJobs_def Let_def)
  have ids: "nj_id ` set jobs = ob_id ` set ?ps" by (auto simp: jobs job_of_def lease_row_def image_image)
  have "lease_seconds a * second \<ge> 60 * second" for a by (simp add: lease_seconds_def)
  then have lease: "ob_next (lease_row now r) \<ge> t + 60 * second" for r
    using assms(2) by (simp add: lease_row_def) (smt (verit))
  have "rows_ok db" using advance_claim [OF assms(1), of limit now] claim by (simp add: rows_advance_def)
  then show "progress t (nj_id ` set jobs) base (nj_id ` set jobs) db"
    unfolding progress_def ids db
  proof (intro conjI ballI)
    fix r' assume "r' \<in> set (map (\<lambda>r. if ob_id r \<in> ob_id ` set ?ps then lease_row now r else r) (od_rows base))"
    then obtain r where r: "r \<in> set (od_rows base)" "r' = (if ob_id r \<in> ob_id ` set ?ps then lease_row now r else r)" by auto
    then show "\<exists>r0 \<in> set (od_rows base). ob_id r' = ob_id r0 \<and> (ob_id r' \<notin> ob_id ` set ?ps \<longrightarrow> r' = r0)
     \<and> (ob_id r' \<in> ob_id ` set ?ps \<longrightarrow> ob_dead r' \<noteq> None \<or> ob_attempts r' = ob_attempts r0 + 1
          \<and> (if ob_id r' \<in> ob_id ` set ?ps then ob_lease r' = ob_lease r0 + 1 \<and> ob_next r' \<ge> t + 60 * second
             else ob_attempts r' < notificationMaxAttempts))"
      using lease by (intro bexI [where x = r]) (simp_all add: lease_row_def)
  qed
  show "job_for (nj_id ` set jobs) base j" if "j \<in> set jobs"
    using that sub unfolding job_for_def by (auto simp: jobs job_of_def lease_row_def)
qed

lemma round_progress:
  assumes "steady env t" "rows_ok (fst s)"
  obtains K where "progress t K (fst s) {} (fst (snd (worker_round env s)))"
    and "\<And>r. r \<in> set (od_rows (fst s)) \<Longrightarrow> due t r \<Longrightarrow> \<exists>r \<in> set (od_rows (fst s)). ob_id r \<in> K \<and> ob_dead r = None"
    and "\<And>r. r \<in> set (od_rows (fst s)) \<Longrightarrow> ob_id r \<in> K \<Longrightarrow> ob_dead r = None"
proof -
  obtain now w where now: "we_statement env (snd s) = (Some now, w)" "t \<le> now"
    using assms(1) unfolding steady_def by meson
  obtain jobs db where claim: "ClaimNotificationJobs notificationBatchSize now (fst s) = (jobs, db)"
    by (cases "ClaimNotificationJobs notificationBatchSize now (fst s)") blast
  obtain groups s1 where grouping: "group_jobs env jobs [] (db, w) = (groups, s1)"
    by (cases "group_jobs env jobs [] (db, w)") blast
  define K where "K = nj_id ` set jobs"
  note claimed = progress_claim [OF assms(2) now(2) claim, folded K_def]
  have g: "grouped groups \<subseteq> set jobs" "settles t K (fst s) (nj_id ` (set jobs - grouped groups)) (db, w) s1"
    using settles_grouping [OF assms claimed(2) grouping] by (auto simp: grouped_def)
  have d: "settles t K (fst s) (nj_id ` grouped groups) s1 (snd (deliver_groups env groups s1))"
    using settles_groups [OF assms, where gs = groups and K = K and s = s1] claimed(2) g(1) by blast
  have final: "snd (worker_round env s) = snd (deliver_groups env groups s1)"
    by (simp add: worker_round_def now claim grouping split_beta)
  obtain Q where Q: "Q \<subseteq> K" "Q \<inter> (nj_id ` (set jobs - grouped groups) \<union> nj_id ` grouped groups) = {}"
    "progress t K (fst s) Q (fst (snd (deliver_groups env groups s1)))"
    by (rule settlesE [OF settles_trans [OF g(2) d], of K]) (simp_all add: claimed(1))
  then have "Q = {}" unfolding K_def by blast
  then have P: "progress t K (fst s) {} (fst (snd (worker_round env s)))" using Q(3) by (simp add: final)
  let ?ps = "picked 5 now (fst s)"
  have K: "K = ob_id ` set ?ps" and sub: "set ?ps \<subseteq> set (filter (due now) (od_rows (fst s)))"
    using claim by (auto simp: K_def ClaimNotificationJobs_def Let_def notificationBatchSize_def job_of_def lease_row_def
        image_image picked_def dest: in_set_takeD)
  show thesis
  proof (rule that [OF P])
    fix r assume "r \<in> set (od_rows (fst s))" "due t r"
    then have "filter (due now) (od_rows (fst s)) \<noteq> []" using now(2) by (auto simp: filter_empty_conv due_def)
    then have "?ps \<noteq> []" unfolding picked_def by (metis length_0_conv length_sort take_eq_Nil zero_neq_numeral)
    then obtain x where "x \<in> set ?ps" by (cases ?ps) auto
    then show "\<exists>r \<in> set (od_rows (fst s)). ob_id r \<in> K \<and> ob_dead r = None" using sub by (auto simp: K due_def)
  next
    fix r assume "r \<in> set (od_rows (fst s))" "ob_id r \<in> K"
    then obtain x where "x \<in> set ?ps" "ob_id x = ob_id r" by (auto simp: K)
    moreover from this sub have "x \<in> set (od_rows (fst s))" "ob_dead x = None" by (auto simp: due_def)
    ultimately show "ob_dead r = None" using only_row [OF assms(2) \<open>r \<in> set (od_rows (fst s))\<close>] by blast
  qed
qed

text \<open>How many attempts the jobs that are alive have left, at least one each.\<close>

definition attempts_left :: "OutboxRow \<Rightarrow> nat" where
  "attempts_left r = (if ob_dead r \<noteq> None then 0 else nat (max 1 (notificationMaxAttempts - ob_attempts r)))"

definition outstanding :: "OutboxDB \<Rightarrow> nat" where
  "outstanding db = sum_list (map attempts_left (od_rows db))"

lemma attempts_left_zero: "attempts_left r = 0 \<longleftrightarrow> ob_dead r \<noteq> None"
  by (simp add: attempts_left_def)

lemma outstanding_sum: "rows_ok db \<Longrightarrow> outstanding db = sum attempts_left (set (od_rows db))"
  by (simp add: outstanding_def rows_ok_def distinct_map sum_list_distinct_conv_sum_set)

lemma outstanding_decreases:
  assumes "progress t K base {} db" "rows_ok base"
    and "\<And>r. r \<in> set (od_rows base) \<Longrightarrow> ob_id r \<in> K \<Longrightarrow> ob_dead r = None"
  shows "outstanding db \<le> outstanding base"
    and "r \<in> set (od_rows base) \<Longrightarrow> ob_id r \<in> K \<Longrightarrow> outstanding db < outstanding base"
proof -
  let ?left = "\<lambda>r. if ob_id r \<in> K then attempts_left r - 1 else attempts_left r"
  have "\<exists>r0 \<in> set (od_rows base). ob_id r0 = ob_id r \<and> attempts_left r \<le> ?left r0" if r: "r \<in> set (od_rows db)" for r
  proof -
    obtain r0 where r0: "r0 \<in> set (od_rows base)" "ob_id r = ob_id r0" "ob_id r \<notin> K \<longrightarrow> r = r0"
      "ob_id r \<in> K \<longrightarrow> ob_dead r \<noteq> None \<or> ob_attempts r = ob_attempts r0 + 1 \<and> ob_attempts r < notificationMaxAttempts"
      using assms(1) r unfolding progress_def empty_iff if_False by blast
    show ?thesis
      using r0 assms(3) [OF r0(1)] by (intro bexI [where x = r0]) (auto simp: attempts_left_def)
  qed
  then obtain h where h: "\<And>r. r \<in> set (od_rows db) \<Longrightarrow> h r \<in> set (od_rows base) \<and> ob_id (h r) = ob_id r
      \<and> attempts_left r \<le> ?left (h r)" by metis
  have ok: "rows_ok db" using assms(1) by (simp add: progress_def)
  have inj: "inj_on h (set (od_rows db))" by (rule inj_onI) (metis h only_row [OF ok])
  have "outstanding db \<le> sum (?left \<circ> h) (set (od_rows db))"
    unfolding outstanding_sum [OF ok] using h by (intro sum_mono) (metis comp_apply)
  also have "\<dots> = sum ?left (h ` set (od_rows db))" by (rule sum.reindex [OF inj, symmetric])
  also have "\<dots> \<le> sum ?left (set (od_rows base))" using h by (intro sum_mono2) auto
  finally have le: "outstanding db \<le> sum ?left (set (od_rows base))" .
  have "sum ?left (set (od_rows base)) \<le> sum attempts_left (set (od_rows base))" by (rule sum_mono) simp
  with le show "outstanding db \<le> outstanding base" by (simp add: outstanding_sum [OF assms(2)])
  show "outstanding db < outstanding base" if "r \<in> set (od_rows base)" "ob_id r \<in> K"
  proof -
    have "attempts_left r > 0" using assms(3) [OF that] by (simp add: attempts_left_def)
    then have "sum ?left (set (od_rows base)) < sum attempts_left (set (od_rows base))"
      using that by (intro sum_strict_mono_ex1) (auto intro!: bexI [OF _ that(1)])
    with le show ?thesis by (simp add: outstanding_sum [OF assms(2)])
  qed
qed

section \<open>Properties\<close>

text \<open>
  Rounds one after another, each with its own environment and start: every statement of a round runs
  within a minute of its start, the worker is not stopped, and a job that is alive is due when it starts.
\<close>

fun rounds :: "('w WorkerEnv \<times> time) list \<Rightarrow> OutboxDB \<times> 'w \<Rightarrow> OutboxDB \<times> 'w" where
  "rounds [] s = s"
| "rounds ((env, t) # rs) s = rounds rs (snd (worker_round env s))"

fun punctual :: "('w WorkerEnv \<times> time) list \<Rightarrow> OutboxDB \<times> 'w \<Rightarrow> bool" where
  "punctual [] s \<longleftrightarrow> True"
| "punctual ((env, t) # rs) s \<longleftrightarrow> steady env t
     \<and> (list_all (\<lambda>r. ob_dead r \<noteq> None) (od_rows (fst s)) \<or> list_ex (due t) (od_rows (fst s)))
     \<and> punctual rs (snd (worker_round env s))"

lemma none_outstanding: "outstanding db = 0 \<longleftrightarrow> list_all (\<lambda>r. ob_dead r \<noteq> None) (od_rows db)"
  by (simp add: outstanding_def attempts_left_zero list_all_iff)

lemma rounds_outstanding:
  "rows_ok (fst s) \<Longrightarrow> punctual rs s \<Longrightarrow> outstanding (fst (rounds rs s)) \<le> outstanding (fst s) - length rs"
proof (induction rs s rule: rounds.induct)
  case (2 env t rs s)
  let ?s = "snd (worker_round env s)"
  from 2 have t: "steady env t" by simp
  obtain K where K: "progress t K (fst s) {} (fst ?s)"
      "\<And>r. r \<in> set (od_rows (fst s)) \<Longrightarrow> due t r \<Longrightarrow> \<exists>r \<in> set (od_rows (fst s)). ob_id r \<in> K \<and> ob_dead r = None"
      "\<And>r. r \<in> set (od_rows (fst s)) \<Longrightarrow> ob_id r \<in> K \<Longrightarrow> ob_dead r = None"
    by (rule round_progress [OF t 2(2)]) (rule that)
  have "rows_ok (fst ?s)" using K(1) by (simp add: progress_def)
  then have IH: "outstanding (fst (rounds rs ?s)) \<le> outstanding (fst ?s) - length rs" using 2 by simp
  have "outstanding (fst ?s) \<le> outstanding (fst s) - 1"
  proof (cases "list_all (\<lambda>r. ob_dead r \<noteq> None) (od_rows (fst s))")
    case True
    then show ?thesis using outstanding_decreases(1) [OF K(1) 2(2) K(3)] none_outstanding [of "fst s"] by simp
  next
    case False
    then obtain r where "r \<in> set (od_rows (fst s))" "due t r" using 2(3) by (auto simp: list_ex_iff)
    then obtain x where "x \<in> set (od_rows (fst s))" "ob_id x \<in> K" using K(2) by blast
    then show ?thesis using outstanding_decreases(2) [OF K(1) 2(2) K(3)] by fastforce
  qed
  then show ?case using IH by simp
qed simp

text \<open>
  C29: the outbox drains. From whatever state workers, retries and administrators left, and whether
  deliveries succeed or fail, the rounds of the worker deliver, drop or bury every job: once there were as
  many rounds as the jobs have attempts left, no job is alive any more.
\<close>

theorem outbox_drains:
  assumes "punctual rs (or_db (outbox_run enc steps (empty_run channels upstreams)), w)"
    and "outstanding (or_db (outbox_run enc steps (empty_run channels upstreams))) \<le> length rs"
  shows "fst (NotificationCounts (fst (rounds rs (or_db (outbox_run enc steps (empty_run channels upstreams)), w)))) = 0"
proof -
  let ?s = "(or_db (outbox_run enc steps (empty_run channels upstreams)), w)"
  have "rows_ok (fst ?s)" using run_ok_rows [OF outbox_run_ok [OF empty_run_ok]] by simp
  from rounds_outstanding [OF this assms(1)] assms(2) have "outstanding (fst (rounds rs ?s)) = 0" by simp
  then show ?thesis by (simp add: none_outstanding list_all_iff NotificationCounts_def)
qed

definition failing :: "time \<Rightarrow> unit WorkerEnv \<times> time" where
  "failing t = (\<lparr>we_statement = \<lambda>w. (Some t, w), we_now = \<lambda>w. (t, w), we_ended = \<lambda>w. (False, w),
     we_deliver = \<lambda>c e w. (Some (PlainError ''refused''), w), we_channels = True,
     we_event = \<lambda>p. Some empty_event, we_json = \<lambda>e. JNull, we_text = \<lambda>p. []\<rparr>, t)"

lemma failing_steady: "steady (fst (failing t)) t"
  by (simp add: steady_def failing_def)

lemma punctual_failing:
  "punctual (failing t # rs) s \<longleftrightarrow>
     (list_all (\<lambda>r. ob_dead r \<noteq> None) (od_rows (fst s)) \<or> list_ex (due t) (od_rows (fst s)))
     \<and> punctual rs (snd (worker_round (fst (failing t)) s))"
  using failing_steady [of t] by (simp add: failing_def)

definition four_claims :: "(OutboxStep \<times> time) list" where
  "four_claims = [(OEnqueue [] JNull 0, 0), (OClaim 1, 0), (OClaim 1, 10 * minute), (OClaim 1, 20 * minute), (OClaim 1, 30 * minute)]"

lemma outbox_drains_witness:
  "fst (NotificationCounts (fst (rounds [failing (40 * minute)] (or_db (outbox_run (\<lambda>p. []) four_claims (empty_run [] [])), ())))) = 0"
proof (rule outbox_drains)
  show "punctual [failing (40 * minute)] (or_db (outbox_run (\<lambda>p. []) four_claims (empty_run [] [])), ())"
    unfolding punctual_failing punctual.simps(1) by code_simp
  show "outstanding (or_db (outbox_run (\<lambda>p. []) four_claims (empty_run [] []))) \<le> length [failing (40 * minute)]"
    by code_simp
qed

end
