(* ===== verification/Netguard.thy ===== *)
theory Netguard
  imports Transport
begin

text \<open>
  The outbound network boundary of \<open>internal/netguard/netguard.go\<close>. An IP address is its list of bytes, the
  nil address is empty. \<open>net.ParseIP\<close>, \<open>net.SplitHostPort\<close> and the predicates of \<open>net.IP\<close> are modelled;
  parsing a URL, resolving a name and connecting are parameters.
\<close>

section \<open>Addresses\<close>

type_synonym ip = "nat list"

definition is_digit :: "char \<Rightarrow> bool" where
  "is_digit c \<longleftrightarrow> CHR ''0'' \<le> c \<and> c \<le> CHR ''9''"

definition digit_of :: "char \<Rightarrow> nat" where
  "digit_of c = of_char c - of_char (CHR ''0'')"

definition decimal :: "string \<Rightarrow> nat" where
  "decimal ds = foldl (\<lambda>n c. n * 10 + digit_of c) 0 ds"

text \<open>\<open>net.ParseIP\<close>: dotted decimal without leading zeros.\<close>

definition ip4_field :: "string \<Rightarrow> nat option" where
  "ip4_field ds =
     (if ds \<noteq> [] \<and> list_all is_digit ds \<and> (hd ds = CHR ''0'' \<longrightarrow> length ds = 1) \<and> decimal ds \<le> 255
      then Some (decimal ds) else None)"

definition parse_ip4 :: "string \<Rightarrow> ip option" where
  "parse_ip4 s =
     (let fields = map ip4_field (split_on (CHR ''.'') s)
      in if length fields = 4 \<and> None \<notin> set fields then Some (map the fields) else None)"

definition hex_value :: "char \<Rightarrow> nat option" where
  "hex_value c =
     (let n = of_char c :: nat
      in if 48 \<le> n \<and> n \<le> 57 then Some (n - 48)
         else if 97 \<le> n \<and> n \<le> 102 then Some (n - 87)
         else if 65 \<le> n \<and> n \<le> 70 then Some (n - 55) else None)"

text \<open>
  The groups of an IPv6 address after a leading ellipsis: the bytes so far, where the ellipsis is, and
  what is left of the text. \<open>None\<close> is a syntax error.
\<close>

function ip6_groups :: "ip \<Rightarrow> nat option \<Rightarrow> string \<Rightarrow> (ip \<times> nat option \<times> string) option" where
  "ip6_groups bytes gap s =
     (if length bytes \<ge> 16 then Some (bytes, gap, s)
      else let ds = takeWhile (\<lambda>c. hex_value c \<noteq> None) s;
               rest = dropWhile (\<lambda>c. hex_value c \<noteq> None) s;
               n = foldl (\<lambda>n c. n * 16 + the (hex_value c)) 0 ds
           in if ds = [] \<or> length ds > 4 then None
              else if rest \<noteq> [] \<and> hd rest = CHR ''.''
              then (if (gap = None \<and> length bytes \<noteq> 12) \<or> length bytes + 4 > 16 then None
                    else map_option (\<lambda>v4. (bytes @ v4, gap, [])) (parse_ip4 s))
              else let bytes = bytes @ [n div 256, n mod 256]
                   in if rest = [] then Some (bytes, gap, [])
                      else if hd rest \<noteq> CHR '':'' \<or> tl rest = [] then None
                      else if hd (tl rest) = CHR '':''
                      then (if gap \<noteq> None then None
                            else if tl (tl rest) = [] then Some (bytes, Some (length bytes), [])
                            else ip6_groups bytes (Some (length bytes)) (tl (tl rest)))
                      else ip6_groups bytes gap (tl rest))"
  by pat_completeness auto
termination by (relation "measure (\<lambda>(bytes, gap, s). 16 - length bytes)") auto

declare ip6_groups.simps [simp del]

definition expand_gap :: "ip \<times> nat option \<times> string \<Rightarrow> ip option" where
  "expand_gap p =
     (case p of (bytes, gap, rest) \<Rightarrow>
        if rest \<noteq> [] then None
        else (case gap of
                None \<Rightarrow> (if length bytes < 16 then None else Some bytes)
              | Some k \<Rightarrow> (if length bytes < 16 then Some (take k bytes @ replicate (16 - length bytes) 0 @ drop k bytes)
                            else None)))"

definition parse_ip6 :: "string \<Rightarrow> ip option" where
  "parse_ip6 s =
     (if s = ''::'' then Some (replicate 16 0)
      else if has_prefix s ''::'' then Option.bind (ip6_groups [] (Some 0) (drop 2 s)) expand_gap
      else Option.bind (ip6_groups [] None s) expand_gap)"

text \<open>An address with a zone is not an address for \<open>ParseIP\<close>; the result has 16 bytes.\<close>

definition mapped :: "ip \<Rightarrow> ip" where
  "mapped v4 = replicate 10 0 @ [255, 255] @ v4"

definition ParseIP :: "string \<Rightarrow> ip option" where
  "ParseIP s =
     (if CHR ''%'' \<in> set s then None
      else case find (\<lambda>c. c = CHR ''.'' \<or> c = CHR '':'') s of
        None \<Rightarrow> None
      | Some c \<Rightarrow> if c = CHR ''.'' then map_option mapped (parse_ip4 s) else parse_ip6 s)"

definition To4 :: "ip \<Rightarrow> ip option" where
  "To4 ip =
     (if length ip = 4 then Some ip
      else if length ip = 16 \<and> take 12 ip = replicate 10 0 @ [255, 255] then Some (drop 12 ip)
      else None)"

definition IsUnspecified :: "ip \<Rightarrow> bool" where
  "IsUnspecified ip \<longleftrightarrow> To4 ip = Some [0, 0, 0, 0] \<or> ip = replicate 16 0"

definition IsLoopback :: "ip \<Rightarrow> bool" where
  "IsLoopback ip \<longleftrightarrow> (case To4 ip of Some v \<Rightarrow> v ! 0 = 127 | None \<Rightarrow> ip = replicate 15 0 @ [1])"

definition IsPrivate :: "ip \<Rightarrow> bool" where
  "IsPrivate ip \<longleftrightarrow>
     (case To4 ip of
        Some v \<Rightarrow> v ! 0 = 10 \<or> (v ! 0 = 172 \<and> v ! 1 div 16 = 1) \<or> (v ! 0 = 192 \<and> v ! 1 = 168)
      | None \<Rightarrow> length ip = 16 \<and> ip ! 0 div 2 = 126)"

definition IsMulticast :: "ip \<Rightarrow> bool" where
  "IsMulticast ip \<longleftrightarrow> (case To4 ip of Some v \<Rightarrow> v ! 0 div 16 = 14 | None \<Rightarrow> length ip = 16 \<and> ip ! 0 = 255)"

definition IsLinkLocalMulticast :: "ip \<Rightarrow> bool" where
  "IsLinkLocalMulticast ip \<longleftrightarrow>
     (case To4 ip of
        Some v \<Rightarrow> v ! 0 = 224 \<and> v ! 1 = 0 \<and> v ! 2 = 0
      | None \<Rightarrow> length ip = 16 \<and> ip ! 0 = 255 \<and> ip ! 1 mod 16 = 2)"

definition IsLinkLocalUnicast :: "ip \<Rightarrow> bool" where
  "IsLinkLocalUnicast ip \<longleftrightarrow>
     (case To4 ip of
        Some v \<Rightarrow> v ! 0 = 169 \<and> v ! 1 = 254
      | None \<Rightarrow> length ip = 16 \<and> ip ! 0 = 254 \<and> ip ! 1 div 64 = 2)"

definition blockedIP :: "ip \<Rightarrow> bool" where
  "blockedIP ip =
     (if ip = [] \<or> IsLoopback ip \<or> IsPrivate ip \<or> IsLinkLocalUnicast ip \<or> IsLinkLocalMulticast ip \<or> IsMulticast ip
         \<or> IsUnspecified ip then True
      else case To4 ip of
        Some v \<Rightarrow> (v ! 0 = 100 \<and> v ! 1 \<ge> 64 \<and> v ! 1 \<le> 127)
                \<or> (v ! 0 = 169 \<and> v ! 1 = 254 \<and> v ! 2 = 169 \<and> v ! 3 = 254)
      | None \<Rightarrow> False)"

section \<open>Host names and ports\<close>

definition blockedHostname :: "string \<Rightarrow> bool" where
  "blockedHostname host =
     (let host = trim_suffix (to_lower (trim_space host)) ''.''
      in if host = ''localhost'' \<or> host = ''metadata.google.internal'' \<or> host = ''metadata'' \<or> CHR ''.'' \<notin> set host then True
         else has_suffix host ''.localhost'' \<or> has_suffix host ''.local'')"

datatype guard_error =
    InvalidURL | InvalidAddress | InvalidHost | InvalidPort | BlockedAddress | ResolveFailed | ConnectFailed

text \<open>\<open>strconv.Atoi\<close> with its optional sign.\<close>

definition atoi :: "string \<Rightarrow> int option" where
  "atoi s =
     (let ds = (if s \<noteq> [] \<and> (hd s = CHR ''+'' \<or> hd s = CHR ''-'') then tl s else s);
          n = (if s \<noteq> [] \<and> hd s = CHR ''-'' then - int (decimal ds) else int (decimal ds))
      in if ds = [] \<or> \<not> list_all is_digit ds \<or> \<not> in_int64 n then None else Some n)"

definition ValidatePort :: "string \<Rightarrow> guard_error option" where
  "ValidatePort raw =
     (case atoi raw of
        None \<Rightarrow> Some InvalidPort
      | Some value \<Rightarrow> if value < 1 \<or> value > 65535 then Some InvalidPort else None)"

definition after_last :: "char \<Rightarrow> string \<Rightarrow> string" where
  "after_last c s = rev (takeWhile (\<lambda>x. x \<noteq> c) (rev s))"

definition before_last :: "char \<Rightarrow> string \<Rightarrow> string" where
  "before_last c s = take (length s - length (after_last c s) - 1) s"

definition SplitHostPort :: "string \<Rightarrow> (string \<times> string) option" where
  "SplitHostPort s =
     (if CHR '':'' \<notin> set s then None
      else let front = before_last (CHR '':'') s; port = after_last (CHR '':'') s
      in if hd s = CHR ''['' then
           (let host = takeWhile (\<lambda>c. c \<noteq> CHR '']'') (tl s)
            in if CHR '']'' \<notin> set s \<or> front \<noteq> CHR ''['' # host @ [CHR '']'']
                  \<or> CHR ''['' \<in> set (tl s) \<or> CHR '']'' \<in> set port then None
               else Some (host, port))
         else if CHR '':'' \<in> set front \<or> CHR ''['' \<in> set s \<or> CHR '']'' \<in> set s then None
         else Some (front, port))"

text \<open>What \<open>url.Parse\<close> reads, and \<open>URL.Hostname\<close> and \<open>URL.Port\<close> of it.\<close>

record ParsedUrl =
  pu_scheme :: string
  pu_user :: bool
  pu_host :: string

definition url_split :: "string \<Rightarrow> string \<times> string" where
  "url_split s =
     (let (host, port) =
          (if CHR '':'' \<in> set s \<and> list_all is_digit (after_last (CHR '':'') s)
           then (before_last (CHR '':'') s, after_last (CHR '':'') s) else (s, []))
      in (if has_prefix host ''['' \<and> has_suffix host '']'' then butlast (tl host) else host, port))"

definition ValidateURL :: "(string \<Rightarrow> ParsedUrl option) \<Rightarrow> string \<Rightarrow> guard_error option" where
  "ValidateURL parse raw =
     (case parse (trim_space raw) of
        None \<Rightarrow> Some InvalidURL
      | Some u \<Rightarrow>
          if pu_user u \<or> pu_host u = [] \<or> (pu_scheme u \<noteq> ''http'' \<and> pu_scheme u \<noteq> ''https'') then Some InvalidURL
          else let host = trim_suffix (to_lower (fst (url_split (pu_host u)))) ''.''; ip = ParseIP host;
                   port = snd (url_split (pu_host u))
          in if host = [] \<or> (ip = None \<and> blockedHostname host) then Some BlockedAddress
             else if port \<noteq> [] \<and> ValidatePort port \<noteq> None then ValidatePort port
             else if ip \<noteq> None \<and> blockedIP (the ip) then Some BlockedAddress
             else None)"

definition ValidateAddress :: "string \<Rightarrow> guard_error option" where
  "ValidateAddress raw =
     (case SplitHostPort (trim_space raw) of
        None \<Rightarrow> Some InvalidAddress
      | Some (host, port) \<Rightarrow>
          if host = [] then Some InvalidAddress
          else if ValidatePort port \<noteq> None then ValidatePort port
          else let host = trim_suffix (to_lower host) ''.''; ip = ParseIP host
          in if CHR '':'' \<in> set host \<and> ip = None then Some InvalidHost
             else if (ip = None \<and> blockedHostname host) \<or> (ip \<noteq> None \<and> blockedIP (the ip)) then Some BlockedAddress
             else None)"

section \<open>Dialling\<close>

text \<open>The network resolves a name, or fails, and connects to an address and port, or fails.\<close>

record 'w Network =
  nw_lookup :: "string \<Rightarrow> 'w \<Rightarrow> ip list option \<times> 'w"
  nw_dial :: "string \<Rightarrow> ip \<Rightarrow> string \<Rightarrow> 'w \<Rightarrow> bool \<times> 'w"

fun dial_each :: "'w Network \<Rightarrow> string \<Rightarrow> string \<Rightarrow> bool \<Rightarrow> ip list \<Rightarrow> 'w \<Rightarrow> (guard_error + ip) \<times> 'w" where
  "dial_each net network port failed [] w = (Inl (if failed then ConnectFailed else BlockedAddress), w)"
| "dial_each net network port failed (ip # ips) w =
     (if blockedIP ip then (Inl BlockedAddress, w)
      else if network = ''tcp4'' \<and> To4 ip = None then dial_each net network port failed ips w
      else if network = ''tcp6'' \<and> To4 ip \<noteq> None then dial_each net network port failed ips w
      else case nw_dial net network ip port w of
             (True, w) \<Rightarrow> (Inr ip, w)
           | (False, w) \<Rightarrow> dial_each net network port True ips w)"

definition DialContext :: "'w Network \<Rightarrow> string \<Rightarrow> string \<Rightarrow> 'w \<Rightarrow> (guard_error + ip) \<times> 'w" where
  "DialContext net network address w =
     (case SplitHostPort address of
        None \<Rightarrow> (Inl InvalidAddress, w)
      | Some (host, port) \<Rightarrow>
          (let host = to_lower (trim_suffix host ''.'')
           in case ParseIP host of
                Some ip \<Rightarrow> dial_each net network port False [ip] w
              | None \<Rightarrow>
                  if blockedHostname host then (Inl BlockedAddress, w)
                  else case nw_lookup net host w of
                    (None, w) \<Rightarrow> (Inl ResolveFailed, w)
                  | (Some ips, w) \<Rightarrow>
                      if ips = [] then (Inl BlockedAddress, w) else dial_each net network port False ips w))"

section \<open>Address ranges\<close>

text \<open>An address as a number, most significant byte first, and the ranges of CIDR notation.\<close>

definition ip_number :: "ip \<Rightarrow> nat" where
  "ip_number ip = foldl (\<lambda>n b. n * 256 + b) 0 ip"

definition in_cidr :: "ip \<Rightarrow> ip \<times> nat \<Rightarrow> bool" where
  "in_cidr ip c \<longleftrightarrow> length ip = length (fst c)
     \<and> ip_number ip div 2 ^ (8 * length ip - snd c) = ip_number (fst c) div 2 ^ (8 * length ip - snd c)"

text \<open>This host, the private, shared, loopback, link-local and multicast ranges.\<close>

definition refused_v4 :: "(ip \<times> nat) list" where
  "refused_v4 = [([0, 0, 0, 0], 32), ([10, 0, 0, 0], 8), ([100, 64, 0, 0], 10), ([127, 0, 0, 0], 8), ([169, 254, 0, 0], 16),
     ([172, 16, 0, 0], 12), ([192, 168, 0, 0], 16), ([224, 0, 0, 0], 4)]"

definition refused_v6 :: "(ip \<times> nat) list" where
  "refused_v6 = [(replicate 16 0, 128), (replicate 15 0 @ [1], 128), ([252] @ replicate 15 0, 7),
     ([254, 128] @ replicate 14 0, 10), ([255] @ replicate 15 0, 8)]"

lemma fold_number: "foldl (\<lambda>n b. n * 256 + b) n bs = n * 256 ^ length bs + ip_number bs"
proof (induction bs arbitrary: n)
  case (Cons b bs)
  have "ip_number (b # bs) = b * 256 ^ length bs + ip_number bs" using Cons [of b] by (simp add: ip_number_def)
  then show ?case using Cons [of "n * 256 + b"] by (simp add: algebra_simps)
qed (simp add: ip_number_def)

lemma number_append: "ip_number (as @ bs) = ip_number as * 256 ^ length bs + ip_number bs"
  using fold_number [of "ip_number as" bs] by (simp add: ip_number_def)

lemma number_bound: "list_all (\<lambda>b. b < 256) bs \<Longrightarrow> ip_number bs < 256 ^ length bs"
proof (induction bs)
  case (Cons b bs)
  have "ip_number (b # bs) = b * 256 ^ length bs + ip_number bs" using number_append [of "[b]" bs] by (simp add: ip_number_def)
  also have "\<dots> < (b + 1) * 256 ^ length bs" using Cons by simp
  also have "\<dots> \<le> 256 * 256 ^ length bs" using Cons.prems by (intro mult_right_mono) simp_all
  finally show ?case by simp
qed (simp add: ip_number_def)

lemma number_div:
  assumes "list_all (\<lambda>b. b < 256) bs"
  shows "ip_number (as @ bs) div (256 ^ length bs * q) = ip_number as div q"
  using number_bound [OF assms] by (simp add: number_append div_mult2_eq)

lemma number_inj:
  "length as = length bs \<Longrightarrow> list_all (\<lambda>b. b < 256) as \<Longrightarrow> list_all (\<lambda>b. b < 256) bs \<Longrightarrow> ip_number as = ip_number bs \<Longrightarrow> as = bs"
proof (induction as bs rule: rev_induct2)
  case (4 a as b bs)
  have eq: "ip_number as * 256 + a = ip_number bs * 256 + b" using 4 by (simp add: number_append ip_number_def)
  have lt: "a < 256" "b < 256" using 4 by simp_all
  have "a = b" using arg_cong [OF eq, of "\<lambda>n. n mod 256"] lt by simp
  moreover have "ip_number as = ip_number bs" using arg_cong [OF eq, of "\<lambda>n. n div 256"] lt by simp
  ultimately show ?case using 4 by simp
qed simp_all

lemma cidr_whole:
  "list_all (\<lambda>b. b < 256) ip \<Longrightarrow> list_all (\<lambda>b. b < 256) c \<Longrightarrow> in_cidr ip (c, 8 * length c) \<longleftrightarrow> ip = c"
  using number_inj [of ip c] by (auto simp: in_cidr_def)

text \<open>A prefix of a byte, or of two, and some bits.\<close>

lemma cidr_split:
  assumes "list_all (\<lambda>b. b < 256) bs" "list_all (\<lambda>b. b < 256) ds" "length as = length cs" "length bs = length ds" "r \<le> 8"
  shows "in_cidr (as @ bs) (cs @ ds, 8 * length as - r) \<longleftrightarrow> ip_number as div 2 ^ r = ip_number cs div 2 ^ r"
proof (cases "8 * length as \<ge> r")
  case True
  have "8 * length (as @ bs) - (8 * length as - r) = 8 * length bs + r" using True by simp
  moreover have "(2::nat) ^ (8 * length bs + r) = 256 ^ length bs * 2 ^ r" by (simp add: power_add power_mult)
  ultimately show ?thesis
    using number_div [OF assms(1), of as "2 ^ r"] number_div [OF assms(2), of cs "2 ^ r"] assms(3,4) by (simp add: in_cidr_def)
next
  case False
  then have "as = []" using assms(5) by (cases as) auto
  then show ?thesis using assms number_bound [OF assms(1)] number_bound [OF assms(2)]
    by (simp add: in_cidr_def ip_number_def power_mult)
qed

lemma number_two: "ip_number [a, b] = a * 256 + b" "ip_number [a] = a"
  by (simp_all add: ip_number_def)

lemma two_bytes:
  fixes a b :: nat
  assumes "b < 256"
  shows "(a * 256 + b) div 64 = 401 \<longleftrightarrow> a = 100 \<and> b div 64 = 1"
    and "(a * 256 + b) div 64 = 1018 \<longleftrightarrow> a = 254 \<and> b div 64 = 2"
    and "(a * 256 + b) div 16 = 2753 \<longleftrightarrow> a = 172 \<and> b div 16 = 1"
    and "a * 256 + b = 43518 \<longleftrightarrow> a = 169 \<and> b = 254"
    and "a * 256 + b = 49320 \<longleftrightarrow> a = 192 \<and> b = 168"
proof -
  have 64: "(a * 256 + b) div 64 = a * 4 + b div 64" using div_mult_self2 [of 64 b "a * 4"] by (simp add: algebra_simps)
  have 16: "(a * 256 + b) div 16 = a * 16 + b div 16" using div_mult_self2 [of 16 b "a * 16"] by (simp add: algebra_simps)
  have "b div 64 < 4" "b div 16 < 16" using assms by (simp_all add: less_mult_imp_div_less)
  moreover have "a * 4 + x = 401 \<longleftrightarrow> a = 100 \<and> x = 1" "a * 4 + x = 1018 \<longleftrightarrow> a = 254 \<and> x = 2" if "x < 4" for x
    using that by presburger+
  moreover have "a * 16 + x = 2753 \<longleftrightarrow> a = 172 \<and> x = 1" if "x < 16" for x using that by presburger
  ultimately show "(a * 256 + b) div 64 = 401 \<longleftrightarrow> a = 100 \<and> b div 64 = 1" "(a * 256 + b) div 64 = 1018 \<longleftrightarrow> a = 254 \<and> b div 64 = 2"
    "(a * 256 + b) div 16 = 2753 \<longleftrightarrow> a = 172 \<and> b div 16 = 1"
    unfolding 64 16 by blast+
  have split: "a * 256 + b = n \<longleftrightarrow> a = n div 256 \<and> b = n mod 256" for n
    using assms div_mult_mod_eq [of n 256] by auto
  show "a * 256 + b = 43518 \<longleftrightarrow> a = 169 \<and> b = 254" "a * 256 + b = 49320 \<longleftrightarrow> a = 192 \<and> b = 168"
    using split [of 43518] split [of 49320] by simp_all
qed

lemma refused_v4_bytes:
  assumes "a < 256" "b < 256" "c < 256" "d < 256"
  shows "list_ex (in_cidr [a, b, c, d]) refused_v4 \<longleftrightarrow>
     [a, b, c, d] = [0, 0, 0, 0] \<or> a = 10 \<or> (a = 100 \<and> b div 64 = 1) \<or> a = 127 \<or> (a = 169 \<and> b = 254)
     \<or> (a = 172 \<and> b div 16 = 1) \<or> (a = 192 \<and> b = 168) \<or> a div 16 = 14"
proof -
  have bytes: "list_all (\<lambda>b. b < 256) [b, c, d]" "list_all (\<lambda>b. b < 256) [c, d]" "list_all (\<lambda>b. b < 256) [a, b, c, d]"
    using assms by simp_all
  have zeros: "list_all (\<lambda>b. b < 256) [0, 0, 0 :: nat]" "list_all (\<lambda>b. b < 256) [0, 0 :: nat]" by simp_all
  have 1: "in_cidr [a, b, c, d] ([n, 0, 0, 0], 8 - r) \<longleftrightarrow> a div 2 ^ r = n div 2 ^ r" if "r \<le> 8" for n r
    using cidr_split [of "[b, c, d]" "[0, 0, 0]" "[a]" "[n]" r] bytes that by (simp add: number_two)
  have 2: "in_cidr [a, b, c, d] ([n, m, 0, 0], 16 - r) \<longleftrightarrow> (a * 256 + b) div 2 ^ r = (n * 256 + m) div 2 ^ r"
    if "r \<le> 8" for n m r
    using cidr_split [of "[c, d]" "[0, 0]" "[a, b]" "[n, m]" r] bytes that by (simp add: number_two)
  have 3: "in_cidr [a, b, c, d] ([0, 0, 0, 0], 32) \<longleftrightarrow> [a, b, c, d] = [0, 0, 0, 0]"
    using cidr_whole [of "[a, b, c, d]" "[0, 0, 0, 0]"] bytes by simp
  have "list_ex (in_cidr [a, b, c, d]) refused_v4 \<longleftrightarrow> [a, b, c, d] = [0, 0, 0, 0] \<or> a = 10 \<or> (a * 256 + b) div 64 = 401
     \<or> a = 127 \<or> a * 256 + b = 43518 \<or> (a * 256 + b) div 16 = 2753 \<or> a * 256 + b = 49320 \<or> a div 16 = 14"
    unfolding refused_v4_def
    using 1 [of 0 10] 1 [of 0 127] 1 [of 4 224] 2 [of 6 100 64] 2 [of 0 169 254] 2 [of 4 172 16] 2 [of 0 192 168] 3
    by simp
  then show ?thesis unfolding two_bytes [OF assms(2)] .
qed

text \<open>
  The addresses that are refused are exactly those of the listed ranges: for IPv4, also when it is
  written as an IPv4-mapped IPv6 address, this host, the private networks, carrier-grade NAT, loopback,
  link-local and multicast; for IPv6 the unspecified and the loopback address, unique-local, link-local
  and multicast.
\<close>

theorem blocked_ip_exact:
  assumes "length ip = 4 \<or> length ip = 16" "list_all (\<lambda>b. b < 256) ip"
  shows "blockedIP ip \<longleftrightarrow>
     (case To4 ip of Some v \<Rightarrow> list_ex (in_cidr v) refused_v4 | None \<Rightarrow> list_ex (in_cidr ip) refused_v6)"
proof (cases "To4 ip")
  case (Some v)
  have "length v = 4" "list_all (\<lambda>b. b < 256) v"
    using Some assms by (auto simp: To4_def list_all_iff dest: in_set_dropD split: if_splits)
  then obtain a b c d where v: "v = [a, b, c, d]" "a < 256" "b < 256" "c < 256" "d < 256"
    by (auto simp: length_Suc_conv numeral_eq_Suc)
  have bits: "b div 64 = 1 \<longleftrightarrow> b \<ge> 64 \<and> b \<le> 127" "a = 224 \<Longrightarrow> a div 16 = 14" by auto
  have "ip \<noteq> []" "ip \<noteq> replicate 16 0" using Some by (auto simp: To4_def numeral_eq_Suc)
  then have "blockedIP ip \<longleftrightarrow> a = 127 \<or> (a = 10 \<or> (a = 172 \<and> b div 16 = 1) \<or> (a = 192 \<and> b = 168)) \<or> (a = 169 \<and> b = 254)
      \<or> (a = 224 \<and> b = 0 \<and> c = 0) \<or> a div 16 = 14 \<or> [a, b, c, d] = [0, 0, 0, 0]
      \<or> ((a = 100 \<and> b \<ge> 64 \<and> b \<le> 127) \<or> (a = 169 \<and> b = 254 \<and> c = 169 \<and> d = 254))"
    using Some by (simp add: v(1) blockedIP_def IsLoopback_def IsPrivate_def IsLinkLocalUnicast_def IsLinkLocalMulticast_def
        IsMulticast_def IsUnspecified_def numeral_2_eq_2 numeral_3_eq_3) blast
  then show ?thesis
    unfolding Some option.case v(1) refused_v4_bytes [OF v(2-5)] using bits by blast
next
  case None
  then have len: "length ip = 16" using assms by (auto simp: To4_def)
  then obtain a b bs where ip: "ip = a # b # bs" "length bs = 14" by (auto simp: length_Suc_conv numeral_eq_Suc)
  have bytes: "a < 256" "b < 256" "list_all (\<lambda>b. b < 256) bs" using assms(2) by (simp_all add: ip(1))
  have 1: "in_cidr ip ([n] @ replicate 15 0, 8 - r) \<longleftrightarrow> a div 2 ^ r = n div 2 ^ r" if "r \<le> 8" for n r
    using cidr_split [of "b # bs" "replicate 15 0" "[a]" "[n]" r] bytes that ip by (simp add: number_two list_all_iff)
  have 2: "in_cidr ip ([254, 128] @ replicate 14 0, 16 - 6) \<longleftrightarrow> (a * 256 + b) div 2 ^ 6 = (254 * 256 + 128) div 2 ^ 6"
    using cidr_split [of bs "replicate 14 0" "[a, b]" "[254, 128]" 6] bytes ip by (simp add: number_two list_all_iff)
  have 3: "in_cidr ip (replicate 16 0, 128) \<longleftrightarrow> ip = replicate 16 0"
    "in_cidr ip (replicate 15 0 @ [1], 128) \<longleftrightarrow> ip = replicate 15 0 @ [1]"
    using cidr_whole [OF assms(2), of "replicate 16 0"] cidr_whole [OF assms(2), of "replicate 15 0 @ [1]"]
    by (simp_all add: list_all_iff)
  have "list_ex (in_cidr ip) refused_v6 \<longleftrightarrow> ip = replicate 16 0 \<or> ip = replicate 15 0 @ [1] \<or> a div 2 = 126
      \<or> (a * 256 + b) div 64 = 1018 \<or> a = 255"
    using 1 [of 1 252] 1 [of 0 255] 2 3 unfolding refused_v6_def by simp
  note R = this [unfolded two_bytes [OF bytes(2)]]
  have "blockedIP ip \<longleftrightarrow> ip = replicate 15 0 @ [1] \<or> a div 2 = 126 \<or> (a = 254 \<and> b div 64 = 2) \<or> (a = 255 \<and> b mod 16 = 2)
      \<or> a = 255 \<or> ip = replicate 16 0"
    unfolding blockedIP_def IsLoopback_def IsPrivate_def IsLinkLocalUnicast_def IsLinkLocalMulticast_def IsMulticast_def
      IsUnspecified_def None option.case using len by (simp add: ip(1))
  then show ?thesis unfolding None option.case R by blast
qed

definition public_ip :: ip where "public_ip = [100, 63, 255, 255]"

lemma blocked_ip_exact_witness:
  "blockedIP public_ip = (case To4 public_ip of Some v \<Rightarrow> list_ex (in_cidr v) refused_v4 | None \<Rightarrow> list_ex (in_cidr public_ip) refused_v6)
    \<and> \<not> blockedIP public_ip \<and> blockedIP [100, 64, 0, 0]"
proof (intro conjI)
  show "blockedIP public_ip = (case To4 public_ip of Some v \<Rightarrow> list_ex (in_cidr v) refused_v4 | None \<Rightarrow> list_ex (in_cidr public_ip) refused_v6)"
    using blocked_ip_exact [of public_ip] by (simp add: public_ip_def split: option.splits)
  show "\<not> blockedIP public_ip" by code_simp
  show "blockedIP [100, 64, 0, 0]" by code_simp
qed

section \<open>What is dialled\<close>

text \<open>The same network, keeping the answers it gave to look-ups and the connections it was asked for.\<close>

definition logged :: "'w Network \<Rightarrow> ((string \<times> ip list option) list \<times> (ip \<times> string) list \<times> 'w) Network" where
  "logged net = \<lparr>
     nw_lookup = \<lambda>host (names, dials, w). case nw_lookup net host w of (ips, w) \<Rightarrow> (ips, names @ [(host, ips)], dials, w),
     nw_dial = \<lambda>network ip port (names, dials, w).
       case nw_dial net network ip port w of (up, w) \<Rightarrow> (up, names, dials @ [(ip, port)], w)\<rparr>"

lemma dial_each_logged:
  assumes "list_all (\<lambda>(ip, p). \<not> blockedIP ip \<and> ip \<in> allowed \<and> p = port) dials" "set ips \<subseteq> allowed"
    and "dial_each (logged net) network port failed ips (names, dials, w) = (res, names', dials', w')"
  shows "names' = names \<and> list_all (\<lambda>(ip, p). \<not> blockedIP ip \<and> ip \<in> allowed \<and> p = port) dials'
    \<and> (case res of Inl e \<Rightarrow> e = BlockedAddress \<or> e = ConnectFailed | Inr ip \<Rightarrow> dials' \<noteq> [] \<and> last dials' = (ip, port))"
  using assms
proof (induction ips arbitrary: failed dials w)
  case (Cons ip ips)
  show ?case
  proof (cases "blockedIP ip \<or> (network = ''tcp4'' \<and> To4 ip = None) \<or> (network = ''tcp6'' \<and> To4 ip \<noteq> None)")
    case False
    obtain up w1 where dial: "nw_dial net network ip port w = (up, w1)" by fastforce
    have ok: "list_all (\<lambda>(ip, p). \<not> blockedIP ip \<and> ip \<in> allowed \<and> p = port) (dials @ [(ip, port)])" using False Cons.prems by simp
    show ?thesis
      using False Cons.prems dial Cons.IH [OF ok] ok by (cases up) (auto simp: logged_def)
  next
    case True
    then show ?thesis using Cons.prems Cons.IH [of dials] by (auto split: if_splits)
  qed
qed auto

text \<open>
  C30: whatever name server and network there are, only addresses outside the refused ranges are dialled,
  each on the port of the address asked for, and only the literal address or the answers the name server
  gave for its host; a refused host name is not even looked up. A connection that is handed out is the one
  dialled last.
\<close>

theorem dial_guarded:
  "case DialContext (logged net) network address ([], [], w) of
     (res, names, dials, w') \<Rightarrow>
       list_all (\<lambda>(ip, port). \<not> blockedIP ip
           \<and> (\<exists>host. SplitHostPort address = Some (host, port)
                \<and> (ParseIP (to_lower (trim_suffix host ''.'')) = Some ip
                   \<or> (\<exists>ips. names = [(to_lower (trim_suffix host ''.''), Some ips)] \<and> ip \<in> set ips)))) dials
       \<and> list_all (\<lambda>(host, _). \<not> blockedHostname host \<and> ParseIP host = None) names
       \<and> (case res of Inl _ \<Rightarrow> True | Inr ip \<Rightarrow> dials \<noteq> [] \<and> fst (last dials) = ip)"
proof (cases "SplitHostPort address")
  case (Some hp)
  obtain host port where hp: "hp = (host, port)" by fastforce
  let ?host = "to_lower (trim_suffix host ''.'')"
  show ?thesis
  proof (cases "ParseIP ?host")
    case None
    show ?thesis
    proof (cases "blockedHostname ?host")
      case False
      obtain answer w1 where look: "nw_lookup net ?host w = (answer, w1)" by fastforce
      show ?thesis
      proof (cases answer)
        case (Some ips)
        obtain res names dials w' where run: "dial_each (logged net) network port False ips ([(?host, answer)], [], w1) = (res, names, dials, w')"
          by (cases "dial_each (logged net) network port False ips ([(?host, answer)], [], w1)") auto
        have "names = [(?host, answer)] \<and> list_all (\<lambda>(ip, p). \<not> blockedIP ip \<and> ip \<in> set ips \<and> p = port) dials
          \<and> (case res of Inl e \<Rightarrow> e = BlockedAddress \<or> e = ConnectFailed | Inr ip \<Rightarrow> dials \<noteq> [] \<and> last dials = (ip, port))"
          by (rule dial_each_logged [OF _ _ run]) simp_all
        then show ?thesis
          using \<open>SplitHostPort address = Some hp\<close> None False look run Some
          by (auto simp: DialContext_def hp logged_def Let_def list_all_iff split: sum.splits)
      qed (use \<open>SplitHostPort address = Some hp\<close> None False look in \<open>simp add: DialContext_def hp logged_def Let_def\<close>)
    qed (use Some None in \<open>simp add: DialContext_def hp Let_def\<close>)
  next
    case (Some ip)
    obtain res names dials w' where run: "dial_each (logged net) network port False [ip] ([], [], w) = (res, names, dials, w')"
      by (cases "dial_each (logged net) network port False [ip] ([], [], w)") auto
    have "names = [] \<and> list_all (\<lambda>(i, p). \<not> blockedIP i \<and> i \<in> {ip} \<and> p = port) dials
      \<and> (case res of Inl e \<Rightarrow> e = BlockedAddress \<or> e = ConnectFailed | Inr ip \<Rightarrow> dials \<noteq> [] \<and> last dials = (ip, port))"
      by (rule dial_each_logged [OF _ _ run]) simp_all
    then show ?thesis
      using \<open>SplitHostPort address = Some hp\<close> Some run
      by (auto simp: DialContext_def hp Let_def list_all_iff split: sum.splits)
  qed
qed (simp add: DialContext_def)

text \<open>What validation refuses for its address is refused again by the dialer, without touching the network.\<close>

lemma trim_dot_lower: "to_lower (trim_suffix s ''.'') = trim_suffix (to_lower s) ''.''"
proof (cases s rule: rev_cases)
  case (snoc t c)
  have "lower_char c = CHR ''.'' \<longleftrightarrow> c = CHR ''.''"
  proof
    assume dot: "lower_char c = CHR ''.''"
    have "of_char (lower_char c) = (46 :: nat)" unfolding dot by simp
    then have "\<not> (65 \<le> (of_char c :: nat) \<and> (of_char c :: nat) \<le> 90)" by (auto simp: lower_char_def Let_def)
    then show "c = CHR ''.''" using dot by (simp only: lower_char_def Let_def if_False)
  qed (simp add: lower_char_def)
  then show ?thesis using snoc by (cases "c = CHR ''.''") (auto simp: trim_suffix_def to_lower_def)
qed (simp add: trim_suffix_def to_lower_def)

lemma validation_refuses_early:
  assumes "ValidateAddress raw = Some BlockedAddress"
  shows "DialContext net network (trim_space raw) w = (Inl BlockedAddress, w)"
  using assms
  by (auto simp: ValidateAddress_def DialContext_def Let_def trim_dot_lower ValidatePort_def split: option.splits if_splits)

end
