(* ===== verification/Monitor.thy ===== *)
theory Monitor
  imports Health_Store Ops_Event "HOL-Library.Product_Lexorder"
begin

text \<open>
  The monitor of \<open>internal/ops/monitor.go\<close>: health and balance rounds over the enabled upstreams, the
  notices that wait for the notifier, and the cooldown of \<open>ops/notifier.go\<close> in front of it. A round
  runs on an arbitrary world, which probes, accepts or refuses notices and lets statements fail; what the
  two loops do to the shared notices at the same time is a step relation.
\<close>

section \<open>Notices that wait\<close>

record Monitor =
  mo_pending :: "int \<rightharpoonup> Event list"
  mo_in_flight :: "int set"

definition maxPendingEventsPerUpstream :: nat where "maxPendingEventsPerUpstream = 16"

definition pending_of :: "Monitor \<Rightarrow> int \<Rightarrow> Event list" where
  "pending_of m i = (case mo_pending m i of None \<Rightarrow> [] | Some es \<Rightarrow> es)"

fun replace_type :: "Event \<Rightarrow> Event list \<Rightarrow> Event list option" where
  "replace_type e [] = None"
| "replace_type e (x # xs) = (if ev_type x = ev_type e then Some (e # xs) else map_option ((#) x) (replace_type e xs))"

definition setPending :: "Event \<Rightarrow> Monitor \<Rightarrow> Monitor" where
  "setPending e m =
     (let events = pending_of m (ev_upstream_id e)
      in m\<lparr>mo_pending := (mo_pending m)(ev_upstream_id e \<mapsto>
           (case replace_type e events of
              Some events \<Rightarrow> events
            | None \<Rightarrow>
                (if length events \<ge> maxPendingEventsPerUpstream
                 then drop (length events - maxPendingEventsPerUpstream + 1) events else events) @ [e]))\<rparr>)"

definition ackPending :: "Event \<Rightarrow> Monitor \<Rightarrow> Monitor" where
  "ackPending sent m =
     (let events = remove1 sent (pending_of m (ev_upstream_id sent))
      in m\<lparr>mo_pending := (mo_pending m)(ev_upstream_id sent := (if events = [] then None else Some events))\<rparr>)"

text \<open>The locked part at the start of \<open>retryPending\<close>: what to send, or nothing, or another retry is running.\<close>

datatype retry_start = RetryRunning | NothingPending | Retry "Event list"

definition start_retry :: "int \<Rightarrow> Monitor \<Rightarrow> retry_start \<times> Monitor" where
  "start_retry i m =
     (if i \<in> mo_in_flight m then (RetryRunning, m)
      else if pending_of m i = [] then (NothingPending, m)
      else (Retry (pending_of m i), m\<lparr>mo_in_flight := insert i (mo_in_flight m)\<rparr>))"

definition end_retry :: "int \<Rightarrow> Monitor \<Rightarrow> Monitor" where
  "end_retry i m = m\<lparr>mo_in_flight := mo_in_flight m - {i}\<rparr>"

section \<open>Events\<close>

definition healthEvent :: "Upstream \<Rightarrow> string \<Rightarrow> string \<Rightarrow> time \<Rightarrow> Event" where
  "healthEvent u previous status checked =
     empty_event\<lparr>ev_type := ''upstream_health'', ev_state := status, ev_previous := previous, ev_upstream_id := us_id u,
       ev_upstream_name := us_name u,
       ev_message := utf8 [0xE4, 0xB8, 0x8A, 0xE6, 0xB8, 0xB8, 0x20] @ us_name u
         @ utf8 [0x20, 0xE7, 0x8A, 0xB6, 0xE6, 0x80, 0x81, 0xE4, 0xBB, 0x8E, 0x20] @ previous
         @ utf8 [0x20, 0xE5, 0x8F, 0x98, 0xE6, 0x9B, 0xB4, 0xE4, 0xB8, 0xBA, 0x20] @ status,
       ev_at := checked\<rparr>"

definition balance_protection_type :: string where
  "balance_protection_type = ''upstream_balance_protection''"

definition BalanceTransitionEvent :: "Upstream \<Rightarrow> Balance \<Rightarrow> BalanceTransition \<Rightarrow> time \<Rightarrow> Event" where
  "BalanceTransitionEvent u balance transition now =
     empty_event\<lparr>ev_type := balance_protection_type, ev_state := transition_text transition, ev_upstream_id := us_id u,
       ev_upstream_name := us_name u, ev_message := BalanceTransitionMessage (us_name u) transition [],
       ev_at := (case ba_updated_at balance of None \<Rightarrow> now | Some t \<Rightarrow> t)\<rparr>"

definition BalanceProtectionDisabledEvent :: "Upstream \<Rightarrow> time \<Rightarrow> Event" where
  "BalanceProtectionDisabledEvent u now =
     empty_event\<lparr>ev_type := balance_protection_type, ev_state := transition_text BalanceResumed, ev_upstream_id := us_id u,
       ev_upstream_name := us_name u,
       ev_message := BalanceTransitionMessage (us_name u) BalanceResumed BalanceReasonProtectionDisabled, ev_at := now\<rparr>"

section \<open>The world of the monitor\<close>

text \<open>A statement fails or runs at an instant; a nil notifier is \<open>None\<close>.\<close>

record 'w MonitorEnv =
  mn_statement :: "'w \<Rightarrow> time option \<times> 'w"
  mn_now :: "'w \<Rightarrow> time \<times> 'w"
  mn_ended :: "'w \<Rightarrow> bool \<times> 'w"
  mn_check_health :: "Upstream \<Rightarrow> 'w \<Rightarrow> (ProbeHealth \<times> time) \<times> 'w"
  mn_check_balance :: "Upstream \<Rightarrow> 'w \<Rightarrow> Balance \<times> 'w"
  mn_notify :: "(Event \<Rightarrow> 'w \<Rightarrow> bool \<times> 'w) option"
  mn_health_every :: duration

record SavedEvent =
  sv_upstream :: "int option"
  sv_type :: string
  sv_state :: string
  sv_message :: string

record 'w Watch =
  wa_monitor :: Monitor
  wa_store :: Store
  wa_events :: "SavedEvent list"
  wa_world :: 'w

datatype monitor_error = RetryInProgress | NotifyFailed | StoreError store_error | QueryFailed | ContextEnded

definition OpsSaveEvent :: "'w MonitorEnv \<Rightarrow> Event \<Rightarrow> 'w Watch \<Rightarrow> monitor_error option \<times> 'w Watch" where
  "OpsSaveEvent env e s =
     (case mn_statement env (wa_world s) of
        (None, w) \<Rightarrow> (Some QueryFailed, s\<lparr>wa_world := w\<rparr>)
      | (Some _, w) \<Rightarrow> (None, s\<lparr>wa_world := w, wa_events := wa_events s @
          [\<lparr>sv_upstream = (if ev_upstream_id e > 0 then Some (ev_upstream_id e) else None), sv_type = ev_type e,
            sv_state = ev_state e, sv_message = ev_message e\<rparr>]\<rparr>))"

text \<open>A statement, or a transaction of some, on the store.\<close>

definition on_store ::
  "'w MonitorEnv \<Rightarrow> (time \<Rightarrow> Store \<Rightarrow> (store_error + 'a) \<times> Store) \<Rightarrow> 'w Watch \<Rightarrow> (monitor_error + 'a) \<times> 'w Watch" where
  "on_store env f s =
     (case mn_statement env (wa_world s) of
        (None, w) \<Rightarrow> (Inl QueryFailed, s\<lparr>wa_world := w\<rparr>)
      | (Some now, w) \<Rightarrow>
          (case f now (wa_store s) of (r, store) \<Rightarrow>
             ((case r of Inl e \<Rightarrow> Inl (StoreError e) | Inr x \<Rightarrow> Inr x), s\<lparr>wa_world := w, wa_store := store\<rparr>)))"

definition notify :: "(Event \<Rightarrow> 'w \<Rightarrow> bool \<times> 'w) \<Rightarrow> Event \<Rightarrow> 'w Watch \<Rightarrow> bool \<times> 'w Watch" where
  "notify f e s = (case f e (wa_world s) of (accepted, w) \<Rightarrow> (accepted, s\<lparr>wa_world := w\<rparr>))"

fun send_pending :: "(Event \<Rightarrow> 'w \<Rightarrow> bool \<times> 'w) \<Rightarrow> Event list \<Rightarrow> 'w Watch \<Rightarrow> monitor_error option \<times> 'w Watch" where
  "send_pending f [] s = (None, s)"
| "send_pending f (e # es) s =
     (case notify f e s of
        (False, s) \<Rightarrow> (Some NotifyFailed, s)
      | (True, s) \<Rightarrow> send_pending f es (s\<lparr>wa_monitor := ackPending e (wa_monitor s)\<rparr>))"

definition retryPending :: "'w MonitorEnv \<Rightarrow> int \<Rightarrow> 'w Watch \<Rightarrow> monitor_error option \<times> 'w Watch" where
  "retryPending env i s =
     (case mn_notify env of
        None \<Rightarrow> (None, s)
      | Some f \<Rightarrow>
          (case start_retry i (wa_monitor s) of
             (RetryRunning, m) \<Rightarrow> (Some RetryInProgress, s)
           | (NothingPending, m) \<Rightarrow> (None, s)
           | (Retry events, m) \<Rightarrow>
               (case send_pending f events (s\<lparr>wa_monitor := m\<rparr>) of
                  (err, s) \<Rightarrow> (err, s\<lparr>wa_monitor := end_retry i (wa_monitor s)\<rparr>))))"

section \<open>Rounds\<close>

text \<open>The errors of one upstream, in the order they are joined.\<close>

definition errors_of :: "monitor_error option \<Rightarrow> monitor_error list" where
  "errors_of e = (case e of None \<Rightarrow> [] | Some e \<Rightarrow> [e])"

definition transition_event :: "Upstream \<Rightarrow> string \<Rightarrow> time \<Rightarrow> Event option" where
  "transition_event u status checked =
     (if us_health_status u \<noteq> [] \<and> us_health_status u \<noteq> ''unknown'' \<and> us_health_status u \<noteq> status
      then Some (healthEvent u (us_health_status u) status checked) else None)"

text \<open>What follows an accepted or absent notification of \<open>SaveHealth\<close>.\<close>

definition announce_health ::
  "'w MonitorEnv \<Rightarrow> Upstream \<Rightarrow> string \<Rightarrow> time \<Rightarrow> Event option \<Rightarrow> 'w Watch \<Rightarrow> monitor_error option \<times> 'w Watch" where
  "announce_health env u notification checked transition s =
     (if notification = [] then (None, s)
      else let event = healthEvent u (if notification = healthy then unhealthy else healthy) notification checked;
               saved = (case transition of Some e \<Rightarrow> ev_state e = notification | None \<Rightarrow> False);
               event = (if saved then the transition else event)
      in case (if saved then (None, s) else OpsSaveEvent env event s) of
           (Some e, s) \<Rightarrow> (Some e, s)
         | (None, s) \<Rightarrow>
             (case (case mn_notify env of None \<Rightarrow> (True, s) | Some f \<Rightarrow> notify f event s) of
                (False, s) \<Rightarrow> (Some NotifyFailed, s)
              | (True, s) \<Rightarrow>
                  (case on_store env (\<lambda>now store. case AcceptHealthNotification (us_id u) notification now store of
                            (Some e, store) \<Rightarrow> (Inl e, store) | (None, store) \<Rightarrow> (Inr (), store)) s of
                     (Inl e, s) \<Rightarrow> (Some e, s)
                   | (Inr _, s) \<Rightarrow> (None, s))))"

text \<open>\<open>OpsRepository.SaveHealth\<close>: three transactions, each at its own instant.\<close>

definition save_health :: "'w MonitorEnv \<Rightarrow> Upstream \<Rightarrow> ProbeHealth \<Rightarrow> 'w Watch \<Rightarrow> (monitor_error + string \<times> string) \<times> 'w Watch" where
  "save_health env u h s =
     (let ok = (ph_status h = healthy); interval = (if mn_health_every env \<le> 0 then 30 * second else mn_health_every env)
      in case on_store env (SaveProbeHealth (us_id u) ok (ph_error h) (ph_status_code h = 401 \<or> ph_status_code h = 403)
                (us_config_version u)) s of
           (Inl e, s) \<Rightarrow> (Inl e, s)
         | (Inr (status, _), s) \<Rightarrow>
             (case (case ph_models h of
                      Some models \<Rightarrow>
                        if ok then on_store env (\<lambda>now store. case SaveDiscoveredModels (us_id u) models (us_config_version u) now store of
                                     (Some e, store) \<Rightarrow> (Inl e, store) | (None, store) \<Rightarrow> (Inr (), store)) s
                        else (Inr (), s)
                    | None \<Rightarrow> (Inr (), s)) of
                (Inl e, s) \<Rightarrow> (Inl e, s)
              | (Inr _, s) \<Rightarrow>
                  (case on_store env (ObserveHealthNotification (us_id u) status interval (us_config_version u)) s of
                     (Inl e, s) \<Rightarrow> (Inl e, s)
                   | (Inr notification, s) \<Rightarrow> (Inr (status, notification), s))))"

definition health_work :: "'w MonitorEnv \<Rightarrow> Upstream \<Rightarrow> 'w Watch \<Rightarrow> monitor_error list \<times> 'w Watch" where
  "health_work env u s =
     (case retryPending env (us_id u) s of (pending_err, s) \<Rightarrow>
      case mn_check_health env u (wa_world s) of ((h, checked), w) \<Rightarrow>
      case mn_ended env w of (ended, w) \<Rightarrow>
        (let s = s\<lparr>wa_world := w\<rparr>
         in if ended then ([ContextEnded], s)
            else case save_health env u h s of
              (Inl (StoreError ErrUpstreamConfigChanged), s) \<Rightarrow> (errors_of pending_err, s)
            | (Inl e, s) \<Rightarrow> (errors_of pending_err @ [e], s)
            | (Inr (status, notification), s) \<Rightarrow>
                (let transition = transition_event u status checked
                 in case (case transition of None \<Rightarrow> (None, s) | Some e \<Rightarrow> OpsSaveEvent env e s) of
                      (Some e, s) \<Rightarrow> (errors_of pending_err @ [e], s)
                    | (None, s) \<Rightarrow>
                        (case announce_health env u notification checked transition s of
                           (e, s) \<Rightarrow> (errors_of pending_err @ errors_of e, s)))))"

definition balance_work :: "'w MonitorEnv \<Rightarrow> Upstream \<Rightarrow> 'w Watch \<Rightarrow> monitor_error list \<times> 'w Watch" where
  "balance_work env u s =
     (case retryPending env (us_id u) s of (pending_err, s) \<Rightarrow>
      case mn_check_balance env u (wa_world s) of (balance, w) \<Rightarrow>
      case mn_ended env w of (ended, w) \<Rightarrow>
        (let s = s\<lparr>wa_world := w\<rparr>
         in if ended then ([ContextEnded], s)
            else case on_store env (SaveBalance (us_id u) balance False (us_config_version u)) s of
              (Inl (StoreError ErrUpstreamConfigChanged), s) \<Rightarrow> (errors_of pending_err, s)
            | (Inl e, s) \<Rightarrow> (errors_of pending_err @ [e], s)
            | (Inr BalanceUnchanged, s) \<Rightarrow> (errors_of pending_err, s)
            | (Inr transition, s) \<Rightarrow>
                (case mn_now env (wa_world s) of (now, w) \<Rightarrow>
                 let s = s\<lparr>wa_world := w\<rparr>; event = BalanceTransitionEvent u balance transition now
                 in case mn_notify env of
                      None \<Rightarrow> ([], s)
                    | Some f \<Rightarrow>
                        if pending_err \<noteq> None
                        then (errors_of pending_err, s\<lparr>wa_monitor := setPending event (wa_monitor s)\<rparr>)
                        else case notify f event s of
                          (True, s) \<Rightarrow> ([], s)
                        | (False, s) \<Rightarrow> ([NotifyFailed], s\<lparr>wa_monitor := setPending event (wa_monitor s)\<rparr>))))"

definition ListUpstreams :: "StoreDB \<Rightarrow> Upstream list" where
  "ListUpstreams db = map ur_upstream (sort_key (\<lambda>r. (us_priority (ur_upstream r), ur_id r)) (db_upstreams db))"

text \<open>The enabled upstreams in order; the context may end before each of them and at the end.\<close>

fun run_enabled ::
  "'w MonitorEnv \<Rightarrow> (Upstream \<Rightarrow> 'w Watch \<Rightarrow> monitor_error list \<times> 'w Watch) \<Rightarrow> Upstream list \<Rightarrow> 'w Watch
     \<Rightarrow> (int \<times> monitor_error list) list \<times> 'w Watch" where
  "run_enabled env work [] s = ([], s)"
| "run_enabled env work (u # us) s =
     (if \<not> us_enabled u then run_enabled env work us s
      else case mn_ended env (wa_world s) of
             (True, w) \<Rightarrow> ([], s\<lparr>wa_world := w\<rparr>)
           | (False, w) \<Rightarrow>
               (case work u (s\<lparr>wa_world := w\<rparr>) of (errs, s) \<Rightarrow>
                case run_enabled env work us s of (rest, s) \<Rightarrow> ((if errs = [] then rest else (us_id u, errs) # rest), s)))"

definition parallel ::
  "'w MonitorEnv \<Rightarrow> (Upstream \<Rightarrow> 'w Watch \<Rightarrow> monitor_error list \<times> 'w Watch) \<Rightarrow> Upstream list \<Rightarrow> 'w Watch
     \<Rightarrow> (int \<times> monitor_error list) list \<times> 'w Watch" where
  "parallel env work us s =
     (case run_enabled env work us s of (errs, s) \<Rightarrow>
      case mn_ended env (wa_world s) of (ended, w) \<Rightarrow>
        ((if ended then (0, [ContextEnded]) # errs else errs), s\<lparr>wa_world := w\<rparr>))"

definition monitor_round ::
  "'w MonitorEnv \<Rightarrow> (Upstream \<Rightarrow> 'w Watch \<Rightarrow> monitor_error list \<times> 'w Watch) \<Rightarrow> 'w Watch
     \<Rightarrow> (int \<times> monitor_error list) list \<times> 'w Watch" where
  "monitor_round env work s =
     (case on_store env (\<lambda>now store. (Inr (ListUpstreams (st_db store)), store)) s of
        (Inl e, s) \<Rightarrow> ([(0, [e])], s)
      | (Inr us, s) \<Rightarrow> parallel env work us s)"

definition RunHealth :: "'w MonitorEnv \<Rightarrow> 'w Watch \<Rightarrow> (int \<times> monitor_error list) list \<times> 'w Watch" where
  "RunHealth env = monitor_round env (health_work env)"

definition RunBalances :: "'w MonitorEnv \<Rightarrow> 'w Watch \<Rightarrow> (int \<times> monitor_error list) list \<times> 'w Watch" where
  "RunBalances env = monitor_round env (balance_work env)"

text \<open>\<open>ops.NewMonitor\<close>'s defaults, and what \<open>app.Operations\<close> does on request of an administrator.\<close>

record MonitorConfig =
  mc_health_every :: duration
  mc_balance_every :: duration
  mc_concurrency :: int

definition new_monitor_config :: "MonitorConfig \<Rightarrow> MonitorConfig" where
  "new_monitor_config c =
     \<lparr>mc_health_every = (if mc_health_every c \<le> 0 then 30 * second else mc_health_every c),
      mc_balance_every = (if mc_balance_every c \<le> 0 then 10 * minute else mc_balance_every c),
      mc_concurrency = (if mc_concurrency c \<le> 0 then 8 else mc_concurrency c)\<rparr>"

definition load_upstream :: "'w MonitorEnv \<Rightarrow> int \<Rightarrow> 'w Watch \<Rightarrow> (monitor_error + Upstream) \<times> 'w Watch" where
  "load_upstream env i =
     on_store env (\<lambda>now store. (case find_upstream (st_db store) i of
        None \<Rightarrow> Inl ErrNotFound | Some r \<Rightarrow> Inr (ur_upstream r), store))"

definition OperationsCheck :: "'w MonitorEnv \<Rightarrow> int \<Rightarrow> 'w Watch \<Rightarrow> (monitor_error + ProbeHealth) \<times> 'w Watch" where
  "OperationsCheck env i s =
     (case load_upstream env i s of
        (Inl e, s) \<Rightarrow> (Inl e, s)
      | (Inr u, s) \<Rightarrow>
          (case mn_check_health env u (wa_world s) of ((h, _), w) \<Rightarrow>
           case mn_ended env w of (ended, w) \<Rightarrow>
             (let s = s\<lparr>wa_world := w\<rparr>
              in if ended then (Inl ContextEnded, s)
                 else case save_health (env\<lparr>mn_health_every := 0\<rparr>) u h s of
                   (Inl e, s) \<Rightarrow> (Inl e, s) | (Inr _, s) \<Rightarrow> (Inr h, s))))"

definition OperationsModels :: "'w MonitorEnv \<Rightarrow> int \<Rightarrow> 'w Watch \<Rightarrow> (monitor_error + string list) \<times> 'w Watch" where
  "OperationsModels env i s =
     (case OperationsCheck env i s of
        (Inl e, s) \<Rightarrow> (Inl e, s)
      | (Inr h, s) \<Rightarrow> (Inr (case ph_models h of None \<Rightarrow> [] | Some ms \<Rightarrow> ms), s))"

definition OperationsBalance ::
  "'w MonitorEnv \<Rightarrow> int \<Rightarrow> 'w Watch \<Rightarrow> (monitor_error + Upstream \<times> Balance \<times> BalanceTransition) \<times> 'w Watch" where
  "OperationsBalance env i s =
     (case load_upstream env i s of
        (Inl e, s) \<Rightarrow> (Inl e, s)
      | (Inr u, s) \<Rightarrow>
          (case mn_check_balance env u (wa_world s) of (balance, w) \<Rightarrow>
           case mn_ended env w of (ended, w) \<Rightarrow>
             (let s = s\<lparr>wa_world := w\<rparr>
              in if ended then (Inl ContextEnded, s)
                 else case on_store env (SaveBalance i balance True (us_config_version u)) s of
                   (Inl e, s) \<Rightarrow> (Inl e, s) | (Inr transition, s) \<Rightarrow> (Inr (u, balance, transition), s))))"

section \<open>Cooldown\<close>

text \<open>The key \<open>type:id\<close> determines the type and the identifier, so it is the pair.\<close>

record sentEvent =
  se_state :: string
  se_at :: time

record CooldownNotifier =
  cn_cooldown :: duration
  cn_last :: "string \<times> int \<rightharpoonup> sentEvent"

definition cooldown_key :: "Event \<Rightarrow> string \<times> int" where
  "cooldown_key e = (ev_type e, ev_upstream_id e)"

definition CooldownNotify ::
  "(Event \<Rightarrow> 'w \<Rightarrow> bool \<times> 'w) \<Rightarrow> Event \<Rightarrow> time \<Rightarrow> CooldownNotifier \<times> 'w \<Rightarrow> bool \<times> CooldownNotifier \<times> 'w" where
  "CooldownNotify f e now s =
     (if (case cn_last (fst s) (cooldown_key e) of
            None \<Rightarrow> False
          | Some p \<Rightarrow> se_state p = ev_state e \<and> cn_cooldown (fst s) > 0 \<and> time_sub now (se_at p) < cn_cooldown (fst s))
      then (True, s)
      else case f e (snd s) of
             (False, w) \<Rightarrow> (False, fst s, w)
           | (True, w) \<Rightarrow> (True, (fst s)\<lparr>cn_last := (cn_last (fst s))(cooldown_key e \<mapsto> \<lparr>se_state = ev_state e, se_at = now\<rparr>)\<rparr>, w))"

text \<open>The notifier of \<open>app.NewMonitor\<close>: health events go to the outbox at once, the others through the cooldown.\<close>

definition monitor_notify ::
  "(Event \<Rightarrow> 'w \<Rightarrow> bool \<times> 'w) \<Rightarrow> Event \<Rightarrow> time \<Rightarrow> CooldownNotifier \<times> 'w \<Rightarrow> bool \<times> CooldownNotifier \<times> 'w" where
  "monitor_notify outbox e now s =
     (if ev_type e = ''upstream_health''
      then (case outbox e (snd s) of (accepted, w) \<Rightarrow> (accepted, fst s, w))
      else CooldownNotify outbox e now s)"

fun MultiNotify :: "(Event \<Rightarrow> 'w \<Rightarrow> bool \<times> 'w) list \<Rightarrow> Event \<Rightarrow> 'w \<Rightarrow> nat \<times> nat \<times> 'w" where
  "MultiNotify [] e w = (0, 0, w)"
| "MultiNotify (f # fs) e w =
     (case f e w of (accepted, w) \<Rightarrow>
      case MultiNotify fs e w of (delivered, failed, w) \<Rightarrow>
        (if accepted then (delivered + 1, failed, w) else (delivered, failed + 1, w)))"

definition multi_accepted :: "(Event \<Rightarrow> 'w \<Rightarrow> bool \<times> 'w) list \<Rightarrow> Event \<Rightarrow> 'w \<Rightarrow> bool \<times> 'w" where
  "multi_accepted fs e w = (case MultiNotify fs e w of (delivered, failed, w) \<Rightarrow> (delivered > 0 \<or> failed = 0, w))"

section \<open>Both loops on the notices of the upstreams\<close>

text \<open>
  What a loop is doing for an upstream: the balance loop is \<open>True\<close>. \<open>Sent\<close> is between the answer of the
  notifier and the acknowledgement, \<open>Leaving\<close> before the deferred end of the retry, \<open>Checked\<close> after
  \<open>retryPending\<close> with its outcome, \<open>Notifying\<close> while a new transition is sent. The state also keeps the
  transitions that were raised and the notices the notifier accepted, in order.
\<close>

datatype phase = Resting | Sending "Event list" | Sent Event "Event list" | Leaving bool | Checked bool | Notifying Event

record Loops =
  lo_monitor :: Monitor
  lo_phase :: "bool \<times> int \<Rightarrow> phase"
  lo_raised :: "Event list"
  lo_accepted :: "Event list"

definition enter :: "bool \<Rightarrow> int \<Rightarrow> phase \<Rightarrow> Monitor \<Rightarrow> Loops \<Rightarrow> Loops" where
  "enter b i p m s = s\<lparr>lo_monitor := m, lo_phase := (lo_phase s)((b, i) := p)\<rparr>"

definition transition_of :: "int \<Rightarrow> Event \<Rightarrow> bool" where
  "transition_of i e \<longleftrightarrow> ev_upstream_id e = i \<and> ev_type e = balance_protection_type"

text \<open>A step of one of the loops for the upstream \<open>i\<close>.\<close>

inductive loops_step :: "int \<Rightarrow> Loops \<Rightarrow> Loops \<Rightarrow> bool" where
  retry_running: "lo_phase s (b, i) = Resting \<Longrightarrow> start_retry i (lo_monitor s) = (RetryRunning, m) \<Longrightarrow>
    loops_step i s (enter b i (Checked False) m s)"
| nothing_pending: "lo_phase s (b, i) = Resting \<Longrightarrow> start_retry i (lo_monitor s) = (NothingPending, m) \<Longrightarrow>
    loops_step i s (enter b i (Checked True) m s)"
| retry: "lo_phase s (b, i) = Resting \<Longrightarrow> start_retry i (lo_monitor s) = (Retry es, m) \<Longrightarrow>
    loops_step i s (enter b i (Sending es) m s)"
| accepted: "lo_phase s (b, i) = Sending (e # es) \<Longrightarrow>
    loops_step i s ((enter b i (Sent e es) (lo_monitor s) s)\<lparr>lo_accepted := lo_accepted s @ [e]\<rparr>)"
| acknowledged: "lo_phase s (b, i) = Sent e es \<Longrightarrow>
    loops_step i s (enter b i (Sending es) (ackPending e (lo_monitor s)) s)"
| not_accepted: "lo_phase s (b, i) = Sending (e # es) \<Longrightarrow> loops_step i s (enter b i (Leaving False) (lo_monitor s) s)"
| all_sent: "lo_phase s (b, i) = Sending [] \<Longrightarrow> loops_step i s (enter b i (Leaving True) (lo_monitor s) s)"
| leave: "lo_phase s (b, i) = Leaving ok \<Longrightarrow> loops_step i s (enter b i (Checked ok) (end_retry i (lo_monitor s)) s)"
| no_transition: "lo_phase s (b, i) = Checked ok \<Longrightarrow> loops_step i s (enter b i Resting (lo_monitor s) s)"
| raised_behind: "lo_phase s (True, i) = Checked False \<Longrightarrow> transition_of i e \<Longrightarrow>
    loops_step i s ((enter True i Resting (setPending e (lo_monitor s)) s)\<lparr>lo_raised := lo_raised s @ [e]\<rparr>)"
| raised: "lo_phase s (True, i) = Checked True \<Longrightarrow> transition_of i e \<Longrightarrow>
    loops_step i s ((enter True i (Notifying e) (lo_monitor s) s)\<lparr>lo_raised := lo_raised s @ [e]\<rparr>)"
| notified: "lo_phase s (b, i) = Notifying e \<Longrightarrow>
    loops_step i s ((enter b i Resting (lo_monitor s) s)\<lparr>lo_accepted := lo_accepted s @ [e]\<rparr>)"
| not_notified: "lo_phase s (b, i) = Notifying e \<Longrightarrow> loops_step i s (enter b i Resting (setPending e (lo_monitor s)) s)"

definition at_rest :: Loops where
  "at_rest = \<lparr>lo_monitor = \<lparr>mo_pending = (\<lambda>_. None), mo_in_flight = {}\<rparr>, lo_phase = (\<lambda>_. Resting), lo_raised = [], lo_accepted = []\<rparr>"

inductive loops_reach :: "Loops \<Rightarrow> bool" where
  start: "loops_reach at_rest"
| step: "loops_reach s \<Longrightarrow> loops_step i s s' \<Longrightarrow> loops_reach s'"

fun busy :: "phase \<Rightarrow> bool" where
  "busy (Sending es) = True"
| "busy (Sent e es) = True"
| "busy (Leaving ok) = True"
| "busy _ = False"

fun in_hand :: "phase \<Rightarrow> Event list" where
  "in_hand (Sending es) = es"
| "in_hand (Sent e es) = e # es"
| "in_hand (Notifying e) = [e]"
| "in_hand _ = []"

definition about :: "int \<Rightarrow> Event list \<Rightarrow> Event list" where
  "about i es = filter (\<lambda>e. ev_upstream_id e = i) es"

text \<open>Waiting notices \<open>P\<close>, the phases \<open>H\<close> and \<open>B\<close> of the two loops, the raised and the accepted notices of one upstream.\<close>

fun health_phase_ok :: "phase \<Rightarrow> Event list \<Rightarrow> Event list \<Rightarrow> Event list \<Rightarrow> bool" where
  "health_phase_ok (Sending []) P R A \<longleftrightarrow> True"
| "health_phase_ok (Sending (e # es)) P R A \<longleftrightarrow> es = [] \<and> subseq (A @ [e]) R
     \<and> (\<exists>e'. P = [e'] \<and> (e' = e \<or> subseq (A @ [e, e']) R))"
| "health_phase_ok (Sent e es) P R A \<longleftrightarrow> es = [] \<and> A \<noteq> [] \<and> last A = e"
| "health_phase_ok (Notifying e) P R A \<longleftrightarrow> False"
| "health_phase_ok _ P R A \<longleftrightarrow> True"

fun balance_phase_ok :: "phase \<Rightarrow> bool \<Rightarrow> Event list \<Rightarrow> Event list \<Rightarrow> Event list \<Rightarrow> bool" where
  "balance_phase_ok (Sending es) h P R A \<longleftrightarrow> P = es \<and> subseq (A @ es) R"
| "balance_phase_ok (Sent e es) h P R A \<longleftrightarrow> P = e # es \<and> A \<noteq> [] \<and> last A = e"
| "balance_phase_ok (Leaving ok) h P R A \<longleftrightarrow> (ok \<longrightarrow> P = [])"
| "balance_phase_ok (Checked ok) h P R A \<longleftrightarrow> (ok \<longrightarrow> P = [] \<and> \<not> h)"
| "balance_phase_ok (Notifying e) h P R A \<longleftrightarrow> P = [] \<and> \<not> h \<and> subseq (A @ [e]) R \<and> R \<noteq> [] \<and> last R = e"
| "balance_phase_ok Resting h P R A \<longleftrightarrow> True"

fun is_sent :: "phase \<Rightarrow> bool" where
  "is_sent (Sent e es) = True"
| "is_sent _ = False"

definition notices_inv :: "bool \<Rightarrow> Event list \<Rightarrow> phase \<Rightarrow> phase \<Rightarrow> Event list \<Rightarrow> Event list \<Rightarrow> bool" where
  "notices_inv flying P H B R A \<longleftrightarrow>
     length P \<le> 1 \<and> (flying \<longleftrightarrow> busy H \<or> busy B) \<and> \<not> (busy H \<and> busy B) \<and> subseq A R
     \<and> (P = [] \<or> subseq (A @ P) R \<or> (is_sent H \<and> in_hand H = P) \<or> (is_sent B \<and> in_hand B = P))
     \<and> (R = [] \<and> P = [] \<or> R \<noteq> [] \<and> (P = [last R] \<or> P = [] \<and> (A \<noteq> [] \<and> last A = last R \<or> B = Notifying (last R))))
     \<and> health_phase_ok H P R A \<and> balance_phase_ok B (busy H) P R A"

definition notices_ok :: "int \<Rightarrow> Loops \<Rightarrow> bool" where
  "notices_ok i s \<longleftrightarrow>
     list_all (transition_of i) (pending_of (lo_monitor s) i @ in_hand (lo_phase s (False, i)) @ in_hand (lo_phase s (True, i)))
     \<and> notices_inv (i \<in> mo_in_flight (lo_monitor s)) (pending_of (lo_monitor s) i) (lo_phase s (False, i)) (lo_phase s (True, i))
         (about i (lo_raised s)) (about i (lo_accepted s))"

lemma about_snoc [simp]: "about i (es @ [e]) = (if ev_upstream_id e = i then about i es @ [e] else about i es)"
  by (simp add: about_def)

lemma enter_simps [simp]:
  "lo_monitor (enter b i p m s) = m" "lo_raised (enter b i p m s) = lo_raised s" "lo_accepted (enter b i p m s) = lo_accepted s"
  "lo_phase (enter b i p m s) (b', j) = (if b' = b \<and> j = i then p else lo_phase s (b', j))"
  by (auto simp: enter_def)

lemma in_flight_simps [simp]:
  "mo_in_flight (setPending e m) = mo_in_flight m" "mo_in_flight (ackPending e m) = mo_in_flight m"
  "mo_in_flight (end_retry i m) = mo_in_flight m - {i}" "pending_of (end_retry i m) j = pending_of m j"
  by (simp_all add: setPending_def ackPending_def end_retry_def pending_of_def Let_def)

lemma pending_acked: "pending_of (ackPending e m) j = (if j = ev_upstream_id e then remove1 e (pending_of m j) else pending_of m j)"
  by (simp add: ackPending_def pending_of_def Let_def)

lemma pending_set:
  assumes "length (pending_of m i) \<le> 1" "list_all (transition_of i) (pending_of m i)" "transition_of i e"
  shows "pending_of (setPending e m) j = (if j = i then [e] else pending_of m j)"
proof -
  have e: "ev_upstream_id e = i" "ev_type e = balance_protection_type" using assms(3) by (simp_all add: transition_of_def)
  have "(case replace_type e (pending_of m i) of Some events \<Rightarrow> events
      | None \<Rightarrow> (if length (pending_of m i) \<ge> maxPendingEventsPerUpstream
                 then drop (length (pending_of m i) - maxPendingEventsPerUpstream + 1) (pending_of m i) else pending_of m i) @ [e]) = [e]"
    using assms e by (cases "pending_of m i") (auto simp: transition_of_def maxPendingEventsPerUpstream_def)
  then show ?thesis using e by (simp add: setPending_def Let_def) (simp add: pending_of_def)
qed

lemma start_retry_cases:
  "start_retry i m = (RetryRunning, m') \<longleftrightarrow> i \<in> mo_in_flight m \<and> m' = m"
  "start_retry i m = (NothingPending, m') \<longleftrightarrow> i \<notin> mo_in_flight m \<and> pending_of m i = [] \<and> m' = m"
  "start_retry i m = (Retry es, m') \<longleftrightarrow> i \<notin> mo_in_flight m \<and> es \<noteq> [] \<and> pending_of m i = es
     \<and> m' = m\<lparr>mo_in_flight := insert i (mo_in_flight m)\<rparr>"
  by (auto simp: start_retry_def)

lemma pending_in_flight [simp]: "pending_of (m\<lparr>mo_in_flight := f\<rparr>) j = pending_of m j"
  by (simp add: pending_of_def)

lemma notices_cong:
  assumes "notices_ok j s" "pending_of (lo_monitor s') j = pending_of (lo_monitor s) j"
    "j \<in> mo_in_flight (lo_monitor s') \<longleftrightarrow> j \<in> mo_in_flight (lo_monitor s)"
    "lo_phase s' (True, j) = lo_phase s (True, j)" "lo_phase s' (False, j) = lo_phase s (False, j)"
    "about j (lo_raised s') = about j (lo_raised s)" "about j (lo_accepted s') = about j (lo_accepted s)"
  shows "notices_ok j s'"
  using assms by (simp add: notices_ok_def)

text \<open>A step for one upstream leaves the others as they were.\<close>

lemma hand_transition:
  assumes "notices_ok i s"
  shows "lo_phase s (b, i) = Sending (e # es) \<Longrightarrow> transition_of i e" "lo_phase s (b, i) = Sent e es \<Longrightarrow> transition_of i e"
    "lo_phase s (b, i) = Notifying e \<Longrightarrow> transition_of i e"
  using assms by (cases b; simp add: notices_ok_def)+

lemma other_upstream:
  assumes "loops_step i s s'" "notices_ok i s" "notices_ok j s" "j \<noteq> i"
  shows "notices_ok j s'"
proof -
  have pend: "length (pending_of (lo_monitor s) i) \<le> 1" "list_all (transition_of i) (pending_of (lo_monitor s) i)"
    using assms(2) by (simp_all add: notices_ok_def notices_inv_def)
  note hand = hand_transition [OF assms(2)]
  note frame = notices_cong [OF assms(3), of s'] and simps = start_retry_cases pending_acked pending_set [OF pend] transition_of_def
  from assms(1) show ?thesis
  proof cases
    case (retry_running b m) then show ?thesis using assms(4) by (intro frame) (auto simp: simps)
  next
    case (nothing_pending b m) then show ?thesis using assms(4) by (intro frame) (auto simp: simps)
  next
    case (retry b es m) then show ?thesis using assms(4) by (intro frame) (auto simp: simps)
  next
    case (accepted b e es) then show ?thesis using assms(4) hand(1) [of b e es] by (intro frame) (auto simp: simps)
  next
    case (acknowledged b e es) then show ?thesis using assms(4) hand(2) [of b e es] by (intro frame) (auto simp: simps)
  next
    case (not_accepted b e es) then show ?thesis using assms(4) by (intro frame) auto
  next
    case (all_sent b) then show ?thesis using assms(4) by (intro frame) auto
  next
    case (leave b ok) then show ?thesis using assms(4) by (intro frame) auto
  next
    case (no_transition b ok) then show ?thesis using assms(4) by (intro frame) auto
  next
    case (raised_behind e) then show ?thesis using assms(4) by (intro frame) (auto simp: simps)
  next
    case (raised e) then show ?thesis using assms(4) by (intro frame) (auto simp: simps)
  next
    case (notified b e) then show ?thesis using assms(4) hand(3) [of b e] by (intro frame) (auto simp: simps)
  next
    case (not_notified b e) then show ?thesis using assms(4) hand(3) [of b e] by (intro frame) (auto simp: simps)
  qed
qed

lemma subseq_snoc_snoc: "subseq (A @ [e]) (R @ [e]) \<longleftrightarrow> subseq A R"
  by (rule subseq_append)

lemma subseq_snoc: "subseq A R \<Longrightarrow> subseq A (R @ [e])"
  by (rule subseq_rev_drop_many)

lemma subseq_front: "subseq (A @ B) R \<Longrightarrow> subseq A R"
  by (metis subseq_order.order_trans subseq_rev_drop_many subseq_order.order_refl)

lemma subseq_skip: "subseq (A @ [e, e']) R \<Longrightarrow> subseq (A @ [e']) R"
proof -
  have "subseq (A @ [e']) (A @ [e, e'])" by (simp add: subseq_append')
  then show "subseq (A @ [e, e']) R \<Longrightarrow> subseq (A @ [e']) R" by (rule subseq_order.order_trans)
qed

text \<open>The steps on the notices of one upstream; \<open>b\<close> says which loop moves.\<close>

definition moved :: "bool \<Rightarrow> phase \<Rightarrow> phase \<Rightarrow> phase \<Rightarrow> (phase \<Rightarrow> phase \<Rightarrow> bool) \<Rightarrow> bool" where
  "moved b p H B Q = (if b then Q H p else Q p B)"

lemma inv_start:
  assumes "notices_inv f P H B R A" "(if b then B else H) = Resting"
  shows "f \<Longrightarrow> moved b (Checked False) H B (\<lambda>H B. notices_inv f P H B R A)"
    and "\<not> f \<Longrightarrow> P = [] \<Longrightarrow> moved b (Checked True) H B (\<lambda>H B. notices_inv f P H B R A)"
    and "\<not> f \<Longrightarrow> P \<noteq> [] \<Longrightarrow> moved b (Sending P) H B (\<lambda>H B. notices_inv True P H B R A)"
proof -
  show "f \<Longrightarrow> moved b (Checked False) H B (\<lambda>H B. notices_inv f P H B R A)"
    using assms by (cases b) (auto simp: moved_def notices_inv_def)
  show "\<not> f \<Longrightarrow> P = [] \<Longrightarrow> moved b (Checked True) H B (\<lambda>H B. notices_inv f P H B R A)"
    using assms by (cases b) (auto simp: moved_def notices_inv_def)
  assume "\<not> f" "P \<noteq> []"
  then obtain e where "P = [e]" using assms(1) by (cases P) (auto simp: notices_inv_def)
  then show "moved b (Sending P) H B (\<lambda>H B. notices_inv True P H B R A)"
    using assms \<open>\<not> f\<close> by (cases b; cases H; cases B) (auto simp: moved_def notices_inv_def)
qed

lemma inv_accepted:
  assumes "notices_inv f P H B R A" "(if b then B else H) = Sending (e # es)"
  shows "moved b (Sent e es) H B (\<lambda>H B. notices_inv f P H B R (A @ [e]))"
  using assms by (cases b; cases H; cases B) (auto simp: moved_def notices_inv_def dest: subseq_front)

lemma inv_acknowledged:
  assumes "notices_inv f P H B R A" "(if b then B else H) = Sent e es"
  shows "moved b (Sending es) H B (\<lambda>H B. notices_inv f (remove1 e P) H B R A)"
proof (cases b)
  case True
  then have B: "B = Sent e es" using assms(2) by simp
  with assms(1) have P: "P = [e]" "es = []" by (auto simp: notices_inv_def)
  show ?thesis
    using assms(1) True unfolding B P by (cases H) (auto simp: moved_def notices_inv_def)
next
  case False
  then have H: "H = Sent e es" using assms(2) by simp
  with assms(1) have es: "es = []" "A \<noteq> []" "last A = e" by (simp_all add: notices_inv_def)
  consider "P = []" | "P = [e]" "R \<noteq> []" "last R = e" | e' where "P = [e']" "e' \<noteq> e" using assms(1) by (auto simp: notices_inv_def)
  then show ?thesis
  proof cases
    case 1
    then show ?thesis using assms(1) False es by (cases B) (simp_all add: moved_def notices_inv_def H)
  next
    case 2
    then show ?thesis using assms(1) False es by (cases B) (simp_all add: moved_def notices_inv_def H)
  next
    case 3
    then show ?thesis using assms(1) False es by (cases B) (auto simp: moved_def notices_inv_def H)
  qed
qed

lemma inv_not_accepted:
  assumes "notices_inv f P H B R A" "(if b then B else H) = Sending (e # es)"
  shows "moved b (Leaving False) H B (\<lambda>H B. notices_inv f P H B R A)"
  using assms by (cases b; cases H; cases B) (auto simp: moved_def notices_inv_def dest: subseq_skip)

lemma inv_leaving:
  assumes "notices_inv f P H B R A"
  shows "(if b then B else H) = Sending [] \<Longrightarrow> moved b (Leaving True) H B (\<lambda>H B. notices_inv f P H B R A)"
    and "(if b then B else H) = Leaving ok \<Longrightarrow> moved b (Checked ok) H B (\<lambda>H B. notices_inv False P H B R A)"
    and "(if b then B else H) = Checked ok \<Longrightarrow> moved b Resting H B (\<lambda>H B. notices_inv f P H B R A)"
  using assms by (cases b; cases H; cases B; auto simp: moved_def notices_inv_def)+

lemma inv_raised:
  assumes "notices_inv f P H B R A"
  shows "B = Checked False \<Longrightarrow> notices_inv f [e] H Resting (R @ [e]) A"
    and "B = Checked True \<Longrightarrow> notices_inv f P H (Notifying e) (R @ [e]) A"
    and "B = Notifying e \<Longrightarrow> notices_inv f P H Resting R (A @ [e])"
    and "B = Notifying e \<Longrightarrow> notices_inv f [e] H Resting R A"
proof -
  have *: "subseq A R \<Longrightarrow> subseq (A @ [e]) (R @ [e])" "subseq A R \<Longrightarrow> subseq A (R @ [e])"
    "subseq (A @ [x]) R \<Longrightarrow> subseq (A @ [x]) (R @ [e])" "subseq (A @ [x]) R \<Longrightarrow> subseq (A @ [x, e]) (R @ [e])" for x
    using subseq_snoc_snoc [of "A @ [x]" e R] by (simp_all add: subseq_snoc_snoc subseq_snoc)
  show "B = Checked False \<Longrightarrow> notices_inv f [e] H Resting (R @ [e]) A"
  proof (cases H)
    case (Sending es)
    assume "B = Checked False"
    then show ?thesis using assms Sending by (cases es) (auto simp: notices_inv_def *)
  qed (use assms in \<open>auto simp: notices_inv_def *\<close>)
  show "B = Checked True \<Longrightarrow> notices_inv f P H (Notifying e) (R @ [e]) A"
    using assms by (cases H) (auto simp: notices_inv_def *)
  show "B = Notifying e \<Longrightarrow> notices_inv f P H Resting R (A @ [e])"
    using assms by (cases H) (auto simp: notices_inv_def)
  show "B = Notifying e \<Longrightarrow> notices_inv f [e] H Resting R A"
    using assms by (cases H) (auto simp: notices_inv_def)
qed

lemma same_upstream:
  assumes "loops_step i s s'" "notices_ok i s"
  shows "notices_ok i s'"
proof -
  have pend: "length (pending_of (lo_monitor s) i) \<le> 1" "list_all (transition_of i) (pending_of (lo_monitor s) i)"
    and hands: "list_all (transition_of i) (in_hand (lo_phase s (b, i)))" for b
    using assms(2) by (cases b; simp add: notices_ok_def notices_inv_def)+
  note hand = hand_transition [OF assms(2)]
  have inv: "notices_inv (i \<in> mo_in_flight (lo_monitor s)) (pending_of (lo_monitor s) i) (lo_phase s (False, i)) (lo_phase s (True, i))
      (about i (lo_raised s)) (about i (lo_accepted s))" using assms(2) by (simp add: notices_ok_def)
  note simps = start_retry_cases pending_acked pending_set [OF pend] notices_ok_def moved_def
  from assms(1) show ?thesis
  proof cases
    case (retry_running b m) then show ?thesis
      using inv_start(1) [OF inv, of b] pend hands [of True] hands [of False] by (cases b) (auto simp: simps)
  next
    case (nothing_pending b m) then show ?thesis
      using inv_start(2) [OF inv, of b] pend hands [of True] hands [of False] by (cases b) (auto simp: simps)
  next
    case (retry b es m) then show ?thesis
      using inv_start(3) [OF inv, of b] pend hands [of True] hands [of False] by (cases b) (auto simp: simps)
  next
    case (accepted b e es)
    then have "ev_upstream_id e = i" using hand(1) by (simp add: transition_of_def)
    then show ?thesis
      using accepted inv_accepted [OF inv, of b e es] pend hands [of True] hands [of False] by (cases b) (auto simp: simps)
  next
    case (acknowledged b e es)
    then have "ev_upstream_id e = i" using hand(2) by (simp add: transition_of_def)
    then show ?thesis
      using acknowledged inv_acknowledged [OF inv, of b e es] pend hands [of True] hands [of False]
      by (cases b) (auto simp: simps list_all_iff dest: notin_set_remove1 in_set_remove1 set_remove1_subset [THEN subsetD])
  next
    case (not_accepted b e es) then show ?thesis
      using inv_not_accepted [OF inv, of b e es] pend hands [of True] hands [of False] by (cases b) (auto simp: simps)
  next
    case (all_sent b) then show ?thesis
      using inv_leaving(1) [OF inv, of b] pend hands [of True] hands [of False] by (cases b) (auto simp: simps)
  next
    case (leave b ok) then show ?thesis
      using inv_leaving(2) [OF inv, of b ok] pend hands [of True] hands [of False] by (cases b) (auto simp: simps)
  next
    case (no_transition b ok) then show ?thesis
      using inv_leaving(3) [OF inv, of b ok] pend hands [of True] hands [of False] by (cases b) (auto simp: simps)
  next
    case (raised_behind e)
    then show ?thesis using inv_raised(1) [OF inv, of e] hands [of False] by (auto simp: simps transition_of_def)
  next
    case (raised e)
    then show ?thesis using inv_raised(2) [OF inv, of e] pend hands [of False] by (auto simp: simps transition_of_def)
  next
    case (notified b e)
    then have "b" "ev_upstream_id e = i" using hand(3) inv by (cases b; auto simp: transition_of_def notices_inv_def)+
    then show ?thesis using notified inv_raised(3) [OF inv, of e] pend hands [of False] by (auto simp: simps)
  next
    case (not_notified b e)
    then have "b" "transition_of i e" using hand(3) inv by (cases b; auto simp: notices_inv_def)+
    then show ?thesis using not_notified inv_raised(4) [OF inv, of e] pend hands [of False] by (auto simp: simps)
  qed
qed

lemma reach_notices: "loops_reach s \<Longrightarrow> notices_ok i s"
proof (induction arbitrary: i rule: loops_reach.induct)
  case start
  show ?case by (simp add: notices_ok_def notices_inv_def at_rest_def about_def pending_of_def)
next
  case (step s j s')
  then show ?case using same_upstream [of j s s'] other_upstream [of j s s' i] by (cases "j = i") auto
qed

section \<open>Properties\<close>

text \<open>
  C31: no interleaving of the health loop and the balance loop, and no failure of the notifier, loses the
  latest balance transition of an upstream or sends an older one after a newer one: what the notifier
  accepted is a subsequence of what was raised, at most one notice waits, and the latest transition was
  accepted last, waits, or is being sent.
\<close>

theorem monitor_keeps_latest:
  assumes "loops_reach s"
  shows "subseq (about i (lo_accepted s)) (about i (lo_raised s)) \<and> length (pending_of (lo_monitor s) i) \<le> 1
    \<and> (case rev (about i (lo_raised s)) of
         [] \<Rightarrow> pending_of (lo_monitor s) i = []
       | latest # _ \<Rightarrow> pending_of (lo_monitor s) i = [latest]
           \<or> (pending_of (lo_monitor s) i = [] \<and> (lo_phase s (True, i) = Notifying latest
                \<or> (case rev (about i (lo_accepted s)) of [] \<Rightarrow> False | e # _ \<Rightarrow> e = latest))))"
proof -
  have "notices_inv (i \<in> mo_in_flight (lo_monitor s)) (pending_of (lo_monitor s) i) (lo_phase s (False, i)) (lo_phase s (True, i))
      (about i (lo_raised s)) (about i (lo_accepted s))" using reach_notices [OF assms, of i] by (simp add: notices_ok_def)
  then show ?thesis
    by (cases "about i (lo_raised s)" rule: rev_cases; cases "about i (lo_accepted s)" rule: rev_cases)
      (auto simp: notices_inv_def)
qed

definition suspended_notice :: "string \<Rightarrow> Event" where
  "suspended_notice state = empty_event\<lparr>ev_type := balance_protection_type, ev_state := state, ev_upstream_id := 7\<rparr>"

lemma reach_example:
  "\<exists>s. loops_reach s \<and> about 7 (lo_raised s) = [suspended_notice ''a'', suspended_notice ''b'']
     \<and> about 7 (lo_accepted s) = [suspended_notice ''a''] \<and> pending_of (lo_monitor s) 7 = [suspended_notice ''b'']"
proof -
  let ?a = "suspended_notice ''a''" and ?b = "suspended_notice ''b''"
  have of: "transition_of 7 ?a" "transition_of 7 ?b" by (simp_all add: transition_of_def suspended_notice_def)
  have none: "replace_type e [] = None" for e by simp
  note ops = start_retry_cases pending_of_def at_rest_def setPending_def ackPending_def enter_def suspended_notice_def empty_event_def
  define s1 where "s1 = enter True 7 (Checked True) (lo_monitor at_rest) at_rest"
  have 1: "loops_reach s1" unfolding s1_def
    by (rule loops_reach.step [OF loops_reach.start loops_step.nothing_pending]) (simp_all add: ops)
  define s2 where "s2 = (enter True 7 (Notifying ?a) (lo_monitor s1) s1)\<lparr>lo_raised := lo_raised s1 @ [?a]\<rparr>"
  have 2: "loops_reach s2" unfolding s2_def
    by (rule loops_reach.step [OF 1 loops_step.raised]) (simp_all add: s1_def of)
  define s3 where "s3 = enter True 7 Resting (setPending ?a (lo_monitor s2)) s2"
  have 3: "loops_reach s3" unfolding s3_def
    by (rule loops_reach.step [OF 2 loops_step.not_notified]) (simp add: s2_def)
  have m3: "lo_monitor s3 = \<lparr>mo_pending = [7 \<mapsto> [?a]], mo_in_flight = {}\<rparr>"
    by (simp add: s3_def s2_def s1_def setPending_def pending_of_def at_rest_def suspended_notice_def empty_event_def)
  define s4 where "s4 = enter False 7 (Sending [?a]) ((lo_monitor s3)\<lparr>mo_in_flight := insert 7 (mo_in_flight (lo_monitor s3))\<rparr>) s3"
  have 4: "loops_reach s4" unfolding s4_def
    by (rule loops_reach.step [OF 3 loops_step.retry])
      (simp_all add: start_retry_cases m3 pending_of_def, simp add: s3_def s2_def s1_def at_rest_def)
  define s5 where "s5 = enter True 7 (Checked False) (lo_monitor s4) s4"
  have 5: "loops_reach s5" unfolding s5_def
    by (rule loops_reach.step [OF 4 loops_step.retry_running]) (simp_all add: s4_def s3_def start_retry_cases)
  define s6 where "s6 = (enter True 7 Resting (setPending ?b (lo_monitor s5)) s5)\<lparr>lo_raised := lo_raised s5 @ [?b]\<rparr>"
  have 6: "loops_reach s6" unfolding s6_def
    by (rule loops_reach.step [OF 5 loops_step.raised_behind]) (simp_all add: s5_def of)
  have m6: "lo_monitor s6 = \<lparr>mo_pending = [7 \<mapsto> [?b]], mo_in_flight = {7}\<rparr>"
    by (simp add: s6_def s5_def s4_def m3 setPending_def pending_of_def suspended_notice_def empty_event_def)
  define s7 where "s7 = (enter False 7 (Sent ?a []) (lo_monitor s6) s6)\<lparr>lo_accepted := lo_accepted s6 @ [?a]\<rparr>"
  have 7: "loops_reach s7" unfolding s7_def
    by (rule loops_reach.step [OF 6 loops_step.accepted]) (simp add: s6_def s5_def s4_def)
  define s8 where "s8 = enter False 7 (Sending []) (ackPending ?a (lo_monitor s7)) s7"
  have 8: "loops_reach s8" unfolding s8_def
    by (rule loops_reach.step [OF 7 loops_step.acknowledged]) (simp add: s7_def)
  have raised: "lo_raised s8 = [?a, ?b]" "lo_accepted s8 = [?a]"
    by (simp_all add: s8_def s7_def s6_def s5_def s4_def s3_def s2_def s1_def at_rest_def)
  have "pending_of (lo_monitor s8) 7 = [?b]"
    by (simp add: s8_def s7_def m6 ackPending_def pending_of_def suspended_notice_def empty_event_def)
  then show ?thesis using 8 raised by (intro exI [where x = s8]) (simp add: about_def suspended_notice_def)
qed

theorem monitor_keeps_latest_witness:
  "\<exists>s. loops_reach s \<and> about 7 (lo_raised s) = [suspended_notice ''a'', suspended_notice ''b'']
     \<and> subseq (about 7 (lo_accepted s)) (about 7 (lo_raised s)) \<and> length (pending_of (lo_monitor s) 7) \<le> 1"
  using reach_example monitor_keeps_latest by blast

section \<open>Health notices\<close>

lemma time_sub_later: "t \<le> t' \<Longrightarrow> time_sub t u \<le> time_sub t' u"
  by (auto simp: time_sub_def)

text \<open>An observation whose notice was not accepted gives the notice again once the retry is due.\<close>

lemma Observe_again:
  assumes "Observe s now active ign hold p = (k, s1)" "k \<noteq> NoNotification" "now' \<ge> now + minute"
    and "ip_stable_for p \<noteq> 0" "ip_firing_confirmations p \<le> 1"
  shows "fst (Observe (EnqueueFailed s1 now minute) now' active ign hold p) = k"
proof -
  let ?f = "EnqueueFailed s1 now minute"
  have go: "\<not> ign" "\<not> hold" using Observe_decide [OF assms(1,2)] by simp_all
  have noted: "ih_notified_active (is_incident s1) \<noteq> None" using Observe_notified [of s now active ign hold p] assms(1) by simp
  have retry: "ih_retry_after (is_incident ?f) = Some (now + minute)" by (simp add: EnqueueFailed_def)
  have same: "notified_or_active ?f = notified s1"
    using noted by (auto simp: notified_or_active_def notified_def split: option.split)
  show ?thesis
  proof (cases k)
    case Firing
    note F = Observe_Firing [OF assms(1) [unfolded Firing]]
    let ?s2 = "observe_active p now' (prepare p now' ?f)"
    have calculation: "ih_last_firing_at (is_incident ?s2) = ih_last_firing_at (is_incident s1)" "notified ?s2 = notified s1"
      using noted same by (simp_all add: prepare_last_firing) (simp add: notified_def)
    then have "decide p now' True ?s2 = Firing"
    proof (cases "ih_last_firing_at (is_incident s1)")
      case (Some t)
      have "ip_cooldown p \<le> time_sub now' t"
        using F(6) [OF Some] time_sub_later [of now now' t] assms(3) by simp
      then show ?thesis
        using calculation Some F(4,5) F(6) [OF Some] assms(3) retry by (auto simp: decide_def Let_def)
    qed (use F(4,5) assms(3) retry in \<open>auto simp: decide_def Let_def\<close>)
    then show ?thesis using F(1) go Firing by (simp add: Observe_def Let_def)
  next
    case Resolved
    note R = Observe_Resolved [OF assms(1) [unfolded Resolved]]
    let ?s2 = "observe_normal p now' (prepare p now' ?f)"
    have "notified ?s2" using R(5) same by (simp add: notified_def)
    moreover have "\<not> is_active ?s2" using R(4) by simp
    ultimately have "decide p now' False ?s2 = Resolved"
      using assms(3) retry by (simp add: decide_def Let_def)
    then show ?thesis using R(1) go Resolved by (simp add: Observe_def Let_def)
  qed (use assms(2) in simp)
qed

lemma observe_again:
  assumes "observe_health status interval now st = (n, st')" "n \<noteq> []" "now' \<ge> now + minute"
  shows "fst (observe_health status interval now' st') = n"
proof -
  let ?p = "health_policy interval"
  let ?o = "Observe st now (status = unhealthy) (status \<noteq> healthy \<and> status \<noteq> unhealthy) False ?p"
  obtain k s1 where o: "?o = (k, s1)" by fastforce
  have k: "k \<noteq> NoNotification" using assms(1,2) o by (auto simp: observe_health_def)
  have st': "st' = EnqueueFailed s1 now minute" "n = (if k = Firing then unhealthy else healthy)"
    using assms(1) o k by (cases k; auto simp: observe_health_def)+
  have "fst (Observe st' now' (status = unhealthy) (status \<noteq> healthy \<and> status \<noteq> unhealthy) False ?p) = k"
    unfolding st'(1) by (rule Observe_again [OF o k assms(3)]) (simp_all add: health_policy_def)
  then show ?thesis using k st'(2) by (cases k) (auto simp: observe_health_def split: prod.splits)
qed

text \<open>The notice of \<open>ObserveHealthNotification\<close> comes again while nothing else touches the upstream.\<close>

lemma ObserveHealthNotification_again:
  assumes "ObserveHealthNotification i status interval version now s = (Inr n, s')" "n \<noteq> []" "now' \<ge> now + minute"
  shows "fst (ObserveHealthNotification i status interval version now' s') = Inr n"
proof -
  obtain r where r: "find_upstream (st_db s) i = Some r" "\<not> (version > 0 \<and> us_config_version (ur_upstream r) \<noteq> version)"
    using assms(1) by (auto simp: ObserveHealthNotification_def updateHealthNotification_def split: option.splits if_splits)
  define st where "st = (case map_of (db_health_states (st_db s)) i of None \<Rightarrow> initial_incident (ur_upstream r) now | Some st \<Rightarrow> st)"
  obtain st' where o: "observe_health status interval now st = (n, st')"
    and s': "s' = s\<lparr>st_db := (st_db s)\<lparr>db_health_states := AList.update i st' (db_health_states (st_db s))\<rparr>\<rparr>"
    using assms(1) r by (auto simp: ObserveHealthNotification_def updateHealthNotification_def st_def Let_def split: prod.splits if_splits)
  have "find_upstream (st_db s') i = Some r" "map_of (db_health_states (st_db s')) i = Some st'"
    using r(1) by (simp_all add: s' find_upstream_def update_conv')
  then show ?thesis
    using r(2) observe_again [OF o assms(2,3)]
    by (auto simp: ObserveHealthNotification_def updateHealthNotification_def split: prod.splits)
qed

lemma on_store_ok: "on_store env f s = (Inr x, s') \<Longrightarrow> \<exists>now. f now (wa_store s) = (Inr x, wa_store s')"
  by (auto simp: on_store_def split: prod.splits option.splits sum.splits)

lemma on_store_failed:
  "on_store env f s = (Inl e, s') \<Longrightarrow> (\<And>now x store. f now (wa_store s) = (Inl x, store) \<Longrightarrow> store = wa_store s)
     \<Longrightarrow> wa_store s' = wa_store s"
  by (fastforce simp: on_store_def split: prod.splits option.splits sum.splits)

lemma save_health_notice:
  assumes "save_health env u h s = (Inr (status, n), s')"
  obtains now s0 where "ObserveHealthNotification (us_id u) status (if mn_health_every env \<le> 0 then 30 * second else mn_health_every env)
      (us_config_version u) now s0 = (Inr n, wa_store s')"
  using assms by (auto simp: save_health_def Let_def split: prod.splits sum.splits dest: on_store_ok)

lemma accept_failed:
  "AcceptHealthNotification i status now s = (Some e, s') \<Longrightarrow> s' = s"
  by (auto simp: AcceptHealthNotification_def updateHealthNotification_def Let_def split: option.splits prod.splits sum.splits if_splits)

lemma save_event_store: "OpsSaveEvent env e s = (err, s') \<Longrightarrow> wa_store s' = wa_store s"
  by (auto simp: OpsSaveEvent_def split: prod.splits option.splits)

lemma notify_store: "notify f e s = (accepted, s') \<Longrightarrow> wa_store s' = wa_store s"
  by (auto simp: notify_def split: prod.splits)

lemma acknowledge_failed:
  assumes "on_store env (\<lambda>now store. case AcceptHealthNotification i n now store of
     (Some e, store) \<Rightarrow> (Inl e, store) | (None, store) \<Rightarrow> (Inr (), store)) s = (Inl e, s')"
  shows "wa_store s' = wa_store s"
  by (rule on_store_failed [OF assms]) (auto split: prod.splits option.splits dest: accept_failed)

lemma announce_failed:
  assumes "announce_health env u n checked transition s = (Some e, s')"
  shows "wa_store s' = wa_store s"
  using assms by (auto simp: announce_health_def Let_def split: prod.splits option.splits sum.splits bool.splits if_splits
      dest!: acknowledge_failed save_event_store notify_store)

text \<open>
  C32: a health notice is not lost. When the health of an upstream calls for a notice and the notice is not
  both accepted by the notifier and acknowledged in the store, for whatever reason, then from some instant
  on the next observation of the same health gives the same notice again.
\<close>

theorem health_notice_retried:
  assumes "save_health env u h s = (Inr (status, n), s1)" "n \<noteq> []"
    and "announce_health env u n checked transition s1 = (Some e, s2)"
  shows "\<exists>t. \<forall>now \<ge> t. fst (ObserveHealthNotification (us_id u) status
      (if mn_health_every env \<le> 0 then 30 * second else mn_health_every env) (us_config_version u) now (wa_store s2)) = Inr n"
proof -
  obtain t s0 where "ObserveHealthNotification (us_id u) status (if mn_health_every env \<le> 0 then 30 * second else mn_health_every env)
      (us_config_version u) t s0 = (Inr n, wa_store s1)" by (rule save_health_notice [OF assms(1)])
  then show ?thesis
    using ObserveHealthNotification_again [OF _ assms(2)] announce_failed [OF assms(3)]
    by (intro exI [where x = "t + minute"]) auto
qed

definition deaf_env :: "unit MonitorEnv" where
  "deaf_env = \<lparr>mn_statement = \<lambda>w. (Some minute, w), mn_now = \<lambda>w. (minute, w), mn_ended = \<lambda>w. (False, w),
     mn_check_health = \<lambda>u w. ((\<lparr>ph_status = unhealthy, ph_status_code = 401, ph_error = [], ph_models = None\<rparr>, minute), w),
     mn_check_balance = \<lambda>u w. (empty_balance, w), mn_notify = Some (\<lambda>e w. (False, w)), mn_health_every = 0\<rparr>"

definition sample_watch :: "unit Watch" where
  "sample_watch = \<lparr>wa_monitor = \<lparr>mo_pending = (\<lambda>_. None), mo_in_flight = {}\<rparr>, wa_store = sample_store, wa_events = [], wa_world = ()\<rparr>"

definition sample_health :: ProbeHealth where
  "sample_health = \<lparr>ph_status = unhealthy, ph_status_code = 401, ph_error = [], ph_models = None\<rparr>"

theorem health_notice_retried_witness:
  "\<exists>t s2. announce_health deaf_env sample_upstream unhealthy minute None (snd (save_health deaf_env sample_upstream sample_health sample_watch))
       = (Some NotifyFailed, s2)
     \<and> fst (ObserveHealthNotification 7 unhealthy (30 * second) 1 t (wa_store s2)) = Inr unhealthy"
proof -
  let ?saved = "save_health deaf_env sample_upstream sample_health sample_watch"
  let ?told = "announce_health deaf_env sample_upstream unhealthy minute None (snd ?saved)"
  have "fst ?saved = Inr (unhealthy, unhealthy)" "fst ?told = Some NotifyFailed"
    by code_simp+
  then have 1: "?saved = (Inr (unhealthy, unhealthy), snd ?saved)" "?told = (Some NotifyFailed, snd ?told)"
    by (metis prod.collapse)+
  have id: "us_id sample_upstream = 7" "us_config_version sample_upstream = 1" "mn_health_every deaf_env \<le> 0"
    by (simp_all add: sample_upstream_def deaf_env_def)
  obtain t where "\<forall>now \<ge> t. fst (ObserveHealthNotification 7 unhealthy (30 * second) 1 now (wa_store (snd ?told))) = Inr unhealthy"
    using health_notice_retried [OF 1(1) _ 1(2)] id by (auto simp: unhealthy_def)
  then show ?thesis using 1(2) by blast
qed

section \<open>The cooldown forgets transitions of others\<close>

text \<open>
  The cooldown of \<open>app.NewMonitor\<close> remembers what the monitor sent, not what the administration interface
  sent. When the monitor suspends an upstream, an administrator resumes it by a refresh (whose event goes
  to the outbox directly), and the monitor suspends it again within half an hour, the second suspension is
  reported as accepted and never reaches the outbox.
\<close>

lemma cooldown_swallows:
  assumes "CooldownNotify f e now (n, w) = (True, n', w')" "cn_cooldown n' > 0" "cn_last n (cooldown_key e) = None"
    and "cooldown_key e' = cooldown_key e" "ev_state e' = ev_state e" "time_sub now' now < cn_cooldown n'"
  shows "CooldownNotify f e' now' (n', w'') = (True, n', w'')"
proof -
  have "cn_last n' (cooldown_key e) = Some \<lparr>se_state = ev_state e, se_at = now\<rparr>"
    using assms(1,3) by (auto simp: CooldownNotify_def split: prod.splits bool.splits)
  then show ?thesis using assms(2,4-6) by (simp add: CooldownNotify_def)
qed

definition suspends :: "bool \<times> int \<Rightarrow> (rat \<times> bool) list \<Rightarrow> BalanceTransition list" where
  "suspends = (\<lambda>st rs. snd (fold (\<lambda>(a, immediate) ((susp, checks), ts).
     case balanceProtectionState True susp checks (reading a) immediate of (s, c, t) \<Rightarrow> ((s, c), ts @ [t])) rs (st, [])))"

text \<open>The transitions: two zero readings of the monitor, a refresh after a top-up, two more zero readings.\<close>

lemma monitor_suspends_twice:
  "suspends (False, 0) [(0, False), (0, False), (5, True), (0, False), (0, False)]
     = [BalanceUnchanged, BalanceSuspended, BalanceResumed, BalanceUnchanged, BalanceSuspended]"
  by code_simp

end
