(* ===== verification/Login_Limiter.thy ===== *)
theory Login_Limiter
  imports Prelude "HOL-Library.AList"
begin

text \<open>
  The limiter of failed logins of \<open>internal/httpapi/admin.go\<close>: per address and per account a window of
  fifteen minutes, five failures of which block for as long, in a map of at most 4096 entries that fails
  closed. Go's map is an association list with distinct keys.
\<close>

record loginAttempt =
  la_count :: int
  la_window_start :: time
  la_blocked_till :: time

record loginLimiter =
  ll_attempts :: "(string \<times> loginAttempt) list"
  ll_last_cleanup :: time

definition no_attempt :: loginAttempt where
  "no_attempt = \<lparr>la_count = 0, la_window_start = 0, la_blocked_till = 0\<rparr>"

definition attempt_of :: "loginLimiter \<Rightarrow> string \<Rightarrow> loginAttempt" where
  "attempt_of l k = (case map_of (ll_attempts l) k of None \<Rightarrow> no_attempt | Some e \<Rightarrow> e)"

definition cleanupLocked :: "time \<Rightarrow> loginLimiter \<Rightarrow> loginLimiter" where
  "cleanupLocked now l =
     (if \<not> is_zero_time (ll_last_cleanup l) \<and> time_sub now (ll_last_cleanup l) < minute then l
      else \<lparr>ll_attempts = filter (\<lambda>(_, e). \<not> (time_sub now (la_window_start e) > 15 * minute \<and> now > la_blocked_till e))
              (ll_attempts l), ll_last_cleanup = now\<rparr>)"

definition limiter_wait :: "string \<Rightarrow> time \<Rightarrow> loginLimiter \<Rightarrow> duration \<times> loginLimiter" where
  "limiter_wait k now l =
     (let l = cleanupLocked now l
      in (if map_of (ll_attempts l) k = None \<and> length (ll_attempts l) \<ge> 4096 then minute
          else time_sub (la_blocked_till (attempt_of l k)) now, l))"

definition limiter_fail :: "string \<Rightarrow> time \<Rightarrow> loginLimiter \<Rightarrow> bool \<times> loginLimiter" where
  "limiter_fail k now l =
     (let l = cleanupLocked now l
      in if map_of (ll_attempts l) k = None \<and> length (ll_attempts l) \<ge> 4096 then (True, l)
         else let e = attempt_of l k;
                  e = (if time_sub now (la_window_start e) > 15 * minute then no_attempt\<lparr>la_window_start := now\<rparr> else e);
                  e = e\<lparr>la_count := la_count e + 1\<rparr>;
                  blocked = (la_count e \<ge> 5);
                  e = (if blocked then e\<lparr>la_blocked_till := now + 15 * minute\<rparr> else e)
              in (blocked, l\<lparr>ll_attempts := AList.update k e (ll_attempts l)\<rparr>))"

definition limiter_success :: "string \<Rightarrow> loginLimiter \<Rightarrow> loginLimiter" where
  "limiter_success k l = l\<lparr>ll_attempts := AList.delete k (ll_attempts l)\<rparr>"

section \<open>Guesses\<close>

text \<open>
  A login asks for its address and then for its account whether it has to wait and, when the password is
  wrong, fails the address and then the account. Each of these is a critical section of its own, so the
  steps of many logins come in any order. \<open>failures\<close> gives the instants at which one key failed, the
  latest first.
\<close>

datatype LimiterStep = WaitStep string time | FailStep string time | SuccessStep string

fun limiter_step :: "LimiterStep \<Rightarrow> loginLimiter \<Rightarrow> loginLimiter" where
  "limiter_step (WaitStep k t) l = snd (limiter_wait k t l)"
| "limiter_step (FailStep k t) l = snd (limiter_fail k t l)"
| "limiter_step (SuccessStep k) l = limiter_success k l"

fun failures :: "string \<Rightarrow> LimiterStep list \<Rightarrow> time list \<Rightarrow> time list" where
  "failures k [] ts = ts"
| "failures k (FailStep k' t # es) ts = failures k es (if k' = k then t # ts else ts)"
| "failures k (_ # es) ts = failures k es ts"

text \<open>
  Steps in the order of their times in which the guesses of one key come one after the other: before each
  failure of the key its last check let it through (\<open>passed\<close>), it failed only once since, and the map still
  has room for it; and none of its guesses is right. The steps of all other keys are arbitrary.
\<close>

fun one_by_one :: "string \<Rightarrow> bool \<Rightarrow> time \<Rightarrow> LimiterStep list \<Rightarrow> loginLimiter \<Rightarrow> bool" where
  "one_by_one k passed now [] l \<longleftrightarrow> True"
| "one_by_one k passed now (WaitStep k' t # es) l \<longleftrightarrow> now \<le> t
     \<and> one_by_one k (if k' = k then fst (limiter_wait k' t l) \<le> 0 else passed) t es (limiter_step (WaitStep k' t) l)"
| "one_by_one k passed now (FailStep k' t # es) l \<longleftrightarrow> now \<le> t
     \<and> (k' = k \<longrightarrow> passed \<and> (map_of (ll_attempts l) k \<noteq> None \<or> length (ll_attempts l) < 4096))
     \<and> one_by_one k (passed \<and> k' \<noteq> k) t es (limiter_step (FailStep k' t) l)"
| "one_by_one k passed now (SuccessStep k' # es) l \<longleftrightarrow> k' \<noteq> k
     \<and> one_by_one k passed now es (limiter_step (SuccessStep k') l)"

text \<open>
  What the entry of a key says of its failures \<open>ts\<close>: the last \<open>count\<close> of them are in its window, and four
  before the window are at least fifteen minutes older than it. Without an entry the same holds of now.
\<close>

definition old_enough :: "time \<Rightarrow> time list \<Rightarrow> bool" where
  "old_enough t ts \<longleftrightarrow> (\<forall>j < length ts. 3 \<le> j \<longrightarrow> ts ! j + 15 * minute \<le> t)"

definition spaced_out :: "time list \<Rightarrow> bool" where
  "spaced_out ts \<longleftrightarrow> (\<forall>i. i + 8 < length ts \<longrightarrow> ts ! (i + 8) + 15 * minute \<le> ts ! i)"

definition entry_ok :: "time \<Rightarrow> time list \<Rightarrow> loginAttempt option \<Rightarrow> bool" where
  "entry_ok now ts e \<longleftrightarrow> sorted_wrt (\<ge>) ts \<and> list_all (\<lambda>t. t \<le> now) ts \<and> spaced_out ts \<and>
     (case e of
        None \<Rightarrow> old_enough now ts
      | Some e \<Rightarrow> 1 \<le> la_count e \<and> nat (la_count e) \<le> length ts \<and> ts ! (nat (la_count e) - 1) = la_window_start e
          \<and> (la_count e \<ge> 5 \<longrightarrow> la_blocked_till e = hd ts + 15 * minute)
          \<and> old_enough (la_window_start e) (drop (nat (la_count e)) ts))"

definition limiter_ok :: "loginLimiter \<Rightarrow> bool" where
  "limiter_ok l \<longleftrightarrow> distinct (map fst (ll_attempts l)) \<and> length (ll_attempts l) \<le> 4096"

definition stale :: "time \<Rightarrow> loginAttempt \<Rightarrow> bool" where
  "stale now e \<longleftrightarrow> la_window_start e + 15 * minute < now \<and> la_blocked_till e < now"

lemma window_over: "900000000000 < time_sub now t \<longleftrightarrow> t + 900000000000 < now"
  by (auto simp: time_sub_def max_int64_def min_int64_def)

lemma still_blocked: "time_sub t now > 0 \<longleftrightarrow> now < t"
  by (auto simp: time_sub_def max_int64_def min_int64_def)

lemma length_AList_update: "length (AList.update k v xs) = (if map_of xs k = None then Suc (length xs) else length xs)"
  by (induction xs) auto

lemma map_of_filter_entry:
  "distinct (map fst xs) \<Longrightarrow> map_of (filter P xs) k =
     (case map_of xs k of None \<Rightarrow> None | Some e \<Rightarrow> if P (k, e) then Some e else None)"
proof (induction xs)
  case (Cons x xs)
  have "k = fst x \<Longrightarrow> map_of xs k = None" using Cons.prems by (simp add: map_of_eq_None_iff)
  then show ?case using Cons by (cases x) (auto split: option.splits)
qed simp

lemma cleanup_cases:
  assumes "limiter_ok l"
  shows "limiter_ok (cleanupLocked now l)"
    and "map_of (ll_attempts (cleanupLocked now l)) k = map_of (ll_attempts l) k
      \<or> (\<exists>e. map_of (ll_attempts l) k = Some e \<and> stale now e \<and> map_of (ll_attempts (cleanupLocked now l)) k = None
           \<and> length (ll_attempts (cleanupLocked now l)) < length (ll_attempts l))"
    and "length (ll_attempts (cleanupLocked now l)) \<le> length (ll_attempts l)"
proof -
  let ?keep = "\<lambda>(k :: string, e). \<not> (time_sub now (la_window_start e) > 15 * minute \<and> now > la_blocked_till e)"
  have d: "distinct (map fst (ll_attempts l))" using assms by (simp add: limiter_ok_def)
  have len: "length (filter ?keep (ll_attempts l)) \<le> length (ll_attempts l)" by simp
  show "limiter_ok (cleanupLocked now l)" using assms
    by (auto simp: limiter_ok_def cleanupLocked_def distinct_map_filter intro: le_trans [OF length_filter_le])
  show "length (ll_attempts (cleanupLocked now l)) \<le> length (ll_attempts l)" by (simp add: cleanupLocked_def)
  have "map_of (filter ?keep (ll_attempts l)) k = map_of (ll_attempts l) k
      \<or> (\<exists>e. map_of (ll_attempts l) k = Some e \<and> stale now e \<and> map_of (filter ?keep (ll_attempts l)) k = None
           \<and> length (filter ?keep (ll_attempts l)) < length (ll_attempts l))"
  proof (cases "map_of (ll_attempts l) k")
    case (Some e)
    have "length (filter ?keep (ll_attempts l)) < length (ll_attempts l)" if "\<not> ?keep (k, e)"
      using map_of_SomeD [OF Some] that by (intro length_filter_less)
    then show ?thesis using Some by (auto simp: map_of_filter_entry [OF d] stale_def window_over)
  qed (simp add: map_of_filter_entry [OF d])
  then show "map_of (ll_attempts (cleanupLocked now l)) k = map_of (ll_attempts l) k
      \<or> (\<exists>e. map_of (ll_attempts l) k = Some e \<and> stale now e \<and> map_of (ll_attempts (cleanupLocked now l)) k = None
           \<and> length (ll_attempts (cleanupLocked now l)) < length (ll_attempts l))"
    by (simp add: cleanupLocked_def)
qed

lemma old_enough_mono: "old_enough t ts \<Longrightarrow> t \<le> t' \<Longrightarrow> old_enough t' ts"
  by (force simp: old_enough_def)

lemma entry_later: "entry_ok now ts e \<Longrightarrow> now \<le> t \<Longrightarrow> entry_ok t ts e"
  by (auto simp: entry_ok_def list_all_iff intro: old_enough_mono split: option.splits)

text \<open>An entry whose window is over and that is not blocking says that all but three failures are old.\<close>

lemma window_done:
  assumes "entry_ok now ts (Some e)" "la_window_start e + 15 * minute < t" "la_count e \<ge> 5 \<longrightarrow> la_blocked_till e \<le> t"
  shows "old_enough t ts"
  unfolding old_enough_def
proof (intro allI impI)
  fix j assume j: "j < length ts" "3 \<le> j"
  have desc: "ts ! n \<ge> ts ! m" if "n \<le> m" "m < length ts" for n m
    using assms(1) that sorted_wrt_nth_less [of "(\<ge>)" ts n m] by (cases "n = m") (auto simp: entry_ok_def)
  show "ts ! j + 15 * minute \<le> t"
  proof (cases "la_count e \<ge> 5")
    case True
    then have "ts ! 0 + 15 * minute \<le> t" using assms j by (cases ts) (auto simp: entry_ok_def)
    then show ?thesis using desc [of 0 j] j by simp
  next
    case False
    then have "nat (la_count e) - 1 \<le> j" using j by simp
    then show ?thesis using desc [of "nat (la_count e) - 1" j] j assms by (auto simp: entry_ok_def)
  qed
qed

lemma cleanup_entry:
  assumes "limiter_ok l" "entry_ok now ts (map_of (ll_attempts l) k)" "now \<le> t"
  shows "entry_ok t ts (map_of (ll_attempts (cleanupLocked t l)) k)"
  using cleanup_cases(2) [OF assms(1), of t k]
proof
  assume "\<exists>e. map_of (ll_attempts l) k = Some e \<and> stale t e \<and> map_of (ll_attempts (cleanupLocked t l)) k = None
    \<and> length (ll_attempts (cleanupLocked t l)) < length (ll_attempts l)"
  then obtain e where e: "map_of (ll_attempts l) k = Some e" "stale t e" "map_of (ll_attempts (cleanupLocked t l)) k = None" by blast
  have "old_enough t ts" by (rule window_done [of now ts e]) (use assms(2) e in \<open>auto simp: stale_def\<close>)
  then show ?thesis using assms(2,3) e by (auto simp: entry_ok_def list_all_iff)
qed (use assms(2,3) in \<open>simp add: entry_later\<close>)

lemma fail_ok:
  assumes "limiter_ok l"
  shows "limiter_ok (snd (limiter_fail k t l))"
    and "k' \<noteq> k \<Longrightarrow> map_of (ll_attempts (snd (limiter_fail k t l))) k' = map_of (ll_attempts (cleanupLocked t l)) k'"
  using cleanup_cases(1) [OF assms, of t]
  by (auto simp: limiter_fail_def Let_def limiter_ok_def distinct_update length_AList_update update_conv')

text \<open>A failure of a key that does not have to wait.\<close>

lemma new_window:
  assumes "entry_ok now ts e" "now \<le> t" "old_enough t ts" "t \<ge> 0"
  shows "entry_ok t (t # ts) (Some \<lparr>la_count = 1, la_window_start = t, la_blocked_till = b\<rparr>)"
proof -
  have "(t # ts) ! (i + 8) + 15 * minute \<le> (t # ts) ! i" if "i + 8 < length (t # ts)" for i
    using that assms(1,3) by (cases i) (auto simp: entry_ok_def old_enough_def spaced_out_def add.commute [of _ 8])
  then show ?thesis using assms by (auto simp: entry_ok_def spaced_out_def list_all_iff)
qed

lemma same_window:
  assumes "entry_ok now ts (Some e)" "now \<le> t" "la_count e \<ge> 5 \<longrightarrow> la_blocked_till e \<le> t"
    and "la_count e' = la_count e + 1" "la_window_start e' = la_window_start e"
    and "la_count e' \<ge> 5 \<longrightarrow> la_blocked_till e' = t + 15 * minute"
  shows "entry_ok t (t # ts) (Some e')"
proof -
  let ?c = "nat (la_count e)"
  have c: "1 \<le> la_count e" "?c \<le> length ts" "ts ! (?c - 1) = la_window_start e" "old_enough (la_window_start e) (drop ?c ts)"
    and hd: "la_count e \<ge> 5 \<Longrightarrow> la_blocked_till e = hd ts + 15 * minute"
    using assms(1) by (simp_all add: entry_ok_def)
  have desc: "ts ! n \<ge> ts ! m" if "n \<le> m" "m < length ts" for n m
    using assms(1) that sorted_wrt_nth_less [of "(\<ge>)" ts n m] by (cases "n = m") (auto simp: entry_ok_def)
  have seven: "ts ! 7 + 15 * minute \<le> t" if "7 < length ts"
  proof (cases "la_count e \<ge> 5")
    case True
    then have "hd ts + 15 * minute \<le> t" using hd assms(3) by simp
    then show ?thesis using desc [of 0 7] that by (cases ts) auto
  next
    case False
    then have "drop ?c ts ! (7 - ?c) = ts ! 7" "3 \<le> 7 - ?c" "7 - ?c < length (drop ?c ts)" using c that by auto
    then have "ts ! 7 + 15 * minute \<le> la_window_start e" using c(4) by (force simp: old_enough_def)
    moreover have "la_window_start e \<in> set ts" using c(1-3) nth_mem [of "?c - 1" ts] by simp
    then have "la_window_start e \<le> t" using assms(1,2) by (force simp: entry_ok_def list_all_iff)
    ultimately show ?thesis by simp
  qed
  have spaced: "spaced_out (t # ts)"
    unfolding spaced_out_def
  proof (intro allI impI)
    fix i assume "i + 8 < length (t # ts)"
    then show "(t # ts) ! (i + 8) + 15 * minute \<le> (t # ts) ! i"
      using seven assms(1) by (cases i) (auto simp: entry_ok_def spaced_out_def add.commute [of _ 8])
  qed
  have n: "nat (la_count e') = Suc ?c" using assms(4) c(1) by simp
  have "(t # ts) ! ?c = la_window_start e" using c(1,3) by (cases ?c) auto
  then show ?thesis
    using spaced assms c n by (auto simp: entry_ok_def list_all_iff)
qed

lemma fail_entry:
  assumes ok: "limiter_ok l" and entry: "entry_ok now ts (map_of (ll_attempts l) k)" "now \<le> t" "15 * minute < t"
    and admitted: "\<forall>e. map_of (ll_attempts l) k = Some e \<longrightarrow> la_blocked_till e \<le> t"
    and room: "map_of (ll_attempts l) k = None \<longrightarrow> length (ll_attempts l) < 4096"
  shows "entry_ok t (t # ts) (map_of (ll_attempts (snd (limiter_fail k t l))) k)"
proof -
  let ?l = "cleanupLocked t l"
  have entry': "entry_ok t ts (map_of (ll_attempts ?l) k)" by (rule cleanup_entry [OF ok entry(1,2)])
  have room': "\<not> (map_of (ll_attempts ?l) k = None \<and> length (ll_attempts ?l) \<ge> 4096)"
    using cleanup_cases(2,3) [OF ok, of t] room ok by (force simp: limiter_ok_def)
  have admitted': "\<forall>e. map_of (ll_attempts ?l) k = Some e \<longrightarrow> la_blocked_till e \<le> t"
    using cleanup_cases(2) [OF ok, of t k] admitted by auto
  define e where "e = attempt_of ?l k"
  define e1 where "e1 = (if time_sub t (la_window_start e) > 15 * minute then no_attempt\<lparr>la_window_start := t\<rparr> else e)"
  define e2 where "e2 = e1\<lparr>la_count := la_count e1 + 1\<rparr>"
  define e3 where "e3 = (if la_count e2 \<ge> 5 then e2\<lparr>la_blocked_till := t + 15 * minute\<rparr> else e2)"
  have run: "snd (limiter_fail k t l) = ?l\<lparr>ll_attempts := AList.update k e3 (ll_attempts ?l)\<rparr>"
    using room' by (auto simp: limiter_fail_def Let_def e_def e1_def e2_def e3_def)
  have "entry_ok t (t # ts) (Some e3)"
  proof (cases "la_window_start e + 15 * minute < t")
    case True
    then have e3: "e3 = \<lparr>la_count = 1, la_window_start = t, la_blocked_till = 0\<rparr>"
      by (simp add: e3_def e2_def e1_def window_over no_attempt_def)
    have "old_enough t ts"
    proof (cases "map_of (ll_attempts ?l) k")
      case None
      then show ?thesis using entry' by (simp add: entry_ok_def)
    next
      case (Some x)
      then show ?thesis
        using window_done [of t ts x t] entry' admitted' True by (simp add: e_def attempt_of_def)
    qed
    then show ?thesis using new_window [OF entry'] entry(3) by (simp add: e3)
  next
    case False
    then obtain x where x: "map_of (ll_attempts ?l) k = Some x" "e = x"
      using entry(3) by (auto simp: e_def attempt_of_def no_attempt_def split: option.splits)
    have "e1 = e" using False by (simp add: e1_def window_over)
    then show ?thesis
      using same_window [of t ts e t e3] entry' x admitted' by (auto simp: e3_def e2_def)
  qed
  then show "entry_ok t (t # ts) (map_of (ll_attempts (snd (limiter_fail k t l))) k)" by (simp add: run update_conv')
qed

text \<open>The entry of a key that was let through does not block it.\<close>

definition may_fail :: "bool \<Rightarrow> time \<Rightarrow> loginAttempt option \<Rightarrow> bool" where
  "may_fail passed now e \<longleftrightarrow> (passed \<longrightarrow> (\<forall>x. e = Some x \<longrightarrow> la_blocked_till x \<le> now))"

lemma may_fail_later: "may_fail passed now e \<Longrightarrow> now \<le> t \<Longrightarrow> may_fail passed t e"
  by (auto simp: may_fail_def)

lemma may_fail_cleanup:
  "limiter_ok l \<Longrightarrow> may_fail passed now (map_of (ll_attempts l) k) \<Longrightarrow>
     may_fail passed now (map_of (ll_attempts (cleanupLocked t l)) k)"
  using cleanup_cases(2) [of l t k] by (auto simp: may_fail_def)

lemma failures_spaced:
  "limiter_ok l \<Longrightarrow> entry_ok now ts (map_of (ll_attempts l) k) \<Longrightarrow> may_fail passed now (map_of (ll_attempts l) k)
     \<Longrightarrow> one_by_one k passed now es l \<Longrightarrow> 15 * minute < now \<Longrightarrow> spaced_out (failures k es ts)"
proof (induction es arbitrary: now ts l passed)
  case (Cons e es)
  show ?case
  proof (cases e)
    case (WaitStep k' t)
    let ?l = "cleanupLocked t l"
    have t: "now \<le> t" using Cons.prems(4) WaitStep by simp
    have l: "snd (limiter_wait k' t l) = ?l" by (simp add: limiter_wait_def Let_def)
    have "la_blocked_till x \<le> t" if "fst (limiter_wait k t l) \<le> 0" "map_of (ll_attempts ?l) k = Some x" for x
      using that still_blocked [of "la_blocked_till x" t] by (simp add: limiter_wait_def Let_def attempt_of_def)
    then have "may_fail (if k' = k then fst (limiter_wait k' t l) \<le> 0 else passed) t (map_of (ll_attempts ?l) k)"
      using may_fail_later [OF may_fail_cleanup [OF Cons.prems(1,3), of t] t] by (auto simp: may_fail_def)
    then show ?thesis
      using Cons.IH [of ?l t ts] cleanup_cases(1) [OF Cons.prems(1)] cleanup_entry [OF Cons.prems(1,2) t] Cons.prems(4,5)
        WaitStep l t by simp
  next
    case (FailStep k' t)
    let ?l = "snd (limiter_fail k' t l)"
    have t: "now \<le> t" using Cons.prems(4) FailStep by simp
    show ?thesis
    proof (cases "k' = k")
      case True
      have free: "\<forall>x. map_of (ll_attempts l) k = Some x \<longrightarrow> la_blocked_till x \<le> t"
        and room: "map_of (ll_attempts l) k = None \<longrightarrow> length (ll_attempts l) < 4096"
        using Cons.prems(3,4) FailStep True t by (auto simp: may_fail_def)
      have "entry_ok t (t # ts) (map_of (ll_attempts ?l) k)"
        unfolding True by (rule fail_entry [OF Cons.prems(1,2) t _ free room]) (use Cons.prems(5) t in simp)
      then show ?thesis
        using Cons.IH [of ?l t "t # ts" False] fail_ok(1) [OF Cons.prems(1)] Cons.prems(4,5) FailStep True t
        by (simp add: may_fail_def)
    next
      case False
      have same: "map_of (ll_attempts ?l) k = map_of (ll_attempts (cleanupLocked t l)) k"
        using fail_ok(2) [OF Cons.prems(1)] False by auto
      show ?thesis
        using Cons.IH [of ?l t ts passed] fail_ok(1) [OF Cons.prems(1)] cleanup_entry [OF Cons.prems(1,2) t]
          may_fail_later [OF may_fail_cleanup [OF Cons.prems(1,3), of t] t] Cons.prems(4,5) FailStep False t same
        by simp
    qed
  next
    case (SuccessStep k')
    then have other: "k' \<noteq> k" "one_by_one k passed now es (limiter_success k' l)" using Cons.prems(4) by simp_all
    have "length (AList.delete k' (ll_attempts l)) \<le> length (ll_attempts l)" by (simp add: AList.delete_eq)
    then have "limiter_ok (limiter_success k' l)"
      using Cons.prems(1) by (auto simp: limiter_success_def limiter_ok_def distinct_delete)
    moreover have "map_of (ll_attempts (limiter_success k' l)) k = map_of (ll_attempts l) k"
      using other(1) by (simp add: limiter_success_def delete_conv')
    ultimately show ?thesis using Cons.IH [of "limiter_success k' l" now ts passed] Cons.prems other SuccessStep by simp
  qed
qed (simp add: entry_ok_def)

section \<open>Properties\<close>

definition no_logins :: loginLimiter where
  "no_logins = \<lparr>ll_attempts = [], ll_last_cleanup = 0\<rparr>"

text \<open>
  C35: as long as the guesses at one account or from one address come one after the other, none of them is
  right and the map of the limiter has room for that key, at most eight of them fail in any fifteen
  minutes: any nine in a row span a quarter of an hour. The steps of logins from other addresses or at
  other accounts may come in between at any point.
\<close>

theorem login_guesses_bounded:
  assumes "one_by_one k False start steps no_logins" "15 * minute < start"
    and "i + 8 < length (failures k steps [])"
  shows "failures k steps [] ! (i + 8) + 15 * minute \<le> failures k steps [] ! i"
proof -
  have "limiter_ok no_logins" "entry_ok start [] (map_of (ll_attempts no_logins) k)"
    by (simp_all add: limiter_ok_def entry_ok_def old_enough_def spaced_out_def no_logins_def)
  then have "spaced_out (failures k steps [])" by (rule failures_spaced [of _ _ _ _ False]) (use assms in \<open>simp_all add: may_fail_def\<close>)
  then show ?thesis using assms(3) by (simp add: spaced_out_def)
qed

text \<open>The steps of one failed login; guesses at one account from ten addresses.\<close>

definition failed_login :: "string \<Rightarrow> string \<Rightarrow> time \<Rightarrow> LimiterStep list" where
  "failed_login ip account t = [WaitStep ip t, WaitStep account t, FailStep ip t, FailStep account t]"

definition nine_guesses :: "LimiterStep list" where
  "nine_guesses = concat (map (\<lambda>t. failed_login (replicate t (CHR ''1'')) ''account:root'' (int t * minute + 1000 * second))
     [1, 2, 3, 4, 5, 21, 22, 23, 24])"

theorem login_guesses_bounded_witness:
  "length (failures ''account:root'' nine_guesses []) = 9
    \<and> failures ''account:root'' nine_guesses [] ! 8 + 15 * minute \<le> failures ''account:root'' nine_guesses [] ! 0"
proof -
  have 1: "one_by_one ''account:root'' False (1000 * second) nine_guesses no_logins" by code_simp
  have 2: "length (failures ''account:root'' nine_guesses []) = 9" by code_simp
  show ?thesis using login_guesses_bounded [OF 1, of 0] 2 by simp
qed

text \<open>Eight is reached: three late guesses of one window and the five of the next.\<close>

lemma eight_guesses:
  "one_by_one ''ip'' False 0 (concat (map (\<lambda>t. [WaitStep ''ip'' (t * second), FailStep ''ip'' (t * second)])
     [1000, 1897, 1898, 1899, 1901, 1902, 1903, 1904, 1905])) no_logins"
  by code_simp

end
