(* ===== verification/Admin_Auth.thy ===== *)
theory Admin_Auth
  imports Login_Limiter Access_Store Netguard Ops_Event
begin

text \<open>
  Administrator accounts, sessions and the handlers that sign in and out: \<open>internal/store/admin.go\<close> and
  the first half of \<open>internal/httpapi/admin.go\<close>. bcrypt, SHA-256, the random token and the text of JSON are
  parameters.
\<close>

section \<open>Accounts and sessions\<close>

record Admin =
  ad_id :: int
  ad_username :: string
  ad_password_hash :: string
  ad_password_changed :: time

record SessionRow =
  ss_token_hash :: string
  ss_admin_id :: int
  ss_ip :: string
  ss_user_agent :: string
  ss_expires_at :: time

record AuditRow =
  au_admin_id :: "int option"
  au_action :: string
  au_target_type :: string
  au_target_id :: string
  au_ip :: string

record AdminDB =
  an_admins :: "Admin list"
  an_sessions :: "SessionRow list"
  an_audit :: "AuditRow list"
  an_next_id :: int

datatype admin_error = AdminNotFound | AdminNoRows | ErrPasswordChanged | AdminDuplicate | AdminForeignKey | AdminStatementFailed

definition find_admin :: "int \<Rightarrow> AdminDB \<Rightarrow> Admin option" where
  "find_admin i db = find (\<lambda>a. ad_id a = i) (an_admins db)"

definition AdminCount :: "AdminDB \<Rightarrow> nat" where "AdminCount db = length (an_admins db)"

definition CreateAdmin :: "string \<Rightarrow> string \<Rightarrow> time \<Rightarrow> AdminDB \<Rightarrow> (admin_error + int) \<times> AdminDB" where
  "CreateAdmin username hash now db =
     (if username \<in> ad_username ` set (an_admins db) then (Inl AdminDuplicate, db\<lparr>an_next_id := an_next_id db + 1\<rparr>)
      else (Inr (an_next_id db), db\<lparr>an_admins := an_admins db @ [\<lparr>ad_id = an_next_id db, ad_username = username,
        ad_password_hash = hash, ad_password_changed = now\<rparr>], an_next_id := an_next_id db + 1\<rparr>))"

definition AdminByUsername :: "string \<Rightarrow> AdminDB \<Rightarrow> admin_error + Admin" where
  "AdminByUsername username db =
     (case find (\<lambda>a. ad_username a = username) (an_admins db) of None \<Rightarrow> Inl AdminNotFound | Some a \<Rightarrow> Inr a)"

definition CreateSession :: "string \<Rightarrow> int \<Rightarrow> string \<Rightarrow> string \<Rightarrow> time \<Rightarrow> AdminDB \<Rightarrow> admin_error option \<times> AdminDB" where
  "CreateSession hash admin ip user_agent expires db =
     (if find_admin admin db = None then (Some AdminForeignKey, db)
      else if hash \<in> ss_token_hash ` set (an_sessions db) then (Some AdminDuplicate, db)
      else (None, db\<lparr>an_sessions := an_sessions db @ [\<lparr>ss_token_hash = hash, ss_admin_id = admin, ss_ip = ip,
        ss_user_agent = user_agent, ss_expires_at = expires\<rparr>]\<rparr>))"

definition CreateSessionForPassword ::
  "string \<Rightarrow> Admin \<Rightarrow> string \<Rightarrow> string \<Rightarrow> time \<Rightarrow> AdminDB \<Rightarrow> admin_error option \<times> AdminDB" where
  "CreateSessionForPassword hash admin ip user_agent expires db =
     (case find_admin (ad_id admin) db of
        None \<Rightarrow> (Some AdminNoRows, db)
      | Some a \<Rightarrow>
          if ad_password_hash a \<noteq> ad_password_hash admin then (Some ErrPasswordChanged, db)
          else CreateSession hash (ad_id admin) ip user_agent expires db)"

definition AdminBySession :: "string \<Rightarrow> time \<Rightarrow> AdminDB \<Rightarrow> admin_error + Admin" where
  "AdminBySession hash now db =
     (case find (\<lambda>x. ss_token_hash x = hash \<and> ss_expires_at x > now \<and> find_admin (ss_admin_id x) db \<noteq> None) (an_sessions db) of
        None \<Rightarrow> Inl AdminNotFound
      | Some x \<Rightarrow> (case find_admin (ss_admin_id x) db of None \<Rightarrow> Inl AdminNotFound | Some a \<Rightarrow> Inr a))"

definition DeleteSession :: "string \<Rightarrow> AdminDB \<Rightarrow> AdminDB" where
  "DeleteSession hash db = db\<lparr>an_sessions := filter (\<lambda>x. ss_token_hash x \<noteq> hash) (an_sessions db)\<rparr>"

text \<open>One batch of \<open>DeleteExpiredSessions\<close>: at most so many expired rows, the earliest first.\<close>

definition expired_batch :: "nat \<Rightarrow> time \<Rightarrow> AdminDB \<Rightarrow> SessionRow list" where
  "expired_batch n now db = take n (sort_key ss_expires_at (filter (\<lambda>x. ss_expires_at x \<le> now) (an_sessions db)))"

definition delete_batch :: "nat \<Rightarrow> time \<Rightarrow> AdminDB \<Rightarrow> nat \<times> AdminDB" where
  "delete_batch n now db =
     (let rows = expired_batch n now db
      in (length rows, db\<lparr>an_sessions := filter (\<lambda>x. x \<notin> set rows) (an_sessions db)\<rparr>))"

text \<open>
  The loop of \<open>DeleteExpiredSessions\<close>: batches of a thousand until one is short. The database's clock is read
  by each batch, \<open>clock i\<close> being what the \<open>i\<close>-th batch reads.
\<close>

lemma delete_batch_shrinks:
  assumes "fst (delete_batch n now db) > 0"
  shows "length (an_sessions (snd (delete_batch n now db))) < length (an_sessions db)"
proof -
  obtain x where x: "x \<in> set (expired_batch n now db)"
    using assms by (cases "expired_batch n now db") (auto simp: delete_batch_def Let_def)
  then have "x \<in> set (an_sessions db)" unfolding expired_batch_def by (auto dest: in_set_takeD)
  then show ?thesis using x by (auto simp: delete_batch_def Let_def intro: length_filter_less)
qed

function DeleteExpiredSessions :: "nat \<Rightarrow> (nat \<Rightarrow> time) \<Rightarrow> AdminDB \<Rightarrow> AdminDB" where
  "DeleteExpiredSessions i clock db =
     (case delete_batch 1000 (clock i) db of
        (deleted, db') \<Rightarrow> if deleted < 1000 then db' else DeleteExpiredSessions (Suc i) clock db')"
  by auto
termination
  by (relation "measure (\<lambda>(_, _, db). length (an_sessions db))")
    (auto simp: delete_batch_shrinks dest!: sym [where t = "(_, _)"], metis delete_batch_shrinks fst_conv snd_conv not_less not_gr_zero zero_less_numeral)

declare DeleteExpiredSessions.simps [simp del]

definition UpdateAdminPassword :: "int \<Rightarrow> string \<Rightarrow> time \<Rightarrow> AdminDB \<Rightarrow> admin_error option \<times> AdminDB" where
  "UpdateAdminPassword admin hash now db =
     (if find_admin admin db = None then (Some AdminNotFound, db)
      else (None, db\<lparr>an_admins := map (\<lambda>a. if ad_id a = admin then a\<lparr>ad_password_hash := hash, ad_password_changed := now\<rparr> else a)
                       (an_admins db),
                     an_sessions := filter (\<lambda>x. ss_admin_id x \<noteq> admin) (an_sessions db)\<rparr>))"

definition HasSuccessfulLoginFromIP :: "int \<Rightarrow> string \<Rightarrow> AdminDB \<Rightarrow> bool" where
  "HasSuccessfulLoginFromIP admin ip db \<longleftrightarrow>
     (\<exists>r \<in> set (an_audit db). au_admin_id r = Some admin \<and> au_action r = ''admin.login'' \<and> au_ip r = ip)"

definition WriteAudit :: "int option \<Rightarrow> string \<Rightarrow> string \<Rightarrow> string \<Rightarrow> string \<Rightarrow> AdminDB \<Rightarrow> AdminDB" where
  "WriteAudit admin action target_type target_id ip db =
     db\<lparr>an_audit := an_audit db @ [\<lparr>au_admin_id = admin, au_action = action, au_target_type = target_type,
       au_target_id = target_id, au_ip = ip\<rparr>]\<rparr>"

section \<open>Requests of administrators\<close>

record AdminRequest =
  rq_get :: bool
  rq_remote :: string
  rq_host :: string
  rq_tls :: bool
  rq_header :: header
  rq_cookie :: "string option"

text \<open>bcrypt's comparison, SHA-256, the host of a parsed URL, and the configured life of a session.\<close>

record AdminEnv =
  ae_check :: "string \<Rightarrow> string \<Rightarrow> bool"
  ae_sha :: "string \<Rightarrow> string"
  ae_url_host :: "string \<Rightarrow> string option"
  ae_session_ttl :: duration

record AuthServer =
  sv_db :: AdminDB
  sv_logins :: loginLimiter
  sv_notices :: "Event list"

record AdminReply =
  ap_status :: int
  ap_code :: string
  ap_retry_after :: "int option"
  ap_cookie :: "(string \<times> bool) option"

definition answer :: "int \<Rightarrow> string \<Rightarrow> AdminReply" where
  "answer status code = \<lparr>ap_status = status, ap_code = code, ap_retry_after = None, ap_cookie = None\<rparr>"

definition remoteIP :: "AdminRequest \<Rightarrow> string" where
  "remoteIP r = (case SplitHostPort (rq_remote r) of Some (host, _) \<Rightarrow> host | None \<Rightarrow> rq_remote r)"

definition isHTTPS :: "AdminRequest \<Rightarrow> bool" where
  "isHTTPS r \<longleftrightarrow> rq_tls r \<or> equal_fold (header_get (rq_header r) ''X-Forwarded-Proto'') ''https''"

definition sameOrigin :: "AdminEnv \<Rightarrow> AdminRequest \<Rightarrow> bool" where
  "sameOrigin env r \<longleftrightarrow>
     (let origin = header_get (rq_header r) ''Origin''
      in origin = [] \<or> (case ae_url_host env origin of None \<Rightarrow> False | Some host \<Rightarrow> equal_fold host (rq_host r)))"

text \<open>The middleware: who a request acts for, or the refusal; no instant, when the statement failed.\<close>

definition admin_of :: "AdminEnv \<Rightarrow> AdminRequest \<Rightarrow> time option \<Rightarrow> AuthServer \<Rightarrow> AdminReply + Admin" where
  "admin_of env r now s =
     (if \<not> rq_get r \<and> \<not> sameOrigin env r then Inl (answer 403 ''origin_rejected'')
      else case rq_cookie r of
        None \<Rightarrow> Inl (answer 401 ''authentication_required'')
      | Some token \<Rightarrow>
          (case now of
             None \<Rightarrow> Inl (answer 401 ''authentication_required'')
           | Some now \<Rightarrow>
               (case AdminBySession (HashToken (ae_sha env) token) now (sv_db s) of
                  Inl _ \<Rightarrow> Inl (answer 401 ''authentication_required'') | Inr a \<Rightarrow> Inr a)))"

definition security_event :: "string \<Rightarrow> string \<Rightarrow> time \<Rightarrow> Event" where
  "security_event kind message now = empty_event\<lparr>ev_type := kind, ev_state := ''firing'', ev_message := message, ev_at := now\<rparr>"

definition notifySecurity :: "string \<Rightarrow> string \<Rightarrow> time \<Rightarrow> AuthServer \<Rightarrow> AuthServer" where
  "notifySecurity kind message now s = s\<lparr>sv_notices := sv_notices s @ [security_event kind message now]\<rparr>"

definition audit_row :: "bool \<Rightarrow> int option \<Rightarrow> string \<Rightarrow> string \<Rightarrow> string \<Rightarrow> AuthServer \<Rightarrow> AuthServer" where
  "audit_row written admin action target ip s =
     (if written then s\<lparr>sv_db := WriteAudit admin action ''admin'' target ip (sv_db s)\<rparr> else s)"

definition login_fail :: "string \<Rightarrow> time \<Rightarrow> AuthServer \<Rightarrow> bool \<times> AuthServer" where
  "login_fail k now s = (case limiter_fail k now (sv_logins s) of (blocked, l) \<Rightarrow> (blocked, s\<lparr>sv_logins := l\<rparr>))"

definition login_wait :: "string \<Rightarrow> time \<Rightarrow> AuthServer \<Rightarrow> duration \<times> AuthServer" where
  "login_wait k now s = (case limiter_wait k now (sv_logins s) of (wait, l) \<Rightarrow> (wait, s\<lparr>sv_logins := l\<rparr>))"

definition login_success :: "string \<Rightarrow> AuthServer \<Rightarrow> AuthServer" where
  "login_success k s = s\<lparr>sv_logins := limiter_success k (sv_logins s)\<rparr>"

section \<open>Signing in\<close>

text \<open>
  What one run of \<open>login\<close> meets: the instants it reads, its decoded body, which statements succeed, and the
  random token. The handler is cut where another request may come between: \<open>login_verify\<close> runs to the
  verified password, \<open>login_session\<close> from there to the reply.
\<close>

record LoginRun =
  lr_body :: "(string \<times> string) option"
  lr_wait_ip_at :: time
  lr_wait_account_at :: time
  lr_fail_ip_at :: time
  lr_fail_account_at :: time
  lr_lookup_ok :: bool
  lr_known_ok :: bool
  lr_session_ok :: bool
  lr_audit_ok :: bool
  lr_token :: "string option"
  lr_now :: time

definition too_many :: "duration \<Rightarrow> AdminReply" where
  "too_many wait = (answer 429 ''too_many_attempts'')\<lparr>ap_retry_after := Some (wait div second + 1)\<rparr>"

definition account_key :: "string \<Rightarrow> string" where
  "account_key username = ''account:'' @ to_lower username"

text \<open>The two messages of the source, by their bytes.\<close>

definition failure_message :: string where
  "failure_message = utf8 [0xE7, 0xAE, 0xA1, 0xE7, 0x90, 0x86, 0xE5, 0x91, 0x98, 0xE7, 0x99, 0xBB, 0xE5, 0xBD, 0x95, 0xE5,
     0xA4, 0xB1, 0xE8, 0xB4, 0xA5, 0xE6, 0xAC, 0xA1, 0xE6, 0x95, 0xB0, 0xE8, 0xBF, 0x87, 0xE5, 0xA4, 0x9A, 0xEF, 0xBC, 0x8C,
     0xE6, 0x9D, 0xA5, 0xE6, 0xBA, 0x90, 0x20, 0x49, 0x50, 0xEF, 0xBC, 0x9A]"

definition new_ip_message :: string where
  "new_ip_message = utf8 [0xE7, 0xAE, 0xA1, 0xE7, 0x90, 0x86, 0xE5, 0x91, 0x98, 0xE4, 0xBB, 0x8E, 0xE6, 0x96, 0xB0, 0xE7,
     0x9A, 0x84, 0x20, 0x49, 0x50, 0x20, 0xE7, 0x99, 0xBB, 0xE5, 0xBD, 0x95, 0xEF, 0xBC, 0x9A]"

definition login_rejected :: "LoginRun \<Rightarrow> string \<Rightarrow> string \<Rightarrow> AuthServer \<Rightarrow> AuthServer" where
  "login_rejected run ip username s =
     (case login_fail ip (lr_fail_ip_at run) s of (blocked_ip, s) \<Rightarrow>
      case login_fail (account_key username) (lr_fail_account_at run) s of (blocked_account, s) \<Rightarrow>
        (let s = audit_row (lr_audit_ok run) None ''admin.login_failed'' username ip s
         in if blocked_ip \<or> blocked_account then notifySecurity ''login_failure'' (failure_message @ ip) (lr_now run) s else s))"

definition login_verify :: "AdminEnv \<Rightarrow> LoginRun \<Rightarrow> AdminRequest \<Rightarrow> AuthServer \<Rightarrow> (AdminReply + Admin) \<times> AuthServer" where
  "login_verify env run r s =
     (let ip = remoteIP r in
      case login_wait ip (lr_wait_ip_at run) s of (wait, s) \<Rightarrow>
        if wait > 0 then (Inl (too_many wait), s)
        else case lr_body run of
          None \<Rightarrow> (Inl (answer 400 ''invalid_request''), s)
        | Some (typed, password) \<Rightarrow>
            (let username = trim_space typed in
             case login_wait (account_key username) (lr_wait_account_at run) s of (wait, s) \<Rightarrow>
               if wait > 0 then (Inl (too_many wait), s)
               else if rune_count username > 200 \<or> length password > 1024
               then (Inl (answer 401 ''invalid_credentials''), snd (login_fail ip (lr_fail_ip_at run) s))
               else case (if lr_lookup_ok run then AdminByUsername username (sv_db s) else Inl AdminStatementFailed) of
                 Inl _ \<Rightarrow> (Inl (answer 401 ''invalid_credentials''), login_rejected run ip username s)
               | Inr admin \<Rightarrow>
                   if \<not> ae_check env (ad_password_hash admin) password
                   then (Inl (answer 401 ''invalid_credentials''), login_rejected run ip username s)
                   else (Inr admin, login_success (account_key username) (login_success ip s))))"

definition login_session :: "AdminEnv \<Rightarrow> LoginRun \<Rightarrow> AdminRequest \<Rightarrow> Admin \<Rightarrow> AuthServer \<Rightarrow> AdminReply \<times> AuthServer" where
  "login_session env run r admin s =
     (let ip = remoteIP r;
          known = (if lr_known_ok run then HasSuccessfulLoginFromIP (ad_id admin) ip (sv_db s) else False)
      in case lr_token run of
           None \<Rightarrow> (answer 500 ''internal_error'', s)
         | Some token \<Rightarrow>
             (case (if lr_session_ok run
                    then CreateSessionForPassword (HashToken (ae_sha env) token) admin ip (header_get (rq_header r) ''User-Agent'')
                           (lr_now run + ae_session_ttl env) (sv_db s)
                    else (Some AdminStatementFailed, sv_db s)) of
                (Some e, db) \<Rightarrow>
                  (if e = ErrPasswordChanged then answer 401 ''invalid_credentials'' else answer 500 ''internal_error'', s)
              | (None, db) \<Rightarrow>
                  (let s = audit_row (lr_audit_ok run) (Some (ad_id admin)) ''admin.login'' (show_int (ad_id admin)) ip (s\<lparr>sv_db := db\<rparr>);
                       s = (if lr_known_ok run \<and> \<not> known then notifySecurity ''new_login_ip'' (new_ip_message @ ip) (lr_now run) s else s)
                   in ((answer 200 [])\<lparr>ap_cookie := Some (token, isHTTPS r)\<rparr>, s))))"

definition login :: "AdminEnv \<Rightarrow> LoginRun \<Rightarrow> AdminRequest \<Rightarrow> AuthServer \<Rightarrow> AdminReply \<times> AuthServer" where
  "login env run r s =
     (case login_verify env run r s of
        (Inl reply, s) \<Rightarrow> (reply, s)
      | (Inr admin, s) \<Rightarrow> login_session env run r admin s)"

section \<open>Signing out, and the password\<close>

definition clear_cookie :: "AdminRequest \<Rightarrow> AdminReply \<Rightarrow> AdminReply" where
  "clear_cookie r reply = reply\<lparr>ap_cookie := Some ([], isHTTPS r)\<rparr>"

definition logout :: "AdminEnv \<Rightarrow> bool \<Rightarrow> AdminRequest \<Rightarrow> AuthServer \<Rightarrow> AdminReply \<times> AuthServer" where
  "logout env deleted r s =
     (clear_cookie r (answer 204 []),
      (case rq_cookie r of
         None \<Rightarrow> s
       | Some token \<Rightarrow> if deleted then s\<lparr>sv_db := DeleteSession (HashToken (ae_sha env) token) (sv_db s)\<rparr> else s))"

text \<open>The password and what bcrypt makes of it, unless it refuses it.\<close>

definition HashPassword :: "string \<Rightarrow> string option \<Rightarrow> string option" where
  "HashPassword password hashed = (if length password < 12 then None else hashed)"

record ChangeRun =
  cr_body :: "(string \<times> string) option"
  cr_hashed :: "string option"
  cr_update_ok :: bool
  cr_audit_ok :: bool
  cr_now :: time

definition password_message :: string where
  "password_message = utf8 [0xE7, 0xAE, 0xA1, 0xE7, 0x90, 0x86, 0xE5, 0x91, 0x98, 0xE5, 0xAF, 0x86, 0xE7, 0xA0, 0x81, 0xE5,
     0xB7, 0xB2, 0xE4, 0xBF, 0xAE, 0xE6, 0x94, 0xB9]"

definition changePassword :: "AdminEnv \<Rightarrow> ChangeRun \<Rightarrow> AdminRequest \<Rightarrow> Admin \<Rightarrow> AuthServer \<Rightarrow> AdminReply \<times> AuthServer" where
  "changePassword env run r admin s =
     (case cr_body run of
        None \<Rightarrow> (answer 400 ''invalid_password'', s)
      | Some (current, new) \<Rightarrow>
          if length current > 1024 \<or> length new > 1024 \<or> \<not> ae_check env (ad_password_hash admin) current
          then (answer 400 ''invalid_password'', s)
          else case HashPassword new (cr_hashed run) of
            None \<Rightarrow> (answer 400 ''invalid_password'', s)
          | Some hash \<Rightarrow>
              (case (if cr_update_ok run then UpdateAdminPassword (ad_id admin) hash (cr_now run) (sv_db s)
                     else (Some AdminStatementFailed, sv_db s)) of
                 (Some e, db) \<Rightarrow> (if e = AdminNotFound then answer 404 ''not_found'' else answer 500 ''internal_error'', s)
               | (None, db) \<Rightarrow>
                   (let s = audit_row (cr_audit_ok run) (Some (ad_id admin)) ''admin.password_changed'' (show_int (ad_id admin))
                              (remoteIP r) (s\<lparr>sv_db := db\<rparr>);
                        s = notifySecurity ''password_changed'' password_message (cr_now run) s
                    in (clear_cookie r (answer 204 []), s))))"

definition BootstrapAdmin :: "bool \<Rightarrow> string \<Rightarrow> string \<Rightarrow> string option \<Rightarrow> time \<Rightarrow> AdminDB \<Rightarrow> bool \<times> AdminDB" where
  "BootstrapAdmin counted username password hashed now db =
     (if \<not> counted then (False, db)
      else if AdminCount db > 0 then (True, db)
      else if username = [] \<or> password = [] then (False, db)
      else case HashPassword password hashed of
        None \<Rightarrow> (False, db)
      | Some hash \<Rightarrow> (case CreateAdmin username hash now db of (Inl _, db) \<Rightarrow> (False, db) | (Inr _, db) \<Rightarrow> (True, db)))"

section \<open>Expired sessions\<close>

lemma delete_batch_sessions:
  "an_sessions (snd (delete_batch n now db)) = filter (\<lambda>x. x \<notin> set (expired_batch n now db)) (an_sessions db)"
  "an_admins (snd (delete_batch n now db)) = an_admins db"
  "fst (delete_batch n now db) = length (expired_batch n now db)"
  by (simp_all add: delete_batch_def Let_def)

lemma expired_batch_all:
  assumes "length (expired_batch n now db) < n"
  shows "set (expired_batch n now db) = {x \<in> set (an_sessions db). ss_expires_at x \<le> now}"
  using assms by (auto simp: expired_batch_def)

lemma expired_batch_expired: "x \<in> set (expired_batch n now db) \<Longrightarrow> ss_expires_at x \<le> now"
  by (auto simp: expired_batch_def dest: in_set_takeD)

lemma DeleteExpiredSessions_admins [simp]: "an_admins (DeleteExpiredSessions i clock db) = an_admins db"
  by (induction i clock db rule: DeleteExpiredSessions.induct, subst DeleteExpiredSessions.simps)
    (auto simp: delete_batch_def Let_def)

lemma DeleteExpiredSessions_subset: "set (an_sessions (DeleteExpiredSessions i clock db)) \<subseteq> set (an_sessions db)"
proof (induction i clock db rule: DeleteExpiredSessions.induct)
  case (1 i clock db)
  obtain n db' where batch: "delete_batch 1000 (clock i) db = (n, db')" by fastforce
  have "set (an_sessions db') \<subseteq> set (an_sessions db)"
    using delete_batch_sessions(1) [of 1000 "clock i" db] batch by auto
  then show ?case using "1.IH" [OF batch [symmetric]] by (subst DeleteExpiredSessions.simps) (auto simp: batch)
qed

text \<open>
  The removal of expired sessions ends and is exact: there is a last reading of the database's clock such that what is
  left is every session, in order, that had not expired by then.
\<close>

theorem expired_sessions_deleted:
  assumes "mono clock"
  shows "\<exists>k. i \<le> k \<and> an_sessions (DeleteExpiredSessions i clock db) = filter (\<lambda>x. ss_expires_at x > clock k) (an_sessions db)"
  using assms
proof (induction i clock db rule: DeleteExpiredSessions.induct)
  case (1 i clock db)
  obtain n db' where batch: "delete_batch 1000 (clock i) db = (n, db')" by fastforce
  note rows = delete_batch_sessions [of 1000 "clock i" db, unfolded batch prod.sel]
  show ?case
  proof (cases "n < 1000")
    case True
    then have "an_sessions db' = filter (\<lambda>x. ss_expires_at x > clock i) (an_sessions db)"
      unfolding rows(1) by (intro filter_cong) (auto simp: expired_batch_all rows(3))
    then show ?thesis using True by (subst DeleteExpiredSessions.simps) (auto simp: batch)
  next
    case False
    then obtain k where k: "k \<ge> Suc i"
      "an_sessions (DeleteExpiredSessions (Suc i) clock db') = filter (\<lambda>x. ss_expires_at x > clock k) (an_sessions db')"
      using "1.IH" [OF batch [symmetric]] "1.prems" by blast
    have "ss_expires_at x > clock k \<Longrightarrow> x \<notin> set (expired_batch 1000 (clock i) db)" for x
      using expired_batch_expired [of x 1000 "clock i" db] monoD [OF "1.prems", of i k] k(1) by auto
    then have "filter (\<lambda>x. ss_expires_at x > clock k) (an_sessions db') = filter (\<lambda>x. ss_expires_at x > clock k) (an_sessions db)"
      unfolding rows(1) by (auto intro!: filter_cong)
    then show ?thesis
      using False k by (subst DeleteExpiredSessions.simps) (auto simp: batch intro!: exI [of _ k])
  qed
qed

definition two_sessions :: AdminDB where
  "two_sessions = \<lparr>an_admins = [], an_sessions =
     [\<lparr>ss_token_hash = ''a'', ss_admin_id = 1, ss_ip = [], ss_user_agent = [], ss_expires_at = 5\<rparr>,
      \<lparr>ss_token_hash = ''b'', ss_admin_id = 1, ss_ip = [], ss_user_agent = [], ss_expires_at = 8\<rparr>], an_audit = [], an_next_id = 2\<rparr>"

theorem expired_sessions_deleted_witness:
  "map ss_token_hash (an_sessions (DeleteExpiredSessions 0 (\<lambda>_. 7) two_sessions)) = [''b'']"
  using expired_sessions_deleted [of "\<lambda>_. 7" 0 two_sessions] by (auto simp: mono_def two_sessions_def)

section \<open>Interleaved requests\<close>

text \<open>
  Requests of administrators interleave: logins between the verified password and the session, and requests between
  the middleware and their handler. \<open>am_granted\<close> records, for each session created, the hash of its token and the
  password that had been verified.
\<close>

record AuthRun =
  am_server :: AuthServer
  am_logins :: "(Admin \<times> string) list"
  am_requests :: "Admin list"
  am_granted :: "(string \<times> string) list"

inductive auth_step :: "AdminEnv \<Rightarrow> AuthRun \<Rightarrow> AuthRun \<Rightarrow> bool" for env where
  refused: "login_verify env run r (am_server m) = (Inl reply, s) \<Longrightarrow> auth_step env m (m\<lparr>am_server := s\<rparr>)"
| verified: "login_verify env run r (am_server m) = (Inr a, s) \<Longrightarrow> lr_body run = Some (typed, pw) \<Longrightarrow>
    auth_step env m (m\<lparr>am_server := s, am_logins := (a, pw) # am_logins m\<rparr>)"
| signed_in: "(a, pw) \<in> set (am_logins m) \<Longrightarrow> login_session env run r a (am_server m) = (reply, s) \<Longrightarrow>
    ap_cookie reply = Some (token, secure) \<Longrightarrow>
    auth_step env m (m\<lparr>am_server := s, am_logins := remove1 (a, pw) (am_logins m),
                       am_granted := (HashToken (ae_sha env) token, pw) # am_granted m\<rparr>)"
| not_signed_in: "(a, pw) \<in> set (am_logins m) \<Longrightarrow> login_session env run r a (am_server m) = (reply, s) \<Longrightarrow>
    ap_cookie reply = None \<Longrightarrow> auth_step env m (m\<lparr>am_server := s, am_logins := remove1 (a, pw) (am_logins m)\<rparr>)"
| entered: "admin_of env r now (am_server m) = Inr a \<Longrightarrow> auth_step env m (m\<lparr>am_requests := a # am_requests m\<rparr>)"
| signed_out: "a \<in> set (am_requests m) \<Longrightarrow> logout env deleted r (am_server m) = (reply, s) \<Longrightarrow>
    auth_step env m (m\<lparr>am_server := s, am_requests := remove1 a (am_requests m)\<rparr>)"
| changed: "a \<in> set (am_requests m) \<Longrightarrow> changePassword env change r a (am_server m) = (reply, s) \<Longrightarrow>
    auth_step env m (m\<lparr>am_server := s, am_requests := remove1 a (am_requests m)\<rparr>)"
| swept: "auth_step env m (m\<lparr>am_server := (am_server m)\<lparr>sv_db := DeleteExpiredSessions 0 clock (sv_db (am_server m))\<rparr>\<rparr>)"
| bootstrapped: "BootstrapAdmin counted username password hashed now (sv_db (am_server m)) = (ok, db) \<Longrightarrow>
    auth_step env m (m\<lparr>am_server := (am_server m)\<lparr>sv_db := db\<rparr>\<rparr>)"

inductive auth_reach :: "AdminEnv \<Rightarrow> AuthRun \<Rightarrow> AuthRun \<Rightarrow> bool" for env m0 where
  here: "auth_reach env m0 m0"
| more: "auth_reach env m0 m \<Longrightarrow> auth_step env m m' \<Longrightarrow> auth_reach env m0 m'"

definition accounts :: "AuthServer \<Rightarrow> Admin list \<times> SessionRow list" where
  "accounts s = (an_admins (sv_db s), an_sessions (sv_db s))"

lemma accounts_kept [simp]:
  "accounts (audit_row w a action t ip s) = accounts s"
  "accounts (notifySecurity kind msg now s) = accounts s"
  "accounts (login_success k s) = accounts s"
  by (simp_all add: accounts_def audit_row_def WriteAudit_def notifySecurity_def login_success_def)

lemma login_fail_accounts: "login_fail k now s = (b, s') \<Longrightarrow> accounts s' = accounts s"
  and login_wait_accounts: "login_wait k now s = (w, s') \<Longrightarrow> accounts s' = accounts s"
  by (auto simp: accounts_def login_fail_def login_wait_def split: prod.splits)

lemma login_fail_accounts_snd: "accounts (snd (login_fail k now s)) = accounts s"
  using login_fail_accounts by (metis prod.collapse)

lemma login_rejected_accounts [simp]: "accounts (login_rejected run ip username s) = accounts s"
  unfolding login_rejected_def Let_def by (auto split: prod.split dest!: login_fail_accounts)

lemma login_verify_accounts: "login_verify env run r s = (res, s') \<Longrightarrow> accounts s' = accounts s"
  unfolding login_verify_def Let_def
  by (auto split: prod.splits if_splits option.splits sum.splits dest!: login_wait_accounts simp: login_fail_accounts_snd)

lemma login_verify_password:
  "login_verify env run r s = (Inr a, s') \<Longrightarrow>
    \<exists>typed pw. lr_body run = Some (typed, pw) \<and> ae_check env (ad_password_hash a) pw"
  unfolding login_verify_def Let_def by (auto split: prod.splits if_splits option.splits sum.splits)

lemma CreateSessionForPassword_outcome:
  assumes "CreateSessionForPassword hash a ip ua expires db = (None, db')"
  obtains cur x where "find_admin (ad_id a) db = Some cur" "ad_password_hash cur = ad_password_hash a"
    "ss_token_hash x = hash" "ss_admin_id x = ad_id a" "db' = db\<lparr>an_sessions := an_sessions db @ [x]\<rparr>"
proof -
  obtain cur where cur: "find_admin (ad_id a) db = Some cur" "ad_password_hash cur = ad_password_hash a"
    and db': "CreateSession hash (ad_id a) ip ua expires db = (None, db')"
    using assms unfolding CreateSessionForPassword_def by (auto split: option.splits if_splits)
  then show ?thesis unfolding CreateSession_def
    by (auto split: if_splits intro!: that [of cur "\<lparr>ss_token_hash = hash, ss_admin_id = ad_id a, ss_ip = ip,
        ss_user_agent = ua, ss_expires_at = expires\<rparr>"])
qed

lemma login_session_refused:
  "login_session env run r a s = (reply, s') \<Longrightarrow> ap_cookie reply = None \<Longrightarrow> s' = s"
  unfolding login_session_def Let_def by (auto split: option.splits prod.splits if_splits simp: answer_def)

lemma login_session_granted:
  assumes "login_session env run r a s = (reply, s')" "ap_cookie reply = Some (token, secure)"
  obtains cur x where "find_admin (ad_id a) (sv_db s) = Some cur" "ad_password_hash cur = ad_password_hash a"
    "ss_token_hash x = HashToken (ae_sha env) token" "ss_admin_id x = ad_id a"
    "accounts s' = (an_admins (sv_db s), an_sessions (sv_db s) @ [x])"
proof -
  obtain db where db: "CreateSessionForPassword (HashToken (ae_sha env) token) a (remoteIP r)
      (header_get (rq_header r) ''User-Agent'') (lr_now run + ae_session_ttl env) (sv_db s) = (None, db)"
    and s': "accounts s' = accounts (s\<lparr>sv_db := db\<rparr>)"
    using assms unfolding login_session_def Let_def
    by (auto split: option.splits prod.splits if_splits simp: answer_def)
  show ?thesis
    using db by (rule CreateSessionForPassword_outcome) (rule that, assumption+, simp add: s', simp add: accounts_def)
qed

lemma find_admin_accounts: "accounts s' = accounts s \<Longrightarrow> find_admin i (sv_db s') = find_admin i (sv_db s)"
  by (simp add: find_admin_def accounts_def)

lemma UpdateAdminPassword_outcome:
  assumes "UpdateAdminPassword i hash now db = (None, db')"
  shows "an_sessions db' = filter (\<lambda>x. ss_admin_id x \<noteq> i) (an_sessions db)"
    and "j \<noteq> i \<Longrightarrow> find_admin j db' = find_admin j db"
    and "find_admin i db' = map_option (\<lambda>a. a\<lparr>ad_password_hash := hash, ad_password_changed := now\<rparr>) (find_admin i db)"
proof -
  let ?f = "\<lambda>a. if ad_id a = i then a\<lparr>ad_password_hash := hash, ad_password_changed := now\<rparr> else a"
  have db': "db' = db\<lparr>an_admins := map ?f (an_admins db), an_sessions := filter (\<lambda>x. ss_admin_id x \<noteq> i) (an_sessions db)\<rparr>"
    using assms by (auto simp: UpdateAdminPassword_def split: if_splits)
  have "find (\<lambda>a. ad_id a = j) (map ?f as) = map_option ?f (find (\<lambda>a. ad_id a = j) as)" for j as
    by (induction as) auto
  then have find: "find_admin j db' = map_option ?f (find_admin j db)" for j
    by (simp add: find_admin_def db')
  have id: "find_admin j db = Some a \<Longrightarrow> ad_id a = j" for j a
    by (auto simp: find_admin_def find_Some_iff)
  show "an_sessions db' = filter (\<lambda>x. ss_admin_id x \<noteq> i) (an_sessions db)" by (simp add: db')
  show "j \<noteq> i \<Longrightarrow> find_admin j db' = find_admin j db"
    unfolding find by (cases "find_admin j db") (auto dest: id)
  show "find_admin i db' = map_option (\<lambda>a. a\<lparr>ad_password_hash := hash, ad_password_changed := now\<rparr>) (find_admin i db)"
    unfolding find by (cases "find_admin i db") (auto dest: id)
qed

lemma changePassword_outcome:
  assumes "changePassword env run r a s = (reply, s')"
  obtains "accounts s' = accounts s" "ap_status reply \<noteq> 204"
  | db hash now where "UpdateAdminPassword (ad_id a) hash now (sv_db s) = (None, db)" "accounts s' = accounts (s\<lparr>sv_db := db\<rparr>)"
  using assms unfolding changePassword_def Let_def
  by (auto split: option.splits if_splits prod.splits simp: answer_def)

definition session_ok :: "AdminEnv \<Rightarrow> (string \<times> string) list \<Rightarrow> AdminDB \<Rightarrow> SessionRow \<Rightarrow> bool" where
  "session_ok env granted db x \<longleftrightarrow>
     (\<exists>a pw. find_admin (ss_admin_id x) db = Some a \<and> (ss_token_hash x, pw) \<in> set granted
        \<and> ae_check env (ad_password_hash a) pw)"

definition auth_ok :: "AdminEnv \<Rightarrow> AuthRun \<Rightarrow> bool" where
  "auth_ok env m \<longleftrightarrow>
     (\<forall>x \<in> set (an_sessions (sv_db (am_server m))). session_ok env (am_granted m) (sv_db (am_server m)) x)
     \<and> (\<forall>(a, pw) \<in> set (am_logins m). ae_check env (ad_password_hash a) pw)"

lemma auth_ok_server:
  assumes "auth_ok env m" "accounts s = accounts (am_server m)" 
    "\<And>b p. (b, p) \<in> set (am_logins m') \<Longrightarrow> (b, p) \<in> set (am_logins m) \<or> ae_check env (ad_password_hash b) p"
    "am_granted m' = am_granted m" "am_server m' = s"
  shows "auth_ok env m'"
proof -
  have "session_ok env (am_granted m) (sv_db s) x = session_ok env (am_granted m) (sv_db (am_server m)) x" for x
    using find_admin_accounts [OF assms(2)] by (simp add: session_ok_def)
  then show ?thesis
    using assms unfolding auth_ok_def by (fastforce simp: accounts_def)
qed

lemma auth_ok_fewer:
  assumes "auth_ok env m" "set (an_sessions (sv_db (am_server m'))) \<subseteq> set (an_sessions (sv_db (am_server m)))"
    "\<And>i a. find_admin i (sv_db (am_server m)) = Some a \<Longrightarrow> find_admin i (sv_db (am_server m')) = Some a"
    "set (am_logins m') \<subseteq> set (am_logins m)" "am_granted m' = am_granted m"
  shows "auth_ok env m'"
  using assms unfolding auth_ok_def session_ok_def by (metis (no_types, lifting) subsetD)

lemma auth_ok_start: "an_sessions (sv_db (am_server m)) = [] \<Longrightarrow> am_logins m = [] \<Longrightarrow> auth_ok env m"
  by (simp add: auth_ok_def)

lemma BootstrapAdmin_outcome:
  assumes "BootstrapAdmin counted username password hashed now db = (ok, db')"
  shows "an_sessions db' = an_sessions db" and "find_admin i db = Some a \<Longrightarrow> find_admin i db' = Some a"
  using assms
  by (auto simp: BootstrapAdmin_def CreateAdmin_def AdminCount_def find_admin_def split: if_splits option.splits)

lemma auth_ok_step:
  assumes "auth_step env m m'" "auth_ok env m"
  shows "auth_ok env m'"
  using assms(1)
proof cases
  case (refused run r reply s)
  then show ?thesis using auth_ok_server [OF assms(2) login_verify_accounts [OF refused(2)], of m'] by simp
next
  case (verified run r a s typed pw)
  then show ?thesis
    using auth_ok_server [OF assms(2) login_verify_accounts [OF verified(2)], of m'] login_verify_password [OF verified(2)] by auto
next
  case (signed_in a pw run r reply s token secure)
  obtain cur x where x: "find_admin (ad_id a) (sv_db (am_server m)) = Some cur" "ad_password_hash cur = ad_password_hash a"
    "ss_token_hash x = HashToken (ae_sha env) token" "ss_admin_id x = ad_id a"
    "accounts s = (an_admins (sv_db (am_server m)), an_sessions (sv_db (am_server m)) @ [x])"
    using login_session_granted [OF signed_in(3,4)] by blast
  have sessions: "an_sessions (sv_db s) = an_sessions (sv_db (am_server m)) @ [x]" using x(5) by (simp add: accounts_def)
  have find: "find_admin i (sv_db s) = find_admin i (sv_db (am_server m))" for i using x(5) by (simp add: find_admin_def accounts_def)
  have pw: "ae_check env (ad_password_hash cur) pw" using assms(2) signed_in(2) x(2) by (auto simp: auth_ok_def)
  have "session_ok env (am_granted m') (sv_db s) y" if "y \<in> set (an_sessions (sv_db s))" for y
  proof (cases "y = x")
    case True
    then show ?thesis using x(1,3,4) pw signed_in(1) by (auto simp: session_ok_def find)
  next
    case False
    then have "session_ok env (am_granted m) (sv_db (am_server m)) y" using that assms(2) by (auto simp: auth_ok_def sessions)
    then show ?thesis using signed_in(1) by (auto simp: session_ok_def find)
  qed
  moreover have "set (remove1 (a, pw) (am_logins m)) \<subseteq> set (am_logins m)" by (rule set_remove1_subset)
  ultimately show ?thesis using assms(2) signed_in(1) by (auto simp: auth_ok_def)
next
  case (not_signed_in a pw run r reply s)
  then show ?thesis
    using login_session_refused [OF not_signed_in(3,4)] unfolding not_signed_in(1)
    by (intro auth_ok_fewer [OF assms(2)]) (auto dest: set_remove1_subset [THEN subsetD])
next
  case (entered r now a)
  then show ?thesis using auth_ok_server [OF assms(2) refl, of m'] by simp
next
  case (signed_out a deleted r reply s)
  then have "an_admins (sv_db s) = an_admins (sv_db (am_server m))" "set (an_sessions (sv_db s)) \<subseteq> set (an_sessions (sv_db (am_server m)))"
    by (auto simp: logout_def DeleteSession_def split: option.splits if_splits)
  then show ?thesis unfolding signed_out(1) by (intro auth_ok_fewer [OF assms(2)]) (auto simp: find_admin_def)
next
  case (changed a change r reply s)
  from changed(3) show ?thesis
  proof (cases rule: changePassword_outcome)
    case 1
    then show ?thesis using auth_ok_server [OF assms(2), of s m'] changed(1) by simp
  next
    case (2 db hash now)
    note update = UpdateAdminPassword_outcome [OF 2(1)]
    have "find_admin i (sv_db s) = find_admin i db" for i using 2(2) by (simp add: find_admin_def accounts_def)
    then show ?thesis using assms(2) 2(2) update unfolding changed(1) auth_ok_def by (fastforce simp: session_ok_def accounts_def)
  qed
next
  case (swept clock)
  have "set (an_sessions (DeleteExpiredSessions i clock db)) \<subseteq> set (an_sessions db)" for i db
    by (rule DeleteExpiredSessions_subset)
  then show ?thesis unfolding swept by (intro auth_ok_fewer [OF assms(2)]) (auto simp: find_admin_def)
next
  case (bootstrapped counted username password hashed now ok db)
  then show ?thesis
    using BootstrapAdmin_outcome [OF bootstrapped(2)] unfolding bootstrapped(1) by (intro auth_ok_fewer [OF assms(2)]) auto
qed

text \<open>
  C34: whatever the interleaving of logins, requests, sign-outs, password changes and sweeps, a token that the middleware
  accepts belongs to a session created by a login whose verified password is a password of the administrator's
  current hash: a session never outlives a password change, not even that of a login which verified the old
  password before the change.
\<close>

theorem session_knows_the_password:
  assumes "auth_reach env m0 m" "an_sessions (sv_db (am_server m0)) = []" "am_logins m0 = []"
    and "admin_of env r now (am_server m) = Inr a"
  shows "\<exists>token pw. rq_cookie r = Some token \<and> (HashToken (ae_sha env) token, pw) \<in> set (am_granted m)
    \<and> ae_check env (ad_password_hash a) pw \<and> (rq_get r \<or> sameOrigin env r)"
proof -
  have ok: "auth_ok env m" using assms(1)
    by induction (auto intro: auth_ok_start assms(2,3) auth_ok_step)
  obtain token t where t: "rq_cookie r = Some token" "AdminBySession (HashToken (ae_sha env) token) t (sv_db (am_server m)) = Inr a"
    and origin: "rq_get r \<or> sameOrigin env r"
    using assms(4) by (auto simp: admin_of_def split: if_splits option.splits sum.splits)
  obtain x where "x \<in> set (an_sessions (sv_db (am_server m)))" "ss_token_hash x = HashToken (ae_sha env) token"
    "find_admin (ss_admin_id x) (sv_db (am_server m)) = Some a"
    using t(2) by (auto simp: AdminBySession_def find_Some_iff split: option.splits dest: nth_mem)
  then show ?thesis using ok t(1) origin by (fastforce simp: auth_ok_def session_ok_def)
qed

text \<open>
  A password change is decided on the row the middleware read: with the old password it is carried out although
  another change was committed in between.
\<close>

lemma stale_change_accepted:
  assumes "cr_body run = Some (old, new)" "ae_check env (ad_password_hash a) old" "length old \<le> 1024"
    "12 \<le> length new" "length new \<le> 1024" "cr_hashed run = Some hash" "cr_update_ok run"
    "find_admin (ad_id a) (sv_db s) = Some cur"
  shows "ap_status (fst (changePassword env run r a s)) = 204"
    and "find_admin (ad_id a) (sv_db (snd (changePassword env run r a s)))
      = Some (cur\<lparr>ad_password_hash := hash, ad_password_changed := cr_now run\<rparr>)"
proof -
  obtain db where db: "UpdateAdminPassword (ad_id a) hash (cr_now run) (sv_db s) = (None, db)"
    using assms(8) by (simp add: UpdateAdminPassword_def)
  have change: "changePassword env run r a s = (clear_cookie r (answer 204 []), notifySecurity ''password_changed'' password_message (cr_now run)
      (audit_row (cr_audit_ok run) (Some (ad_id a)) ''admin.password_changed'' (show_int (ad_id a)) (remoteIP r) (s\<lparr>sv_db := db\<rparr>)))"
    unfolding changePassword_def assms(1) option.case prod.case
    using assms(2-7) by (simp add: HashPassword_def db Let_def)
  show "ap_status (fst (changePassword env run r a s)) = 204" unfolding change by (simp add: clear_cookie_def answer_def)
  show "find_admin (ad_id a) (sv_db (snd (changePassword env run r a s)))
      = Some (cur\<lparr>ad_password_hash := hash, ad_password_changed := cr_now run\<rparr>)"
    unfolding change snd_conv find_admin_accounts [OF accounts_kept(2)] find_admin_accounts [OF accounts_kept(1)]
    using UpdateAdminPassword_outcome(3) [OF db] assms(8) by simp
qed

section \<open>A login\<close>

definition demo_env :: AdminEnv where
  "demo_env = \<lparr>ae_check = (=), ae_sha = (\<lambda>t. t), ae_url_host = (\<lambda>_. None), ae_session_ttl = minute\<rparr>"

definition demo_request :: "string option \<Rightarrow> AdminRequest" where
  "demo_request cookie = \<lparr>rq_get = True, rq_remote = ''192.0.2.1:4711'', rq_host = ''gw'', rq_tls = True, rq_header = [], rq_cookie = cookie\<rparr>"

definition demo_login :: LoginRun where
  "demo_login = \<lparr>lr_body = Some (''root'', ''twelve chars''), lr_wait_ip_at = 5, lr_wait_account_at = 5, lr_fail_ip_at = 5,
     lr_fail_account_at = 5, lr_lookup_ok = True, lr_known_ok = True, lr_session_ok = True, lr_audit_ok = True,
     lr_token = Some ''t'', lr_now = 6\<rparr>"

definition demo_admin :: Admin where
  "demo_admin = \<lparr>ad_id = 1, ad_username = ''root'', ad_password_hash = ''twelve chars'', ad_password_changed = 1\<rparr>"

definition demo_auth :: AuthRun where
  "demo_auth = \<lparr>am_server = \<lparr>sv_db = \<lparr>an_admins = [demo_admin], an_sessions = [], an_audit = [], an_next_id = 2\<rparr>,
     sv_logins = \<lparr>ll_attempts = [], ll_last_cleanup = 0\<rparr>, sv_notices = []\<rparr>, am_logins = [], am_requests = [], am_granted = []\<rparr>"


definition demo_verified :: AuthServer where
  "demo_verified = (am_server demo_auth)\<lparr>sv_logins := \<lparr>ll_attempts = [], ll_last_cleanup = 5\<rparr>\<rparr>"

definition demo_signed_in :: AuthServer where
  "demo_signed_in = demo_verified\<lparr>
     sv_db := (sv_db demo_verified)\<lparr>
       an_sessions := [\<lparr>ss_token_hash = ''t'', ss_admin_id = 1, ss_ip = ''192.0.2.1'', ss_user_agent = [], ss_expires_at = 6 + minute\<rparr>],
       an_audit := [\<lparr>au_admin_id = Some 1, au_action = ''admin.login'', au_target_type = ''admin'', au_target_id = ''1'', au_ip = ''192.0.2.1''\<rparr>]\<rparr>,
     sv_notices := [security_event ''new_login_ip'' (new_ip_message @ ''192.0.2.1'') 6]\<rparr>"

lemma demo_hash: "HashToken (ae_sha demo_env) ''t'' = ''t''" "HashToken (\<lambda>t. t) ''t'' = ''t''"
  by (simp_all add: HashToken_def demo_env_def trim_space_graphic graphic_def)

lemma demo_ip: "remoteIP (demo_request c) = ''192.0.2.1''"
proof -
  have "remoteIP (demo_request None) = ''192.0.2.1''" by code_simp
  moreover have "remoteIP (demo_request c) = remoteIP (demo_request None)"
    unfolding remoteIP_def demo_request_def AdminRequest.simps ..
  ultimately show ?thesis by simp
qed

lemma demo_wait: "ll_attempts (sv_logins s) = [] \<Longrightarrow> login_wait k 5 s = (- 5, s\<lparr>sv_logins := cleanupLocked 5 (sv_logins s)\<rparr>)"
  by (simp add: login_wait_def limiter_wait_def cleanupLocked_def attempt_of_def no_attempt_def Let_def time_sub_def
      max_int64_def min_int64_def)

lemma demo_login_verified:
  "login_verify demo_env demo_login (demo_request None) (am_server demo_auth) = (Inr demo_admin, demo_verified)"
proof -
  let ?s = "(am_server demo_auth)\<lparr>sv_logins := \<lparr>ll_attempts = [], ll_last_cleanup = 5\<rparr>\<rparr>"
  have w: "login_wait k 5 (am_server demo_auth) = (- 5, ?s)" "login_wait k 5 ?s = (- 5, ?s)" for k
    by (simp_all add: demo_wait demo_auth_def cleanupLocked_def is_zero_time_def time_sub_def max_int64_def min_int64_def)
  have t: "trim_space ''root'' = ''root''" by (simp add: trim_space_graphic graphic_def)
  have n: "rune_count ''root'' = 4" by code_simp
  have d: "login_success k ?s = ?s" for k by (simp add: login_success_def limiter_success_def)
  have l: "AdminByUsername ''root'' (sv_db ?s) = Inr demo_admin" "ae_check demo_env (ad_password_hash demo_admin) ''twelve chars''"
    by (simp_all add: AdminByUsername_def demo_auth_def demo_admin_def demo_env_def)
  have run: "lr_body demo_login = Some (''root'', ''twelve chars'')" "lr_wait_ip_at demo_login = 5" "lr_wait_account_at demo_login = 5"
    "lr_lookup_ok demo_login" by (simp_all add: demo_login_def)
  show ?thesis
    unfolding login_verify_def demo_ip Let_def run w prod.case option.case t n l demo_verified_def
    using l(2) by (simp add: l d run(4))
qed

lemma demo_number: "show_nat (Suc 0) = ''1''" by code_simp

lemma demo_login_session:
  "login_session demo_env demo_login (demo_request None) demo_admin demo_verified
     = ((answer 200 [])\<lparr>ap_cookie := Some (''t'', True)\<rparr>, demo_signed_in)"
  unfolding login_session_def demo_ip Let_def
  by (simp add: CreateSessionForPassword_def CreateSession_def find_admin_def demo_verified_def demo_signed_in_def demo_auth_def
      demo_admin_def demo_request_def demo_env_def isHTTPS_def audit_row_def WriteAudit_def notifySecurity_def HasSuccessfulLoginFromIP_def
      show_int_def header_get_def header_values_def demo_login_def demo_hash demo_number)

theorem session_knows_the_password_witness:
  "admin_of demo_env (demo_request (Some ''t'')) (Some 7) demo_signed_in = Inr demo_admin
    \<and> (\<exists>token pw. rq_cookie (demo_request (Some ''t'')) = Some token
         \<and> (HashToken (ae_sha demo_env) token, pw) \<in> {(''t'', ''twelve chars'')} \<and> ae_check demo_env (ad_password_hash demo_admin) pw)"
proof -
  let ?m1 = "demo_auth\<lparr>am_server := demo_verified, am_logins := [(demo_admin, ''twelve chars'')]\<rparr>"
  let ?m2 = "?m1\<lparr>am_server := demo_signed_in, am_logins := [], am_granted := [(HashToken (ae_sha demo_env) ''t'', ''twelve chars'')]\<rparr>"
  have body: "lr_body demo_login = Some (''root'', ''twelve chars'')" by (simp add: demo_login_def)
  have start: "an_sessions (sv_db (am_server demo_auth)) = []" "am_logins demo_auth = []" "am_granted demo_auth = []"
    by (simp_all add: demo_auth_def)
  note run1 = demo_login_verified
  have 1: "auth_step demo_env demo_auth ?m1" using verified [OF run1 body] unfolding start(2) .
  have cookie: "ap_cookie (fst (login_session demo_env demo_login (demo_request None) demo_admin demo_verified)) = Some (''t'', True)"
    by (simp add: demo_login_session)
  have run2: "login_session demo_env demo_login (demo_request None) demo_admin (am_server ?m1)
      = (fst (login_session demo_env demo_login (demo_request None) demo_admin demo_verified), demo_signed_in)"
    by (simp add: demo_login_session)
  have 2: "auth_step demo_env ?m1 ?m2"
    using signed_in [OF _ run2 cookie, of "''twelve chars''"] by (simp add: start)
  have signed: "admin_of demo_env (demo_request (Some ''t'')) (Some 7) demo_signed_in = Inr demo_admin"
    by (simp add: admin_of_def demo_request_def demo_hash AdminBySession_def demo_signed_in_def demo_verified_def demo_auth_def
        find_admin_def demo_admin_def)
  note hash = demo_hash(1)
  have m2: "am_server ?m2 = demo_signed_in" "am_granted ?m2 = [(''t'', ''twelve chars'')]" using hash by simp_all
  show ?thesis
    using session_knows_the_password [OF more [OF more [OF here 1] 2] start(1,2), of "demo_request (Some ''t'')" "Some 7" demo_admin, unfolded m2]
      signed by auto
qed

end
