(* ===== verification/Proxy_Headers.thy ===== *)
theory Proxy_Headers
  imports Admin_Auth
begin

text \<open>
  \<open>ProxyHeaders\<close> of \<open>internal/httpapi/admin.go\<close>: which peers may say for whom they speak, and the address the
  handlers take a request to come from.
\<close>

section \<open>Networks and the text of addresses\<close>

text \<open>\<open>net.ParseCIDR\<close>: an address of either family, a slash and the length of the prefix in decimal.\<close>

definition parse_addr :: "string \<Rightarrow> ip option" where
  "parse_addr s =
     (if CHR ''%'' \<in> set s then None
      else case find (\<lambda>c. c = CHR ''.'' \<or> c = CHR '':'') s of
        None \<Rightarrow> None
      | Some c \<Rightarrow> if c = CHR ''.'' then parse_ip4 s else parse_ip6 s)"

definition ParseCIDR :: "string \<Rightarrow> (ip \<times> nat) option" where
  "ParseCIDR s =
     (let addr = takeWhile (\<lambda>c. c \<noteq> CHR ''/'') s; mask = tl (dropWhile (\<lambda>c. c \<noteq> CHR ''/'') s)
      in if CHR ''/'' \<notin> set s then None
         else case parse_addr addr of
           None \<Rightarrow> None
         | Some ip \<Rightarrow>
             if mask = [] \<or> \<not> list_all is_digit mask \<or> decimal mask > 8 * length ip then None
             else Some (ip, decimal mask))"

text \<open>
  \<open>IPNet.Contains\<close>: an IPv4-mapped prefix of 96 bits or more is an IPv4 network, and an IPv4-mapped address an
  IPv4 address.
\<close>

definition network_contains :: "ip \<times> nat \<Rightarrow> ip \<Rightarrow> bool" where
  "network_contains net ip =
     (case net of (base, n) \<Rightarrow>
        let net = (case To4 base of
                     None \<Rightarrow> net
                   | Some v \<Rightarrow> if length base = 4 then net else if n \<ge> 96 then (v, n - 96) else net);
            ip = (case To4 ip of None \<Rightarrow> ip | Some v \<Rightarrow> v)
        in in_cidr ip net)"

definition isPrivateProxyPeer :: "ip option \<Rightarrow> bool" where
  "isPrivateProxyPeer ip =
     (case ip of None \<Rightarrow> False | Some ip \<Rightarrow> IsLoopback ip \<or> IsPrivate ip \<or> IsLinkLocalUnicast ip)"

text \<open>\<open>IP.String\<close>: dotted decimal, or groups in hexadecimal with the first longest run of zero groups left out.\<close>

definition hex_digit :: "nat \<Rightarrow> char" where
  "hex_digit n = (if n < 10 then char_of (48 + n) else char_of (87 + n))"

fun show_hex :: "nat \<Rightarrow> string" where
  "show_hex n = (if n < 16 then [hex_digit n] else show_hex (n div 16) @ [hex_digit (n mod 16)])"

declare show_hex.simps [simp del]

fun groups_of :: "ip \<Rightarrow> nat list" where
  "groups_of (a # b # bs) = (a * 256 + b) # groups_of bs"
| "groups_of _ = []"

definition zero_run :: "nat list \<Rightarrow> nat \<Rightarrow> nat" where
  "zero_run gs i = length (takeWhile (\<lambda>g. g = 0) (drop i gs))"

definition longest_run :: "nat list \<Rightarrow> (nat \<times> nat) option" where
  "longest_run gs =
     foldl (\<lambda>best i. let l = zero_run gs i
        in if l \<ge> 2 \<and> (case best of None \<Rightarrow> True | Some (_, m) \<Rightarrow> l > m) then Some (i, l) else best) None [0..<length gs]"

fun join_groups :: "nat list \<Rightarrow> string" where
  "join_groups [] = []"
| "join_groups [g] = show_hex g"
| "join_groups (g # gs) = show_hex g @ [CHR '':''] @ join_groups gs"

definition show_ip6 :: "ip \<Rightarrow> string" where
  "show_ip6 ip =
     (let gs = groups_of ip
      in case longest_run gs of
           None \<Rightarrow> join_groups gs
         | Some (i, l) \<Rightarrow> join_groups (take i gs) @ ''::'' @ join_groups (drop (i + l) gs))"

fun show_ip4 :: "ip \<Rightarrow> string" where
  "show_ip4 [] = []"
| "show_ip4 [b] = show_nat b"
| "show_ip4 (b # bs) = show_nat b @ [CHR ''.''] @ show_ip4 bs"

definition show_ip :: "ip \<Rightarrow> string" where
  "show_ip ip = (case To4 ip of Some v \<Rightarrow> show_ip4 v | None \<Rightarrow> show_ip6 ip)"

definition JoinHostPort :: "string \<Rightarrow> string \<Rightarrow> string" where
  "JoinHostPort host port =
     (if CHR '':'' \<in> set host then [CHR ''[''] @ host @ '']:'' @ port else host @ [CHR '':''] @ port)"

section \<open>The middleware\<close>

definition trusted_networks :: "string list \<Rightarrow> (ip \<times> nat) list" where
  "trusted_networks cidrs = List.map_filter (\<lambda>raw. ParseCIDR (trim_space raw)) cidrs"

definition trusted_peer :: "string list \<Rightarrow> AdminRequest \<Rightarrow> bool" where
  "trusted_peer cidrs r =
     (let networks = trusted_networks cidrs; remote = ParseIP (trim_space (remoteIP r))
      in (networks = [] \<and> isPrivateProxyPeer remote)
         \<or> (\<exists>net \<in> set networks. case remote of None \<Rightarrow> False | Some ip \<Rightarrow> network_contains net ip))"

definition spoken_headers :: "string list" where
  "spoken_headers = [''Forwarded'', ''X-Forwarded-For'', ''X-Forwarded-Proto'', ''X-Real-Ip'']"

definition drop_spoken :: "AdminRequest \<Rightarrow> AdminRequest" where
  "drop_spoken r = r\<lparr>rq_header := fold (\<lambda>k h. header_del h k) spoken_headers (rq_header r)\<rparr>"

definition ProxyHeaders :: "bool \<Rightarrow> string list \<Rightarrow> AdminRequest \<Rightarrow> AdminRequest" where
  "ProxyHeaders trusted cidrs r =
     (if \<not> trusted then drop_spoken r
      else if trusted_peer cidrs r then
        (case ParseIP (trim_space (header_get (rq_header r) ''X-Real-Ip'')) of
           Some ip \<Rightarrow> r\<lparr>rq_remote := JoinHostPort (show_ip ip) ''0''\<rparr>
         | None \<Rightarrow> r)
      else drop_spoken r)"

section \<open>Whom a request is taken to come from\<close>

lemma last_colon: "CHR '':'' \<notin> set p \<Longrightarrow> after_last (CHR '':'') (s @ CHR '':'' # p) = p"
  "CHR '':'' \<notin> set p \<Longrightarrow> before_last (CHR '':'') (s @ CHR '':'' # p) = s"
proof -
  have 1: "takeWhile (\<lambda>x. x \<noteq> CHR '':'') (rev p @ CHR '':'' # rev s) = rev p" if "CHR '':'' \<notin> set p"
    using that by (subst takeWhile_append2) auto
  show "CHR '':'' \<notin> set p \<Longrightarrow> after_last (CHR '':'') (s @ CHR '':'' # p) = p"
    "CHR '':'' \<notin> set p \<Longrightarrow> before_last (CHR '':'') (s @ CHR '':'' # p) = s"
    using 1 by (simp_all add: after_last_def before_last_def)
qed

lemma split_join:
  assumes "CHR ''['' \<notin> set host" "CHR '']'' \<notin> set host"
  shows "SplitHostPort (JoinHostPort host ''0'') = Some (host, ''0'')"
proof (cases "CHR '':'' \<in> set host")
  case True
  have "after_last (CHR '':'') ((CHR ''['' # host @ [CHR '']'']) @ CHR '':'' # ''0'') = ''0''"
    "before_last (CHR '':'') ((CHR ''['' # host @ [CHR '']'']) @ CHR '':'' # ''0'') = CHR ''['' # host @ [CHR '']'']"
    by (rule last_colon; simp)+
  moreover have "takeWhile (\<lambda>c. c \<noteq> CHR '']'') (host @ CHR '']'' # '':0'') = host" using assms(2) by (subst takeWhile_append2) auto
  ultimately show ?thesis using True assms by (simp add: SplitHostPort_def JoinHostPort_def)
next
  case False
  have "hd (host @ '':0'') \<noteq> CHR ''[''" using assms(1) by (cases host) auto
  then show ?thesis
    using False assms last_colon [of "''0''" host] by (simp add: SplitHostPort_def JoinHostPort_def)
qed

definition plain :: "string \<Rightarrow> bool" where "plain s \<longleftrightarrow> CHR ''['' \<notin> set s \<and> CHR '']'' \<notin> set s"

lemma plain_simps [simp]: "plain []" "plain (c # s) \<longleftrightarrow> c \<noteq> CHR ''['' \<and> c \<noteq> CHR '']'' \<and> plain s"
  "plain (s @ t) \<longleftrightarrow> plain s \<and> plain t"
  by (auto simp: plain_def)

lemma plain_digit: "n < 10 \<Longrightarrow> plain [char_of (48 + n :: nat)]" and plain_hex: "n < 16 \<Longrightarrow> plain [hex_digit n]"
proof -
  have "of_char (CHR ''['') = (91 :: nat)" "of_char (CHR '']'') = (93 :: nat)" by simp_all
  then have out: "of_char c = m \<Longrightarrow> m \<noteq> 91 \<Longrightarrow> m \<noteq> 93 \<Longrightarrow> plain [c]" for c and m :: nat by auto
  show "n < 10 \<Longrightarrow> plain [char_of (48 + n :: nat)]" by (rule out [OF refl]) auto
  show "n < 16 \<Longrightarrow> plain [hex_digit n]" by (rule out [OF refl]) (auto simp: hex_digit_def)
qed

lemma plain_show_nat: "plain (show_nat n)"
  by (induction n rule: show_nat.induct, subst show_nat.simps) (use plain_digit in auto)

lemma plain_show_hex: "plain (show_hex n)"
  by (induction n rule: show_hex.induct, subst show_hex.simps) (use plain_hex in auto)

lemma plain_join_groups: "plain (join_groups gs)"
  by (induction gs rule: join_groups.induct) (simp_all add: plain_show_hex)

lemma plain_show_ip: "plain (show_ip ip)"
proof -
  have "plain (show_ip4 v)" for v by (induction v rule: show_ip4.induct) (simp_all add: plain_show_nat)
  then show ?thesis by (auto simp: show_ip_def show_ip6_def Let_def plain_join_groups split: option.split)
qed

text \<open>
  C36: the handlers take a request to come from the address that a trusted proxy names, and otherwise from the peer
  itself; the forwarding headers are seen only from a trusted proxy, and every other header is left alone.
\<close>

theorem proxy_headers_trusted:
  "remoteIP (ProxyHeaders trusted cidrs r)
     = (case ParseIP (trim_space (header_get (rq_header r) ''X-Real-Ip'')) of
          Some ip \<Rightarrow> if trusted \<and> trusted_peer cidrs r then show_ip ip else remoteIP r
        | None \<Rightarrow> remoteIP r)
   \<and> header_values (rq_header (ProxyHeaders trusted cidrs r)) k
     = (if CanonicalHeaderKey k \<in> set spoken_headers \<and> \<not> (trusted \<and> trusted_peer cidrs r) then []
        else header_values (rq_header r) k)"
proof
  have "remoteIP (r\<lparr>rq_remote := JoinHostPort (show_ip ip) ''0''\<rparr>) = show_ip ip" for ip
    using plain_show_ip [of ip] by (simp add: remoteIP_def split_join plain_def)
  moreover have "rq_remote (drop_spoken r) = rq_remote r" by (simp add: drop_spoken_def)
  then have "remoteIP (drop_spoken r) = remoteIP r" by (simp only: remoteIP_def)
  ultimately show "remoteIP (ProxyHeaders trusted cidrs r)
     = (case ParseIP (trim_space (header_get (rq_header r) ''X-Real-Ip'')) of
          Some ip \<Rightarrow> if trusted \<and> trusted_peer cidrs r then show_ip ip else remoteIP r
        | None \<Rightarrow> remoteIP r)"
    by (auto simp: ProxyHeaders_def split: option.split)
next
  have names: "CanonicalHeaderKey k' = k'" if "k' \<in> set spoken_headers" for k'
    using that by (auto simp: spoken_headers_def) code_simp+
  have fold: "header_values (fold (\<lambda>k h. header_del h k) ks h) k
      = (if \<exists>k' \<in> set ks. CanonicalHeaderKey k = CanonicalHeaderKey k' then [] else header_values h k)" for ks h
    by (induction ks arbitrary: h) (auto simp: header_simps)
  have "header_values (rq_header (drop_spoken r)) k
      = (if CanonicalHeaderKey k \<in> set spoken_headers then [] else header_values (rq_header r) k)"
  proof -
    have "(\<exists>k' \<in> set spoken_headers. CanonicalHeaderKey k = CanonicalHeaderKey k') \<longleftrightarrow> CanonicalHeaderKey k \<in> set spoken_headers"
      using names by metis
    then show ?thesis by (simp add: drop_spoken_def fold)
  qed
  then show "header_values (rq_header (ProxyHeaders trusted cidrs r)) k
     = (if CanonicalHeaderKey k \<in> set spoken_headers \<and> \<not> (trusted \<and> trusted_peer cidrs r) then []
        else header_values (rq_header r) k)"
    by (auto simp: ProxyHeaders_def split: option.split)
qed

end
