(* ===== verification/Probe_Parse.thy ===== *)
theory Probe_Parse
  imports Transport
begin

text \<open>
  The parsers of \<open>internal/ops/probe.go\<close>: what a probe reads of the answers of an upstream. A decoder of JSON
  syntax is a parameter; a \<open>float64\<close> is the rational its literal writes, and a literal too large for one is an
  error as in \<open>strconv.ParseFloat\<close>; rounding is not modelled.
\<close>

section \<open>Fields\<close>

text \<open>A pointer field is what the last entry gives, null resetting it; other fields keep their value on null.\<close>

definition pointer_field :: "(json \<Rightarrow> 'a option) \<Rightarrow> string \<Rightarrow> json_fields \<Rightarrow> 'a option option" where
  "pointer_field conv name es =
     (let vs = map (\<lambda>v. if v = JNull then Some None else map_option Some (conv v)) (matching name es)
      in if None \<in> set vs then None else (case last_of vs of None \<Rightarrow> Some None | Some v \<Rightarrow> v))"

definition value_field :: "(json \<Rightarrow> 'a option) \<Rightarrow> 'a \<Rightarrow> string \<Rightarrow> json_fields \<Rightarrow> 'a option" where
  "value_field conv zero name es =
     (let vs = map conv (filter (\<lambda>v. v \<noteq> JNull) (matching name es))
      in if None \<in> set vs then None else (case last_of vs of None \<Rightarrow> Some zero | Some v \<Rightarrow> v))"

fun bool_of :: "json \<Rightarrow> bool option" where
  "bool_of (JBool b) = Some b"
| "bool_of _ = None"

fun int_of :: "json \<Rightarrow> int option" where
  "int_of (JNum s) = parse_int64 s"
| "int_of _ = None"

definition exponent_of :: "string \<Rightarrow> int option" where
  "exponent_of s =
     (case s of
        [] \<Rightarrow> Some 0
      | _ # ds \<Rightarrow>
          (case ds of
             [] \<Rightarrow> None
           | d # es \<Rightarrow> if d = CHR ''+'' then digits_value 0 es
                      else if d = CHR ''-'' then map_option uminus (digits_value 0 es) else digits_value 0 ds))"

definition scale :: "rat \<Rightarrow> int \<Rightarrow> rat" where
  "scale q e = (if e \<ge> 0 then q * 10 ^ nat e else q / 10 ^ nat (- e))"

definition parse_float :: "string \<Rightarrow> rat option" where
  "parse_float s =
     (let neg = (s \<noteq> [] \<and> hd s = CHR ''-''); s = (if neg then tl s else s);
          mantissa = takeWhile (\<lambda>c. c \<noteq> CHR ''e'' \<and> c \<noteq> CHR ''E'') s;
          whole = takeWhile (\<lambda>c. c \<noteq> CHR ''.'') mantissa;
          fraction = tl (dropWhile (\<lambda>c. c \<noteq> CHR ''.'') mantissa)
      in case (digits_value 0 (whole @ fraction), exponent_of (drop (length mantissa) s)) of
           (Some n, Some e) \<Rightarrow>
             (let q = scale (of_int n) (e - int (length fraction))
              in if q \<ge> 2 ^ 1024 - 2 ^ 970 then None else Some (if neg then - q else q))
         | _ \<Rightarrow> None)"

fun float_of :: "json \<Rightarrow> rat option" where
  "float_of (JNum s) = parse_float s"
| "float_of _ = None"

fun str_of :: "json \<Rightarrow> string option" where
  "str_of (JStr s) = Some s"
| "str_of _ = None"

text \<open>A pointer to a struct: null resets it, and a further object is merged into the one there.\<close>

fun pointer_struct_from :: "json_fields option \<Rightarrow> json list \<Rightarrow> json_fields option option" where
  "pointer_struct_from acc [] = Some acc"
| "pointer_struct_from acc (JNull # vs) = pointer_struct_from None vs"
| "pointer_struct_from acc (JObj es # vs) = pointer_struct_from (Some ((case acc of None \<Rightarrow> [] | Some as \<Rightarrow> as) @ es)) vs"
| "pointer_struct_from acc (_ # vs) = None"

definition pointer_struct :: "string \<Rightarrow> json_fields \<Rightarrow> json_fields option option" where
  "pointer_struct name es = pointer_struct_from None (matching name es)"

text \<open>A slice of structs, \<open>None\<close> inside when it is nil.\<close>

fun slice_of :: "json \<Rightarrow> json_fields list option" where
  "slice_of (JArr vs) = all_some (map struct_of vs)"
| "slice_of _ = None"

definition slice_field :: "string \<Rightarrow> json_fields \<Rightarrow> json_fields list option option" where
  "slice_field name es = pointer_field slice_of name es"

definition unmarshal :: "(string \<Rightarrow> json option) \<Rightarrow> string \<Rightarrow> json_fields option" where
  "unmarshal dec body = Option.bind (dec body) struct_of"

text \<open>Decoded fields are combined as long as none is of the wrong type.\<close>

definition fields2 :: "'a option \<Rightarrow> 'b option \<Rightarrow> ('a \<times> 'b) option" where
  "fields2 a b = (case (a, b) of (Some x, Some y) \<Rightarrow> Some (x, y) | _ \<Rightarrow> None)"

section \<open>Models and answers\<close>

type_synonym 'a parsed = "gw_error + 'a"

definition distinct_names :: "string list \<Rightarrow> string list" where
  "distinct_names ids = fold (\<lambda>s models. let i = trim_space s in if i \<noteq> [] \<and> i \<notin> set models then models @ [i] else models) ids []"

definition parseModels :: "(string \<Rightarrow> json option) \<Rightarrow> string \<Rightarrow> string list parsed" where
  "parseModels dec body =
     (case unmarshal dec body of
        None \<Rightarrow> Inl (PlainError ''invalid models response'')
      | Some es \<Rightarrow>
          (case slice_field ''data'' es of
             Some (Some items) \<Rightarrow>
               (case all_some (map (string_field ''id'') items) of
                  None \<Rightarrow> Inl (PlainError ''invalid models response'')
                | Some ids \<Rightarrow> Inr (distinct_names ids))
           | _ \<Rightarrow> Inl (PlainError ''invalid models response'')))"

definition probeHTTPError :: "(string \<Rightarrow> json option) \<Rightarrow> nat \<Rightarrow> string \<Rightarrow> gw_error" where
  "probeHTTPError dec status body =
     (let plain = PlainError (''HTTP '' @ show_nat status)
      in case unmarshal dec body of
           None \<Rightarrow> plain
         | Some es \<Rightarrow>
             (case fields2 (Option.bind (struct_field ''error'' es) (string_field ''message'')) (string_field ''message'' es) of
                None \<Rightarrow> plain
              | Some (inner, outer) \<Rightarrow>
                  if trim_space inner \<noteq> [] then PlainError (trim_space inner)
                  else if trim_space outer \<noteq> [] then PlainError (trim_space outer) else plain))"

text \<open>The matches of \<open>-?\d+\<close>, leftmost and longest.\<close>

function find_numbers :: "string \<Rightarrow> string list" where
  "find_numbers [] = []"
| "find_numbers (c # cs) =
     (if digit c then (c # takeWhile digit cs) # find_numbers (dropWhile digit cs)
      else if c = CHR ''-'' \<and> cs \<noteq> [] \<and> digit (hd cs) then (c # takeWhile digit cs) # find_numbers (dropWhile digit cs)
      else find_numbers cs)"
  by pat_completeness auto
termination by (relation "measure length") (auto simp: le_imp_less_Suc length_dropWhile_le)

definition probeAnswerMatches :: "string \<Rightarrow> string \<Rightarrow> bool" where
  "probeAnswerMatches text expected \<longleftrightarrow> trim_space text \<noteq> [] \<and> expected \<noteq> [] \<and> expected \<in> set (find_numbers text)"

text \<open>A raw content: a string, or an array of parts with texts; null is the empty string.\<close>

definition rawContentText :: "json option \<Rightarrow> string" where
  "rawContentText raw =
     (case raw of
        None \<Rightarrow> []
      | Some (JStr s) \<Rightarrow> s
      | Some (JArr vs) \<Rightarrow>
          (case all_some (map (\<lambda>v. Option.bind (struct_of v) (string_field ''text'')) vs) of
             None \<Rightarrow> []
           | Some texts \<Rightarrow> concat (filter (\<lambda>t. trim_space t \<noteq> []) texts))
      | Some _ \<Rightarrow> [])"

definition slice_or_nil :: "string \<Rightarrow> json_fields \<Rightarrow> json_fields list option" where
  "slice_or_nil name es = map_option (\<lambda>v. case v of None \<Rightarrow> [] | Some items \<Rightarrow> items) (slice_field name es)"

definition answer_texts :: "string \<Rightarrow> json_fields \<Rightarrow> string list option" where
  "answer_texts protocol es =
     (if protocol = ProtocolChat then
        (case slice_or_nil ''choices'' es of
           None \<Rightarrow> None
         | Some choices \<Rightarrow> all_some (map (\<lambda>c. map_option (\<lambda>m. rawContentText (raw_field ''content'' m)) (struct_field ''message'' c)) choices))
      else if protocol = ProtocolResponses then
        (case fields2 (string_field ''output_text'' es) (slice_or_nil ''output'' es) of
           None \<Rightarrow> None
         | Some (t, outputs) \<Rightarrow>
             (case all_some (map (slice_or_nil ''content'') outputs) of
                None \<Rightarrow> None
              | Some contents \<Rightarrow> map_option (\<lambda>ts. t # ts) (all_some (map (string_field ''text'') (concat contents)))))
      else if protocol = ProtocolMessages then
        Option.bind (slice_or_nil ''content'' es) (\<lambda>contents. all_some (map (string_field ''text'') contents))
      else Some [])"

definition text_accepted :: "string \<Rightarrow> string \<Rightarrow> bool" where
  "text_accepted expected text \<longleftrightarrow> trim_space text \<noteq> [] \<and> (expected = [] \<or> probeAnswerMatches text expected)"

definition parseModelContent :: "(string \<Rightarrow> json option) \<Rightarrow> string \<Rightarrow> string \<Rightarrow> string \<Rightarrow> gw_error option" where
  "parseModelContent dec protocol body expected =
     (let judge = (\<lambda>texts. if \<exists>t \<in> set texts. text_accepted expected t then None
                          else Some (PlainError (if expected \<noteq> [] then ''response content mismatch'' else ''response content missing'')))
      in case unmarshal dec body of
           None \<Rightarrow> if protocol = ProtocolChat \<or> protocol = ProtocolResponses \<or> protocol = ProtocolMessages
                   then Some (PlainError ''invalid response'') else judge []
         | Some es \<Rightarrow>
             (case raw_field ''error'' es of
                Some v \<Rightarrow> if v \<noteq> JNull then Some (probeHTTPError dec 502 body)
                          else (case answer_texts protocol es of None \<Rightarrow> Some (PlainError ''invalid response'') | Some ts \<Rightarrow> judge ts)
              | None \<Rightarrow> (case answer_texts protocol es of None \<Rightarrow> Some (PlainError ''invalid response'') | Some ts \<Rightarrow> judge ts)))"

section \<open>Balances\<close>

definition newAPIQuotaPerUSD :: rat where "newAPIQuotaPerUSD = 500000"
definition unlimitedSentinel :: rat where "unlimitedSentinel = 100000000"

definition successBalance :: "time \<Rightarrow> Balance" where
  "successBalance now = empty_balance\<lparr>ba_status := ''ok'', ba_updated_at := Some now, ba_last_success := Some now,
     ba_currency_reported := True\<rparr>"

definition parse_error :: "string \<Rightarrow> Balance parsed" where
  "parse_error text = Inl (PlainError text)"

definition parseSubscription :: "(string \<Rightarrow> json option) \<Rightarrow> string \<Rightarrow> time \<Rightarrow> Balance parsed" where
  "parseSubscription dec body now =
     (case Option.bind (unmarshal dec body) (\<lambda>es. fields2 (pointer_field float_of ''hard_limit_usd'' es)
             (fields2 (pointer_field float_of ''soft_limit_usd'' es) (string_field ''plan'' es))) of
        None \<Rightarrow> parse_error ''invalid subscription response''
      | Some (hard, soft, plan) \<Rightarrow>
          (case (if hard = None then soft else hard) of
             None \<Rightarrow> parse_error ''subscription balance missing''
           | Some available \<Rightarrow>
               if available < 0 then parse_error ''subscription balance missing''
               else let balance = (successBalance now)\<lparr>ba_source := ''billing_subscription'', ba_currency := ''USD'', ba_plan := plan\<rparr>
                    in Inr (if available \<ge> unlimitedSentinel then balance\<lparr>ba_unlimited := True\<rparr>
                            else balance\<lparr>ba_available := Some available\<rparr>)))"

text \<open>The envelope of NewAPI: success and code, when given, must not refuse, and data must be there.\<close>

definition envelope_of :: "(string \<Rightarrow> json option) \<Rightarrow> string \<Rightarrow> (json_fields \<Rightarrow> 'a option) \<Rightarrow> (bool option \<times> int option \<times> 'a option) option" where
  "envelope_of dec body read =
     Option.bind (unmarshal dec body) (\<lambda>es. fields2 (pointer_field bool_of ''success'' es)
       (fields2 (pointer_field int_of ''code'' es)
         (case pointer_struct ''data'' es of None \<Rightarrow> None | Some None \<Rightarrow> Some None | Some (Some d) \<Rightarrow> map_option Some (read d))))"

definition refuses :: "bool option \<Rightarrow> int option \<Rightarrow> bool" where
  "refuses success code \<longleftrightarrow> success = Some False \<or> (code \<noteq> None \<and> code \<noteq> Some 0)"

definition parseTokenUsage :: "(string \<Rightarrow> json option) \<Rightarrow> string \<Rightarrow> time \<Rightarrow> Balance parsed" where
  "parseTokenUsage dec body now =
     (case envelope_of dec body (\<lambda>d. fields2 (pointer_field float_of ''total_available'' d)
             (fields2 (pointer_field float_of ''total_used'' d) (value_field bool_of False ''unlimited_quota'' d))) of
        Some (success, code, Some (available, used, unlimited)) \<Rightarrow>
          if refuses success code then parse_error ''token usage rejected''
          else if used = None \<or> the used < 0 \<or> (\<not> unlimited \<and> available = None) then parse_error ''token usage balance missing''
          else Inr ((successBalance now)\<lparr>ba_source := ''newapi_token'', ba_currency := ''USD'', ba_unlimited := unlimited,
                 ba_used := Some (the used / newAPIQuotaPerUSD), ba_available := map_option (\<lambda>q. q / newAPIQuotaPerUSD) available\<rparr>)
      | _ \<Rightarrow> parse_error ''invalid token usage response'')"

definition parseUserSelf :: "(string \<Rightarrow> json option) \<Rightarrow> string \<Rightarrow> time \<Rightarrow> Balance parsed" where
  "parseUserSelf dec body now =
     (case envelope_of dec body (\<lambda>d. fields2 (pointer_field float_of ''quota'' d)
             (fields2 (pointer_field float_of ''used_quota'' d) (string_field ''group'' d))) of
        Some (success, code, Some (quota, used, plan)) \<Rightarrow>
          if refuses success code then parse_error ''user balance rejected''
          else if quota = None \<or> (used \<noteq> None \<and> the used < 0) then parse_error ''user balance missing''
          else Inr ((successBalance now)\<lparr>ba_source := ''newapi_account'', ba_currency := ''USD'', ba_plan := plan,
                 ba_available := Some (the quota / newAPIQuotaPerUSD), ba_used := map_option (\<lambda>q. q / newAPIQuotaPerUSD) used\<rparr>)
      | _ \<Rightarrow> parse_error ''invalid user response'')"

definition nonnegativeInt :: "int option \<Rightarrow> int option" where
  "nonnegativeInt v = (if v \<noteq> None \<and> the v < 0 then None else v)"

definition nonnegativeFloat :: "rat option \<Rightarrow> rat option" where
  "nonnegativeFloat v = (if v \<noteq> None \<and> the v < 0 then None else v)"

record usage_quota =
  uq_remaining :: "rat option"
  uq_used :: "rat option"
  uq_unit :: string

definition quota_of :: "json_fields \<Rightarrow> usage_quota option" where
  "quota_of es =
     (case (pointer_field float_of ''remaining'' es, pointer_field float_of ''used'' es, string_field ''unit'' es) of
        (Some r, Some u, Some t) \<Rightarrow> Some \<lparr>uq_remaining = r, uq_used = u, uq_unit = t\<rparr>
      | _ \<Rightarrow> None)"

definition today_of :: "json_fields \<Rightarrow> UpstreamToday option" where
  "today_of es =
     (let n = (\<lambda>name. pointer_field int_of name es)
      in case (n ''requests'', n ''input_tokens'', n ''output_tokens'', n ''cache_read_tokens'', n ''cache_creation_tokens'',
               n ''total_tokens'', pointer_field float_of ''actual_cost'' es) of
           (Some r, Some i, Some out, Some cr, Some cw, Some t, Some c) \<Rightarrow>
             Some \<lparr>td_requests = nonnegativeInt r, td_input = nonnegativeInt i, td_output = nonnegativeInt out,
               td_cache_read = nonnegativeInt cr, td_cache_write = nonnegativeInt cw, td_total = nonnegativeInt t,
               td_cost = nonnegativeFloat c, td_timezone = None\<rparr>
         | _ \<Rightarrow> None)"

definition pointer_to :: "(json_fields \<Rightarrow> 'a option) \<Rightarrow> string \<Rightarrow> json_fields \<Rightarrow> 'a option option" where
  "pointer_to read name es =
     (case pointer_struct name es of None \<Rightarrow> None | Some None \<Rightarrow> Some None | Some (Some d) \<Rightarrow> map_option Some (read d))"

definition usage_of :: "json_fields \<Rightarrow> (UpstreamToday option \<times> (rat option \<times> rat option) option) option" where
  "usage_of es = fields2 (pointer_to today_of ''today'' es)
     (pointer_to (\<lambda>d. fields2 (pointer_field float_of ''cost'' d) (pointer_field float_of ''actual_cost'' d)) ''total'' es)"

definition usage_figures :: "rat option \<Rightarrow> string \<Rightarrow> usage_quota option \<Rightarrow> (UpstreamToday option \<times> (rat option \<times> rat option) option) option
    \<Rightarrow> rat option \<times> rat option \<times> string" where
  "usage_figures remaining unit quota usage =
     (case quota of
        Some q \<Rightarrow> (uq_remaining q, uq_used q, if uq_unit q \<noteq> [] then uq_unit q else unit)
      | None \<Rightarrow>
          (case usage of
             Some (_, Some (cost, actual)) \<Rightarrow> (remaining, (if actual = None then cost else actual), unit)
           | _ \<Rightarrow> (remaining, None, unit)))"

definition parseSub2APIUsage :: "(string \<Rightarrow> json option) \<Rightarrow> string \<Rightarrow> time \<Rightarrow> Balance parsed" where
  "parseSub2APIUsage dec body now =
     (case Option.bind (unmarshal dec body) (\<lambda>es. fields2 (fields2 (pointer_field float_of ''remaining'' es) (string_field ''unit'' es))
             (fields2 (pointer_to quota_of ''quota'' es) (pointer_to usage_of ''usage'' es))) of
        None \<Rightarrow> parse_error ''invalid usage response''
      | Some ((remaining, unit), quota, usage) \<Rightarrow>
          (case usage_figures remaining unit quota usage of (available, used, currency) \<Rightarrow>
             if available = None \<or> (used \<noteq> None \<and> the used < 0) then parse_error ''usage balance missing''
             else Inr ((successBalance now)\<lparr>ba_source := ''sub2api_usage'',
               ba_today := (case usage of Some (today, _) \<Rightarrow> today | None \<Rightarrow> None),
               ba_available := available, ba_used := used, ba_currency := currency, ba_currency_reported := (currency \<noteq> [])\<rparr>)))"

section \<open>What a balance that was read means\<close>

text \<open>Every parser gives an amount or says that there is no limit, and no negative use.\<close>

definition readable_balance :: "time \<Rightarrow> Balance \<Rightarrow> bool" where
  "readable_balance now b \<longleftrightarrow> ba_status b = ''ok'' \<and> ba_error b = [] \<and> (ba_available b \<noteq> None \<or> ba_unlimited b)
     \<and> (case ba_used b of None \<Rightarrow> True | Some q \<Rightarrow> q \<ge> 0) \<and> ba_updated_at b = Some now \<and> ba_last_success b = Some now"

lemma successBalance_fields [simp]:
  "ba_status (successBalance now) = ''ok''" "ba_error (successBalance now) = []" "ba_unlimited (successBalance now) = False"
  "ba_available (successBalance now) = None" "ba_used (successBalance now) = None"
  "ba_updated_at (successBalance now) = Some now" "ba_last_success (successBalance now) = Some now"
  by (simp_all add: successBalance_def empty_balance_def)

lemma quota_nonneg: "0 \<le> q \<Longrightarrow> 0 \<le> q / newAPIQuotaPerUSD" by (simp add: newAPIQuotaPerUSD_def)

lemma subscription_readable: "parseSubscription dec body now = Inr b \<Longrightarrow> readable_balance now b"
  unfolding parseSubscription_def
  by (clarsimp split: option.splits if_splits simp: Let_def parse_error_def readable_balance_def)

lemma token_readable: "parseTokenUsage dec body now = Inr b \<Longrightarrow> readable_balance now b"
  unfolding parseTokenUsage_def
  by (clarsimp split: option.splits if_splits simp: parse_error_def readable_balance_def quota_nonneg)

lemma self_readable: "parseUserSelf dec body now = Inr b \<Longrightarrow> readable_balance now b"
  unfolding parseUserSelf_def
  by (clarsimp split: option.splits if_splits simp: parse_error_def readable_balance_def quota_nonneg) 

lemma usage_readable:
  assumes "parseSub2APIUsage dec body now = Inr b"
  shows "readable_balance now b"
  using assms unfolding parseSub2APIUsage_def
  by (clarsimp split: option.splits prod.splits if_splits simp: parse_error_def readable_balance_def) 

lemmas parsers_readable = subscription_readable token_readable self_readable usage_readable

end
