(* ===== verification/Probe.thy ===== *)
theory Probe
  imports Probe_Parse Effects
begin

text \<open>
  The prober of \<open>internal/ops/probe.go\<close>, \<open>probe_cache.go\<close> and \<open>newapi_today.go\<close>: what it asks an upstream and what
  it concludes. The HTTP client, the parser of URLs, SHA-256 and the clock are parameters over an outside
  world; \<open>pg_sent\<close> lists the requests handed to the client.
\<close>

section \<open>Requests and answers\<close>

record ProbeRequest =
  pr_method :: string
  pr_url :: Url
  pr_header :: header
  pr_body :: string
  pr_limits :: "(duration \<times> duration \<times> duration) option"

text \<open>The error of a request, or a status and the body, unless reading it fails.\<close>

datatype HttpAnswer = NoAnswer gw_error | Answered nat "string option"

record balancePath =
  bp_path :: string
  bp_expires :: time

record 'w Probing =
  pg_world :: 'w
  pg_paths :: "(string \<times> balancePath) list"
  pg_attempted :: "string list"
  pg_failures :: "string list"
  pg_sent :: "ProbeRequest list"

record 'w ProbeEnv =
  pe_dec :: "string \<Rightarrow> json option"
  pe_enc :: "json \<Rightarrow> string"
  pe_parse_url :: "string \<Rightarrow> Url option"
  pe_build :: "Url \<Rightarrow> bool"
  pe_hash :: "string list \<Rightarrow> string"
  pe_do :: "ProbeRequest \<Rightarrow> 'w \<Rightarrow> HttpAnswer \<times> 'w"
  pe_slot :: "'w \<Rightarrow> gw_error option \<times> 'w"
  pe_done :: "'w \<Rightarrow> gw_error option"
  pe_now :: "'w \<Rightarrow> time"
  pe_query :: "(string \<times> string) list \<Rightarrow> string"
  pe_timeout :: duration

text \<open>
  One request and its answer. The client is the copy that \<open>withoutRedirects\<close> makes, whose
  \<open>CheckRedirect\<close> returns \<open>http.ErrUseLastResponse\<close>: the documented behaviour that \<open>pe_do\<close> stands for is
  that such a client sends this request only and answers with a redirect itself.
\<close>

definition ask :: "'w ProbeEnv \<Rightarrow> ProbeRequest \<Rightarrow> ('w Probing, HttpAnswer) state" where
  "ask env r = State (\<lambda>s. case pe_do env r (pg_world s) of (a, w) \<Rightarrow> (a, s\<lparr>pg_world := w, pg_sent := pg_sent s @ [r]\<rparr>))"

definition acquireProbe :: "'w ProbeEnv \<Rightarrow> ('w Probing, gw_error option) state" where
  "acquireProbe env = State (\<lambda>s.
     case pe_done env (pg_world s) of
       Some e \<Rightarrow> (Some e, s)
     | None \<Rightarrow> (case pe_slot env (pg_world s) of (e, w) \<Rightarrow> (e, s\<lparr>pg_world := w\<rparr>)))"

definition gets :: "('s \<Rightarrow> 'a) \<Rightarrow> ('s, 'a) state" where "gets f = State (\<lambda>s. (f s, s))"
definition modify :: "('s \<Rightarrow> 's) \<Rightarrow> ('s, unit) state" where "modify f = State (\<lambda>s. ((), f s))"

definition maxProbeBody :: nat where "maxProbeBody = 2 ^ 20"

definition read_answer :: "(nat \<Rightarrow> string \<Rightarrow> gw_error) \<Rightarrow> HttpAnswer \<Rightarrow> string parsed \<times> nat" where
  "read_answer refuse a =
     (case a of
        NoAnswer e \<Rightarrow> (Inl (UrlError e), 0)
      | Answered status None \<Rightarrow> (Inl (PlainError ''read response''), status)
      | Answered status (Some body) \<Rightarrow>
          (if length body > maxProbeBody then Inl (PlainError ''response too large'')
           else if status < 200 \<or> status \<ge> 300 then Inl (refuse status body) else Inr body, status))"

text \<open>
  The address is kept as the parsed record; that printing it and parsing it again in
  \<open>http.NewRequest\<close> gives the same one, and user information in it, are not represented.
\<close>

definition endpointURL :: "'w ProbeEnv \<Rightarrow> string \<Rightarrow> string \<Rightarrow> Url parsed" where
  "endpointURL env base endpoint =
     (case pe_parse_url env (trim_space base) of
        None \<Rightarrow> Inl (PlainError ''invalid upstream URL'')
      | Some u \<Rightarrow>
          if (url_scheme u \<noteq> ''http'' \<and> url_scheme u \<noteq> ''https'') \<or> url_host u = [] then Inl (PlainError ''invalid upstream URL'')
          else Inr (u\<lparr>url_query := [], url_path := trim_suffix (trim_right_char (CHR ''/'') (url_path u)) ''/v1'' @ endpoint\<rparr>))"

definition applyUserAgent :: "Upstream \<Rightarrow> header \<Rightarrow> header" where
  "applyUserAgent u h = (if us_user_agent u \<noteq> [] then header_set h ''User-Agent'' (us_user_agent u) else h)"

definition bearer :: "string \<Rightarrow> header \<Rightarrow> header" where
  "bearer credential h = header_set h ''Authorization'' (''Bearer '' @ credential)"

definition get_header :: "Upstream \<Rightarrow> string \<Rightarrow> (string \<times> string) list \<Rightarrow> header" where
  "get_header u credential headers =
     (let h = applyUserAgent u (header_set [] ''Accept'' ''application/json'');
          h = (if credential \<noteq> [] then bearer credential h else h)
      in fold (\<lambda>(k, v) h. header_set h k v) headers h)"

definition getWithQuery ::
  "'w ProbeEnv \<Rightarrow> Upstream \<Rightarrow> string \<Rightarrow> string \<Rightarrow> (string \<times> string) list \<Rightarrow> (string \<times> string) list option
    \<Rightarrow> ('w Probing, string parsed \<times> nat) state" where
  "getWithQuery env u endpoint credential headers query =
     (case endpointURL env (us_base_url u) endpoint of
        Inl e \<Rightarrow> State_Monad.return (Inl e, 0)
      | Inr target \<Rightarrow>
          if query \<noteq> None \<and> \<not> pe_build env target then State_Monad.return (Inl (PlainError ''invalid query target''), 0)
          else
            let target = (case query of None \<Rightarrow> target | Some q \<Rightarrow> target\<lparr>url_query := pe_query env q\<rparr>)
            in if \<not> pe_build env target then State_Monad.return (Inl (PlainError ''build request''), 0)
               else do {
                 a \<leftarrow> ask env \<lparr>pr_method = ''GET'', pr_url = target, pr_header = get_header u credential headers, pr_body = [],
                        pr_limits = None\<rparr>;
                 State_Monad.return (read_answer (\<lambda>status _. PlainError (''HTTP '' @ show_nat status)) a)
               })"

definition probe_get ::
  "'w ProbeEnv \<Rightarrow> Upstream \<Rightarrow> string \<Rightarrow> string \<Rightarrow> (string \<times> string) list \<Rightarrow> ('w Probing, string parsed \<times> nat) state" where
  "probe_get env u endpoint credential headers = getWithQuery env u endpoint credential headers None"

section \<open>The cache of balance paths\<close>

definition balancePathKey :: "'w ProbeEnv \<Rightarrow> Upstream \<Rightarrow> string" where
  "balancePathKey env u = pe_hash env [us_base_url u, us_kind u, us_api_key u, us_access_token u, us_user_id u, us_user_agent u]"

definition preferredBalancePath :: "string \<Rightarrow> time \<Rightarrow> ('w Probing, string) state" where
  "preferredBalancePath key now = State (\<lambda>s.
     case map_of (pg_paths s) key of
       None \<Rightarrow> ([], s)
     | Some e \<Rightarrow> if bp_expires e \<le> now then ([], s\<lparr>pg_paths := AList.delete key (pg_paths s)\<rparr>) else (bp_path e, s))"

definition remember_path :: "string \<Rightarrow> string \<Rightarrow> time \<Rightarrow> (string \<times> balancePath) list \<Rightarrow> (string \<times> balancePath) list" where
  "remember_path key path now paths =
     (if (case map_of paths key of None \<Rightarrow> False | Some e \<Rightarrow> bp_path e = path \<and> now < bp_expires e) then paths
      else let live = filter (\<lambda>(_, e). now < bp_expires e) paths
           in if length live \<ge> 1024 then live
              else AList.update key \<lparr>bp_path = path, bp_expires = now + hour\<rparr> live)"

definition rememberBalancePath :: "string \<Rightarrow> string \<Rightarrow> time \<Rightarrow> ('w Probing, unit) state" where
  "rememberBalancePath key path now = modify (\<lambda>s. s\<lparr>pg_paths := remember_path key path now (pg_paths s)\<rparr>)"

definition forgetBalancePath :: "string \<Rightarrow> ('w Probing, unit) state" where
  "forgetBalancePath key = modify (\<lambda>s. s\<lparr>pg_paths := AList.delete key (pg_paths s)\<rparr>)"

section \<open>The consumption of an account today\<close>

record log_entry =
  le_id :: int
  le_created :: int
  le_type :: int
  le_input :: "int option"
  le_output :: "int option"

definition entry_of :: "json_fields \<Rightarrow> log_entry option" where
  "entry_of es =
     (case (value_field int_of 0 ''id'' es, value_field int_of 0 ''created_at'' es, value_field int_of 0 ''type'' es,
            pointer_field int_of ''prompt_tokens'' es, pointer_field int_of ''completion_tokens'' es) of
        (Some i, Some c, Some t, Some n, Some m) \<Rightarrow>
          Some \<lparr>le_id = i, le_created = c, le_type = t, le_input = n, le_output = m\<rparr>
      | _ \<Rightarrow> None)"

text \<open>One page: the total it states and its entries, when it can be used at all.\<close>

definition page_of :: "(string \<Rightarrow> json option) \<Rightarrow> string \<Rightarrow> (int \<times> log_entry list) option" where
  "page_of dec body =
     (case Option.bind (unmarshal dec body) (\<lambda>es. fields2 (value_field bool_of False ''success'' es)
             (pointer_to (\<lambda>d. fields2 (pointer_field int_of ''total'' d)
                (Option.bind (slice_or_nil ''items'' d) (\<lambda>items. all_some (map entry_of items)))) ''data'' es)) of
        Some (True, Some (Some stated, items)) \<Rightarrow> if stated < 0 then None else Some (stated, items)
      | _ \<Rightarrow> None)"

record TodayCount =
  tc_seen :: "(log_entry \<times> nat) list"
  tc_count :: int
  tc_total :: int
  tc_input :: int
  tc_output :: int
  tc_input_complete :: bool
  tc_output_complete :: bool

definition no_count :: TodayCount where
  "no_count = \<lparr>tc_seen = [], tc_count = 0, tc_total = 0, tc_input = 0, tc_output = 0, tc_input_complete = True,
     tc_output_complete = True\<rparr>"

definition count_entry :: "nat \<Rightarrow> log_entry \<Rightarrow> TodayCount \<Rightarrow> TodayCount" where
  "count_entry page row c =
     (let c = c\<lparr>tc_seen := AList.update row page (tc_seen c), tc_count := tc_count c + 1\<rparr>;
          c = (case le_input row of
                 None \<Rightarrow> c\<lparr>tc_input_complete := False\<rparr>
               | Some n \<Rightarrow> if n < 0 then c\<lparr>tc_input_complete := False\<rparr> else c\<lparr>tc_input := wrap64 (tc_input c + n)\<rparr>)
      in (case le_output row of
            None \<Rightarrow> c\<lparr>tc_output_complete := False\<rparr>
          | Some n \<Rightarrow> if n < 0 then c\<lparr>tc_output_complete := False\<rparr> else c\<lparr>tc_output := wrap64 (tc_output c + n)\<rparr>))"

text \<open>The rows of a page, none when one is out of place.\<close>

fun count_rows :: "nat \<Rightarrow> int \<Rightarrow> int \<Rightarrow> log_entry list \<Rightarrow> TodayCount \<Rightarrow> TodayCount option" where
  "count_rows page start end [] c = Some c"
| "count_rows page start end (row # rows) c =
     (if (case map_of (tc_seen c) row of None \<Rightarrow> False | Some p \<Rightarrow> p \<noteq> page)
         \<or> le_type row \<noteq> 2 \<or> le_created row < start \<or> le_created row > end then None
      else count_rows page start end rows (count_entry page row c))"

datatype PageVerdict = Complete TodayCount | GiveUp TodayCount | MorePages TodayCount

definition count_page :: "nat \<Rightarrow> int \<Rightarrow> int \<Rightarrow> int \<times> log_entry list \<Rightarrow> TodayCount \<Rightarrow> PageVerdict" where
  "count_page page start end p c =
     (case p of (stated, rows) \<Rightarrow>
        if page \<noteq> 1 \<and> tc_total c \<noteq> stated then GiveUp c
        else let c = c\<lparr>tc_total := stated\<rparr>
             in case count_rows page start end rows c of
                  None \<Rightarrow> GiveUp c
                | Some c \<Rightarrow>
                    if tc_count c = stated then Complete c
                    else if rows = [] \<or> tc_count c > stated then GiveUp c else MorePages c)"

text \<open>The pages in turn: what was complete, and the total of the first page when it was read.\<close>

fun today_pages :: "(nat \<Rightarrow> ('w Probing, (int \<times> log_entry list) option) state) \<Rightarrow> int \<Rightarrow> int \<Rightarrow> nat list \<Rightarrow> TodayCount \<Rightarrow> int option
    \<Rightarrow> ('w Probing, int option \<times> TodayCount option) state" where
  "today_pages fetch start end [] c requests = State_Monad.return (requests, None)"
| "today_pages fetch start end (page # pages) c requests = do {
     p \<leftarrow> fetch page;
     (case p of
        None \<Rightarrow> State_Monad.return (requests, None)
      | Some (stated, rows) \<Rightarrow>
          let requests = (if page = 1 then Some stated else requests)
          in (case count_page page start end (stated, rows) c of
                Complete c \<Rightarrow> State_Monad.return (requests, Some c)
              | GiveUp c \<Rightarrow> State_Monad.return (requests, None)
              | MorePages c \<Rightarrow> today_pages fetch start end pages c requests))
   }"

text \<open>\<open>Time.Unix\<close>, and midnight of the day at eight hours east of Greenwich.\<close>

definition unix_seconds :: "time \<Rightarrow> int" where "unix_seconds t = t div second - 62135596800"

definition today_start :: "time \<Rightarrow> int" where
  "today_start now = (unix_seconds now + 8 * 3600) div 86400 * 86400 - 8 * 3600"

definition today_query :: "time \<Rightarrow> (string \<times> string) list" where
  "today_query now = [(''type'', ''2''), (''start_timestamp'', show_int (today_start now)), (''end_timestamp'', show_int (unix_seconds now))]"

definition stat_cost :: "(string \<Rightarrow> json option) \<Rightarrow> string \<Rightarrow> rat option" where
  "stat_cost dec body =
     (case Option.bind (unmarshal dec body) (\<lambda>es. fields2 (value_field bool_of False ''success'' es)
             (pointer_to (pointer_field float_of ''quota'') ''data'' es)) of
        Some (True, Some (Some quota)) \<Rightarrow> if quota \<ge> 0 then Some (quota / newAPIQuotaPerUSD) else None
      | _ \<Rightarrow> None)"

definition today_page ::
  "'w ProbeEnv \<Rightarrow> Upstream \<Rightarrow> string \<Rightarrow> (string \<times> string) list \<Rightarrow> time \<Rightarrow> nat \<Rightarrow> ('w Probing, (int \<times> log_entry list) option) state" where
  "today_page env u credential headers now page = (
     let query = Some (today_query now @ [(''page_size'', ''100''), (''p'', show_nat page)])
     in do {
       (res, status) \<leftarrow> getWithQuery env u ''/api/log/self'' credential headers query;
       (res, status) \<leftarrow> (if status \<in> {301, 307, 308, 404} then getWithQuery env u ''/api/log/self/'' credential headers query
                         else State_Monad.return (res, status));
       State_Monad.return (case res of Inl _ \<Rightarrow> None | Inr body \<Rightarrow> page_of (pe_dec env) body)
     })"

definition newAPIAccountToday ::
  "'w ProbeEnv \<Rightarrow> Upstream \<Rightarrow> string \<Rightarrow> (string \<times> string) list \<Rightarrow> time \<Rightarrow> ('w Probing, UpstreamToday option) state" where
  "newAPIAccountToday env u credential headers now = do {
     (res, _) \<leftarrow> getWithQuery env u ''/api/log/self/stat'' credential headers (Some (today_query now));
     let cost = (case res of Inl _ \<Rightarrow> None | Inr body \<Rightarrow> stat_cost (pe_dec env) body);
     (requests, complete) \<leftarrow> today_pages (today_page env u credential headers now) (today_start now) (unix_seconds now)
       [1..<21] no_count None;
     let today = \<lparr>td_requests = requests, td_input = None, td_output = None, td_cache_read = None, td_cache_write = None,
       td_total = None, td_cost = cost, td_timezone = Some ''UTC+08:00''\<rparr>;
     State_Monad.return (case complete of
         Some c \<Rightarrow> Some (today\<lparr>
           td_input := (if tc_input_complete c then Some (tc_input c) else None),
           td_output := (if tc_output_complete c then Some (tc_output c) else None),
           td_total := (if tc_input_complete c \<and> tc_output_complete c then Some (wrap64 (tc_input c + tc_output c)) else None)\<rparr>)
       | None \<Rightarrow> if cost = None \<and> requests = None then None else Some today)
   }"

section \<open>The balance\<close>

record Endpoint =
  ep_path :: string
  ep_credential :: string
  ep_headers :: "(string \<times> string) list"
  ep_parse :: "(string \<Rightarrow> json option) \<Rightarrow> string \<Rightarrow> time \<Rightarrow> Balance parsed"

definition has_account :: "Upstream \<Rightarrow> bool" where
  "has_account u \<longleftrightarrow> us_access_token u \<noteq> [] \<and> us_user_id u \<noteq> []"

definition usage_endpoint :: "Upstream \<Rightarrow> Endpoint" where
  "usage_endpoint u = \<lparr>ep_path = ''/v1/usage'', ep_credential = us_api_key u, ep_headers = [], ep_parse = parseSub2APIUsage\<rparr>"

definition token_endpoint :: "Upstream \<Rightarrow> Endpoint" where
  "token_endpoint u = \<lparr>ep_path = ''/api/usage/token/'', ep_credential = us_api_key u, ep_headers = [], ep_parse = parseTokenUsage\<rparr>"

definition subscription_endpoint :: "Upstream \<Rightarrow> Endpoint" where
  "subscription_endpoint u =
     \<lparr>ep_path = ''/v1/dashboard/billing/subscription'', ep_credential = us_api_key u, ep_headers = [], ep_parse = parseSubscription\<rparr>"

definition self_endpoint :: "Upstream \<Rightarrow> Endpoint" where
  "self_endpoint u = \<lparr>ep_path = ''/api/user/self'',
     ep_credential = (if has_account u then us_access_token u else us_api_key u),
     ep_headers = (if has_account u then [(''New-Api-User'', us_user_id u)] else []), ep_parse = parseUserSelf\<rparr>"

definition try_failed :: "Upstream \<Rightarrow> Endpoint \<Rightarrow> gw_error \<Rightarrow> ('w Probing, Balance option) state" where
  "try_failed u ep e = do {
     modify (\<lambda>s. s\<lparr>pg_failures := pg_failures s
       @ [ep_path ep @ '': '' @ Text (Some e) [us_api_key u, us_access_token u, ep_credential ep]]\<rparr>);
     State_Monad.return None
   }"

definition try_endpoint :: "'w ProbeEnv \<Rightarrow> Upstream \<Rightarrow> string \<Rightarrow> time \<Rightarrow> Endpoint \<Rightarrow> ('w Probing, Balance option) state" where
  "try_endpoint env u key now ep = do {
     skip \<leftarrow> gets (\<lambda>s. ep_path ep \<in> set (pg_attempted s) \<or> pe_done env (pg_world s) \<noteq> None);
     if skip then State_Monad.return None
     else do {
       modify (\<lambda>s. s\<lparr>pg_attempted := ep_path ep # pg_attempted s\<rparr>);
       (res, status) \<leftarrow> probe_get env u (ep_path ep) (ep_credential ep) (ep_headers ep);
       if status = 404 \<or> status = 405 then State_Monad.return None
       else (case res of
               Inl e \<Rightarrow> try_failed u ep e
             | Inr body \<Rightarrow>
                 (case ep_parse ep (pe_dec env) body now of
                    Inl e \<Rightarrow> try_failed u ep e
                  | Inr balance \<Rightarrow> do {
                      balance \<leftarrow> (if ep_path ep = ''/api/user/self'' \<and> has_account u
                        then do {
                          today \<leftarrow> newAPIAccountToday env u (ep_credential ep) (ep_headers ep) now;
                          State_Monad.return (balance\<lparr>ba_today := today\<rparr>)
                        } else State_Monad.return balance);
                      (if ep_path ep \<noteq> ''/v1/dashboard/billing/subscription'' then rememberBalancePath key (ep_path ep) now
                       else State_Monad.return ());
                      State_Monad.return (Some balance)
                    }))
     }
   }"

definition or_else :: "('s, 'a option) state \<Rightarrow> ('s, 'a option) state \<Rightarrow> ('s, 'a option) state" where
  "or_else m n = do { r \<leftarrow> m; (case r of Some b \<Rightarrow> State_Monad.return (Some b) | None \<Rightarrow> n) }"

definition try_preferred :: "'w ProbeEnv \<Rightarrow> Upstream \<Rightarrow> string \<Rightarrow> time \<Rightarrow> string \<Rightarrow> ('w Probing, Balance option) state" where
  "try_preferred env u key now preferred =
     (if preferred = ''/v1/usage'' then try_endpoint env u key now (usage_endpoint u)
      else if preferred = ''/api/usage/token/'' then try_endpoint env u key now (token_endpoint u)
      else if preferred = ''/api/user/self'' then try_endpoint env u key now (self_endpoint u)
      else State_Monad.return None)"

definition subscription_used :: "(string \<Rightarrow> json option) \<Rightarrow> string \<Rightarrow> rat option" where
  "subscription_used dec body =
     (case Option.bind (unmarshal dec body) (pointer_field float_of ''total_usage'') of
        Some (Some cents) \<Rightarrow> if cents \<ge> 0 then Some (cents / 100) else None
      | _ \<Rightarrow> None)"

definition failed_balance :: "string \<Rightarrow> string \<Rightarrow> time \<Rightarrow> Balance" where
  "failed_balance status text now = empty_balance\<lparr>ba_status := status, ba_error := text, ba_updated_at := Some now\<rparr>"

fun join_failures :: "string list \<Rightarrow> string" where
  "join_failures [] = []"
| "join_failures [f] = f"
| "join_failures (f # fs) = f @ ''; '' @ join_failures fs"

text \<open>What is returned when no endpoint has settled the balance.\<close>

definition fallback_balance :: "'w ProbeEnv \<Rightarrow> Upstream \<Rightarrow> time \<Rightarrow> Balance option \<Rightarrow> ('w Probing, Balance) state" where
  "fallback_balance env u now subscription =
     (case subscription of
        Some balance \<Rightarrow> do {
          (res, _) \<leftarrow> probe_get env u ''/v1/dashboard/billing/usage'' (us_api_key u) [];
          State_Monad.return (case res of
              Inl _ \<Rightarrow> balance
            | Inr body \<Rightarrow> (case subscription_used (pe_dec env) body of None \<Rightarrow> balance | Some used \<Rightarrow> balance\<lparr>ba_used := Some used\<rparr>))
        }
      | None \<Rightarrow> do {
          done \<leftarrow> gets (\<lambda>s. pe_done env (pg_world s));
          failures \<leftarrow> gets pg_failures;
          State_Monad.return (case done of
              Some e \<Rightarrow> failed_balance ''unavailable'' (error_string e) now
            | None \<Rightarrow> if failures = [] then failed_balance ''unknown'' ''balance API unsupported'' now
                      else failed_balance ''unavailable'' (join_failures failures) now)
        })"

definition search_balance :: "'w ProbeEnv \<Rightarrow> Upstream \<Rightarrow> string \<Rightarrow> time \<Rightarrow> string \<Rightarrow> ('w Probing, Balance) state" where
  "search_balance env u key now preferred = do {
     r \<leftarrow> or_else (if has_account u then try_endpoint env u key now (self_endpoint u) else State_Monad.return None)
            (try_preferred env u key now preferred);
     (case r of
        Some balance \<Rightarrow> State_Monad.return balance
      | None \<Rightarrow> do {
          (if preferred \<noteq> [] then forgetBalancePath key else State_Monad.return ());
          r \<leftarrow> (if us_kind u = ''sub2api'' then try_endpoint env u key now (usage_endpoint u) else State_Monad.return None);
          (case r of
             Some balance \<Rightarrow> State_Monad.return balance
           | None \<Rightarrow> do {
               subscription \<leftarrow> try_endpoint env u key now (subscription_endpoint u);
               r \<leftarrow> or_else (try_endpoint env u key now (token_endpoint u))
                     (or_else (try_endpoint env u key now (self_endpoint u))
                       (if us_kind u \<noteq> ''sub2api'' then try_endpoint env u key now (usage_endpoint u) else State_Monad.return None));
               (case r of Some balance \<Rightarrow> State_Monad.return balance | None \<Rightarrow> fallback_balance env u now subscription)
             })
        })
   }"

definition CheckBalance :: "'w ProbeEnv \<Rightarrow> Upstream \<Rightarrow> ('w Probing, Balance) state" where
  "CheckBalance env u = do {
     now \<leftarrow> gets (\<lambda>s. pe_now env (pg_world s));
     if trim_space (us_base_url u) = [] \<or> trim_space (us_api_key u) = []
     then State_Monad.return (failed_balance ''unknown'' ''missing upstream URL or API key'' now)
     else do {
       refused \<leftarrow> acquireProbe env;
       (case refused of
          Some e \<Rightarrow> State_Monad.return (failed_balance ''unavailable'' (Text (Some e) [us_api_key u, us_access_token u]) now)
        | None \<Rightarrow> do {
            let key = balancePathKey env u;
            preferred \<leftarrow> preferredBalancePath key now;
            modify (\<lambda>s. s\<lparr>pg_attempted := [], pg_failures := []\<rparr>);
            search_balance env u key now preferred
          })
     }
   }"

end
