(* ===== verification/Model_Probe.thy ===== *)
theory Model_Probe
  imports Probe
begin

text \<open>
  Health checks and model tests of \<open>internal/ops/probe.go\<close>: \<open>CheckHealth\<close>, the arithmetic challenge, the request of
  each protocol and \<open>TestModel\<close>. The random numbers of a challenge are parameters.
\<close>

section \<open>Health\<close>

record Health =
  he_status :: string
  he_models :: "string list"
  he_status_code :: nat
  he_latency :: duration
  he_error :: string
  he_checked_at :: time

definition CheckHealth :: "'w ProbeEnv \<Rightarrow> Upstream \<Rightarrow> ('w Probing, Health) state" where
  "CheckHealth env u = do {
     started \<leftarrow> gets (\<lambda>s. pe_now env (pg_world s));
     let result = \<lparr>he_status = ''unhealthy'', he_models = [], he_status_code = 0, he_latency = 0, he_error = [], he_checked_at = started\<rparr>;
     let secrets = [us_api_key u, us_access_token u];
     refused \<leftarrow> acquireProbe env;
     (case refused of
        Some e \<Rightarrow> State_Monad.return (result\<lparr>he_error := Text (Some e) secrets\<rparr>)
      | None \<Rightarrow> do {
          (res, status) \<leftarrow> probe_get env u ''/v1/models'' (us_api_key u) [];
          ended \<leftarrow> gets (\<lambda>s. pe_now env (pg_world s));
          let result = result\<lparr>he_latency := time_sub ended started, he_status_code := status\<rparr>;
          State_Monad.return (case res of
              Inl e \<Rightarrow> result\<lparr>he_error := Text (Some e) secrets\<rparr>
            | Inr body \<Rightarrow>
                (case parseModels (pe_dec env) body of
                   Inl e \<Rightarrow> result\<lparr>he_error := Text (Some e) secrets\<rparr>
                 | Inr models \<Rightarrow> result\<lparr>he_status := ''healthy'', he_models := models\<rparr>))
        })
   }"

section \<open>The request of a model test\<close>

record probeChallenge =
  ch_prompt :: string
  ch_expected :: string

text \<open>The two numbers from 1 to 50 and whether to subtract.\<close>

definition challenge_prompt :: "nat \<Rightarrow> string \<Rightarrow> nat \<Rightarrow> string" where
  "challenge_prompt left operator right =
     ''Calculate and respond with ONLY the number, nothing else.'' @ [CHR 0x0A, CHR 0x0A] @ ''Q: 3 + 5 = ?'' @ [CHR 0x0A] @ ''A: 8''
     @ [CHR 0x0A, CHR 0x0A] @ ''Q: 12 - 7 = ?'' @ [CHR 0x0A] @ ''A: 5'' @ [CHR 0x0A, CHR 0x0A] @ ''Q: '' @ show_nat left @ '' '' @ operator @ '' ''
     @ show_nat right @ '' = ?'' @ [CHR 0x0A] @ ''A:''"

definition modelProbeChallenge :: "nat \<times> nat \<times> bool \<Rightarrow> string \<Rightarrow> probeChallenge" where
  "modelProbeChallenge rand kind =
     (if kind \<noteq> ''sub2api'' then \<lparr>ch_prompt = ''hi'', ch_expected = []\<rparr>
      else case rand of (left, right, subtraction) \<Rightarrow>
        let (left, right) = (if subtraction \<and> right > left then (right, left) else (left, right))
        in \<lparr>ch_prompt = challenge_prompt left (if subtraction then ''-'' else ''+'') right,
            ch_expected = show_int (if subtraction then int left - int right else int left + int right)\<rparr>)"

definition hasProtocol :: "string list \<Rightarrow> string \<Rightarrow> bool" where
  "hasProtocol protocols target \<longleftrightarrow> target \<in> set protocols"

definition modelProbeProtocols :: "Upstream \<Rightarrow> string \<Rightarrow> string list" where
  "modelProbeProtocols u model =
     (let preferred = (if us_kind u = ''newapi'' \<and> contains_str (to_lower model) ''codex'' then ProtocolResponses else ProtocolChat)
      in if hasProtocol (us_protocols u) preferred then [preferred]
         else case find (hasProtocol (us_protocols u)) [ProtocolResponses, ProtocolChat, ProtocolMessages] of
           Some protocol \<Rightarrow> [protocol]
         | None \<Rightarrow> [])"

definition probeMaxTokens :: string where "probeMaxTokens = ''16''"

definition probeInstructions :: string where
  "probeInstructions = ''You are a channel health-check endpoint. Answer the arithmetic challenge exactly and briefly.''"

text \<open>The keys of a JSON object in the order in which \<open>json.Marshal\<close> writes those of a map.\<close>

definition modelProbeRequest :: "string \<Rightarrow> string \<Rightarrow> string \<Rightarrow> probeChallenge \<Rightarrow> string \<times> json \<times> string" where
  "modelProbeRequest protocol kind model challenge =
     (let message = JArr [JObj [(''content'', JStr (ch_prompt challenge)), (''role'', JStr ''user'')]]
      in if protocol = ProtocolResponses then
           (''/v1/responses'',
            JObj (if kind = ''newapi''
                  then [(''input'', message), (''max_output_tokens'', JNum probeMaxTokens), (''model'', JStr model), (''stream'', JBool False)]
                  else [(''input'', JStr (ch_prompt challenge)), (''instructions'', JStr probeInstructions),
                        (''max_output_tokens'', JNum probeMaxTokens), (''model'', JStr model), (''stream'', JBool False)]),
            ch_expected challenge)
         else
           (''/v1/'' @ (if protocol = ProtocolChat then ''chat/completions'' else if protocol = ProtocolMessages then ''messages'' else []),
            JObj [(''max_tokens'', JNum probeMaxTokens), (''messages'', message), (''model'', JStr model), (''stream'', JBool False)],
            ch_expected challenge))"

definition modelTimeouts :: "duration \<Rightarrow> Upstream \<Rightarrow> duration \<times> duration \<times> duration" where
  "modelTimeouts timeout u =
     (let fallback = (if timeout \<le> 0 then 10 * second else timeout);
          connect = (if us_connect_timeout u \<le> 0 then fallback else us_connect_timeout u);
          first_byte = (if us_first_byte_timeout u \<le> 0 then fallback else us_first_byte_timeout u);
          total_time = wrap64 (connect + first_byte)
      in (connect, first_byte, if total_time < fallback then fallback else total_time))"

definition probe_post :: "'w ProbeEnv \<Rightarrow> Upstream \<Rightarrow> string \<Rightarrow> string \<Rightarrow> string \<Rightarrow> ('w Probing, string parsed \<times> nat) state" where
  "probe_post env u endpoint body protocol =
     (case endpointURL env (us_base_url u) endpoint of
        Inl e \<Rightarrow> State_Monad.return (Inl e, 0)
      | Inr target \<Rightarrow>
          if \<not> pe_build env target then State_Monad.return (Inl (PlainError ''build request''), 0)
          else
            let h = header_set (header_set [] ''Accept'' ''application/json'') ''Content-Type'' ''application/json'';
                h = bearer (us_api_key u) (applyUserAgent u h);
                h = (if protocol = ProtocolMessages
                     then header_set (header_set h ''X-Api-Key'' (us_api_key u)) ''Anthropic-Version'' ''2023-06-01'' else h)
            in do {
              a \<leftarrow> ask env \<lparr>pr_method = ''POST'', pr_url = target, pr_header = h, pr_body = body,
                     pr_limits = Some (modelTimeouts (pe_timeout env) u)\<rparr>;
              State_Monad.return (read_answer (probeHTTPError (pe_dec env)) a)
            })"

definition pingOrigin :: "'w ProbeEnv \<Rightarrow> Upstream \<Rightarrow> ('w Probing, int) state" where
  "pingOrigin env u =
     (case pe_parse_url env (trim_space (us_base_url u)) of
        None \<Rightarrow> State_Monad.return 0
      | Some base \<Rightarrow>
          if (url_scheme base \<noteq> ''http'' \<and> url_scheme base \<noteq> ''https'') \<or> url_host base = [] then State_Monad.return 0
          else
            let target = base\<lparr>url_path := [], url_query := []\<rparr>
            in if \<not> pe_build env target then State_Monad.return 0
               else do {
                 started \<leftarrow> gets (\<lambda>s. pe_now env (pg_world s));
                 a \<leftarrow> ask env \<lparr>pr_method = ''HEAD'', pr_url = target, pr_header = applyUserAgent u [], pr_body = [],
                        pr_limits = Some (0, 0, 8 * second)\<rparr>;
                 ended \<leftarrow> gets (\<lambda>s. pe_now env (pg_world s));
                 State_Monad.return (case a of NoAnswer _ \<Rightarrow> 0 | Answered _ _ \<Rightarrow> milliseconds (time_sub ended started))
               })"

section \<open>The test\<close>

record ModelProbe =
  mp_protocol :: string
  mp_status :: string
  mp_status_code :: nat
  mp_latency_ms :: int
  mp_ping_latency_ms :: int
  mp_error :: string

definition testModelProtocol ::
  "'w ProbeEnv \<Rightarrow> Upstream \<Rightarrow> string \<Rightarrow> string \<Rightarrow> probeChallenge \<Rightarrow> ('w Probing, ModelProbe) state" where
  "testModelProtocol env u model protocol challenge = (
     case modelProbeRequest protocol (us_kind u) model challenge of (endpoint, payload, expected) \<Rightarrow> do {
       started \<leftarrow> gets (\<lambda>s. pe_now env (pg_world s));
       (res, status) \<leftarrow> probe_post env u endpoint (pe_enc env payload) protocol;
       ended \<leftarrow> gets (\<lambda>s. pe_now env (pg_world s));
       let result = \<lparr>mp_protocol = protocol, mp_status = ''failed'', mp_status_code = status,
         mp_latency_ms = milliseconds (time_sub ended started), mp_ping_latency_ms = 0, mp_error = []\<rparr>;
       let failure = (case res of Inl e \<Rightarrow> Some e | Inr body \<Rightarrow> parseModelContent (pe_dec env) protocol body expected);
       State_Monad.return (case failure of
           Some e \<Rightarrow> result\<lparr>mp_error := Text (Some e) [us_api_key u, us_access_token u]\<rparr>
         | None \<Rightarrow> result\<lparr>mp_status := if us_kind u = ''sub2api'' \<and> time_sub ended started \<ge> 6 * second then ''degraded'' else ''success''\<rparr>)
     })"

definition passed :: "ModelProbe \<Rightarrow> bool" where
  "passed p \<longleftrightarrow> mp_status p = ''success'' \<or> mp_status p = ''degraded''"

fun test_protocols ::
  "'w ProbeEnv \<Rightarrow> Upstream \<Rightarrow> string \<Rightarrow> probeChallenge \<Rightarrow> int \<Rightarrow> string list \<Rightarrow> ('w Probing, ModelProbe list) state" where
  "test_protocols env u model challenge ping [] = State_Monad.return []"
| "test_protocols env u model challenge ping (protocol # protocols) = do {
     probe \<leftarrow> testModelProtocol env u model protocol challenge;
     let probe = probe\<lparr>mp_ping_latency_ms := ping\<rparr>;
     done \<leftarrow> gets (\<lambda>s. pe_done env (pg_world s));
     if done \<noteq> None then State_Monad.return [probe]
     else do { probes \<leftarrow> test_protocols env u model challenge ping protocols; State_Monad.return (probe # probes) }
   }"

record ModelTest =
  mt_model :: string
  mt_status :: string
  mt_results :: "ModelProbe list"

definition TestModel :: "'w ProbeEnv \<Rightarrow> nat \<times> nat \<times> bool \<Rightarrow> Upstream \<Rightarrow> string \<Rightarrow> ('w Probing, ModelTest) state" where
  "TestModel env rand u model = (
     let model = trim_space model; challenge = modelProbeChallenge rand (us_kind u); protocols = modelProbeProtocols u model
     in do {
       ping \<leftarrow> (if us_kind u = ''sub2api'' then pingOrigin env u else State_Monad.return 0);
       results \<leftarrow> test_protocols env u model challenge ping protocols;
       let succeeded = length (filter passed results);
       State_Monad.return \<lparr>mt_model = model,
         mt_status = (if succeeded = 0 then ''unavailable'' else if succeeded = length protocols then ''available'' else ''partial''),
         mt_results = results\<rparr>
     })"

end
