(* ===== verification/Probe_Correct.thy ===== *)
theory Probe_Correct
  imports Model_Probe Health_Store
begin

text \<open>
  What the prober is trusted with: the destination and the credentials of everything it sends, the balance it
  reports, the totals of a day, and the answer a model test accepts.
\<close>

section \<open>What is sent\<close>

text \<open>\<open>asks P m\<close>: every request that \<open>m\<close> hands to the HTTP client satisfies \<open>P\<close>.\<close>

named_theorems asks_rules

definition asks :: "(ProbeRequest \<Rightarrow> bool) \<Rightarrow> ('w Probing, 'a) state \<Rightarrow> bool" where
  "asks P m \<longleftrightarrow> (\<forall>s. \<exists>rs. pg_sent (snd (run_state m s)) = pg_sent s @ rs \<and> list_all P rs)"

lemma asks_bind [asks_rules]:
  assumes "asks P m" "\<And>x. asks P (f x)"
  shows "asks P (m \<bind> f)"
  unfolding asks_def
proof
  fix s
  obtain x s1 where m: "run_state m s = (x, s1)" by fastforce
  obtain rs where rs: "pg_sent s1 = pg_sent s @ rs" "list_all P rs" using assms(1) m unfolding asks_def by (metis snd_conv)
  obtain rs' where "pg_sent (snd (run_state (f x) s1)) = pg_sent s1 @ rs'" "list_all P rs'" using assms(2) unfolding asks_def by blast
  then show "\<exists>rs. pg_sent (snd (run_state (m \<bind> f) s)) = pg_sent s @ rs \<and> list_all P rs"
    using m rs by (intro exI [of _ "rs @ rs'"]) simp
qed

lemma asks_nothing: "(\<And>s. pg_sent (snd (run_state m s)) = pg_sent s) \<Longrightarrow> asks P m"
  by (simp add: asks_def)

lemma asks_quiet [asks_rules]:
  "asks P (State_Monad.return x)" "asks P (gets f)" "asks P (acquireProbe env)" "asks P (preferredBalancePath key now)"
  "asks P (rememberBalancePath key path now)" "asks P (forgetBalancePath key)"
  "asks P (modify (\<lambda>s. s\<lparr>pg_attempted := g s\<rparr>))" "asks P (modify (\<lambda>s. s\<lparr>pg_failures := h s\<rparr>))"
  "asks P (modify (\<lambda>s. s\<lparr>pg_attempted := g s, pg_failures := h s\<rparr>))"
  by (rule asks_nothing, simp add: gets_def modify_def acquireProbe_def preferredBalancePath_def rememberBalancePath_def
      forgetBalancePath_def split: option.split prod.split)+

lemma asks_ask [asks_rules]: "P r \<Longrightarrow> asks P (ask env r)"
  by (simp add: asks_def ask_def split: prod.split)

lemma asks_if [asks_rules]: "(b \<Longrightarrow> asks P m) \<Longrightarrow> (\<not> b \<Longrightarrow> asks P n) \<Longrightarrow> asks P (if b then m else n)"
  by simp

lemma asks_option [asks_rules]:
  "(x = None \<Longrightarrow> asks P m) \<Longrightarrow> (\<And>y. x = Some y \<Longrightarrow> asks P (n y)) \<Longrightarrow> asks P (case x of None \<Rightarrow> m | Some y \<Rightarrow> n y)"
  by (cases x) simp_all

lemma asks_sum [asks_rules]:
  "(\<And>y. x = Inl y \<Longrightarrow> asks P (m y)) \<Longrightarrow> (\<And>y. x = Inr y \<Longrightarrow> asks P (n y)) \<Longrightarrow> asks P (case x of Inl y \<Rightarrow> m y | Inr y \<Rightarrow> n y)"
  by (cases x) simp_all

lemma asks_prod [asks_rules]: "(\<And>y z. asks P (m y z)) \<Longrightarrow> asks P (case x of (y, z) \<Rightarrow> m y z)"
  by (cases x) simp

lemma asks_let [asks_rules]: "(\<And>x. x = v \<Longrightarrow> asks P (m x)) \<Longrightarrow> asks P (let x = v in m x)"
  by (simp add: Let_def)

lemma asks_or_else [asks_rules]: "asks P m \<Longrightarrow> asks P n \<Longrightarrow> asks P (or_else m n)"
  unfolding or_else_def by (intro asks_rules)

lemma asks_try_failed [asks_rules]: "asks P (try_failed u ep e)"
  unfolding try_failed_def by (intro asks_rules)

text \<open>
  A request goes to the scheme and the host of the upstream's own URL. It carries the key of the upstream, or,
  on the pages of the account, the account's token and number.
\<close>

definition account_paths :: "string list" where
  "account_paths = [''/api/user/self'', ''/api/log/self/stat'', ''/api/log/self'', ''/api/log/self/'']"

definition own_request :: "'w ProbeEnv \<Rightarrow> Upstream \<Rightarrow> ProbeRequest \<Rightarrow> bool" where
  "own_request env u r \<longleftrightarrow>
     (case pe_parse_url env (trim_space (us_base_url u)) of
        None \<Rightarrow> False
      | Some base \<Rightarrow> url_scheme (pr_url r) = url_scheme base \<and> url_host (pr_url r) = url_host base)
     \<and> (let sent = (\<lambda>name. header_values (pr_header r) name)
        in (sent ''New-Api-User'' = [] \<and> (sent ''X-Api-Key'' = [us_api_key u] \<or> sent ''X-Api-Key'' = [])
              \<and> (sent ''Authorization'' = [''Bearer '' @ us_api_key u] \<or> sent ''Authorization'' = []))
           \<or> (has_account u \<and> sent ''Authorization'' = [''Bearer '' @ us_access_token u]
              \<and> sent ''New-Api-User'' = [us_user_id u] \<and> (\<exists>path \<in> set account_paths. has_suffix (url_path (pr_url r)) path)))"

lemma header_names:
  "CanonicalHeaderKey ''Accept'' = ''Accept''" "CanonicalHeaderKey ''User-Agent'' = ''User-Agent''"
  "CanonicalHeaderKey ''Authorization'' = ''Authorization''" "CanonicalHeaderKey ''New-Api-User'' = ''New-Api-User''"
  "CanonicalHeaderKey ''Content-Type'' = ''Content-Type''" "CanonicalHeaderKey ''X-Api-Key'' = ''X-Api-Key''"
  "CanonicalHeaderKey ''Anthropic-Version'' = ''Anthropic-Version''"
  by code_simp+

lemma no_values: "header_values [] k = []" by (simp add: header_values_def)

lemma key_header:
  "header_values (get_header u credential []) ''Authorization'' = (if credential = [] then [] else [''Bearer '' @ credential])"
  "header_values (get_header u credential []) ''New-Api-User'' = []" "header_values (get_header u credential []) ''X-Api-Key'' = []"
  by (simp_all add: get_header_def applyUserAgent_def bearer_def Let_def header_simps header_names no_values)

lemma account_header:
  assumes "has_account u"
  shows "header_values (get_header u (us_access_token u) [(''New-Api-User'', us_user_id u)]) ''Authorization'' = [''Bearer '' @ us_access_token u]"
    "header_values (get_header u (us_access_token u) [(''New-Api-User'', us_user_id u)]) ''New-Api-User'' = [us_user_id u]"
  using assms by (simp_all add: get_header_def applyUserAgent_def bearer_def Let_def header_simps header_names no_values has_account_def)

lemma endpointURL_own:
  "endpointURL env base endpoint = Inr target \<Longrightarrow>
    \<exists>b. pe_parse_url env (trim_space base) = Some b \<and> url_scheme target = url_scheme b \<and> url_host target = url_host b
      \<and> has_suffix (url_path target) endpoint"
  by (auto simp: endpointURL_def has_suffix_def suffix_def split: option.splits if_splits)

lemma asks_key: "asks (own_request env u) (getWithQuery env u endpoint (us_api_key u) [] query)"
  unfolding getWithQuery_def
  by (intro asks_rules) (auto dest!: endpointURL_own simp: own_request_def key_header split: option.splits)

lemma asks_account:
  assumes "has_account u" "endpoint \<in> set account_paths"
  shows "asks (own_request env u) (getWithQuery env u endpoint (us_access_token u) [(''New-Api-User'', us_user_id u)] query)"
  unfolding getWithQuery_def using assms
  by (intro asks_rules) (auto dest!: endpointURL_own simp: own_request_def account_header split: option.splits)

lemma asks_today_page: "has_account u \<Longrightarrow> asks (own_request env u) (today_page env u (us_access_token u) [(''New-Api-User'', us_user_id u)] now page)"
  unfolding today_page_def by (intro asks_rules asks_account) (simp_all add: account_paths_def)

lemma asks_today_pages: "(\<And>page. asks P (fetch page)) \<Longrightarrow> asks P (today_pages fetch start stop pages c requests)"
proof (induction pages arbitrary: c requests)
  case (Cons page pages)
  have "asks P (case count_page page start stop p c of Complete c \<Rightarrow> State_Monad.return (requests, Some c)
      | GiveUp c \<Rightarrow> State_Monad.return (requests, None) | MorePages c \<Rightarrow> today_pages fetch start stop pages c requests)" for p requests
    using Cons by (cases "count_page page start stop p c") (simp_all add: asks_quiet(1))
  then show ?case unfolding today_pages.simps by (intro asks_rules Cons.prems)
qed (simp add: asks_quiet(1))

lemma asks_today: "has_account u \<Longrightarrow> asks (own_request env u) (newAPIAccountToday env u (us_access_token u) [(''New-Api-User'', us_user_id u)] now)"
  unfolding newAPIAccountToday_def
  by (intro asks_rules asks_today_pages asks_account asks_today_page) (simp_all add: account_paths_def)

definition own_endpoint :: "Upstream \<Rightarrow> Endpoint \<Rightarrow> bool" where
  "own_endpoint u ep \<longleftrightarrow>
     (ep_credential ep = us_api_key u \<and> ep_headers ep = [] \<and> (ep_path ep = ''/api/user/self'' \<longrightarrow> \<not> has_account u))
     \<or> (has_account u \<and> ep_path ep \<in> set account_paths \<and> ep_credential ep = us_access_token u
        \<and> ep_headers ep = [(''New-Api-User'', us_user_id u)])"

lemma asks_try: "own_endpoint u ep \<Longrightarrow> asks (own_request env u) (try_endpoint env u key now ep)"
  unfolding try_endpoint_def probe_get_def own_endpoint_def
  by (elim disjE conjE) (intro asks_rules; simp add: asks_key asks_account asks_today)+

lemma own_endpoints:
  "own_endpoint u (usage_endpoint u)" "own_endpoint u (token_endpoint u)" "own_endpoint u (subscription_endpoint u)" "own_endpoint u (self_endpoint u)"
  by (simp_all add: own_endpoint_def usage_endpoint_def token_endpoint_def subscription_endpoint_def self_endpoint_def account_paths_def)

lemma asks_CheckBalance: "asks (own_request env u) (CheckBalance env u)"
  unfolding CheckBalance_def search_balance_def try_preferred_def fallback_balance_def probe_get_def
  by (intro asks_rules asks_try own_endpoints asks_key)

lemma asks_CheckHealth: "asks (own_request env u) (CheckHealth env u)"
  unfolding CheckHealth_def probe_get_def by (intro asks_rules asks_key)

lemma asks_ping: "asks (own_request env u) (pingOrigin env u)"
  unfolding pingOrigin_def
  by (intro asks_rules) (auto simp: own_request_def applyUserAgent_def header_simps header_names no_values)

lemma asks_post: "asks (own_request env u) (probe_post env u endpoint body protocol)"
  unfolding probe_post_def
  by (intro asks_rules) (auto dest!: endpointURL_own simp: own_request_def applyUserAgent_def bearer_def header_simps header_names no_values)

lemma asks_test_protocols: "asks (own_request env u) (test_protocols env u model challenge ping protocols)"
  by (induction protocols) (simp_all add: testModelProtocol_def asks_rules asks_post Let_def split: prod.split)

text \<open>
  C37: everything that a health check, a balance check or a model test sends goes to the scheme and host of the upstream's own
  URL and carries the upstream's own key; the token of its account only goes to the account's pages, with the
  account's number.
\<close>

theorem probe_stays_home:
  "asks (own_request env u) (CheckHealth env u) \<and> asks (own_request env u) (CheckBalance env u)
     \<and> asks (own_request env u) (TestModel env rand u model)"
proof (intro conjI asks_CheckBalance asks_CheckHealth)
  show "asks (own_request env u) (TestModel env rand u model)"
    unfolding TestModel_def by (intro asks_rules asks_ping asks_test_protocols)
qed

section \<open>The balance that is reported\<close>

text \<open>\<open>yields P m\<close>: whatever \<open>m\<close> returns satisfies \<open>P\<close>.\<close>

named_theorems yields_rules

definition yields :: "('a \<Rightarrow> bool) \<Rightarrow> ('s, 'a) state \<Rightarrow> bool" where
  "yields P m \<longleftrightarrow> (\<forall>s. P (fst (run_state m s)))"

lemma yields_then: "yields P m \<Longrightarrow> (\<And>x. P x \<Longrightarrow> yields Q (f x)) \<Longrightarrow> yields Q (m \<bind> f)"
  by (auto simp: yields_def case_prod_beta)

lemma yields_bind [yields_rules]: "(\<And>x. yields Q (f x)) \<Longrightarrow> yields Q (m \<bind> f)"
  by (auto simp: yields_def case_prod_beta)

lemma yields_return [yields_rules]: "P x \<Longrightarrow> yields P (State_Monad.return x)"
  by (simp add: yields_def)

lemma yields_if [yields_rules]: "(b \<Longrightarrow> yields P m) \<Longrightarrow> (\<not> b \<Longrightarrow> yields P n) \<Longrightarrow> yields P (if b then m else n)"
  by simp

lemma yields_option [yields_rules]:
  "(x = None \<Longrightarrow> yields P m) \<Longrightarrow> (\<And>y. x = Some y \<Longrightarrow> yields P (n y)) \<Longrightarrow> yields P (case x of None \<Rightarrow> m | Some y \<Rightarrow> n y)"
  by (cases x) simp_all

lemma yields_sum [yields_rules]:
  "(\<And>y. x = Inl y \<Longrightarrow> yields P (m y)) \<Longrightarrow> (\<And>y. x = Inr y \<Longrightarrow> yields P (n y)) \<Longrightarrow> yields P (case x of Inl y \<Rightarrow> m y | Inr y \<Rightarrow> n y)"
  by (cases x) simp_all

lemma yields_prod [yields_rules]: "(\<And>y z. x = (y, z) \<Longrightarrow> yields P (m y z)) \<Longrightarrow> yields P (case x of (y, z) \<Rightarrow> m y z)"
  by (cases x) simp

lemma yields_let [yields_rules]: "(\<And>x. x = v \<Longrightarrow> yields P (m x)) \<Longrightarrow> yields P (let x = v in m x)"
  by (simp add: Let_def)

definition found :: "time \<Rightarrow> Balance option \<Rightarrow> bool" where
  "found now r \<longleftrightarrow> (case r of None \<Rightarrow> True | Some b \<Rightarrow> readable_balance now b)"

definition unread :: "time \<Rightarrow> Balance \<Rightarrow> bool" where
  "unread now b \<longleftrightarrow> ba_status b \<in> {''unknown'', ''unavailable''} \<and> ba_available b = None \<and> ba_used b = None \<and> \<not> ba_unlimited b
     \<and> ba_updated_at b = Some now \<and> ba_last_success b = None"

lemma yields_or_else: "yields (found now) m \<Longrightarrow> yields (found now) n \<Longrightarrow> yields (found now) (or_else m n)"
  unfolding or_else_def by (erule yields_then) (intro yields_rules; simp)

definition sound_endpoint :: "Endpoint \<Rightarrow> bool" where
  "sound_endpoint ep \<longleftrightarrow> (\<forall>dec body now b. ep_parse ep dec body now = Inr b \<longrightarrow> readable_balance now b)"

lemma sound_endpoints: "sound_endpoint (usage_endpoint u)" "sound_endpoint (token_endpoint u)"
  "sound_endpoint (subscription_endpoint u)" "sound_endpoint (self_endpoint u)"
  by (auto simp: sound_endpoint_def usage_endpoint_def token_endpoint_def subscription_endpoint_def self_endpoint_def
      dest: parsers_readable)

lemma yields_try_failed: "yields (found now) (try_failed u ep e)"
  unfolding try_failed_def by (intro yields_rules) (simp add: found_def)

lemma readable_today [simp]: "readable_balance now (b\<lparr>ba_today := today\<rparr>) = readable_balance now b"
  by (simp add: readable_balance_def)

lemma yields_try:
  assumes "sound_endpoint ep"
  shows "yields (found now) (try_endpoint env u key now ep)"
proof -
  have read: "yields (found now) (do {
        balance \<leftarrow> (if ep_path ep = ''/api/user/self'' \<and> has_account u
          then do { today \<leftarrow> newAPIAccountToday env u (ep_credential ep) (ep_headers ep) now; State_Monad.return (b\<lparr>ba_today := today\<rparr>) }
          else State_Monad.return b);
        (if ep_path ep \<noteq> ''/v1/dashboard/billing/subscription'' then rememberBalancePath key (ep_path ep) now else State_Monad.return ());
        State_Monad.return (Some balance) })" if "readable_balance now b" for b
  proof (rule yields_then [where P = "readable_balance now"])
    show "yields (readable_balance now) (if ep_path ep = ''/api/user/self'' \<and> has_account u
          then do { today \<leftarrow> newAPIAccountToday env u (ep_credential ep) (ep_headers ep) now; State_Monad.return (b\<lparr>ba_today := today\<rparr>) }
          else State_Monad.return b)"
      by (intro yields_rules) (simp_all add: that)
  qed (intro yields_rules, simp add: found_def)
  show ?thesis
    unfolding try_endpoint_def
    by (intro yields_rules yields_try_failed read) (use assms in \<open>auto simp: found_def sound_endpoint_def\<close>)
qed

lemma yields_fallback: "found now subscription \<Longrightarrow> yields (\<lambda>b. readable_balance now b \<or> unread now b) (fallback_balance env u now subscription)"
  unfolding fallback_balance_def
  by (intro yields_rules)
    (auto simp: found_def readable_balance_def unread_def failed_balance_def empty_balance_def subscription_used_def
      split: sum.split option.splits if_splits)

lemma yields_search: "yields (\<lambda>b. readable_balance now b \<or> unread now b) (search_balance env u key now preferred)"
proof -
  have none: "yields (found now) (State_Monad.return None)" by (intro yields_rules) (simp add: found_def)
  note steps = yields_or_else yields_try sound_endpoints none
  have account: "yields (found now) (or_else (if has_account u then try_endpoint env u key now (self_endpoint u) else State_Monad.return None)
      (try_preferred env u key now preferred))"
    unfolding try_preferred_def by (intro steps yields_if)
  have usage: "yields (found now) (if b then try_endpoint env u key now (usage_endpoint u) else State_Monad.return None)" for b
    by (intro steps yields_if)
  have rest: "yields (found now) (or_else (try_endpoint env u key now (token_endpoint u)) (or_else (try_endpoint env u key now (self_endpoint u))
      (if us_kind u \<noteq> ''sub2api'' then try_endpoint env u key now (usage_endpoint u) else State_Monad.return None)))"
    by (intro steps yields_if)
  show ?thesis
    unfolding search_balance_def
  proof (intro yields_then [OF account] yields_option)
    fix r balance assume "found now r" "r = Some balance"
    then show "yields (\<lambda>b. readable_balance now b \<or> unread now b) (State_Monad.return balance)" by (simp add: found_def yields_return)
  next
    show "yields (\<lambda>b. readable_balance now b \<or> unread now b) (do {
       (if preferred \<noteq> [] then forgetBalancePath key else State_Monad.return ());
       r \<leftarrow> (if us_kind u = ''sub2api'' then try_endpoint env u key now (usage_endpoint u) else State_Monad.return None);
       (case r of Some balance \<Rightarrow> State_Monad.return balance
        | None \<Rightarrow> do {
            subscription \<leftarrow> try_endpoint env u key now (subscription_endpoint u);
            r \<leftarrow> or_else (try_endpoint env u key now (token_endpoint u)) (or_else (try_endpoint env u key now (self_endpoint u))
                  (if us_kind u \<noteq> ''sub2api'' then try_endpoint env u key now (usage_endpoint u) else State_Monad.return None));
            (case r of Some balance \<Rightarrow> State_Monad.return balance | None \<Rightarrow> fallback_balance env u now subscription) }) })"
      by (rule yields_bind, rule yields_then [OF usage], rule yields_option,
          rule yields_then [OF yields_try [OF sound_endpoints(3)]], rule yields_then [OF rest], rule yields_option,
          erule yields_fallback) (simp_all add: found_def yields_return)
  qed
qed

text \<open>
  C38: a balance check ends in one of two ways: with a status of ok it reports an amount or an unlimited quota,
  and no negative use, or it says that nothing could be read; and then the balance protection leaves the
  upstream as it is, suspended or not, and forgets earlier readings of an empty balance.
\<close>

theorem balance_reading:
  "(let now = pe_now env (pg_world s); b = fst (run_state (CheckBalance env u) s)
    in readable_balance now b
       \<or> (unread now b \<and> balanceProtectionState True suspended checks b immediate = (suspended, 0, BalanceUnchanged)))"
proof -
  have protection: "balanceProtectionState True suspended checks b immediate = (suspended, 0, BalanceUnchanged)" if "unread now b" for now b
    using that by (auto simp: balanceProtectionState_def balance_zero_def balance_usable_def unread_def Let_def)
  have "yields (\<lambda>b. readable_balance now b \<or> unread now b) (if trim_space (us_base_url u) = [] \<or> trim_space (us_api_key u) = []
     then State_Monad.return (failed_balance ''unknown'' ''missing upstream URL or API key'' now)
     else do {
       refused \<leftarrow> acquireProbe env;
       (case refused of
          Some e \<Rightarrow> State_Monad.return (failed_balance ''unavailable'' (Text (Some e) [us_api_key u, us_access_token u]) now)
        | None \<Rightarrow> do {
            let key = balancePathKey env u;
            preferred \<leftarrow> preferredBalancePath key now;
            modify (\<lambda>s. s\<lparr>pg_attempted := [], pg_failures := []\<rparr>);
            search_balance env u key now preferred
          })
     })" for now
    by (intro yields_rules yields_search) (simp_all add: unread_def failed_balance_def empty_balance_def)
  then have "(\<lambda>b. readable_balance (pe_now env (pg_world s)) b \<or> unread (pe_now env (pg_world s)) b) (fst (run_state (CheckBalance env u) s))"
    unfolding yields_def CheckBalance_def by (simp add: gets_def)
  then show ?thesis using protection unfolding Let_def by blast
qed

section \<open>The answer of a model test\<close>

lemma trim_keeps_graphic:
  assumes "graphic c" "c \<in> set s"
  shows "trim_space s \<noteq> []"
proof -
  have left: "c \<in> set s \<Longrightarrow> c \<in> set (trim_left s)" for s
  proof (induction s rule: trim_left.induct)
    case (1 s)
    have "c \<in> set (drop (length r) s)" if "find (\<lambda>r. prefix r s) space_runes = Some r" for r
    proof -
      have "r \<in> set space_runes" "prefix r s" using that by (auto simp: find_Some_iff)
      then show ?thesis using space_runes_graphic assms(1) "1.prems" by (auto simp: prefix_def)
    qed
    then show ?case using 1 by (subst trim_left.simps) (auto split: option.split)
  qed
  have right: "c \<in> set s \<Longrightarrow> c \<in> set (trim_right s)" for s
  proof (induction s rule: trim_right.induct)
    case (1 s)
    have "c \<in> set (take (length s - length r) s)" if "find (\<lambda>r. suffix r s) space_runes = Some r" for r
    proof -
      have "r \<in> set space_runes" "suffix r s" using that by (auto simp: find_Some_iff)
      then show ?thesis using space_runes_graphic assms(1) "1.prems" by (auto simp: suffix_def)
    qed
    then show ?case using 1 by (subst trim_right.simps) (auto split: option.split)
  qed
  show ?thesis using right [OF left [OF assms(2)]] by (auto simp: trim_space_def)
qed

lemma digit_graphic: "digit c \<Longrightarrow> graphic c" by (simp add: digit_def graphic_def)

text \<open>A number stands in a text: not inside a longer one, and without a sign.\<close>

definition stands_in :: "string \<Rightarrow> string \<Rightarrow> bool" where
  "stands_in ds t \<longleftrightarrow> (\<exists>pre post. t = pre @ ds @ post \<and> (pre = [] \<or> (\<not> digit (last pre) \<and> last pre \<noteq> CHR ''-''))
     \<and> (post = [] \<or> \<not> digit (hd post)))"

lemma stands_in_Cons:
  assumes "ds \<noteq> []" "list_all digit ds" "\<not> digit c" "c = CHR ''-'' \<Longrightarrow> cs = [] \<or> \<not> digit (hd cs)"
  shows "stands_in ds (c # cs) \<longleftrightarrow> stands_in ds cs"
proof
  assume "stands_in ds (c # cs)"
  then obtain pre post where p: "c # cs = pre @ ds @ post" "pre = [] \<or> (\<not> digit (last pre) \<and> last pre \<noteq> CHR ''-'')"
    "post = [] \<or> \<not> digit (hd post)" unfolding stands_in_def by blast
  have "pre \<noteq> []" using p(1) assms(1-3) by (cases ds) auto
  then obtain pre' where "pre = c # pre'" using p(1) by (cases pre) auto
  then show "stands_in ds cs" using p unfolding stands_in_def
    by (intro exI [of _ pre'] exI [of _ post]) (auto split: if_splits)
next
  assume "stands_in ds cs"
  then obtain pre post where p: "cs = pre @ ds @ post" "pre = [] \<or> (\<not> digit (last pre) \<and> last pre \<noteq> CHR ''-'')"
    "post = [] \<or> \<not> digit (hd post)" unfolding stands_in_def by blast
  have "c \<noteq> CHR ''-''" if "pre = []" using assms p(1) that by (cases ds) auto
  then show "stands_in ds (c # cs)" using p assms(3) unfolding stands_in_def
    by (intro exI [of _ "c # pre"] exI [of _ post]) auto
qed

lemma stands_in_run:
  assumes "ds \<noteq> []" "list_all digit ds" "list_all digit run" "rest = [] \<or> \<not> digit (hd rest)" "sign = [] \<or> sign = ''-''" "run \<noteq> []"
  shows "stands_in ds (sign @ run @ rest) \<longleftrightarrow> (sign = [] \<and> ds = run) \<or> stands_in ds rest"
proof
  have whole: "takeWhile digit (xs @ ys) = xs" if "list_all digit xs" "ys = [] \<or> \<not> digit (hd ys)" for xs ys
    using that by (cases ys) (auto simp: list_all_iff takeWhile_append2)
  assume "stands_in ds (sign @ run @ rest)"
  then obtain pre post where p: "(sign @ run) @ rest = pre @ ds @ post" "pre = [] \<or> (\<not> digit (last pre) \<and> last pre \<noteq> CHR ''-'')"
    "post = [] \<or> \<not> digit (hd post)" unfolding stands_in_def by auto
  have hd_ds: "digit (hd ds)" using assms(1,2) by (cases ds) auto
  show "(sign = [] \<and> ds = run) \<or> stands_in ds rest"
  proof (cases "pre = []")
    case True
    then have "hd (sign @ run @ rest) = hd ds" using p(1) assms(1) by simp
    moreover have "\<not> digit (CHR ''-'')" by (simp add: digit_def)
    ultimately have "sign = []" using assms(5) hd_ds by auto
    then have "run @ rest = ds @ post" using p(1) True by simp
    then have "run = ds" using whole [OF assms(3,4)] whole [OF assms(2) p(3)] by simp
    then show ?thesis using \<open>sign = []\<close> by simp
  next
    case False
    have inside: "x \<in> set (sign @ run) \<Longrightarrow> digit x \<or> x = CHR ''-''" for x using assms(3,5) by (auto simp: list_all_iff)
    obtain us where "pre = (sign @ run) @ us \<and> rest = us @ ds @ post \<or> sign @ run = pre @ us"
      using p(1) unfolding append_eq_append_conv2 by blast
    then show ?thesis
    proof
      assume us: "pre = (sign @ run) @ us \<and> rest = us @ ds @ post"
      have "us \<noteq> []" using us p(2) False inside [of "last (sign @ run)"] assms(6) by auto
      then show ?thesis using us p(2,3) unfolding stands_in_def by auto
    next
      assume "sign @ run = pre @ us"
      then have "last pre \<in> set (sign @ run)" using False by simp
      then show ?thesis using inside p(2) False by blast
    qed
  qed
next
  assume "(sign = [] \<and> ds = run) \<or> stands_in ds rest"
  then show "stands_in ds (sign @ run @ rest)"
  proof
    assume "sign = [] \<and> ds = run"
    then show ?thesis using assms(4) unfolding stands_in_def by (intro exI [of _ "[]"] exI [of _ rest]) simp
  next
    assume "stands_in ds rest"
    then obtain pre post where p: "rest = pre @ ds @ post" "pre = [] \<or> (\<not> digit (last pre) \<and> last pre \<noteq> CHR ''-'')"
      "post = [] \<or> \<not> digit (hd post)" unfolding stands_in_def by blast
    have "pre \<noteq> []" using p(1) assms(1,2,4) by (cases ds) auto
    then show ?thesis using p unfolding stands_in_def by (intro exI [of _ "sign @ run @ pre"] exI [of _ post]) simp
  qed
qed

lemma find_numbers_stands: "ds \<noteq> [] \<Longrightarrow> list_all digit ds \<Longrightarrow> ds \<in> set (find_numbers t) \<longleftrightarrow> stands_in ds t"
proof (induction t rule: find_numbers.induct)
  case (2 c cs)
  have rest: "dropWhile digit cs = [] \<or> \<not> digit (hd (dropWhile digit cs))" using hd_dropWhile [of digit cs] by blast
  have split: "cs = takeWhile digit cs @ dropWhile digit cs" by simp
  have digits: "list_all digit (takeWhile digit cs)" by (auto simp: list_all_iff dest: set_takeWhileD)
  consider "digit c" | "\<not> digit c" "c = CHR ''-''" "cs \<noteq> []" "digit (hd cs)" | "\<not> digit c" "c = CHR ''-'' \<Longrightarrow> cs = [] \<or> \<not> digit (hd cs)"
    by blast
  then show ?case
  proof cases
    case 1
    then show ?thesis
      using "2.IH"(1) [OF 1 "2.prems"] stands_in_run [OF "2.prems", of "c # takeWhile digit cs" "dropWhile digit cs" "[]"] rest digits
      by simp
  next
    case 2
    then have ne: "takeWhile digit cs \<noteq> []" by (cases cs) auto
    have "ds \<noteq> c # takeWhile digit cs" using "2.prems" 2(1) by auto
    then show ?thesis
      using "2.IH"(2) 2 "2.prems" stands_in_run [OF "2.prems" digits rest, of "''-''"] ne by simp
  next
    case 3
    then have "find_numbers (c # cs) = find_numbers cs" by auto
    then show ?thesis using "2.IH"(3) 3 "2.prems" stands_in_Cons [OF "2.prems" 3] by auto
  qed
qed (simp add: stands_in_def)

lemma show_nat_digits: "show_nat n \<noteq> []" "list_all digit (show_nat n)"
proof (induction n rule: show_nat.induct)
  case (1 n)
  have digit: "k < 10 \<Longrightarrow> digit (char_of (48 + k))" for k :: nat by (simp add: digit_def)
  have "n mod 10 < 10" by simp
  note this [THEN digit]
  { case 1 show ?case by (subst show_nat.simps) simp }
  { case 2 show ?case using 1 digit [of n] \<open>digit (char_of (48 + n mod 10))\<close> by (subst show_nat.simps) simp }
qed

text \<open>The result of the arithmetic question: the larger number comes first.\<close>

definition challenge_result :: "nat \<times> nat \<times> bool \<Rightarrow> nat" where
  "challenge_result rand = (case rand of (l, r, subtraction) \<Rightarrow> if subtraction then max l r - min l r else l + r)"

lemma challenge_expected: "ch_expected (modelProbeChallenge rand ''sub2api'') = show_nat (challenge_result rand)"
proof -
  obtain l r d where rand: "rand = (l, r, d)" by (cases rand) auto
  have "show_int (int l - int r) = show_nat (l - r)" if "r \<le> l" for l r :: nat
    using that by (simp add: show_int_def nat_diff_distrib)
  moreover have "show_int (int l + int r) = show_nat (l + r)" by (simp add: show_int_def nat_add_distrib)
  ultimately show ?thesis
    by (auto simp: rand modelProbeChallenge_def challenge_result_def Let_def)
qed

text \<open>
  A model test of a sub2api upstream passes exactly when the reply is well-formed, states no error, and one of its texts contains
  the result of the arithmetic question as a number of its own: not as a part of a longer number
  and not negated.
\<close>

theorem challenge_answer_exact:
  "parseModelContent dec protocol body (ch_expected (modelProbeChallenge rand ''sub2api'')) = None
     \<longleftrightarrow> (\<exists>es texts t. unmarshal dec body = Some es \<and> raw_field ''error'' es \<in> {None, Some JNull} \<and> answer_texts protocol es = Some texts
          \<and> t \<in> set texts \<and> stands_in (show_nat (challenge_result rand)) t)"
proof -
  let ?ds = "show_nat (challenge_result rand)"
  have accepted: "text_accepted ?ds t \<longleftrightarrow> stands_in ?ds t" for t
  proof -
    have "trim_space t \<noteq> []" if in_t: "stands_in ?ds t"
    proof -
      have "hd ?ds \<in> set t" "digit (hd ?ds)"
        using in_t show_nat_digits [of "challenge_result rand"] by (auto simp: stands_in_def list_all_iff)
      then show ?thesis using trim_keeps_graphic digit_graphic by blast
    qed
    then show ?thesis
      using find_numbers_stands [OF show_nat_digits, of "challenge_result rand" t] show_nat_digits(1)
      by (auto simp: text_accepted_def probeAnswerMatches_def)
  qed
  show ?thesis
  proof (cases "unmarshal dec body")
    case None
    then show ?thesis by (simp add: challenge_expected parseModelContent_def)
  next
    case (Some es)
    have judged: "(case answer_texts protocol es of None \<Rightarrow> Some e
        | Some ts \<Rightarrow> if \<exists>t \<in> set ts. text_accepted ?ds t then None else Some e') = None
      \<longleftrightarrow> (\<exists>texts t. answer_texts protocol es = Some texts \<and> t \<in> set texts \<and> stands_in ?ds t)" for e e' :: gw_error
      by (auto simp: accepted split: option.split)
    show ?thesis
      unfolding challenge_expected parseModelContent_def Let_def Some option.case
      by (cases "raw_field ''error'' es") (use judged in auto)
  qed
qed

end
