(* ===== verification/Today_Correct.thy ===== *)
theory Today_Correct
  imports Probe Usage_Store
begin

text \<open>The totals of a day, read page by page from the log of an account (\<open>internal/ops/newapi_today.go\<close>).\<close>

definition amount :: "int option \<Rightarrow> int" where
  "amount v = (case v of None \<Rightarrow> 0 | Some n \<Rightarrow> if n < 0 then 0 else n)"

definition counted_value :: "int option \<Rightarrow> bool" where
  "counted_value v \<longleftrightarrow> (case v of None \<Rightarrow> False | Some n \<Rightarrow> 0 \<le> n)"

definition usable_row :: "int \<Rightarrow> int \<Rightarrow> log_entry \<Rightarrow> bool" where
  "usable_row start stop r \<longleftrightarrow> le_type r = 2 \<and> start \<le> le_created r \<and> le_created r \<le> stop"

text \<open>The counts after some rows.\<close>

definition counts :: "log_entry list \<Rightarrow> TodayCount \<Rightarrow> bool" where
  "counts rows c \<longleftrightarrow> tc_count c = int (length rows)
     \<and> tc_input_complete c = list_all (\<lambda>r. counted_value (le_input r)) rows
     \<and> tc_output_complete c = list_all (\<lambda>r. counted_value (le_output r)) rows
     \<and> tc_input c = wrap64 (sum_list (map (\<lambda>r. amount (le_input r)) rows))
     \<and> tc_output c = wrap64 (sum_list (map (\<lambda>r. amount (le_output r)) rows))"

text \<open>The page on which each row was seen.\<close>

definition seen_on :: "log_entry list list \<Rightarrow> TodayCount \<Rightarrow> bool" where
  "seen_on pages c \<longleftrightarrow>
     (\<forall>r p. map_of (tc_seen c) r = Some p \<longleftrightarrow> p \<noteq> 0 \<and> p \<le> length pages \<and> r \<in> set (pages ! (p - 1)))"

lemma counts_entry: "counts rows c \<Longrightarrow> counts (rows @ [r]) (count_entry page r c)"
  by (auto simp: counts_def count_entry_def Let_def amount_def counted_value_def wrap64_add_left split: option.split)

lemma counts_fold: "counts rows c \<Longrightarrow> counts (rows @ rs) (fold (count_entry page) rs c)"
proof (induction rs arbitrary: rows c)
  case (Cons r rs)
  then show ?case using Cons.IH [OF counts_entry [OF Cons.prems]] by simp
qed simp

lemma seen_entry: "tc_seen (count_entry page r c) = AList.update r page (tc_seen c)" "tc_total (count_entry page r c) = tc_total c"
  by (auto simp: count_entry_def Let_def split: option.split)

lemma seen_fold: "map_of (tc_seen (fold (count_entry page) rs c)) r = (if r \<in> set rs then Some page else map_of (tc_seen c) r)"
  "tc_total (fold (count_entry page) rs c) = tc_total c"
  by (induction rs arbitrary: c) (auto simp: seen_entry update_conv')

lemma count_rows_some:
  "count_rows page start stop rs c = Some c' \<Longrightarrow>
     c' = fold (count_entry page) rs c \<and> list_all (usable_row start stop) rs \<and> (\<forall>r \<in> set rs. map_of (tc_seen c) r \<in> {None, Some page})"
proof (induction rs arbitrary: c)
  case (Cons r rs)
  then have r: "usable_row start stop r" "map_of (tc_seen c) r \<in> {None, Some page}"
    and rest: "count_rows page start stop rs (count_entry page r c) = Some c'"
    by (auto simp: usable_row_def split: if_splits option.splits)
  have "map_of (tc_seen c) q \<in> {None, Some page}" if "q \<in> set rs" for q
    using Cons.IH [OF rest] that r(2) by (cases "q = r") (auto simp: seen_entry update_conv')
  then show ?case using Cons.IH [OF rest] r by simp
qed simp

text \<open>What consecutive pages answer, read from a state of the outside world on.\<close>

fun fetched :: "('p \<Rightarrow> ('s, 'a) state) \<Rightarrow> 'p list \<Rightarrow> 's \<Rightarrow> 'a list" where
  "fetched fetch [] s = []"
| "fetched fetch (p # ps) s = (case run_state (fetch p) s of (a, s') \<Rightarrow> a # fetched fetch ps s')"

definition day_ok :: "int \<Rightarrow> int \<Rightarrow> int \<Rightarrow> log_entry list list \<Rightarrow> TodayCount \<Rightarrow> bool" where
  "day_ok start stop stated pages c \<longleftrightarrow> counts (concat pages) c \<and> seen_on pages c \<and> list_all (usable_row start stop) (concat pages)
     \<and> (\<forall>i < length pages. \<forall>j < i. set (pages ! i) \<inter> set (pages ! j) = {}) \<and> (pages \<noteq> [] \<longrightarrow> tc_total c = stated)"

lemma day_page:
  assumes ok: "day_ok start stop stated pages c" and page: "page = Suc (length pages)"
    and rows: "count_rows page start stop rows (c\<lparr>tc_total := stated\<rparr>) = Some c'"
  shows "day_ok start stop stated (pages @ [rows]) c'"
proof -
  let ?c = "c\<lparr>tc_total := stated\<rparr>"
  have c': "c' = fold (count_entry page) rows ?c" "list_all (usable_row start stop) rows"
    "\<forall>r \<in> set rows. map_of (tc_seen c) r \<in> {None, Some page}"
    using count_rows_some [OF rows] by simp_all
  have seen: "seen_on pages c" using ok by (simp add: day_ok_def)
  have fresh: "map_of (tc_seen c) r = None" if "r \<in> set rows" for r
    using c'(3) that seen page by (fastforce simp: seen_on_def)
  have "set rows \<inter> set (pages ! j) = {}" if "j < length pages" for j
  proof -
    have "map_of (tc_seen c) r = Some (Suc j)" if "r \<in> set (pages ! j)" for r
      using seen that \<open>j < length pages\<close> by (simp add: seen_on_def)
    then show ?thesis using fresh by fastforce
  qed
  note apart = this
  have old: "r \<notin> set rows" if "p \<noteq> 0" "p \<le> length pages" "r \<in> set (pages ! (p - 1))" for p r
  proof -
    have "set rows \<inter> set (pages ! (p - 1)) = {}" using apart [of "p - 1"] that by simp
    then show ?thesis using that(3) by blast
  qed
  have disjoint: "\<forall>i < length (pages @ [rows]). \<forall>j < i. set ((pages @ [rows]) ! i) \<inter> set ((pages @ [rows]) ! j) = {}"
    using ok apart by (auto simp: day_ok_def nth_append less_Suc_eq)
  have "counts (concat pages) ?c" using ok by (simp add: day_ok_def counts_def)
  then have "counts (concat (pages @ [rows])) c'" using counts_fold c'(1) by simp
  moreover have "seen_on (pages @ [rows]) c'"
    unfolding seen_on_def
  proof (intro allI)
    fix r p
    have "map_of (tc_seen c') r = (if r \<in> set rows then Some page else map_of (tc_seen c) r)" unfolding c'(1) seen_fold by simp
    then show "map_of (tc_seen c') r = Some p \<longleftrightarrow> p \<noteq> 0 \<and> p \<le> length (pages @ [rows]) \<and> r \<in> set ((pages @ [rows]) ! (p - 1))"
      using old [of p r] seen page by (cases "p = page") (auto simp: seen_on_def nth_append)
  qed
  ultimately show ?thesis
    using ok c' disjoint by (simp add: day_ok_def seen_fold)
qed

lemma today_pages_ok:
  assumes "fst (run_state (today_pages fetch start stop [Suc (length pages)..<Suc (length pages) + k] c requests) s) = (result, Some c')"
    "day_ok start stop stated pages c" "pages \<noteq> [] \<Longrightarrow> requests = Some stated"
  shows "\<exists>more st. more \<noteq> [] \<and> (pages \<noteq> [] \<longrightarrow> st = stated) \<and> length more \<le> k \<and> result = Some st \<and> day_ok start stop st (pages @ more) c'
    \<and> tc_count c' = st
    \<and> fetched fetch [Suc (length pages)..<Suc (length pages) + length more] s = map (\<lambda>rows. Some (st, rows)) more"
  using assms
proof (induction k arbitrary: pages c requests s stated)
  case (Suc k)
  let ?page = "Suc (length pages)"
  have pages: "[?page..<?page + Suc n] = ?page # [Suc ?page..<Suc ?page + n]" for n by (simp add: upt_conv_Cons)
  obtain a s1 where a: "run_state (fetch ?page) s = (a, s1)" by fastforce
  obtain now_stated rows where p: "a = Some (now_stated, rows)"
    using Suc.prems(1) unfolding pages by (cases a) (auto simp: a)
  define r where "r = (if ?page = 1 then Some now_stated else requests)"
  have same: "day_ok start stop now_stated pages c" if "?page = 1 \<or> tc_total c = now_stated"
    using Suc.prems(2) that by (auto simp: day_ok_def)
  have run: "fst (run_state (today_pages fetch start stop [?page..<?page + Suc k] c requests) s)
      = (case count_page ?page start stop (now_stated, rows) c of
           Complete c \<Rightarrow> (r, Some c) | GiveUp c \<Rightarrow> (r, None)
         | MorePages c \<Rightarrow> fst (run_state (today_pages fetch start stop [Suc ?page..<Suc ?page + k] c r) s1))"
    unfolding pages by (simp add: a p Let_def r_def split: PageVerdict.split)
  have here: "fetched fetch [?page..<?page + Suc n] s = a # fetched fetch [Suc ?page..<Suc ?page + n] s1" for n
    unfolding pages by (simp add: a)
  show ?case
  proof (cases "count_page ?page start stop (now_stated, rows) c")
    case (Complete c1)
    then have c1: "c1 = c'" "r = result" using Suc.prems(1) run by simp_all
    have total: "?page = 1 \<or> tc_total c = now_stated" and count: "count_rows ?page start stop rows (c\<lparr>tc_total := now_stated\<rparr>) = Some c'"
      and full: "tc_count c' = now_stated"
      using Complete c1 by (auto simp: count_page_def Let_def split: if_splits option.splits)
    have ok: "day_ok start stop now_stated (pages @ [rows]) c'" using day_page [OF same [OF total] refl count] .
    have "result = Some now_stated"
      using c1(2) Suc.prems(2,3) total by (cases "pages = []") (auto simp: r_def day_ok_def)
    moreover have "pages \<noteq> [] \<longrightarrow> now_stated = stated" using total Suc.prems(2) by (auto simp: day_ok_def)
    ultimately show ?thesis
      using ok full here [of 0] p by (intro exI [of _ "[rows]"] exI [of _ now_stated]) simp
  next
    case (GiveUp c1)
    then show ?thesis using Suc.prems(1) run by simp
  next
    case (MorePages c1)
    have total: "?page = 1 \<or> tc_total c = now_stated" and count: "count_rows ?page start stop rows (c\<lparr>tc_total := now_stated\<rparr>) = Some c1"
      using MorePages by (auto simp: count_page_def Let_def split: if_splits option.splits)
    have ok: "day_ok start stop now_stated (pages @ [rows]) c1" using day_page [OF same [OF total] refl count] .
    have r: "r = Some now_stated"
      using Suc.prems(2,3) total by (cases "pages = []") (auto simp: r_def day_ok_def)
    have rest: "fst (run_state (today_pages fetch start stop [Suc (length (pages @ [rows]))..<Suc (length (pages @ [rows])) + k] c1 r) s1)
        = (result, Some c')"
      using Suc.prems(1) run MorePages by simp
    obtain more st where more: "length more \<le> k" "result = Some st" "day_ok start stop st ((pages @ [rows]) @ more) c'" "tc_count c' = st"
      "more \<noteq> []" "fetched fetch [Suc ?page..<Suc ?page + length more] s1 = map (\<lambda>rows. Some (st, rows)) more"
      "st = now_stated"
      using Suc.IH [OF rest ok r] by auto
    moreover have "pages \<noteq> [] \<longrightarrow> now_stated = stated" using total Suc.prems(2) by (auto simp: day_ok_def)
    ultimately show ?thesis
      using here [of "length more"] p by (intro exI [of _ "rows # more"] exI [of _ now_stated]) simp
  qed
qed simp

lemma wrap64_add_both: "wrap64 (wrap64 x + wrap64 y) = wrap64 (x + y)"
  by (metis add.commute wrap64_add_left)

text \<open>The sum of one column, if every row has a count of its own in it.\<close>

definition column_sum :: "(log_entry \<Rightarrow> int option) \<Rightarrow> log_entry list \<Rightarrow> int option" where
  "column_sum column rows =
     (if list_all (\<lambda>r. counted_value (column r)) rows then Some (sum_list (map (\<lambda>r. amount (column r)) rows)) else None)"

text \<open>
  C39: the tokens of a day are reported only when they are those of all the requests of the day. If any
  of the input, the output or the total is given, then the pages read next, at most twenty, all state the
  total that is given as the number of requests and together hold as many rows, every row is a
  consumption of that day, and no row is on two pages; each figure is the sum over all these rows,
  modulo 2 to the 64, and missing exactly when a row has no count for it (for the total: no input or no
  output). Neither a partial list nor one that changed while it was read gives a figure.
\<close>

theorem today_total_exact:
  assumes "run_state (getWithQuery env u ''/api/log/self/stat'' credential headers (Some (today_query now))) s = (stat, s1)"
    and "fst (run_state (newAPIAccountToday env u credential headers now) s) = Some today"
    and "td_input today \<noteq> None \<or> td_output today \<noteq> None \<or> td_total today \<noteq> None"
  shows "\<exists>pages stated. td_requests today = Some stated \<and> length pages \<le> 20
    \<and> fetched (today_page env u credential headers now) [1..<Suc (length pages)] s1 = map (\<lambda>rows. Some (stated, rows)) pages
    \<and> int (length (concat pages)) = stated
    \<and> list_all (usable_row (today_start now) (unix_seconds now)) (concat pages)
    \<and> (\<forall>i < length pages. \<forall>j < i. set (pages ! i) \<inter> set (pages ! j) = {})
    \<and> td_input today = map_option wrap64 (column_sum le_input (concat pages))
    \<and> td_output today = map_option wrap64 (column_sum le_output (concat pages))
    \<and> td_total today = (case (column_sum le_input (concat pages), column_sum le_output (concat pages)) of
        (Some i, Some out) \<Rightarrow> Some (wrap64 (i + out)) | _ \<Rightarrow> None)"
proof -
  let ?fetch = "today_page env u credential headers now"
  obtain result complete s2 where pages: "run_state (today_pages ?fetch (today_start now) (unix_seconds now) [1..<21] no_count None) s1
      = ((result, complete), s2)" by (metis prod.exhaust)
  obtain c where c: "complete = Some c" "td_requests today = result"
    "td_input today = (if tc_input_complete c then Some (tc_input c) else None)"
    "td_output today = (if tc_output_complete c then Some (tc_output c) else None)"
    "td_total today = (if tc_input_complete c \<and> tc_output_complete c then Some (wrap64 (tc_input c + tc_output c)) else None)"
  proof -
    let ?today = "\<lparr>td_requests = result, td_input = None, td_output = None, td_cache_read = None, td_cache_write = None, td_total = None,
      td_cost = (case fst stat of Inl _ \<Rightarrow> None | Inr body \<Rightarrow> stat_cost (pe_dec env) body), td_timezone = Some ''UTC+08:00''\<rparr>"
    have "fst (run_state (newAPIAccountToday env u credential headers now) s) = (case complete of
         Some c \<Rightarrow> Some (?today\<lparr>
           td_input := (if tc_input_complete c then Some (tc_input c) else None),
           td_output := (if tc_output_complete c then Some (tc_output c) else None),
           td_total := (if tc_input_complete c \<and> tc_output_complete c then Some (wrap64 (tc_input c + tc_output c)) else None)\<rparr>)
       | None \<Rightarrow> if td_cost ?today = None \<and> result = None then None else Some ?today)"
      unfolding newAPIAccountToday_def Let_def
      using assms(1) pages by (cases stat; cases complete; cases "fst stat") (simp_all del: One_nat_def)
    then show ?thesis using that assms(2,3) by (cases complete) (auto split: if_splits)
  qed
  have start: "day_ok (today_start now) (unix_seconds now) 0 [] no_count"
    by (auto simp: day_ok_def counts_def seen_on_def no_count_def)
  have "fst (run_state (today_pages ?fetch (today_start now) (unix_seconds now)
      [Suc (length ([] :: log_entry list list))..<Suc (length ([] :: log_entry list list)) + 20] no_count None) s1) = (result, Some c)"
    using pages c(1) by simp
  from today_pages_ok [OF this start] obtain more st where more: "length more \<le> 20" "result = Some st"
    "day_ok (today_start now) (unix_seconds now) st more c" "tc_count c = st"
    "fetched ?fetch [1..<Suc (length more)] s1 = map (\<lambda>rows. Some (st, rows)) more" by auto
  have sums: "counts (concat more) c" using more(3) by (simp add: day_ok_def)
  have "td_input today = map_option wrap64 (column_sum le_input (concat more))"
    "td_output today = map_option wrap64 (column_sum le_output (concat more))"
    "td_total today = (case (column_sum le_input (concat more), column_sum le_output (concat more)) of
        (Some i, Some out) \<Rightarrow> Some (wrap64 (i + out)) | _ \<Rightarrow> None)"
    using sums c(3-5) by (simp_all add: counts_def column_sum_def wrap64_add_both)
  then show ?thesis
    using more c(2) sums by (intro exI [of _ more] exI [of _ st]) (simp add: day_ok_def counts_def)
qed

definition log_env :: "unit ProbeEnv" where
  "log_env = \<lparr>pe_dec = (\<lambda>_. Some (JObj [(''success'', JBool True), (''data'', JObj [(''total'', JNum ''1''), (''items'', JArr [JObj
       [(''id'', JNum ''7''), (''created_at'', JNum ''100''), (''type'', JNum ''2''), (''prompt_tokens'', JNum ''5'')]])])])),
     pe_enc = (\<lambda>_. []), pe_parse_url = (\<lambda>_. Some \<lparr>url_scheme = ''http'', url_host = ''h'', url_path = [], url_query = []\<rparr>),
     pe_build = (\<lambda>_. True), pe_hash = concat, pe_do = (\<lambda>_ w. (Answered 200 (Some ''x''), w)), pe_slot = (\<lambda>w. (None, w)),
     pe_done = (\<lambda>_. None), pe_now = (\<lambda>_. 0), pe_query = (\<lambda>_. []), pe_timeout = second\<rparr>"

definition idle_probing :: "unit Probing" where
  "idle_probing = \<lparr>pg_world = (), pg_paths = [], pg_attempted = [], pg_failures = [], pg_sent = []\<rparr>"

definition log_now :: time where "log_now = (62135596800 + 200) * second"

definition account_row :: log_entry where
  "account_row = \<lparr>le_id = 7, le_created = 100, le_type = 2, le_input = Some 5, le_output = None\<rparr>"

lemma log_get: "fst (run_state (getWithQuery log_env u endpoint credential headers query) s) = (Inr ''x'', 200)"
  by (simp add: getWithQuery_def endpointURL_def log_env_def ask_def read_answer_def maxProbeBody_def split: option.split)

lemma log_page: "page_of (pe_dec log_env) ''x'' = Some (1, [account_row])" by code_simp

lemma log_fetch: "fst (run_state (today_page log_env u credential headers now page) s) = Some (1, [account_row])"
  using log_get [of u "''/api/log/self''" credential headers "Some (today_query now @ [(''page_size'', ''100''), (''p'', show_nat page)])" s]
  by (simp add: today_page_def Let_def case_prod_beta log_page)

lemma log_count: "count_page 1 (today_start log_now) (unix_seconds log_now) (1, [account_row]) no_count
    = Complete (count_entry 1 account_row (no_count\<lparr>tc_total := 1\<rparr>))"
  by code_simp

lemma log_today: "map_option td_input (fst (run_state (newAPIAccountToday log_env sample_upstream ''k'' [] log_now) idle_probing)) = Some (Some 5)"
proof -
  let ?fetch = "today_page log_env sample_upstream ''k'' [] log_now"
  have list: "[1..<21 :: nat] = 1 # [2..<21]" by (simp add: upt_rec)
  have pages: "fst (run_state (today_pages ?fetch (today_start log_now) (unix_seconds log_now) [1..<21] no_count None) s)
      = (Some 1, Some (count_entry 1 account_row (no_count\<lparr>tc_total := 1\<rparr>)))" for s
    unfolding list today_pages.simps by (simp add: case_prod_beta log_fetch log_count Let_def del: One_nat_def)
  have counted: "tc_input_complete (count_entry 1 account_row (no_count\<lparr>tc_total := 1\<rparr>))" "tc_input (count_entry 1 account_row (no_count\<lparr>tc_total := 1\<rparr>)) = 5"
    by code_simp+
  show ?thesis
    unfolding newAPIAccountToday_def Let_def
    by (simp add: case_prod_beta pages counted del: One_nat_def)
qed

theorem today_total_exact_witness:
  "\<exists>today pages. fst (run_state (newAPIAccountToday log_env sample_upstream ''k'' [] log_now) idle_probing) = Some today
    \<and> td_requests today = Some (int (length (concat pages))) \<and> map_option wrap64 (column_sum le_input (concat pages)) = Some 5"
proof -
  obtain today where today: "fst (run_state (newAPIAccountToday log_env sample_upstream ''k'' [] log_now) idle_probing) = Some today"
    "td_input today = Some 5" using log_today by auto
  obtain stat s1 where stat: "run_state (getWithQuery log_env sample_upstream ''/api/log/self/stat'' ''k'' [] (Some (today_query log_now)))
      idle_probing = (stat, s1)" by fastforce
  have "td_input today \<noteq> None \<or> td_output today \<noteq> None \<or> td_total today \<noteq> None" using today(2) by simp
  from today_total_exact [OF stat today(1) this] today show ?thesis by (metis (no_types, lifting))
qed

end
