(* ===== verification/Upstream_Admin.thy ===== *)
theory Upstream_Admin
  imports Access_Store Monitor Netguard
begin

text \<open>
  The administration of upstreams: \<open>internal/httpapi/admin_upstreams.go\<close> over \<open>CreateUpstream\<close> and \<open>UpdateUpstream\<close> of
  \<open>internal/store/upstreams.go\<close>. A reply is its status and error code; \<open>None\<close> as input is a body that does not
  decode. Whether the pricing profile of an upstream exists is left to the database.
\<close>

section \<open>The payload\<close>

record upstreamPayload =
  up_id :: int
  up_name :: string
  up_kind :: string
  up_base_url :: string
  up_user_agent :: string
  up_api_key :: string
  up_access_token :: string
  up_user_id :: string
  up_clear_balance_credentials :: bool
  up_enabled :: "bool option"
  up_balance_protection :: "bool option"
  up_priority :: "int option"
  up_protocols :: "string list"
  up_models :: "string list"
  up_models_locked :: "bool option"
  up_model_aliases :: "(string \<times> string) list"
  up_pricing_profile_id :: "int option"
  up_connect_timeout_ms :: int
  up_first_byte_timeout_ms :: int
  up_idle_timeout_ms :: int
  up_failure_threshold :: int
  up_cooldown_seconds :: int

definition defaultInt :: "int \<Rightarrow> int \<Rightarrow> int" where
  "defaultInt value fallback = (if value \<le> 0 then fallback else value)"

definition valid_alias :: "string \<times> string \<Rightarrow> bool" where
  "valid_alias a = (case a of (alias, model) \<Rightarrow>
     \<not> (trim_space alias = [] \<or> trim_space model = [] \<or> rune_count alias > 200 \<or> rune_count model > 200))"

definition validateUpstreamPayload :: "upstreamPayload \<Rightarrow> string \<Rightarrow> string \<Rightarrow> bool" where
  "validateUpstreamPayload p name base =
     (if name = [] \<or> rune_count name > 200 \<or> length base > 2048 then False
      else if \<exists>value \<in> {up_api_key p, up_access_token p, up_user_id p}. length value > 4096 then False
      else if rune_count (trim_space (up_user_agent p)) > 256 \<or> CHR 0x0D \<in> set (up_user_agent p) \<or> CHR 0x0A \<in> set (up_user_agent p) then False
      else if \<not> validProtocols (up_protocols p) then False
      else if \<not> validStringList (up_models p) 1000 200 then False
      else if length (up_model_aliases p) > 1000 then False
      else if \<not> list_all valid_alias (up_model_aliases p) then False
      else if (case up_priority p of None \<Rightarrow> False | Some n \<Rightarrow> n < 0 \<or> n > 1000000) then False
      else list_all (\<lambda>(value, upper). 0 \<le> value \<and> value \<le> upper)
        [(up_connect_timeout_ms p, 120000), (up_first_byte_timeout_ms p, 600000), (up_idle_timeout_ms p, 1800000),
         (up_failure_threshold p, 20), (up_cooldown_seconds p, 86400)])"

text \<open>A field that is not given keeps the existing value, or takes the default of a new upstream.\<close>

definition over :: "Upstream option \<Rightarrow> 'a option \<Rightarrow> (Upstream \<Rightarrow> 'a) \<Rightarrow> 'a \<Rightarrow> 'a" where
  "over existing given field fallback =
     (case given of Some v \<Rightarrow> v | None \<Rightarrow> (case existing of None \<Rightarrow> fallback | Some e \<Rightarrow> field e))"

definition kept :: "Upstream option \<Rightarrow> string \<Rightarrow> (Upstream \<Rightarrow> string) \<Rightarrow> string" where
  "kept existing given field = (if given = [] then (case existing of None \<Rightarrow> [] | Some e \<Rightarrow> field e) else given)"

text \<open>The upstream a payload describes, over the existing one when there is one.\<close>

definition described :: "upstreamPayload \<Rightarrow> int \<Rightarrow> Upstream option \<Rightarrow> string \<Rightarrow> string \<Rightarrow> Upstream" where
  "described p i existing name base =
     (let cleared = (existing \<noteq> None \<and> up_clear_balance_credentials p) \<or> up_kind p = ''sub2api''
      in \<lparr>us_config_version = 0, us_id = i, us_name = name, us_kind = up_kind p, us_base_url = base,
          us_user_agent = trim_space (up_user_agent p), us_api_key = kept existing (up_api_key p) us_api_key,
          us_access_token = (if cleared then [] else kept existing (up_access_token p) us_access_token),
          us_user_id = (if cleared then [] else kept existing (up_user_id p) us_user_id),
          us_enabled = (case up_enabled p of None \<Rightarrow> True | Some b \<Rightarrow> b),
          us_balance_protection = over existing (up_balance_protection p) us_balance_protection True,
          us_balance_suspended = (case existing of None \<Rightarrow> False | Some e \<Rightarrow> us_balance_suspended e),
          us_zero_balance_checks = (case existing of None \<Rightarrow> 0 | Some e \<Rightarrow> us_zero_balance_checks e),
          us_priority = over existing (up_priority p) us_priority 100, us_protocols = up_protocols p,
          us_models = cleanStrings (up_models p), us_models_locked = over existing (up_models_locked p) us_models_locked False,
          us_model_aliases = up_model_aliases p,
          us_pricing_profile_id = (case up_pricing_profile_id p of Some k \<Rightarrow> Some k
            | None \<Rightarrow> (case existing of None \<Rightarrow> None | Some e \<Rightarrow> us_pricing_profile_id e)),
          us_connect_timeout = defaultInt (up_connect_timeout_ms p) 5000 * millisecond,
          us_first_byte_timeout = defaultInt (up_first_byte_timeout_ms p) 180000 * millisecond,
          us_idle_timeout = defaultInt (up_idle_timeout_ms p) 300000 * millisecond,
          us_failure_threshold = defaultInt (up_failure_threshold p) 3,
          us_cooldown = defaultInt (up_cooldown_seconds p) 60 * second,
          us_health_status = [], us_consecutive_failure = 0, us_consecutive_success = 0, us_recovery_started_at = None,
          us_health_notified = [], us_circuit_open_until = None, us_last_check_at = None, us_last_error = []\<rparr>)"

definition payload_upstream :: "(string \<Rightarrow> ParsedUrl option) \<Rightarrow> upstreamPayload \<Rightarrow> int \<Rightarrow> Upstream option \<Rightarrow> Upstream option" where
  "payload_upstream parse p i existing =
     (let name = trim_space (up_name p); base = trim_right_char (CHR ''/'') (trim_space (up_base_url p))
      in if \<not> validateUpstreamPayload p name base then None
         else case parse base of
           None \<Rightarrow> None
         | Some u \<Rightarrow>
             if (pu_scheme u \<noteq> ''http'' \<and> pu_scheme u \<noteq> ''https'') \<or> pu_host u = [] \<or> pu_user u then None
             else if name = [] \<or> (up_kind p \<noteq> ''newapi'' \<and> up_kind p \<noteq> ''sub2api'') \<or> \<not> validProtocols (up_protocols p) then None
             else Some (described p i existing name base))"

section \<open>Creating an upstream\<close>

text \<open>The row an insertion makes: the columns it names, and the defaults of the schema for the others.\<close>

definition new_row :: "Upstream \<Rightarrow> int \<Rightarrow> time \<Rightarrow> UpstreamRecord" where
  "new_row u i now = \<lparr>ur_upstream = u\<lparr>us_id := i, us_config_version := 1, us_balance_suspended := False, us_zero_balance_checks := 0,
       us_connect_timeout := milliseconds (us_connect_timeout u) * millisecond,
       us_first_byte_timeout := milliseconds (us_first_byte_timeout u) * millisecond,
       us_idle_timeout := milliseconds (us_idle_timeout u) * millisecond,
       us_cooldown := sgn (us_cooldown u) * (\<bar>us_cooldown u\<bar> div second) * second,
       us_pricing_profile_id := (if us_pricing_profile_id u = Some 0 then None else us_pricing_profile_id u),
       us_health_status := ''unknown'', us_consecutive_failure := 0, us_consecutive_success := 0, us_recovery_started_at := None,
       us_health_notified := ''healthy'', us_circuit_open_until := None, us_last_check_at := None, us_last_error := []\<rparr>,
     ur_balance = empty_balance\<lparr>ba_status := ''unknown''\<rparr>, ur_created_at = now, ur_updated_at = now\<rparr>"

definition CreateUpstream :: "Upstream \<Rightarrow> time \<Rightarrow> Store \<Rightarrow> (store_error + int) \<times> Store" where
  "CreateUpstream u now s =
     (let db = st_db s; i = db_next_id db
      in if \<exists>r \<in> set (db_upstreams db). us_name (ur_upstream r) = us_name u
         then (Inl SqlUniqueViolation, s\<lparr>st_db := db\<lparr>db_next_id := i + 1\<rparr>\<rparr>)
         else (Inr i, invalidate_routes (s\<lparr>st_db := db\<lparr>db_upstreams := db_upstreams db @ [new_row u i now], db_next_id := i + 1\<rparr>\<rparr>)))"

section \<open>The handlers\<close>

definition guarded_upstream ::
  "(string \<Rightarrow> ParsedUrl option) \<Rightarrow> upstreamPayload \<Rightarrow> int \<Rightarrow> Upstream option \<Rightarrow> Upstream option" where
  "guarded_upstream parse p i existing =
     (case payload_upstream parse p i existing of
        None \<Rightarrow> None
      | Some u \<Rightarrow> if ValidateURL parse (us_base_url u) \<noteq> None then None else Some u)"

definition createUpstream :: "(string \<Rightarrow> ParsedUrl option) \<Rightarrow> upstreamPayload option \<Rightarrow> time \<Rightarrow> Store \<Rightarrow> reply \<times> Store" where
  "createUpstream parse input now s =
     (case input of
        None \<Rightarrow> ((400, ''invalid_request''), s)
      | Some p \<Rightarrow>
          (case guarded_upstream parse p 0 None of
             None \<Rightarrow> ((400, ''invalid_upstream''), s)
           | Some u \<Rightarrow>
               if us_api_key u = [] then ((400, ''invalid_upstream''), s)
               else case CreateUpstream u now s of
                 (Inl e, s) \<Rightarrow> (writeStoreError e, s)
               | (Inr i, s) \<Rightarrow> ((201, []), audit ''upstream.create'' i s)))"

definition pathID :: "string \<Rightarrow> int option" where
  "pathID text = (case atoi text of None \<Rightarrow> None | Some i \<Rightarrow> if i \<le> 0 then None else Some i)"

text \<open>
  \<open>updateUpstream\<close> is cut where another request may come between: the row it reads, and what it writes with it.
  The notice is the event handed to the outbox, if there is one.
\<close>

definition update_write ::
  "(string \<Rightarrow> ParsedUrl option) \<Rightarrow> int \<Rightarrow> Upstream \<Rightarrow> upstreamPayload option \<Rightarrow> time \<Rightarrow> Store \<Rightarrow> reply \<times> Event option \<times> Store" where
  "update_write parse i existing input now s =
     (case input of
        None \<Rightarrow> ((400, ''invalid_request''), None, s)
      | Some p \<Rightarrow>
          (case guarded_upstream parse p i (Some existing) of
             None \<Rightarrow> ((400, ''invalid_upstream''), None, s)
           | Some u \<Rightarrow>
               (case UpdateUpstream u now s of
                  (Inl e, s) \<Rightarrow> (writeStoreError e, None, s)
                | (Inr transition, s) \<Rightarrow>
                    ((200, []), (if transition \<noteq> BalanceUnchanged then Some (BalanceProtectionDisabledEvent u now) else None),
                     audit ''upstream.update'' i s))))"

definition updateUpstream ::
  "(string \<Rightarrow> ParsedUrl option) \<Rightarrow> string \<Rightarrow> upstreamPayload option \<Rightarrow> time \<Rightarrow> Store \<Rightarrow> reply \<times> Event option \<times> Store" where
  "updateUpstream parse path input now s =
     (case pathID path of
        None \<Rightarrow> ((400, ''invalid_id''), None, s)
      | Some i \<Rightarrow>
          (case find_upstream (st_db s) i of
             None \<Rightarrow> (writeStoreError ErrNotFound, None, s)
           | Some r \<Rightarrow> update_write parse i (ur_upstream r) input now s))"

definition deleteUpstream :: "string \<Rightarrow> time \<Rightarrow> Store \<Rightarrow> reply \<times> Store" where
  "deleteUpstream path now s =
     (case pathID path of
        None \<Rightarrow> ((400, ''invalid_id''), s)
      | Some i \<Rightarrow>
          (case DeleteUpstream i now s of
             (Some e, s) \<Rightarrow> (writeStoreError e, s)
           | (None, s) \<Rightarrow> ((204, []), audit ''upstream.delete'' i s)))"

text \<open>What a test is run on: the refusal, or the upstream that the payload describes.\<close>

definition test_target :: "(string \<Rightarrow> ParsedUrl option) \<Rightarrow> upstreamPayload option \<Rightarrow> Store \<Rightarrow> reply + Upstream" where
  "test_target parse input s =
     (case input of
        None \<Rightarrow> Inl (400, ''invalid_request'')
      | Some p \<Rightarrow>
          if up_id p < 0 then Inl (400, ''invalid_id'')
          else
            let existing = (if up_id p > 0 then map_option (\<lambda>r. Some (ur_upstream r)) (find_upstream (st_db s) (up_id p)) else Some None)
            in case existing of
              None \<Rightarrow> Inl (writeStoreError ErrNotFound)
            | Some e \<Rightarrow>
                (case guarded_upstream parse p (up_id p) e of
                   None \<Rightarrow> Inl (400, ''invalid_upstream'')
                 | Some u \<Rightarrow> if us_api_key u = [] then Inl (400, ''invalid_upstream'') else Inr u))"

definition testUpstream ::
  "(string \<Rightarrow> ParsedUrl option) \<Rightarrow> (Upstream \<Rightarrow> 'h) option \<Rightarrow> upstreamPayload option \<Rightarrow> Store \<Rightarrow> (reply + 'h) \<times> Store" where
  "testUpstream parse probe input s =
     (case probe of
        None \<Rightarrow> (Inl (503, ''probe_unavailable''), s)
      | Some run \<Rightarrow>
          (case test_target parse input s of
             Inl refusal \<Rightarrow> (Inl refusal, s)
           | Inr u \<Rightarrow> (Inr (run u), audit ''upstream.test'' (us_id u) s)))"

record modelTestPayload =
  mq_upstream :: upstreamPayload
  mq_model :: string
  mq_audit :: bool

definition testModel ::
  "(string \<Rightarrow> ParsedUrl option) \<Rightarrow> (Upstream \<Rightarrow> string \<Rightarrow> 'h) option \<Rightarrow> modelTestPayload option \<Rightarrow> Store \<Rightarrow> (reply + 'h) \<times> Store" where
  "testModel parse probe input s =
     (case probe of
        None \<Rightarrow> (Inl (503, ''probe_unavailable''), s)
      | Some run \<Rightarrow>
          (case input of
             None \<Rightarrow> (Inl (400, ''invalid_request''), s)
           | Some q \<Rightarrow>
               let model = trim_space (mq_model q)
               in if up_id (mq_upstream q) < 0 \<or> model = [] then (Inl (400, ''invalid_request''), s)
                  else case test_target parse (Some (mq_upstream q)) s of
                    Inl refusal \<Rightarrow> (Inl refusal, s)
                  | Inr u \<Rightarrow> (Inr (run u model), if mq_audit q then audit ''upstream.model_test'' (us_id u) s else s)))"

record modelTestsAuditPayload =
  ma_id :: int
  ma_name :: string
  ma_models_count :: int
  ma_protocol_requests :: int
  ma_available :: int
  ma_partial :: int
  ma_unavailable :: int

definition auditModelTests :: "modelTestsAuditPayload option \<Rightarrow> Store \<Rightarrow> reply \<times> Store" where
  "auditModelTests input s =
     (case input of
        None \<Rightarrow> ((400, ''invalid_request''), s)
      | Some p \<Rightarrow>
          let completed = wrap64 (wrap64 (ma_available p + ma_partial p) + ma_unavailable p)
          in if ma_id p < 0 \<or> rune_count (trim_space (ma_name p)) > 200 \<or> ma_models_count p < 0 \<or> ma_protocol_requests p < 0
                \<or> ma_available p < 0 \<or> ma_partial p < 0 \<or> ma_unavailable p < 0 \<or> completed > ma_models_count p
             then ((400, ''invalid_request''), s)
             else ((204, []), audit ''upstream.models_test'' (ma_id p) s))"

text \<open>The handlers that ask the prober about a stored upstream; the second also has an event to announce.\<close>

definition operations_error :: "monitor_error \<Rightarrow> reply" where
  "operations_error e = (case e of StoreError e \<Rightarrow> writeStoreError e | _ \<Rightarrow> (500, ''internal_error''))"

definition checkUpstream :: "'w MonitorEnv option \<Rightarrow> string \<Rightarrow> 'w Watch \<Rightarrow> (reply + ProbeHealth) \<times> 'w Watch" where
  "checkUpstream operations path s =
     (case pathID path of
        None \<Rightarrow> (Inl (400, ''invalid_id''), s)
      | Some i \<Rightarrow>
          (case operations of
             None \<Rightarrow> (Inl (503, ''probe_unavailable''), s)
           | Some env \<Rightarrow>
               (case OperationsCheck env i s of
                  (Inl e, s) \<Rightarrow> (Inl (operations_error e), s)
                | (Inr health, s) \<Rightarrow> (Inr health, s\<lparr>wa_store := audit ''upstream.check'' i (wa_store s)\<rparr>))))"

definition balanceUpstream ::
  "'w MonitorEnv option \<Rightarrow> string \<Rightarrow> time \<Rightarrow> 'w Watch \<Rightarrow> (reply + Balance) \<times> Event option \<times> 'w Watch" where
  "balanceUpstream operations path now s =
     (case pathID path of
        None \<Rightarrow> (Inl (400, ''invalid_id''), None, s)
      | Some i \<Rightarrow>
          (case operations of
             None \<Rightarrow> (Inl (503, ''probe_unavailable''), None, s)
           | Some env \<Rightarrow>
               (case OperationsBalance env i s of
                  (Inl e, s) \<Rightarrow> (Inl (operations_error e), None, s)
                | (Inr (u, balance, transition), s) \<Rightarrow>
                    (Inr balance,
                     (if transition \<noteq> BalanceUnchanged then Some (BalanceTransitionEvent u balance transition now) else None), s))))"

definition modelsUpstream :: "'w MonitorEnv option \<Rightarrow> string \<Rightarrow> 'w Watch \<Rightarrow> (reply + string list) \<times> 'w Watch" where
  "modelsUpstream operations path s =
     (case pathID path of
        None \<Rightarrow> (Inl (400, ''invalid_id''), s)
      | Some i \<Rightarrow>
          (case operations of
             None \<Rightarrow> (Inl (503, ''probe_unavailable''), s)
           | Some env \<Rightarrow>
               (case OperationsModels env i s of
                  (Inl e, s) \<Rightarrow> (Inl (operations_error e), s)
                | (Inr models, s) \<Rightarrow> (Inr models, s))))"

section \<open>What is stored\<close>

definition between :: "int \<Rightarrow> int \<Rightarrow> int \<Rightarrow> bool" where
  "between low high x \<longleftrightarrow> low \<le> x \<and> x \<le> high"

text \<open>The configuration of an upstream as the handlers accept it.\<close>

definition upstream_ok :: "(string \<Rightarrow> ParsedUrl option) \<Rightarrow> Upstream \<Rightarrow> bool" where
  "upstream_ok parse u \<longleftrightarrow>
     us_name u \<noteq> [] \<and> rune_count (us_name u) \<le> 200 \<and> us_kind u \<in> {''newapi'', ''sub2api''}
     \<and> ValidateURL parse (us_base_url u) = None \<and> us_api_key u \<noteq> []
     \<and> (us_kind u = ''sub2api'' \<longrightarrow> us_access_token u = [] \<and> us_user_id u = [])
     \<and> validProtocols (us_protocols u) \<and> list_all valid_alias (us_model_aliases u)
     \<and> between 0 1000000 (us_priority u) \<and> between 1 20 (us_failure_threshold u)
     \<and> between millisecond (120 * second) (us_connect_timeout u) \<and> between millisecond (600 * second) (us_first_byte_timeout u)
     \<and> between millisecond (1800 * second) (us_idle_timeout u) \<and> between second (24 * hour) (us_cooldown u)"

lemma defaultInt_between: "0 \<le> v \<Longrightarrow> v \<le> high \<Longrightarrow> 1 \<le> d \<Longrightarrow> d \<le> high \<Longrightarrow> between 1 high (defaultInt v d)"
  by (simp add: between_def defaultInt_def)

lemma between_scale: "between a b x \<Longrightarrow> 0 \<le> unit \<Longrightarrow> between (a * unit) (b * unit) (x * unit)"
  by (simp add: between_def mult_right_mono)

lemma payload_outcome:
  assumes "payload_upstream parse p i existing = Some u"
  shows "us_id u = i" "us_api_key u = kept existing (up_api_key p) us_api_key"
    "us_name u \<noteq> []" "rune_count (us_name u) \<le> 200" "us_kind u \<in> {''newapi'', ''sub2api''}"
    "us_kind u = ''sub2api'' \<Longrightarrow> us_access_token u = [] \<and> us_user_id u = []"
    "validProtocols (us_protocols u)" "list_all valid_alias (us_model_aliases u)"
    "us_priority u = over existing (up_priority p) us_priority 100"
    "us_failure_threshold u = defaultInt (up_failure_threshold p) 3"
    "us_connect_timeout u = defaultInt (up_connect_timeout_ms p) 5000 * millisecond"
    "us_first_byte_timeout u = defaultInt (up_first_byte_timeout_ms p) 180000 * millisecond"
    "us_idle_timeout u = defaultInt (up_idle_timeout_ms p) 300000 * millisecond"
    "us_cooldown u = defaultInt (up_cooldown_seconds p) 60 * second"
    "validateUpstreamPayload p (us_name u) (us_base_url u)"
proof -
  let ?name = "trim_space (up_name p)" and ?base = "trim_right_char (CHR ''/'') (trim_space (up_base_url p))"
  have valid: "validateUpstreamPayload p ?name ?base" and kind: "up_kind p \<in> {''newapi'', ''sub2api''}"
    and u: "u = described p i existing ?name ?base"
    using assms unfolding payload_upstream_def Let_def by (auto split: if_splits option.splits)
  have rest: "?name \<noteq> []" "rune_count ?name \<le> 200" "validProtocols (up_protocols p)" "list_all valid_alias (up_model_aliases p)"
    using valid unfolding validateUpstreamPayload_def by (simp_all split: if_splits)
  show "us_id u = i" "us_api_key u = kept existing (up_api_key p) us_api_key"
    "us_name u \<noteq> []" "rune_count (us_name u) \<le> 200" "us_kind u \<in> {''newapi'', ''sub2api''}"
    "us_kind u = ''sub2api'' \<Longrightarrow> us_access_token u = [] \<and> us_user_id u = []"
    "validProtocols (us_protocols u)" "list_all valid_alias (us_model_aliases u)"
    "us_priority u = over existing (up_priority p) us_priority 100"
    "us_failure_threshold u = defaultInt (up_failure_threshold p) 3"
    "us_connect_timeout u = defaultInt (up_connect_timeout_ms p) 5000 * millisecond"
    "us_first_byte_timeout u = defaultInt (up_first_byte_timeout_ms p) 180000 * millisecond"
    "us_idle_timeout u = defaultInt (up_idle_timeout_ms p) 300000 * millisecond"
    "us_cooldown u = defaultInt (up_cooldown_seconds p) 60 * second"
    "validateUpstreamPayload p (us_name u) (us_base_url u)"
    using rest kind valid by (simp_all add: u described_def Let_def)
qed

lemma payload_limits:
  assumes "validateUpstreamPayload p name base"
  shows "between 1 20 (defaultInt (up_failure_threshold p) 3)" "between 1 120000 (defaultInt (up_connect_timeout_ms p) 5000)"
    "between 1 600000 (defaultInt (up_first_byte_timeout_ms p) 180000)" "between 1 1800000 (defaultInt (up_idle_timeout_ms p) 300000)"
    "between 1 86400 (defaultInt (up_cooldown_seconds p) 60)" "case up_priority p of None \<Rightarrow> True | Some n \<Rightarrow> between 0 1000000 n"
  using assms unfolding validateUpstreamPayload_def
  by (auto split: if_splits option.splits intro!: defaultInt_between simp: between_def [of 0])

lemma payload_ok:
  assumes "guarded_upstream parse p i existing = Some u" "case existing of None \<Rightarrow> True | Some e \<Rightarrow> between 0 1000000 (us_priority e)"
    and "us_api_key u \<noteq> []"
  shows "upstream_ok parse u"
proof -
  have u: "payload_upstream parse p i existing = Some u" and url: "ValidateURL parse (us_base_url u) = None"
    using assms(1) by (auto simp: guarded_upstream_def split: option.splits if_splits)
  note o = payload_outcome [OF u] and l = payload_limits [OF payload_outcome(15) [OF u]]
  have "between 0 1000000 (us_priority u)"
    using l(6) assms(2) unfolding o(9) by (auto simp: over_def between_def split: option.splits)
  then show ?thesis
    unfolding upstream_ok_def o(10-14)
    using o(3-8) url assms(3) l(1) between_scale [OF l(2), of millisecond] between_scale [OF l(3), of millisecond]
      between_scale [OF l(4), of millisecond] between_scale [OF l(5), of second] by simp
qed

lemma milliseconds_exact [simp]: "milliseconds (n * millisecond) = n"
  by (simp add: milliseconds_def abs_mult sgn_mult abs_sgn mult.commute)

lemma seconds_exact: "sgn (n * second) * (\<bar>n * second\<bar> div second) * second = n * second"
  by (simp add: abs_mult sgn_mult abs_sgn mult.commute)

definition upstreams_ok :: "(string \<Rightarrow> ParsedUrl option) \<Rightarrow> Store \<Rightarrow> bool" where
  "upstreams_ok parse s \<longleftrightarrow> (\<forall>r \<in> set (db_upstreams (st_db s)). upstream_ok parse (ur_upstream r))"

text \<open>The fields that the configuration of an upstream is judged by.\<close>

lemma upstream_ok_cong:
  assumes "us_name v = us_name u" "us_kind v = us_kind u" "us_base_url v = us_base_url u" "us_api_key v = us_api_key u"
    "us_access_token v = us_access_token u" "us_user_id v = us_user_id u" "us_protocols v = us_protocols u"
    "us_model_aliases v = us_model_aliases u" "us_priority v = us_priority u" "us_failure_threshold v = us_failure_threshold u"
    "us_connect_timeout v = us_connect_timeout u" "us_first_byte_timeout v = us_first_byte_timeout u"
    "us_idle_timeout v = us_idle_timeout u" "us_cooldown v = us_cooldown u"
  shows "upstream_ok parse v = upstream_ok parse u"
  unfolding upstream_ok_def assms ..

text \<open>The durations of a payload are whole milliseconds and seconds, so that storing them loses nothing.\<close>

definition whole_units :: "Upstream \<Rightarrow> bool" where
  "whole_units u \<longleftrightarrow> milliseconds (us_connect_timeout u) * millisecond = us_connect_timeout u
     \<and> milliseconds (us_first_byte_timeout u) * millisecond = us_first_byte_timeout u
     \<and> milliseconds (us_idle_timeout u) * millisecond = us_idle_timeout u
     \<and> sgn (us_cooldown u) * (\<bar>us_cooldown u\<bar> div second) * second = us_cooldown u"

lemma payload_whole: "guarded_upstream parse p i existing = Some u \<Longrightarrow> whole_units u"
  using payload_outcome(11-14) [of parse p i existing u] milliseconds_exact seconds_exact
  by (auto simp: guarded_upstream_def whole_units_def split: option.splits if_splits)

lemma CreateUpstream_ok:
  assumes "CreateUpstream u now s = (res, s')" "upstreams_ok parse s" "upstream_ok parse u" "whole_units u"
  shows "upstreams_ok parse s'"
proof -
  have "upstream_ok parse (ur_upstream (new_row u (db_next_id (st_db s)) now)) = upstream_ok parse u"
    using assms(4) by (intro upstream_ok_cong) (simp_all add: new_row_def whole_units_def)
  then show ?thesis
    using assms by (auto simp: CreateUpstream_def Let_def upstreams_ok_def invalidate_routes_def split: if_splits)
qed

lemma UpdateUpstream_rows:
  assumes "UpdateUpstream u now s = (Inr tr, s')" "whole_units u"
  obtains f where "db_upstreams (st_db s') = map (\<lambda>r. if ur_id r = us_id u then f r else r) (db_upstreams (st_db s))"
    "\<And>r. upstream_ok parse (ur_upstream (f r)) = upstream_ok parse u" "\<And>r. us_api_key (ur_upstream (f r)) = us_api_key u"
    "\<And>r. ur_id (f r) = ur_id r"
proof -
  obtain r where r: "find_upstream (st_db s) (us_id u) = Some r"
    using assms(1) by (auto simp: UpdateUpstream_def split: option.splits)
  define old where "old = ur_upstream r"
  define changed where "changed = (us_base_url old \<noteq> us_base_url u \<or> us_kind old \<noteq> us_kind u \<or> us_api_key old \<noteq> us_api_key u
    \<or> us_access_token old \<noteq> us_access_token u \<or> us_user_id old \<noteq> us_user_id u)"
  define edit where "edit = (\<lambda>o1. o1\<lparr>us_name := us_name u, us_kind := us_kind u, us_base_url := us_base_url u,
                 us_user_agent := us_user_agent u, us_api_key := us_api_key u, us_access_token := us_access_token u,
                 us_user_id := us_user_id u, us_enabled := us_enabled u, us_balance_protection := us_balance_protection u,
                 us_balance_suspended := (if us_balance_protection u then us_balance_suspended o1 else False),
                 us_zero_balance_checks := (if us_balance_protection u \<and> \<not> changed then us_zero_balance_checks o1 else 0),
                 us_priority := us_priority u, us_protocols := us_protocols u, us_models := us_models u,
                 us_models_locked := us_models_locked u, us_model_aliases := us_model_aliases u,
                 us_connect_timeout := milliseconds (us_connect_timeout u) * millisecond,
                 us_first_byte_timeout := milliseconds (us_first_byte_timeout u) * millisecond,
                 us_idle_timeout := milliseconds (us_idle_timeout u) * millisecond,
                 us_failure_threshold := us_failure_threshold u,
                 us_cooldown := sgn (us_cooldown u) * (\<bar>us_cooldown u\<bar> div second) * second,
                 us_pricing_profile_id := (if us_pricing_profile_id u = Some 0 then None else us_pricing_profile_id u),
                 us_config_version := us_config_version o1 + 1\<rparr> :: Upstream)"
  have rows: "db_upstreams (st_db s') = db_upstreams (update_upstream (us_id u) (touch now edit) (st_db s))"
    using assms(1) unfolding UpdateUpstream_def r option.case Let_def edit_def changed_def old_def
    by (auto simp: invalidate_routes_def split: if_splits)
  have "upstream_ok parse (ur_upstream (touch now edit q)) = upstream_ok parse u" for q
    using assms(2) by (intro upstream_ok_cong) (simp_all add: touch_def edit_def whole_units_def)
  then show ?thesis
    by (intro that [of "touch now edit"]) (simp_all add: rows update_upstream_def touch_def edit_def ur_id_def)
qed

lemma UpdateUpstream_failed: "UpdateUpstream u now s = (Inl e, s') \<Longrightarrow> s' = s"
  by (auto simp: UpdateUpstream_def Let_def split: option.splits if_splits)

lemma audit_upstreams [simp]: "db_upstreams (st_db (audit a i s)) = db_upstreams (st_db s)"
  by (simp add: audit_def)

lemma createUpstream_ok:
  assumes "createUpstream parse input now s = (res, s')" "upstreams_ok parse s"
  shows "upstreams_ok parse s'"
proof (cases "s' = s")
  case False
  then obtain p u r s1 where p: "guarded_upstream parse p 0 None = Some u" "us_api_key u \<noteq> []" "CreateUpstream u now s = (r, s1)"
    "db_upstreams (st_db s') = db_upstreams (st_db s1)"
    using assms(1) by (auto simp: createUpstream_def split: option.splits if_splits prod.splits sum.splits)
  show ?thesis
    using CreateUpstream_ok [OF p(3) assms(2) payload_ok [OF p(1)] payload_whole [OF p(1)]] p(2,4) by (simp add: upstreams_ok_def)
qed (use assms in simp)

lemma update_write_outcome:
  assumes "update_write parse i existing input now s = (reply, notice, s')"
  obtains "s' = s" "fst reply \<noteq> 200"
  | p u tr s1 where "input = Some p" "guarded_upstream parse p i (Some existing) = Some u" "UpdateUpstream u now s = (Inr tr, s1)"
      "db_upstreams (st_db s') = db_upstreams (st_db s1)"
  using assms
  by (auto simp: update_write_def writeStoreError_def split: option.splits prod.splits sum.splits if_splits dest: UpdateUpstream_failed)

lemma update_write_ok:
  assumes "update_write parse i existing input now s = (reply, notice, s')" "upstreams_ok parse s" "upstream_ok parse existing"
  shows "upstreams_ok parse s'"
  using assms(1)
proof (cases rule: update_write_outcome)
  case (2 p u tr s1)
  have "us_api_key u \<noteq> []"
    using payload_outcome(2) [of parse p i "Some existing" u] 2(2) assms(3)
    by (auto simp: guarded_upstream_def kept_def upstream_ok_def split: option.splits if_splits)
  then have "upstream_ok parse u" using payload_ok [OF 2(2)] assms(3) by (simp add: upstream_ok_def)
  moreover obtain f where "db_upstreams (st_db s1) = map (\<lambda>r. if ur_id r = us_id u then f r else r) (db_upstreams (st_db s))"
    "\<And>r. upstream_ok parse (ur_upstream (f r)) = upstream_ok parse u"
    by (rule UpdateUpstream_rows [OF 2(3) payload_whole [OF 2(2)]]) (rule that; assumption)
  ultimately show ?thesis using assms(2) 2(4) by (auto simp: upstreams_ok_def)
qed (use assms in simp)

lemma deleteUpstream_ok: "deleteUpstream path now s = (reply, s') \<Longrightarrow> upstreams_ok parse s \<Longrightarrow> upstreams_ok parse s'"
  by (auto simp: deleteUpstream_def DeleteUpstream_def upstreams_ok_def Let_def invalidate_routes_def invalidate_auth_def
      split: option.splits if_splits prod.splits)

section \<open>Concurrent administrators\<close>

text \<open>
  Requests interleave: \<open>updateUpstream\<close> between the row it has read and its writing. What other components write
  (health, balances, discovered models) leaves the configuration as it is.
\<close>

record UpstreamDesk =
  ud_store :: Store
  ud_reads :: "(int \<times> Upstream) list"

definition same_config :: "Store \<Rightarrow> Store \<Rightarrow> bool" where
  "same_config s s' \<longleftrightarrow> list_all2 (\<lambda>r r'. \<forall>parse. upstream_ok parse (ur_upstream r') = upstream_ok parse (ur_upstream r))
     (db_upstreams (st_db s)) (db_upstreams (st_db s'))"

inductive desk_step :: "(string \<Rightarrow> ParsedUrl option) \<Rightarrow> UpstreamDesk \<Rightarrow> UpstreamDesk \<Rightarrow> bool" for parse where
  created: "createUpstream parse input now (ud_store d) = (reply, s) \<Longrightarrow> desk_step parse d (d\<lparr>ud_store := s\<rparr>)"
| deleted: "deleteUpstream path now (ud_store d) = (reply, s) \<Longrightarrow> desk_step parse d (d\<lparr>ud_store := s\<rparr>)"
| begun: "find_upstream (st_db (ud_store d)) i = Some r \<Longrightarrow>
    desk_step parse d (d\<lparr>ud_reads := (i, ur_upstream r) # ud_reads d\<rparr>)"
| written: "(i, u) \<in> set (ud_reads d) \<Longrightarrow> update_write parse i u input now (ud_store d) = (reply, notice, s) \<Longrightarrow>
    desk_step parse d (d\<lparr>ud_store := s, ud_reads := remove1 (i, u) (ud_reads d)\<rparr>)"
| reported: "same_config (ud_store d) s \<Longrightarrow> desk_step parse d (d\<lparr>ud_store := s\<rparr>)"

inductive desk_reach :: "(string \<Rightarrow> ParsedUrl option) \<Rightarrow> UpstreamDesk \<Rightarrow> UpstreamDesk \<Rightarrow> bool" for parse d0 where
  desk_start: "desk_reach parse d0 d0"
| desk_more: "desk_reach parse d0 d \<Longrightarrow> desk_step parse d d' \<Longrightarrow> desk_reach parse d0 d'"

definition desk_ok :: "(string \<Rightarrow> ParsedUrl option) \<Rightarrow> UpstreamDesk \<Rightarrow> bool" where
  "desk_ok parse d \<longleftrightarrow> upstreams_ok parse (ud_store d) \<and> (\<forall>(i, u) \<in> set (ud_reads d). upstream_ok parse u)"

lemma list_all2_member: "list_all2 P xs ys \<Longrightarrow> y \<in> set ys \<Longrightarrow> \<exists>x \<in> set xs. P x y"
  by (induction rule: list_all2_induct) auto

lemma desk_ok_step: "desk_step parse d d' \<Longrightarrow> desk_ok parse d \<Longrightarrow> desk_ok parse d'"
proof (induction rule: desk_step.induct)
  case (begun d i r)
  then have "r \<in> set (db_upstreams (st_db (ud_store d)))" by (auto simp: find_upstream_def find_Some_iff)
  then show ?case using begun.prems by (auto simp: desk_ok_def upstreams_ok_def)
next
  case (written i u d input now reply notice s)
  then have "upstreams_ok parse s" using update_write_ok [OF written(2)] by (auto simp: desk_ok_def)
  moreover have "set (remove1 (i, u) (ud_reads d)) \<subseteq> set (ud_reads d)" by (rule set_remove1_subset)
  ultimately show ?case using written.prems by (auto simp: desk_ok_def)
next
  case (reported d s)
  have "upstream_ok parse (ur_upstream r')" if r': "r' \<in> set (db_upstreams (st_db s))" for r'
  proof -
    obtain r where "r \<in> set (db_upstreams (st_db (ud_store d)))" "upstream_ok parse (ur_upstream r') = upstream_ok parse (ur_upstream r)"
      using list_all2_member [OF reported(1) [unfolded same_config_def] r'] by blast
    then show ?thesis using reported.prems by (simp add: desk_ok_def upstreams_ok_def)
  qed
  then show ?case using reported.prems by (auto simp: desk_ok_def upstreams_ok_def)
qed (auto simp: desk_ok_def intro: createUpstream_ok deleteUpstream_ok)

text \<open>
  C33: whatever administrators do to the upstreams at the same time, every stored upstream has a name, a kind and protocols that are
  known, a key, an address that the network guard accepts, no account credentials for a kind without accounts, and
  limits within their ranges.
\<close>

theorem upstreams_stay_valid:
  assumes "desk_reach parse d0 d" "upstreams_ok parse (ud_store d0)" "ud_reads d0 = []"
  shows "\<forall>r \<in> set (db_upstreams (st_db (ud_store d))). upstream_ok parse (ur_upstream r)"
proof -
  have "desk_ok parse d" using assms(1)
    by induction (use assms(2,3) desk_ok_step in \<open>auto simp: desk_ok_def [of parse d0]\<close>)
  then show ?thesis by (simp add: desk_ok_def upstreams_ok_def)
qed

text \<open>
  A payload without a key writes back the key that was read: an update that was begun before another one replaced
  the key brings the old key back.
\<close>

lemma stale_update_restores_key:
  assumes "update_write parse i existing (Some p) now s = ((200, []), notice, s')" "up_api_key p = []"
    and "r \<in> set (db_upstreams (st_db s'))" "ur_id r = i"
  shows "us_api_key (ur_upstream r) = us_api_key existing"
  using assms(1)
proof (cases rule: update_write_outcome)
  case (2 q u tr s1)
  have "payload_upstream parse p i (Some existing) = Some u"
    using 2(1,2) by (simp add: guarded_upstream_def split: option.splits if_splits)
  from payload_outcome(1,2) [OF this] have u: "us_api_key u = us_api_key existing" "us_id u = i"
    using assms(2) by (simp_all add: kept_def)
  obtain f where f: "db_upstreams (st_db s1) = map (\<lambda>r. if ur_id r = us_id u then f r else r) (db_upstreams (st_db s))"
    "\<And>r. us_api_key (ur_upstream (f r)) = us_api_key u" "\<And>r. ur_id (f r) = ur_id r"
    by (rule UpdateUpstream_rows [OF 2(3) payload_whole [OF 2(2)]]) (rule that; assumption)
  have "r \<in> (\<lambda>q. if ur_id q = i then f q else q) ` set (db_upstreams (st_db s))"
    using assms(3) unfolding 2(4) f(1) u(2) by simp
  then obtain q where "r = (if ur_id q = i then f q else q)" by (rule imageE)
  then show ?thesis using assms(4) f(2,3) u(1) by (cases "ur_id q = i") simp_all
qed simp

definition eight_eight :: "string \<Rightarrow> ParsedUrl option" where
  "eight_eight = (\<lambda>_. Some \<lparr>pu_scheme = ''https'', pu_user = False, pu_host = ''8.8.8.8''\<rparr>)"

definition a_payload :: upstreamPayload where
  "a_payload = \<lparr>up_id = 0, up_name = ''a'', up_kind = ''newapi'', up_base_url = [], up_user_agent = [], up_api_key = ''k'',
     up_access_token = [], up_user_id = [], up_clear_balance_credentials = False, up_enabled = None, up_balance_protection = None,
     up_priority = None, up_protocols = [ProtocolChat], up_models = [], up_models_locked = None, up_model_aliases = [],
     up_pricing_profile_id = None, up_connect_timeout_ms = 0, up_first_byte_timeout_ms = 0, up_idle_timeout_ms = 0,
     up_failure_threshold = 0, up_cooldown_seconds = 0\<rparr>"

definition empty_desk :: UpstreamDesk where
  "empty_desk = \<lparr>ud_store = keyed_store\<lparr>st_db := (st_db keyed_store)\<lparr>db_upstreams := []\<rparr>\<rparr>, ud_reads = []\<rparr>"

lemma a_payload_accepted: "\<exists>u. guarded_upstream eight_eight a_payload 0 None = Some u \<and> us_api_key u = ''k'' \<and> us_name u = ''a''"
proof -
  have t: "trim_space ''a'' = ''a''" "trim_space [] = []" by (simp_all add: trim_space_graphic graphic_def)
  have n: "rune_count ''a'' = 1" "rune_count [] = 0" by code_simp+
  have l: "validProtocols [ProtocolChat]" "validStringList [] 1000 200"
    by (simp_all add: validProtocols_def validStringList_def protocol_defs)
  have b: "trim_right_char (CHR ''/'') [] = []" by code_simp
  have v: "validateUpstreamPayload a_payload ''a'' []"
    by (simp add: validateUpstreamPayload_def a_payload_def t n l)
  have p: "payload_upstream eight_eight a_payload 0 None = Some (described a_payload 0 None ''a'' [])"
    using v by (simp add: payload_upstream_def Let_def a_payload_def t b eight_eight_def l)
  have "us_base_url (described a_payload 0 None ''a'' []) = []" "us_api_key (described a_payload 0 None ''a'' []) = ''k''"
    "us_name (described a_payload 0 None ''a'' []) = ''a''"
    by (simp_all add: described_def kept_def a_payload_def)
  moreover have "ValidateURL eight_eight [] = None" by code_simp
  ultimately show ?thesis by (simp add: guarded_upstream_def p)
qed

theorem upstreams_stay_valid_witness:
  "\<exists>s. db_upstreams (st_db s) \<noteq> [] \<and> (\<exists>d. desk_reach eight_eight empty_desk d \<and> ud_store d = s)
     \<and> list_all (\<lambda>r. upstream_ok eight_eight (ur_upstream r)) (db_upstreams (st_db s))"
proof -
  obtain u where u: "guarded_upstream eight_eight a_payload 0 None = Some u" "us_api_key u = ''k''" using a_payload_accepted by blast
  obtain reply s where run: "createUpstream eight_eight (Some a_payload) 5 (ud_store empty_desk) = (reply, s)" by fastforce
  then have ne: "db_upstreams (st_db s) \<noteq> []"
    by (auto simp: createUpstream_def u CreateUpstream_def empty_desk_def Let_def invalidate_routes_def)
  have reach: "desk_reach eight_eight empty_desk (empty_desk\<lparr>ud_store := s\<rparr>)"
    using desk_more [OF desk_start created [OF run]] .
  have "upstreams_ok eight_eight (ud_store empty_desk)" "ud_reads empty_desk = []" by (simp_all add: upstreams_ok_def empty_desk_def)
  from upstreams_stay_valid [OF reach this] show ?thesis
    using ne reach by (intro exI [of _ s]) (auto simp: list_all_iff intro!: exI [of _ "empty_desk\<lparr>ud_store := s\<rparr>"])
qed

end
