(* ===== verification/Go_Text.thy ===== *)
theory Go_Text
  imports Transport Ops_Event
begin

text \<open>
  Numbers, instants and durations as text: the verbs of \<open>fmt.Sprintf\<close> and the layouts of \<open>time.Format\<close> that the
  messages for people use. A \<open>float64\<close> is a rational, so that a fixed number of decimals is its half-even rounding.
\<close>

definition round_half_even :: "rat \<Rightarrow> int" where
  "round_half_even q = (let f = \<lfloor>q\<rfloor>; d = q - of_int f
     in if d < 1 / 2 then f else if d > 1 / 2 then f + 1 else if even f then f else f + 1)"

definition pad :: "nat \<Rightarrow> int \<Rightarrow> string" where
  "pad w n = (let s = show_int n in replicate (w - length s) (CHR ''0'') @ s)"

text \<open>\<open>%.df\<close>.\<close>

definition show_fixed :: "nat \<Rightarrow> rat \<Rightarrow> string" where
  "show_fixed d q = (let n = round_half_even (\<bar>q\<bar> * 10 ^ d)
     in (if q < 0 then ''-'' else []) @ show_int (n div 10 ^ d) @ (if d = 0 then [] else ''.'' @ pad d (n mod 10 ^ d)))"

text \<open>The date of a day counted from 1 January of the year 1.\<close>

fun month_day :: "int list \<Rightarrow> int \<Rightarrow> int \<Rightarrow> int \<times> int" where
  "month_day [] m d = (m, d + 1)"
| "month_day (l # ls) m d = (if d < l then (m, d + 1) else month_day ls (m + 1) (d - l))"

definition leap_year :: "int \<Rightarrow> bool" where
  "leap_year y \<longleftrightarrow> 4 dvd y \<and> (\<not> 100 dvd y \<or> 400 dvd y)"

definition month_lengths :: "int \<Rightarrow> int list" where
  "month_lengths y = [31, if leap_year y then 29 else 28, 31, 30, 31, 30, 31, 31, 30, 31, 30, 31]"

definition date_of :: "int \<Rightarrow> int \<times> int \<times> int" where
  "date_of days =
     (let d = days mod 146097; n100 = min 3 (d div 36524);
          d = d - n100 * 36524; n4 = d div 1461;
          d = d mod 1461; n1 = min 3 (d div 365);
          y = 400 * (days div 146097) + 100 * n100 + 4 * n4 + n1 + 1
      in (y, month_day (month_lengths y) 1 (d - n1 * 365)))"

text \<open>\<open>time.FixedZone("UTC+8", 8*3600)\<close>, and the layouts \<open>2006-01-02 15:04:05\<close> and \<open>15:04:05\<close>.\<close>

definition utc8 :: "time \<Rightarrow> time" where "utc8 t = t + 8 * hour"

definition clock_text :: "time \<Rightarrow> string" where
  "clock_text t = (let s = t div second mod 86400
     in pad 2 (s div 3600) @ '':'' @ pad 2 (s div 60 mod 60) @ '':'' @ pad 2 (s mod 60))"

definition date_text :: "time \<Rightarrow> string" where
  "date_text t = (case date_of (t div second div 86400) of (y, m, d) \<Rightarrow> pad 4 y @ ''-'' @ pad 2 m @ ''-'' @ pad 2 d)"

definition instant_text :: "time \<Rightarrow> string" where
  "instant_text t = date_text t @ '' '' @ clock_text t"

text \<open>\<open>strings.Join\<close>.\<close>

fun join_strings :: "string \<Rightarrow> string list \<Rightarrow> string" where
  "join_strings sep [] = []"
| "join_strings sep [s] = s"
| "join_strings sep (s # t # ts) = s @ sep @ join_strings sep (t # ts)"

section \<open>The calendar is right\<close>

definition days_before_year :: "int \<Rightarrow> int" where
  "days_before_year y = 365 * (y - 1) + (y - 1) div 4 - (y - 1) div 100 + (y - 1) div 400"

fun sum_lengths :: "int list \<Rightarrow> int \<Rightarrow> int" where
  "sum_lengths [] m = 0"
| "sum_lengths (l # ls) m = (if m \<le> 1 then 0 else l + sum_lengths ls (m - 1))"

definition day_number :: "int \<times> int \<times> int \<Rightarrow> int" where
  "day_number = (\<lambda>(y, m, d). days_before_year y + sum_lengths (month_lengths y) m + d - 1)"

lemma month_day_sum:
  assumes "0 \<le> d" "d < sum_list ls" "month_day ls m0 d = (m, k)" "\<forall>l \<in> set ls. 0 \<le> l"
  shows "sum_lengths ls (m - m0 + 1) + k - 1 = d \<and> 1 \<le> k \<and> m0 \<le> m"
  using assms
proof (induction ls m0 d rule: month_day.induct)
  case (2 l ls m0 d)
  show ?case
  proof (cases "d < l")
    case False
    then have "sum_lengths ls (m - (m0 + 1) + 1) + k - 1 = d - l \<and> 1 \<le> k \<and> m0 + 1 \<le> m"
      using 2 by (intro "2.IH") auto
    then show ?thesis by auto
  qed (use 2 in auto)
qed simp

lemma div_small_rest: "0 \<le> a \<Longrightarrow> a < b \<Longrightarrow> (b * k + a) div b = (k :: int)"
  by (simp add: div_pos_pos_trivial)

lemma year_length: "sum_list (month_lengths y) = (if leap_year y then 366 else 365)"
  by (simp add: month_lengths_def)

lemma date_of_day_number: "day_number (date_of n) = n"
proof -
  define q r where "q = n div 146097" and "r = n mod 146097"
  have r: "0 \<le> r" "r < 146097" "n = 146097 * q + r" by (simp_all add: q_def r_def)
  define c where "c = min 3 (r div 36524)"
  define s where "s = r - c * 36524"
  define f where "f = s div 1461"
  define u where "u = s mod 1461"
  define a where "a = min 3 (u div 365)"
  define v where "v = u - a * 365"
  define y where "y = 400 * q + 100 * c + 4 * f + a + 1"
  have c: "0 \<le> c" "c \<le> 3" "0 \<le> s" "s \<le> 36524" "c < 3 \<Longrightarrow> s < 36524" using r unfolding c_def s_def by auto
  have f: "0 \<le> f" "f \<le> 24" "0 \<le> u" "u < 1461" "s = 1461 * f + u" using c unfolding f_def u_def by auto
  have f24: "f = 24 \<Longrightarrow> c < 3 \<Longrightarrow> u < 1460" using f(5) c(5) by auto
  have a: "0 \<le> a" "a \<le> 3" "0 \<le> v" "v \<le> 365" "a < 3 \<Longrightarrow> v < 365" using f unfolding a_def v_def by auto
  have n: "n = 146097 * q + 36524 * c + 1461 * f + 365 * a + v" using r f by (simp add: s_def v_def)
  have y1: "y - 1 = 400 * q + 100 * c + 4 * f + a" by (simp add: y_def)
  have d4: "(y - 1) div 4 = 100 * q + 25 * c + f"
    using div_small_rest [of a 4 "100 * q + 25 * c + f"] a(1,2) by (simp add: y1 algebra_simps)
  have d100: "(y - 1) div 100 = 4 * q + c"
    using div_small_rest [of "4 * f + a" 100 "4 * q + c"] a(1,2) f(1,2) by (simp add: y1 algebra_simps)
  have d400: "(y - 1) div 400 = q"
    using div_small_rest [of "100 * c + 4 * f + a" 400 q] a(1,2) f(1,2) c(1,2) by (simp add: y1 algebra_simps)
  have days: "days_before_year y = 146097 * q + 36524 * c + 1461 * f + 365 * a"
    unfolding days_before_year_def d4 d100 d400 using y1 by simp
  have leap: "leap_year y" if v: "v = 365"
  proof -
    have a3: "a = 3" using a(2,5) v by linarith
    then have "u = 1460" using v by (simp add: v_def)
    then have "f \<noteq> 24 \<or> c = 3" using f24 c(2) by fastforce
    moreover have y: "y = 400 * q + 100 * c + 4 * f + 4" using a3 by (simp add: y_def)
    have "4 dvd y" unfolding y by (intro dvd_add) simp_all
    moreover have "400 dvd y" if "100 dvd y"
    proof -
      have "100 dvd 4 * f + 4" using that unfolding y by presburger
      then have "f = 24" using f(1,2) by presburger
      with \<open>f \<noteq> 24 \<or> c = 3\<close> have "c = 3" by simp
      with \<open>f = 24\<close> show ?thesis unfolding y by presburger
    qed
    ultimately show ?thesis by (auto simp: leap_year_def)
  qed
  have v: "v < sum_list (month_lengths y)" using leap a(4) by (cases "v = 365") (auto simp: year_length)
  obtain m k where mk: "month_day (month_lengths y) 1 v = (m, k)" by fastforce
  have "sum_lengths (month_lengths y) m + k - 1 = v"
    using month_day_sum [OF a(3) v mk] by (auto simp: month_lengths_def)
  moreover have "date_of n = (y, m, k)"
    unfolding date_of_def Let_def r_def [symmetric] q_def [symmetric] c_def [symmetric] s_def [symmetric] f_def [symmetric]
      u_def [symmetric] a_def [symmetric] v_def [symmetric] y_def [symmetric] mk ..
  ultimately show ?thesis using days n by (simp add: day_number_def)
qed

end
