(* ===== verification/Alert_Observe.thy ===== *)
theory Alert_Observe
  imports Go_Text Alert_Engine Usage_Store Upstream_Admin
begin

text \<open>
  What the alert rules watch: \<open>internal/app/alerts_repository.go\<close> over the tables it reads, the failure
    predicate of
  \<open>internal/store/attempts.go\<close>, the alert rules of \<open>internal/store/alerts.go\<close> and their handlers in
  \<open>internal/httpapi/admin_notifications.go\<close>. Every statement sees the tables as they are when it runs, or fails.
\<close>

section \<open>The tables\<close>

record AlertRule =
  lr_id :: int
  lr_event :: string
  lr_upstream_id :: "int option"
  lr_threshold :: "rat option"
  lr_window_seconds :: int
  lr_cooldown_seconds :: int
  lr_max_notifications :: int
  lr_enabled :: bool

record LoginRow =
  lo_action :: string
  lo_ip :: string
  lo_at :: time

text \<open>\<open>al_now\<close> is \<open>now()\<close> of the database server.\<close>

record AlertTables =
  al_upstreams :: "UpstreamRecord list"
  al_rules :: "AlertRule list"
  al_logs :: "StoredLog list"
  al_keys :: "KeyRow list"
  al_audit :: "LoginRow list"
  al_next_rule :: int
  al_now :: time

record 'w AlertDb =
  ad_query :: "'w \<Rightarrow> AlertTables option \<times> 'w"
  ad_clock :: "'w \<Rightarrow> time \<times> 'w"

section \<open>Rules\<close>

text \<open>\<open>ORDER BY event, upstream_id NULLS FIRST\<close>; upstream identifiers are positive, so NULL comes
  first as 0.\<close>

definition ListAlertRules :: "AlertTables \<Rightarrow> AlertRule list" where
  "ListAlertRules t = sort_key (\<lambda>r. (lr_event r, case lr_upstream_id r of None \<Rightarrow> 0 | Some i
    \<Rightarrow> i)) (al_rules t)"

definition UpdateAlertRule :: "AlertRule \<Rightarrow> AlertTables \<Rightarrow> store_error option \<times> AlertTables" where
  "UpdateAlertRule rule t =
     (if lr_id rule \<notin> lr_id ` set (al_rules t) then (Some ErrNotFound, t)
      else (None, t\<lparr>al_rules := map (\<lambda>r. if lr_id r = lr_id rule
        then r\<lparr>lr_threshold := lr_threshold rule, lr_window_seconds := lr_window_seconds rule,
               lr_cooldown_seconds := lr_cooldown_seconds rule, lr_max_notifications := lr_max_notifications rule,
               lr_enabled := lr_enabled rule\<rparr>
        else r) (al_rules t)\<rparr>))"

text \<open>The unique indexes allow one rule of an event for each upstream, and one for all of them.\<close>

definition CreateAlertRule :: "AlertRule \<Rightarrow> AlertTables \<Rightarrow> (store_error + int) \<times> AlertTables" where
  "CreateAlertRule rule t =
     (let i = al_next_rule t; t' = t\<lparr>al_next_rule := i + 1\<rparr>
      in if (lr_event rule, lr_upstream_id rule) \<in> (\<lambda>r. (lr_event r, lr_upstream_id r)) ` set (al_rules t)
        then (Inl SqlUniqueViolation, t')
         else if (case lr_upstream_id rule of None \<Rightarrow> False | Some u \<Rightarrow> u \<notin> ur_id ` set
           (al_upstreams t))
         then (Inl SqlForeignKeyViolation, t')
         else (Inr i, t'\<lparr>al_rules := al_rules t @ [rule\<lparr>lr_id := i\<rparr>]\<rparr>))"

definition DeleteAlertRule :: "int \<Rightarrow> AlertTables \<Rightarrow> store_error option \<times> AlertTables" where
  "DeleteAlertRule i t =
     (if \<exists>r \<in> set (al_rules t). lr_id r = i \<and> lr_upstream_id r \<noteq> None
      then (None, t\<lparr>al_rules := filter (\<lambda>r. \<not> (lr_id r = i \<and> lr_upstream_id r \<noteq> None))
        (al_rules t)\<rparr>)
      else (Some ErrNotFound, t))"

definition engine_rule :: "AlertRule \<Rightarrow> Rule" where
  "engine_rule r = \<lparr>ru_id = lr_id r, ru_event = lr_event r, ru_upstream_id = lr_upstream_id r, ru_threshold =
    lr_threshold r,
     ru_window = lr_window_seconds r * second, ru_cooldown = lr_cooldown_seconds r * second,
     ru_max_notifications = lr_max_notifications r, ru_enabled = lr_enabled r\<rparr>"

definition query_failed :: string where "query_failed = ''query failed''"

definition RepositoryListRules :: "'w AlertDb \<Rightarrow> 'w \<Rightarrow> (string + Rule list) \<times> 'w" where
  "RepositoryListRules db w =
     (case ad_query db w of
        (None, w) \<Rightarrow> (Inl query_failed, w)
      | (Some t, w) \<Rightarrow> (Inr (map engine_rule (ListAlertRules t)), w))"

definition threshold :: "Rule \<Rightarrow> rat \<Rightarrow> rat" where
  "threshold rule fallback = (case ru_threshold rule of None \<Rightarrow> fallback | Some x \<Rightarrow> x)"

definition windowSeconds :: "Rule \<Rightarrow> int" where
  "windowSeconds rule =
     (let seconds = sgn (ru_window rule) * (\<bar>ru_window rule\<bar> div second) in if seconds \<le> 0 then 300 else seconds)"

definition quiet_observation :: "string \<Rightarrow> Observation" where
  "quiet_observation key = \<lparr>on_evidence = None, on_key = key, on_active = False, on_ignore = False, on_hold =
    False, on_value = 0,
     on_message = [], on_recovery_message = [], on_upstream_id = 0, on_upstream_name = []\<rparr>"

section \<open>Balances\<close>

definition ListUpstreamRecords :: "AlertTables \<Rightarrow> UpstreamRecord list" where
  "ListUpstreamRecords t = sort_key (\<lambda>r. (us_priority (ur_upstream r), ur_id r)) (al_upstreams t)"

definition upstream_key :: "int \<Rightarrow> string" where "upstream_key i = ''upstream:'' @ show_int i"

definition overriddenUpstreams :: "'w AlertDb \<Rightarrow> Rule \<Rightarrow> 'w \<Rightarrow> (string + int list)
  \<times> 'w" where
  "overriddenUpstreams db rule w =
     (if ru_upstream_id rule \<noteq> None then (Inr [], w)
      else case ad_query db w of
        (None, w) \<Rightarrow> (Inl query_failed, w)
      | (Some t, w) \<Rightarrow>
          (Inr (List.map_filter lr_upstream_id (filter (\<lambda>r. lr_event r = ru_event rule \<and> lr_enabled r)
            (al_rules t))), w))"

text \<open>The amount, the currency and the threshold in a message.\<close>

definition amount_message :: "string \<Rightarrow> rat \<Rightarrow> string \<Rightarrow> string \<Rightarrow> rat
  \<Rightarrow> string" where
  "amount_message name amount currency relation limit =
     utf8 [0xE4, 0xB8, 0x8A, 0xE6, 0xB8, 0xB8, 0x20] @ name
     @ utf8 [0x20, 0xE5, 0xBD, 0x93, 0xE5, 0x89, 0x8D, 0xE4, 0xBD, 0x99, 0xE9, 0xA2, 0x9D, 0x20] @ show_fixed 2 amount @
       '' '' @ currency
     @ relation @ show_fixed 2 limit"

definition below_text :: string where "below_text = utf8 [0xEF, 0xBC, 0x8C, 0xE4, 0xBD, 0x8E, 0xE4, 0xBA, 0x8E, 0xE9,
  0x98, 0x88, 0xE5, 0x80, 0xBC, 0x20]"
definition above_text :: string where "above_text = utf8 [0xEF, 0xBC, 0x8C, 0xE5, 0xB7, 0xB2, 0xE9, 0xAB, 0x98, 0xE4,
  0xBA, 0x8E, 0xE9, 0x98, 0x88, 0xE5, 0x80, 0xBC, 0x20]"
definition reached_text :: string where "reached_text = utf8 [0xEF, 0xBC, 0x8C, 0xE5, 0xB7, 0xB2, 0xE8, 0xBE, 0xBE,
  0xE5, 0x88, 0xB0, 0xE9, 0x98, 0x88, 0xE5, 0x80, 0xBC, 0x20]"

definition status_message :: "string \<Rightarrow> string \<Rightarrow> string" where
  "status_message name status =
     utf8 [0xE4, 0xB8, 0x8A, 0xE6, 0xB8, 0xB8, 0x20] @ name
     @ utf8 [0x20, 0xE5, 0xBD, 0x93, 0xE5, 0x89, 0x8D, 0xE4, 0xBD, 0x99, 0xE9, 0xA2, 0x9D, 0xE7, 0x8A, 0xB6, 0xE6, 0x80,
       0x81, 0xEF, 0xBC, 0x9A] @ status"

definition unlimited_message :: "string \<Rightarrow> string" where
  "unlimited_message name =
     utf8 [0xE4, 0xB8, 0x8A, 0xE6, 0xB8, 0xB8, 0x20] @ name
     @ utf8 [0x20, 0xE4, 0xBD, 0x99, 0xE9, 0xA2, 0x9D, 0xE5, 0xB7, 0xB2, 0xE6, 0x81, 0xA2, 0xE5, 0xA4, 0x8D, 0xEF, 0xBC,
       0x8C, 0xE5, 0xBD, 0x93, 0xE5, 0x89, 0x8D, 0xE4, 0xB8, 0xBA, 0xE6, 0x97, 0xA0, 0xE9, 0x99, 0x90, 0xE9, 0xA2, 0x9D]"

definition low_balance_observation :: "rat \<Rightarrow> UpstreamRecord \<Rightarrow> Observation \<Rightarrow>
  Observation" where
  "low_balance_observation limit r ob =
     (let name = us_name (ur_upstream r); b = ur_balance r;
          ob = ob\<lparr>on_value := (case ba_available b of None \<Rightarrow> on_value ob | Some x \<Rightarrow> x)\<rparr>
      in if ba_status b \<noteq> ''ok'' \<or> (\<not> ba_unlimited b \<and> ba_available b = None)
         then ob\<lparr>on_ignore := True, on_message := status_message name (ba_status b)\<rparr>
         else
           let active = (ba_status b = ''ok'' \<and> \<not> ba_unlimited b \<and> (case ba_available b of None
             \<Rightarrow> False | Some x \<Rightarrow> x < limit));
               ob = ob\<lparr>on_active := active\<rparr>
           in if active then ob\<lparr>on_message := amount_message name (on_value ob) (ba_currency b) below_text limit\<rparr>
              else if ba_status b = ''ok'' \<and> ba_unlimited b
              then ob\<lparr>on_message := unlimited_message name, on_recovery_message := unlimited_message name\<rparr>
              else if ba_status b = ''ok'' \<and> ba_available b \<noteq> None
              then let m = amount_message name (on_value ob) (ba_currency b)
                         (if on_value ob > limit then above_text else reached_text) limit
                   in ob\<lparr>on_message := m, on_recovery_message := m\<rparr>
              else ob\<lparr>on_message := status_message name (ba_status b)\<rparr>)"

definition unavailable_observation :: "UpstreamRecord \<Rightarrow> Observation \<Rightarrow> Observation" where
  "unavailable_observation r ob =
     (let name = us_name (ur_upstream r); status = ba_status (ur_balance r);
          ob = (if status = ''unavailable'' then ob\<lparr>on_active := True, on_value := 1\<rparr>
                else if status = ''ok'' then ob\<lparr>on_recovery_message :=
                  utf8 [0xE4, 0xB8, 0x8A, 0xE6, 0xB8, 0xB8, 0x20] @ name
                  @ utf8 [0x20, 0xE4, 0xBD, 0x99, 0xE9, 0xA2, 0x9D, 0xE6, 0x9F, 0xA5, 0xE8, 0xAF, 0xA2, 0xE5, 0xB7,
                    0xB2, 0xE6, 0x81, 0xA2, 0xE5, 0xA4, 0x8D]\<rparr>
                else ob\<lparr>on_ignore := True\<rparr>)
      in ob\<lparr>on_message :=
        utf8 [0xE4, 0xB8, 0x8A, 0xE6, 0xB8, 0xB8, 0x20] @ name
        @ utf8 [0x20, 0xE4, 0xBD, 0x99, 0xE9, 0xA2, 0x9D, 0xE6, 0x9F, 0xA5, 0xE8, 0xAF, 0xA2, 0xE7, 0x8A, 0xB6, 0xE6,
          0x80, 0x81, 0xEF, 0xBC, 0x9A] @ status\<rparr>)"

definition balance_observation :: "Rule \<Rightarrow> UpstreamRecord \<Rightarrow> Observation" where
  "balance_observation rule r =
     (let ob = (quiet_observation (upstream_key (ur_id r)))\<lparr>on_upstream_id := ur_id r, on_upstream_name :=
       us_name (ur_upstream r)\<rparr>
      in if ru_event rule = EventLowBalance then low_balance_observation (threshold rule 5) r ob
         else unavailable_observation r ob)"

definition observeBalance :: "'w AlertDb \<Rightarrow> Rule \<Rightarrow> 'w \<Rightarrow> (string + Observation list)
  \<times> 'w" where
  "observeBalance db rule w =
     (case ad_query db w of
        (None, w) \<Rightarrow> (Inl query_failed, w)
      | (Some t, w) \<Rightarrow>
          (case overriddenUpstreams db rule w of
             (Inl e, w) \<Rightarrow> (Inl e, w)
           | (Inr overrides, w) \<Rightarrow>
               (Inr (map (balance_observation rule) (filter (\<lambda>r. us_enabled (ur_upstream r)
                   \<and> (case ru_upstream_id rule of Some i \<Rightarrow> ur_id r = i | None \<Rightarrow> ur_id r
                     \<notin> set overrides))
                 (ListUpstreamRecords t))), w)))"

section \<open>Error rates and latencies\<close>

definition AttemptFailureSQL :: "Attempt \<Rightarrow> string \<Rightarrow> bool" where
  "AttemptFailureSQL a final_error \<longleftrightarrow>
     (at_status_code a = 0 \<or> at_status_code a \<in> {401, 403, 404, 429} \<or> at_status_code a \<ge> 500 \<or>
       at_error a \<noteq> [])
     \<and> at_failure_class a \<notin> {''client'', ''gateway''}
     \<and> \<not> (at_failure_class a = [] \<and> final_error = ''client_closed''
          \<and> (at_status_code a = 0 \<or> (200 \<le> at_status_code a \<and> at_status_code a \<le> 399)))"

text \<open>The attempts of the requests of a window; the driver sends an instant in microseconds.\<close>

definition window_attempts :: "time \<Rightarrow> time \<Rightarrow> AlertTables \<Rightarrow> (RequestLog \<times>
  Attempt) list" where
  "window_attempts start end t =
     concat (map (\<lambda>l. map (Pair (sl_entry l)) (rl_attempts (sl_entry l)))
       (filter (\<lambda>l. round_us start \<le> rl_created_at (sl_entry l) \<and> rl_created_at (sl_entry l) < round_us
         end) (al_logs t)))"

record MetricRow =
  mr_attempts :: int
  mr_error_rate :: rat
  mr_latency :: "rat option"
  mr_failures :: int
  mr_recovered :: int
  mr_status_counts :: "(string \<times> int) list"
  mr_failed_request_ids :: "string list"

text \<open>What the query computes of the attempts on one upstream.\<close>

definition metric_row :: "(RequestLog \<times> Attempt) list \<Rightarrow> int \<Rightarrow> MetricRow" where
  "metric_row attempts u =
     (let mine = filter (\<lambda>(l, a). at_upstream_id a = u) attempts;
          failed = filter (\<lambda>(l, a). AttemptFailureSQL a (rl_error_code l)) mine;
          codes = map (\<lambda>(l, a). show_int (at_status_code a)) failed
      in \<lparr>mr_attempts = int (length mine),
          mr_error_rate = (if mine = [] then 0 else 100 * of_nat (length failed) / of_nat (length mine)),
          mr_latency = (if mine = [] then None
            else Some ((\<Sum>(l, a)\<leftarrow>mine. of_int (at_duration_ms a)) / of_nat (length mine))),
          mr_failures = int (length failed),
          mr_recovered = int (length (remdups (map (rl_request_id \<circ> fst)
            (filter (\<lambda>(l, a). 200 \<le> rl_status_code l \<and> rl_status_code l \<le> 399 \<and> rl_error_code
              l = []) failed)))),
          mr_status_counts = map (\<lambda>c. (c, int (count_list codes c))) (sort (remdups codes)),
          mr_failed_request_ids = take 100 (sort (remdups (map (rl_request_id \<circ> fst) failed)))\<rparr>)"

definition metric_upstreams :: "Rule \<Rightarrow> AlertTables \<Rightarrow> UpstreamRecord list" where
  "metric_upstreams rule t =
     (let u = (case ru_upstream_id rule of None \<Rightarrow> 0 | Some i \<Rightarrow> i)
      in filter (\<lambda>r. us_enabled (ur_upstream r) \<and> (u = 0 \<or> ur_id r = u)
          \<and> (u \<noteq> 0 \<or> \<not> (\<exists>ar \<in> set (al_rules t). lr_event ar = ru_event rule \<and>
            lr_upstream_id ar = Some (ur_id r) \<and> lr_enabled ar)))
        (sort_key ur_id (al_upstreams t)))"

definition reason_text :: "string \<times> int \<Rightarrow> string" where
  "reason_text = (\<lambda>(code, n). (if code = ''0'' then utf8 [0xE6, 0x97, 0xA0, 0x20, 0x48, 0x54, 0x54, 0x50, 0x20,
    0xE5, 0x93, 0x8D, 0xE5, 0xBA, 0x94] else ''HTTP '' @ code)
     @ utf8 [0x20, 0xC3, 0x97, 0x20] @ show_int n)"

definition reasons_text :: "(string \<times> int) list \<Rightarrow> string" where
  "reasons_text counts = join_strings (utf8 [0xE3, 0x80, 0x81])
     (if counts = [] then [utf8 [0xE6, 0x97, 0xA0]] else map reason_text counts)"

definition rate_message :: "time \<Rightarrow> time \<Rightarrow> MetricRow \<Rightarrow> rat \<Rightarrow> string" where
  "rate_message start end m limit =
     utf8 [0xE7, 0xBB, 0x9F, 0xE8, 0xAE, 0xA1, 0xE7, 0xAA, 0x97, 0xE5, 0x8F, 0xA3, 0xEF, 0xBC, 0x9A] @ instant_text (utc8 start)
     @ utf8 [0x20, 0xE8, 0x87, 0xB3, 0x20] @ clock_text (utc8 end)
     @ utf8 [0x20, 0x28, 0x55, 0x54, 0x43, 0x2B, 0x38, 0x29, 0x0A, 0xE8, 0xAF, 0xB7, 0xE6, 0xB1, 0x82, 0xE5, 0xB0, 0x9D,
       0xE8, 0xAF, 0x95, 0xEF, 0xBC, 0x9A] @ show_int (mr_attempts m)
     @ utf8 [0x20, 0xE6, 0xAC, 0xA1, 0xEF, 0xBC, 0x8C, 0xE5, 0xA4, 0xB1, 0xE8, 0xB4, 0xA5, 0x20] @ show_int (mr_failures m)
     @ utf8 [0x20, 0xE6, 0xAC, 0xA1, 0x0A, 0xE9, 0x94, 0x99, 0xE8, 0xAF, 0xAF, 0xE7, 0x8E, 0x87, 0xEF, 0xBC, 0x9A] @
       show_fixed 1 (mr_error_rate m)
     @ utf8 [0x25, 0xEF, 0xBC, 0x8C, 0xE9, 0x98, 0x88, 0xE5, 0x80, 0xBC, 0x20] @ show_fixed 1 limit
     @ utf8 [0x25, 0x0A, 0xE5, 0xA4, 0xB1, 0xE8, 0xB4, 0xA5, 0xE5, 0x8E, 0x9F, 0xE5, 0x9B, 0xA0, 0xEF, 0xBC, 0x9A] @
       reasons_text (mr_status_counts m)
     @ utf8 [0x0A, 0xE6, 0x9C, 0x80, 0xE7, 0xBB, 0x88, 0xE6, 0x88, 0x90, 0xE5, 0x8A, 0x9F, 0xEF, 0xBC, 0x9A] @ show_int
       (mr_recovered m)
     @ utf8 [0x20, 0xE4, 0xB8, 0xAA, 0xE5, 0x90, 0xAB, 0xE5, 0xA4, 0xB1, 0xE8, 0xB4, 0xA5, 0xE5, 0xB0, 0x9D, 0xE8, 0xAF,
       0x95, 0xE7, 0x9A, 0x84, 0xE8, 0xAF, 0xB7, 0xE6, 0xB1, 0x82, 0x0A, 0xE7, 0xBB, 0x9F, 0xE8, 0xAE, 0xA1, 0xE5, 0x8F,
       0xA3, 0xE5, 0xBE, 0x84, 0xEF, 0xBC, 0x9A, 0xE5, 0x8C, 0x85, 0xE5, 0x90, 0xAB, 0xE9, 0x87, 0x8D, 0xE8, 0xAF, 0x95,
       0xE4, 0xB8, 0x8E, 0xE5, 0x88, 0x87, 0xE6, 0x8D, 0xA2, 0xE5, 0x89, 0x8D, 0xE7, 0x9A, 0x84, 0xE5, 0xA4, 0xB1, 0xE8,
       0xB4, 0xA5, 0xEF, 0xBC, 0x9B, 0xE5, 0x9C, 0xA8, 0xE9, 0x80, 0x9A, 0xE7, 0x9F, 0xA5, 0xE8, 0xAE, 0xBE, 0xE7, 0xBD,
       0xAE, 0xE7, 0x9A, 0x84, 0xE5, 0x91, 0x8A, 0xE8, 0xAD, 0xA6, 0xE5, 0x8E, 0x86, 0xE5, 0x8F, 0xB2, 0xE4, 0xB8, 0xAD,
       0xE6, 0x9F, 0xA5, 0xE7, 0x9C, 0x8B, 0xE5, 0xAF, 0xB9, 0xE5, 0xBA, 0x94, 0xE8, 0xAF, 0xB7, 0xE6, 0xB1, 0x82]"

definition few_message :: "string \<Rightarrow> int \<Rightarrow> string" where
  "few_message name window =
     utf8 [0xE4, 0xB8, 0x8A, 0xE6, 0xB8, 0xB8, 0x20] @ name
     @ utf8 [0x20, 0xE6, 0x9C, 0x80, 0xE8, 0xBF, 0x91, 0x20] @ show_int window
     @ utf8 [0x20, 0xE7, 0xA7, 0x92, 0xE8, 0xAF, 0xB7, 0xE6, 0xB1, 0x82, 0xE6, 0xA0, 0xB7, 0xE6, 0x9C, 0xAC, 0xE4, 0xB8,
       0x8D, 0xE8, 0xB6, 0xB3, 0x20, 0x35, 0x20, 0xE6, 0xAC, 0xA1, 0xEF, 0xBC, 0x8C, 0xE6, 0x9A, 0x82, 0xE4, 0xB8, 0x8D,
       0xE5, 0x88, 0xA4, 0xE6, 0x96, 0xAD]"

definition latency_message :: "string \<Rightarrow> int \<Rightarrow> int \<Rightarrow> rat \<Rightarrow> string
  \<Rightarrow> rat \<Rightarrow> string" where
  "latency_message name window n latency relation limit =
     utf8 [0xE4, 0xB8, 0x8A, 0xE6, 0xB8, 0xB8, 0x20] @ name
     @ utf8 [0x20, 0xE6, 0x9C, 0x80, 0xE8, 0xBF, 0x91, 0x20] @ show_int window
     @ utf8 [0x20, 0xE7, 0xA7, 0x92, 0xE6, 0x94, 0xB6, 0xE5, 0x88, 0xB0, 0x20] @ show_int n
     @ utf8 [0x20, 0xE6, 0xAC, 0xA1, 0xE8, 0xAF, 0xB7, 0xE6, 0xB1, 0x82, 0xE5, 0xB0, 0x9D, 0xE8, 0xAF, 0x95, 0xEF, 0xBC,
       0x8C, 0xE5, 0xB9, 0xB3, 0xE5, 0x9D, 0x87, 0xE5, 0xBB, 0xB6, 0xE8, 0xBF, 0x9F, 0x20]
     @ (if latency < 1 then ''<1ms'' else show_fixed 0 latency @ ''ms'') @ relation @ show_fixed 0 limit @ ''ms''"

definition metric_observation :: "Rule \<Rightarrow> time \<Rightarrow> time \<Rightarrow> UpstreamRecord \<Rightarrow>
  MetricRow \<Rightarrow> Observation" where
  "metric_observation rule start end r m =
     (let i = ur_id r; name = us_name (ur_upstream r); window = windowSeconds rule;
          ob = (quiet_observation (upstream_key i))\<lparr>on_upstream_id := i, on_upstream_name := name\<rparr>;
          limit = threshold rule 20
      in if mr_attempts m < 5 \<or> (ru_event rule = EventLatency \<and> mr_latency m = None)
         then ob\<lparr>on_ignore := True, on_message := few_message name window\<rparr>
         else if ru_event rule = EventLatency
         then let latency = (case mr_latency m of None \<Rightarrow> 0 | Some x \<Rightarrow> x); limit = threshold rule
           30000; active = (latency \<ge> limit);
                  m = latency_message name window (mr_attempts m) latency
                    (if active then utf8 [0xEF, 0xBC, 0x8C, 0xE8, 0xBE, 0xBE, 0xE5, 0x88, 0xB0, 0xE9, 0x98, 0x88, 0xE5,
                      0x80, 0xBC, 0x20] else utf8 [0xEF, 0xBC, 0x8C, 0xE4, 0xBD, 0x8E, 0xE4, 0xBA, 0x8E, 0xE9, 0x98, 0x88,
                      0xE5, 0x80, 0xBC, 0x20]) limit
              in ob\<lparr>on_active := active, on_hold := (\<not> active \<and> latency \<ge> limit * (4 / 5)),
                on_value := latency,
                    on_message := m, on_recovery_message := (if active then [] else m)\<rparr>
         else let active = (mr_attempts m \<ge> 5 \<and> mr_error_rate m \<ge> limit)
              in ob\<lparr>on_evidence := Some \<lparr>me_failed_request_ids = mr_failed_request_ids m, me_window_start
                = start, me_window_end = end,
                      me_threshold = limit, me_attempts = mr_attempts m, me_failures = mr_failures m,
                      me_recovered_requests = mr_recovered m, me_status_counts = mr_status_counts m\<rparr>,
                    on_active := active, on_hold := (\<not> active \<and> mr_error_rate m \<ge> limit * (3 / 4)),
                      on_value := mr_error_rate m,
                    on_message := rate_message start end m limit\<rparr>)"

definition observeUpstreamMetrics :: "'w AlertDb \<Rightarrow> Rule \<Rightarrow> 'w \<Rightarrow> (string + Observation
  list) \<times> 'w" where
  "observeUpstreamMetrics db rule w =
     (case ad_clock db w of (end, w) \<Rightarrow>
      let start = end - windowSeconds rule * second
      in case ad_query db w of
        (None, w) \<Rightarrow> (Inl query_failed, w)
      | (Some t, w) \<Rightarrow>
          (Inr (map (\<lambda>r. metric_observation rule start end r (metric_row (window_attempts start end t) (ur_id r)))
             (metric_upstreams rule t)), w))"

section \<open>Clients and administrators\<close>

definition client_observation :: "Rule \<Rightarrow> AlertTables \<Rightarrow> KeyRow \<Rightarrow> Observation" where
  "client_observation rule t k =
     (let window = windowSeconds rule;
          logs = filter (\<lambda>l. sl_api_key l = Some (kr_id k) \<and> al_now t - window * second \<le> rl_created_at
            (sl_entry l)) (al_logs t);
          bad = filter (\<lambda>l. rl_status_code (sl_entry l) \<ge> 400 \<or> rl_error_code (sl_entry l) \<noteq> []) logs;
          rate = (if logs = [] then 0 else 100 * of_nat (length bad) / of_nat (length logs)) :: rat
      in (quiet_observation (''api_key:'' @ show_int (kr_id k)))\<lparr>
           on_active := (length logs \<ge> 10 \<and> rate \<ge> threshold rule 50), on_value := rate,
           on_message := utf8 [0xE5, 0xAE, 0xA2, 0xE6, 0x88, 0xB7, 0xE7, 0xAB, 0xAF, 0xE5, 0xAF, 0x86, 0xE9, 0x92, 0xA5,
             0x20] @ kr_name k
             @ utf8 [0x20, 0xE5, 0x9C, 0xA8, 0x20] @ show_int window
             @ utf8 [0x20, 0xE7, 0xA7, 0x92, 0xE5, 0x86, 0x85, 0xE9, 0x94, 0x99, 0xE8, 0xAF, 0xAF, 0xE7, 0x8E, 0x87,
               0xE4, 0xB8, 0xBA, 0x20] @ show_fixed 1 rate @ ''%''\<rparr>)"

definition observeClientErrors :: "'w AlertDb \<Rightarrow> Rule \<Rightarrow> 'w \<Rightarrow> (string + Observation
  list) \<times> 'w" where
  "observeClientErrors db rule w =
     (case ad_query db w of
        (None, w) \<Rightarrow> (Inl query_failed, w)
      | (Some t, w) \<Rightarrow> (Inr (map (client_observation rule t) (sort_key kr_id (filter kr_enabled (al_keys t)))), w))"

definition observeLoginFailures :: "'w AlertDb \<Rightarrow> Rule \<Rightarrow> 'w \<Rightarrow> (string + Observation
  list) \<times> 'w" where
  "observeLoginFailures db rule w =
     (case ad_query db w of
        (None, w) \<Rightarrow> (Inl query_failed, w)
      | (Some t, w) \<Rightarrow>
          (let window = windowSeconds rule;
               n = length (filter (\<lambda>a. lo_action a = ''admin.login_failed'' \<and> al_now t - window * second
                 \<le> lo_at a) (al_audit t))
           in (Inr [(quiet_observation ''admin:login_failures'')\<lparr>on_active := (of_nat n \<ge> threshold rule 5),
             on_value := of_nat n,
                 on_message := utf8 [0xE7, 0xAE, 0xA1, 0xE7, 0x90, 0x86, 0xE5, 0x91, 0x98, 0xE7, 0x99, 0xBB, 0xE5, 0xBD,
                   0x95, 0xE5, 0x9C, 0xA8, 0x20] @ show_int window
                   @ utf8 [0x20, 0xE7, 0xA7, 0x92, 0xE5, 0x86, 0x85, 0xE5, 0xA4, 0xB1, 0xE8, 0xB4, 0xA5, 0x20] @ show_nat n
                   @ utf8 [0x20, 0xE6, 0xAC, 0xA1]\<rparr>], w)))"

text \<open>\<open>ORDER BY created_at DESC LIMIT 1\<close>: of two rows of one instant the later one in the table, as a
  choice.\<close>

definition latest_login :: "LoginRow list \<Rightarrow> LoginRow option" where
  "latest_login rows = (case sort_key lo_at (filter (\<lambda>a. lo_action a = ''admin.login'') rows) of []
    \<Rightarrow> None | xs \<Rightarrow> Some (last xs))"

definition no_new_ip_message :: string where
  "no_new_ip_message = utf8 [0xE6, 0x9C, 0xAA, 0xE5, 0x8F, 0x91, 0xE7, 0x8E, 0xB0, 0xE6, 0x96, 0xB0, 0xE7, 0x9A, 0x84,
    0xE7, 0xAE, 0xA1, 0xE7, 0x90, 0x86, 0xE5, 0x91, 0x98, 0xE7, 0x99, 0xBB, 0xE5, 0xBD, 0x95, 0x20, 0x49, 0x50]"

definition observeNewLoginIP :: "'w AlertDb \<Rightarrow> Rule \<Rightarrow> 'w \<Rightarrow> (string + Observation
  list) \<times> 'w" where
  "observeNewLoginIP db rule w =
     (case ad_query db w of
        (None, w) \<Rightarrow> (Inl query_failed, w)
      | (Some t, w) \<Rightarrow>
          (case latest_login (al_audit t) of
             None \<Rightarrow> (Inr [(quiet_observation ''admin:new_login_ip'')\<lparr>on_message :=
               no_new_ip_message\<rparr>], w)
           | Some a \<Rightarrow>
               if lo_at a < al_now t - windowSeconds rule * second
               then (Inr [(quiet_observation ''admin:new_login_ip'')\<lparr>on_message := no_new_ip_message\<rparr>], w)
               else
                 let n = length (filter (\<lambda>p. lo_action p = ''admin.login'' \<and> lo_ip p = lo_ip a \<and> lo_at
                   p < lo_at a) (al_audit t))
                 in (Inr [(quiet_observation ''admin:new_login_ip'')\<lparr>on_active := (lo_ip a \<noteq> [] \<and> n =
                   0), on_value := of_nat n,
                      on_message := utf8 [0xE7, 0xAE, 0xA1, 0xE7, 0x90, 0x86, 0xE5, 0x91, 0x98, 0xE4, 0xBB, 0x8E, 0xE6,
                        0x96, 0xB0, 0xE7, 0x9A, 0x84, 0x20, 0x49, 0x50, 0x20, 0xE7, 0x99, 0xBB, 0xE5, 0xBD, 0x95, 0xEF,
                        0xBC, 0x9A] @ lo_ip a\<rparr>], w)))"

definition EventClientErrorRate :: string where "EventClientErrorRate = ''client_error_rate''"
definition EventLoginFailure :: string where "EventLoginFailure = ''login_failure''"
definition EventNewLoginIP :: string where "EventNewLoginIP = ''new_login_ip''"

definition RepositoryObserve :: "'w AlertDb \<Rightarrow> Rule \<Rightarrow> 'w \<Rightarrow> (string + Observation
  list) \<times> 'w" where
  "RepositoryObserve db rule w =
     (if ru_event rule \<in> {EventLowBalance, EventBalanceUnavailable} then observeBalance db rule w
      else if ru_event rule \<in> {EventErrorRate, EventLatency} then observeUpstreamMetrics db rule w
      else if ru_event rule = EventClientErrorRate then observeClientErrors db rule w
      else if ru_event rule = EventLoginFailure then observeLoginFailures db rule w
      else if ru_event rule = EventNewLoginIP then observeNewLoginIP db rule w
      else (Inl (''unsupported alert event '' @ ru_event rule), w))"

section \<open>The handlers of rules\<close>

definition validAlertRule :: "AlertRule \<Rightarrow> bool \<Rightarrow> bool" where
  "validAlertRule rule creating =
     (if creating \<and> (lr_event rule \<notin> {''low_balance'', ''balance_unavailable'', ''error_rate'', ''latency''}
          \<or> (case lr_upstream_id rule of None \<Rightarrow> True | Some i \<Rightarrow> i \<le> 0)) then False
      else (case lr_threshold rule of None \<Rightarrow> False | Some x \<Rightarrow> x \<ge> 0)
        \<and> lr_window_seconds rule \<ge> 60 \<and> lr_window_seconds rule \<le> 86400
        \<and> lr_cooldown_seconds rule \<ge> 60 \<and> lr_cooldown_seconds rule \<le> 604800
        \<and> (lr_max_notifications rule = 0 \<or> (lr_max_notifications rule \<ge> 1 \<and> lr_max_notifications rule
          \<le> 100)))"

definition counted_rule :: "AlertRule \<Rightarrow> AlertRule" where
  "counted_rule rule = (if lr_max_notifications rule = 0 then rule\<lparr>lr_max_notifications := 3\<rparr> else rule)"

text \<open>A reply carries the audit row that is written with it.\<close>

definition createAlertRule :: "AlertRule option \<Rightarrow> AlertTables \<Rightarrow> reply \<times> (string \<times>
  int) option \<times> AlertTables" where
  "createAlertRule input t =
     (case input of
        None \<Rightarrow> ((400, ''invalid_alert_rule''), None, t)
      | Some rule \<Rightarrow>
          if \<not> validAlertRule rule True then ((400, ''invalid_alert_rule''), None, t)
          else case CreateAlertRule (counted_rule rule) t of
            (Inl e, t) \<Rightarrow> (writeStoreError e, None, t)
          | (Inr i, t) \<Rightarrow> ((201, []), Some (''alert_rule.create'', i), t))"

definition updateAlertRule :: "string \<Rightarrow> AlertRule option \<Rightarrow> AlertTables \<Rightarrow> reply
  \<times> (string \<times> int) option \<times> AlertTables" where
  "updateAlertRule path input t =
     (case pathID path of
        None \<Rightarrow> ((400, ''invalid_id''), None, t)
      | Some i \<Rightarrow>
          (case input of
             None \<Rightarrow> ((400, ''invalid_alert_rule''), None, t)
           | Some rule \<Rightarrow>
               if \<not> validAlertRule rule False then ((400, ''invalid_alert_rule''), None, t)
               else case UpdateAlertRule ((counted_rule rule)\<lparr>lr_id := i\<rparr>) t of
                 (Some e, t) \<Rightarrow> (writeStoreError e, None, t)
               | (None, t) \<Rightarrow> ((200, []), Some (''alert_rule.update'', i), t)))"

definition deleteAlertRule :: "string \<Rightarrow> AlertTables \<Rightarrow> reply \<times> (string \<times> int)
  option \<times> AlertTables" where
  "deleteAlertRule path t =
     (case pathID path of
        None \<Rightarrow> ((400, ''invalid_id''), None, t)
      | Some i \<Rightarrow>
          (case DeleteAlertRule i t of
             (Some e, t) \<Rightarrow> (writeStoreError e, None, t)
           | (None, t) \<Rightarrow> ((204, []), Some (''alert_rule.delete'', i), t)))"

end
