(* ===== verification/Alert_Correct.thy ===== *)
theory Alert_Correct
  imports Alert_Observe
begin

text \<open>
  What the alert rules guarantee: the rules an administrator can reach, which rule watches which upstream, what an
  error rate says, and that one evaluation of all rules announces an event of an upstream at most once.
\<close>

section \<open>The rules administrators can reach\<close>

definition upstream_events :: "string set" where
  "upstream_events = {EventLowBalance, EventBalanceUnavailable, EventErrorRate, EventLatency}"

lemma upstream_events_text: "upstream_events = {''low_balance'', ''balance_unavailable'', ''error_rate'', ''latency''}"
  by (simp add: upstream_events_def EventLowBalance_def EventBalanceUnavailable_def EventErrorRate_def EventLatency_def)

definition rule_pair :: "AlertRule \<Rightarrow> string \<times> int option" where
  "rule_pair r = (lr_event r, lr_upstream_id r)"

definition rule_ok :: "int set \<Rightarrow> AlertRule \<Rightarrow> bool" where
  "rule_ok upstreams r \<longleftrightarrow>
     (case lr_threshold r of None \<Rightarrow> False | Some x \<Rightarrow> 0 \<le> x) \<and> between 60 86400 (lr_window_seconds r)
     \<and> between 60 604800 (lr_cooldown_seconds r) \<and> between 1 100 (lr_max_notifications r)
     \<and> (case lr_upstream_id r of None \<Rightarrow> True | Some i \<Rightarrow> 0 < i \<and> i \<in> upstreams \<and> lr_event r \<in> upstream_events)"

definition rules_ok :: "AlertTables \<Rightarrow> bool" where
  "rules_ok t \<longleftrightarrow> distinct (map rule_pair (al_rules t)) \<and> distinct (map lr_id (al_rules t))
     \<and> (\<forall>r \<in> set (al_rules t). lr_id r < al_next_rule t \<and> rule_ok (ur_id ` set (al_upstreams t)) r)"

definition global_rules :: "AlertTables \<Rightarrow> (int \<times> string) list" where
  "global_rules t = map (\<lambda>r. (lr_id r, lr_event r)) (filter (\<lambda>r. lr_upstream_id r = None) (al_rules t))"

text \<open>Requests of administrators in any order; deleting an upstream deletes its rules (\<open>ON DELETE CASCADE\<close>).\<close>

inductive rule_step :: "AlertTables \<Rightarrow> AlertTables \<Rightarrow> bool" where
  rule_created: "createAlertRule input t = (reply, row, t') \<Longrightarrow> rule_step t t'"
| rule_updated: "updateAlertRule path input t = (reply, row, t') \<Longrightarrow> rule_step t t'"
| rule_deleted: "deleteAlertRule path t = (reply, row, t') \<Longrightarrow> rule_step t t'"
| upstream_deleted: "rule_step t (t\<lparr>al_upstreams := filter (\<lambda>r. ur_id r \<noteq> i) (al_upstreams t),
    al_rules := filter (\<lambda>r. lr_upstream_id r \<noteq> Some i) (al_rules t)\<rparr>)"
| tables_grown: "ur_id ` set (al_upstreams t) \<subseteq> ur_id ` set rows \<Longrightarrow>
    rule_step t (t\<lparr>al_upstreams := rows, al_logs := logs, al_keys := ks, al_audit := audits, al_now := now\<rparr>)"

inductive rule_reach :: "AlertTables \<Rightarrow> AlertTables \<Rightarrow> bool" for t0 where
  rule_start: "rule_reach t0 t0"
| rule_more: "rule_reach t0 t \<Longrightarrow> rule_step t t' \<Longrightarrow> rule_reach t0 t'"

lemma rule_upstream:
  assumes "rules_ok t" "r \<in> set (al_rules t)" "lr_upstream_id r = Some i"
  shows "0 < i" "i \<in> ur_id ` set (al_upstreams t)" "lr_event r \<in> upstream_events"
proof -
  have "rule_ok (ur_id ` set (al_upstreams t)) r" using assms(1,2) by (simp add: rules_ok_def)
  then show "0 < i" "i \<in> ur_id ` set (al_upstreams t)" "lr_event r \<in> upstream_events"
    using assms(3) by (simp_all add: rule_ok_def)
qed

lemma distinct_map_filter_rules: "distinct (map f rs) \<Longrightarrow> distinct (map f (filter P rs))"
  by (induction rs) auto

lemma counted_rule_ok:
  assumes "validAlertRule rule creating" "creating \<Longrightarrow> lr_upstream_id rule \<in> Some ` us"
  shows "between 1 100 (lr_max_notifications (counted_rule rule))" "creating \<Longrightarrow> rule_ok us (counted_rule rule)"
    "between 60 86400 (lr_window_seconds rule)" "between 60 604800 (lr_cooldown_seconds rule)"
    "case lr_threshold rule of None \<Rightarrow> False | Some x \<Rightarrow> 0 \<le> x"
  using assms
  by (auto simp: validAlertRule_def counted_rule_def rule_ok_def between_def upstream_events_text split: if_splits option.splits)

lemma rule_ok_mono: "rule_ok us r \<Longrightarrow> us \<subseteq> us' \<Longrightarrow> rule_ok us' r"
  by (auto simp: rule_ok_def split: option.splits)

lemma counted_rule_keeps [simp]:
  "lr_event (counted_rule r) = lr_event r" "lr_upstream_id (counted_rule r) = lr_upstream_id r"
  "lr_window_seconds (counted_rule r) = lr_window_seconds r" "lr_cooldown_seconds (counted_rule r) = lr_cooldown_seconds r"
  "lr_threshold (counted_rule r) = lr_threshold r" "lr_id (counted_rule r) = lr_id r"
  by (simp_all add: counted_rule_def)

lemma create_rule_ok:
  assumes "createAlertRule input t = (reply, row, t')" "rules_ok t"
  shows "rules_ok t' \<and> global_rules t' = global_rules t"
proof -
  let ?us = "ur_id ` set (al_upstreams t)" and ?i = "al_next_rule t"
  consider "al_rules t' = al_rules t" "al_upstreams t' = al_upstreams t" "al_next_rule t \<le> al_next_rule t'"
    | rule u where "validAlertRule rule True" "rule_pair rule \<notin> rule_pair ` set (al_rules t)" "lr_upstream_id rule = Some u" "u \<in> ?us"
      "t' = t\<lparr>al_next_rule := ?i + 1, al_rules := al_rules t @ [(counted_rule rule)\<lparr>lr_id := ?i\<rparr>]\<rparr>"
  proof (cases "\<exists>rule. input = Some rule \<and> validAlertRule rule True")
    case True
    then obtain rule u where r: "input = Some rule" "validAlertRule rule True" "lr_upstream_id rule = Some u"
      by (cases "lr_upstream_id (the input)") (auto simp: validAlertRule_def)
    show thesis
    proof (cases "rule_pair rule \<notin> rule_pair ` set (al_rules t) \<and> u \<in> ?us")
      case True
      then have "t' = t\<lparr>al_next_rule := ?i + 1, al_rules := al_rules t @ [(counted_rule rule)\<lparr>lr_id := ?i\<rparr>]\<rparr>"
        using assms(1) r by (simp add: createAlertRule_def CreateAlertRule_def Let_def rule_pair_def [abs_def])
      then show thesis using that(2) r True by blast
    next
      case False
      then have "t' = t\<lparr>al_next_rule := ?i + 1\<rparr>"
        using assms(1) r by (auto simp: createAlertRule_def CreateAlertRule_def Let_def rule_pair_def [abs_def] split: if_splits)
      then show thesis using that(1) by simp
    qed
  next
    case False
    then have "t' = t" using assms(1) by (simp add: createAlertRule_def split: option.splits if_splits)
    then show thesis using that(1) by simp
  qed
  then show ?thesis
  proof cases
    case 1
    then show ?thesis using assms(2) by (fastforce simp: rules_ok_def global_rules_def)
  next
    case (2 rule u)
    have "rule_ok ?us ((counted_rule rule)\<lparr>lr_id := ?i\<rparr>)" using counted_rule_ok(2) [OF 2(1), of ?us] 2(3,4) by (simp add: rule_ok_def)
    moreover have "rule_pair ((counted_rule rule)\<lparr>lr_id := ?i\<rparr>) = rule_pair rule" by (simp add: rule_pair_def)
    ultimately show ?thesis
      using assms(2) 2(2,3) by (force simp: rules_ok_def 2(5) global_rules_def)
  qed
qed

definition edited :: "AlertRule \<Rightarrow> AlertRule \<Rightarrow> AlertRule" where
  "edited rule r = (if lr_id r = lr_id rule then r\<lparr>lr_threshold := lr_threshold rule, lr_window_seconds := lr_window_seconds rule,
     lr_cooldown_seconds := lr_cooldown_seconds rule, lr_max_notifications := lr_max_notifications rule, lr_enabled := lr_enabled rule\<rparr>
   else r)"

lemma edited_keeps [simp]:
  "lr_id (edited rule r) = lr_id r" "lr_event (edited rule r) = lr_event r" "lr_upstream_id (edited rule r) = lr_upstream_id r"
  "rule_pair (edited rule r) = rule_pair r"
  by (simp_all add: edited_def rule_pair_def)

lemma UpdateAlertRule_edits:
  "UpdateAlertRule rule t = (if lr_id rule \<notin> lr_id ` set (al_rules t) then (Some ErrNotFound, t)
     else (None, t\<lparr>al_rules := map (edited rule) (al_rules t)\<rparr>))"
  by (simp add: UpdateAlertRule_def edited_def [abs_def])

lemma update_rule_ok:
  assumes "updateAlertRule path input t = (reply, row, t')" "rules_ok t"
  shows "rules_ok t' \<and> global_rules t' = global_rules t"
proof (cases "t' = t")
  case False
  obtain rule i where rule: "validAlertRule rule False"
    and t': "t' = t\<lparr>al_rules := map (edited ((counted_rule rule)\<lparr>lr_id := i\<rparr>)) (al_rules t)\<rparr>"
    using assms(1) False
    by (auto simp: updateAlertRule_def UpdateAlertRule_edits split: option.splits if_splits prod.splits)
  let ?e = "edited ((counted_rule rule)\<lparr>lr_id := i\<rparr>)"
  have "rule_ok us (?e r)" if "rule_ok us r" for us r
    using that counted_rule_ok(1,3,4,5) [OF rule]
    by (cases "lr_upstream_id r"; cases "lr_id r = i") (simp_all add: rule_ok_def edited_def)
  moreover have "map rule_pair (map ?e rs) = map rule_pair rs" "map lr_id (map ?e rs) = map lr_id rs" for rs by simp_all
  moreover have "map (\<lambda>r. (lr_id r, lr_event r)) (filter (\<lambda>r. lr_upstream_id r = None) (map ?e rs))
      = map (\<lambda>r. (lr_id r, lr_event r)) (filter (\<lambda>r. lr_upstream_id r = None) rs)" for rs
    by (induction rs) simp_all
  ultimately show ?thesis using assms(2) by (auto simp: rules_ok_def t' global_rules_def simp del: map_map)
qed (use assms in simp)

lemma removed_rules_ok:
  assumes "rules_ok t" "\<And>r. lr_upstream_id r = None \<Longrightarrow> P r" "\<And>r. P r \<Longrightarrow> r \<in> set (al_rules t) \<Longrightarrow> lr_upstream_id r \<in> Some ` ur_id ` set rows \<or> lr_upstream_id r = None"
  shows "rules_ok (t\<lparr>al_rules := filter P (al_rules t), al_upstreams := rows\<rparr>)
    \<and> global_rules (t\<lparr>al_rules := filter P (al_rules t), al_upstreams := rows\<rparr>) = global_rules t"
proof -
  have "rule_ok (ur_id ` set rows) r" if "r \<in> set (al_rules t)" "P r" for r
    using assms(1) assms(3) [OF that(2,1)] that(1) by (auto simp: rules_ok_def rule_ok_def split: option.splits)
  moreover have "filter (\<lambda>r. lr_upstream_id r = None) (filter P rs) = filter (\<lambda>r. lr_upstream_id r = None) rs" for rs
    using assms(2) by (induction rs) auto
  ultimately show ?thesis
    using assms(1) by (simp add: rules_ok_def global_rules_def distinct_map_filter_rules del: filter_filter)
qed

lemma rule_step_ok: "rule_step t t' \<Longrightarrow> rules_ok t \<Longrightarrow> rules_ok t' \<and> global_rules t' = global_rules t"
proof (induction rule: rule_step.induct)
  case (rule_deleted path t reply row t')
  show ?case
  proof (cases "t' = t")
    case False
    then obtain i where "t' = t\<lparr>al_rules := filter (\<lambda>r. \<not> (lr_id r = i \<and> lr_upstream_id r \<noteq> None)) (al_rules t), al_upstreams := al_upstreams t\<rparr>"
      using rule_deleted(1) by (auto simp: deleteAlertRule_def DeleteAlertRule_def split: option.splits if_splits prod.splits)
    moreover have "lr_upstream_id r \<in> Some ` ur_id ` set (al_upstreams t) \<or> lr_upstream_id r = None" if "r \<in> set (al_rules t)" for r
      using rule_upstream(2) [OF rule_deleted.prems that] by (cases "lr_upstream_id r") simp_all
    ultimately show ?thesis using removed_rules_ok [OF rule_deleted.prems, of "\<lambda>r. \<not> (lr_id r = i \<and> lr_upstream_id r \<noteq> None)" "al_upstreams t"] by simp
  qed (use rule_deleted in simp)
next
  case (upstream_deleted t i)
  have eq: "t\<lparr>al_upstreams := filter (\<lambda>r. ur_id r \<noteq> i) (al_upstreams t), al_rules := filter (\<lambda>r. lr_upstream_id r \<noteq> Some i) (al_rules t)\<rparr>
    = t\<lparr>al_rules := filter (\<lambda>r. lr_upstream_id r \<noteq> Some i) (al_rules t), al_upstreams := filter (\<lambda>r. ur_id r \<noteq> i) (al_upstreams t)\<rparr>"
    by simp
  have "lr_upstream_id r \<in> Some ` ur_id ` set (filter (\<lambda>r. ur_id r \<noteq> i) (al_upstreams t)) \<or> lr_upstream_id r = None"
    if "lr_upstream_id r \<noteq> Some i" "r \<in> set (al_rules t)" for r
    using rule_upstream(2) [OF upstream_deleted that(2)] that(1) by (cases "lr_upstream_id r") auto
  then show ?case
    unfolding eq by (intro removed_rules_ok [OF upstream_deleted]) simp_all
next
  case (tables_grown t rows logs ks audits now)
  then show ?case by (auto simp: rules_ok_def global_rules_def dest: rule_ok_mono)
qed (use create_rule_ok update_rule_ok in blast)+

text \<open>
  C17: whatever administrators do to the alert rules, every event has at most one rule for each upstream and one for all of
  them, every rule has a threshold and stays within the ranges of the handlers, and the rules for all upstreams are
  neither added nor deleted.
\<close>

theorem alert_rules_stay_valid:
  assumes "rule_reach t0 t" "rules_ok t0"
  shows "distinct (map (\<lambda>r. (lr_event r, lr_upstream_id r)) (al_rules t))
    \<and> (\<forall>r \<in> set (al_rules t). rule_ok (ur_id ` set (al_upstreams t)) r)
    \<and> map (\<lambda>r. (lr_id r, lr_event r)) (filter (\<lambda>r. lr_upstream_id r = None) (al_rules t))
      = map (\<lambda>r. (lr_id r, lr_event r)) (filter (\<lambda>r. lr_upstream_id r = None) (al_rules t0))"
proof -
  have "rules_ok t \<and> global_rules t = global_rules t0"
    using assms(1) by induction (use assms(2) rule_step_ok in auto)
  then show ?thesis by (simp add: rules_ok_def global_rules_def rule_pair_def [abs_def])
qed


section \<open>Which rule watches which upstream\<close>

text \<open>The repository over tables that stay as they are while the rules are evaluated; its statements may fail.\<close>

definition steady_db :: "AlertTables \<Rightarrow> AlertWorld AlertDb" where
  "steady_db t = \<lparr>ad_query = (\<lambda>w. case db_fault w of (Some _, w) \<Rightarrow> (None, w) | (None, w) \<Rightarrow> (Some t, w)), ad_clock = read_clock\<rparr>"

definition live_repository :: "(string list option \<Rightarrow> string list option) \<Rightarrow> AlertTables \<Rightarrow> AlertWorld AlertRepository" where
  "live_repository pq t = (alert_repository pq)\<lparr>ar_list_rules := RepositoryListRules (steady_db t),
     ar_observe := RepositoryObserve (steady_db t)\<rparr>"

text \<open>The upstreams a rule watches.\<close>

definition watched :: "AlertTables \<Rightarrow> AlertRule \<Rightarrow> int \<Rightarrow> bool" where
  "watched t rule u \<longleftrightarrow> (\<exists>r \<in> set (al_upstreams t). ur_id r = u \<and> us_enabled (ur_upstream r))
     \<and> (case lr_upstream_id rule of Some i \<Rightarrow> u = i
        | None \<Rightarrow> \<not> (\<exists>ar \<in> set (al_rules t). rule_pair ar = (lr_event rule, Some u) \<and> lr_enabled ar))"

lemma on_upstream_id_balance [simp]: "on_upstream_id (balance_observation rule r) = ur_id r"
  by (simp add: balance_observation_def low_balance_observation_def unavailable_observation_def Let_def)

lemma on_upstream_id_metric [simp]: "on_upstream_id (metric_observation rule start end r m) = ur_id r"
  by (simp add: metric_observation_def Let_def)

lemma steady_query: "ad_query (steady_db t) w = (r, w') \<Longrightarrow> (r = None \<or> r = Some t) \<and> aw_sent w' = aw_sent w"
  by (auto simp: steady_db_def db_fault_def split: list.splits option.splits prod.splits)

lemma engine_rule_simps [simp]:
  "ru_event (engine_rule r) = lr_event r" "ru_upstream_id (engine_rule r) = lr_upstream_id r"
  "ru_enabled (engine_rule r) = lr_enabled r" "ru_threshold (engine_rule r) = lr_threshold r" "ru_id (engine_rule r) = lr_id r"
  by (simp_all add: engine_rule_def)

lemma overridden_ids:
  assumes "overriddenUpstreams (steady_db t) (engine_rule rule) w = (Inr ids, w')"
  shows "aw_sent w' = aw_sent w" "lr_upstream_id rule = None \<Longrightarrow>
    u \<in> set ids \<longleftrightarrow> (\<exists>ar \<in> set (al_rules t). rule_pair ar = (lr_event rule, Some u) \<and> lr_enabled ar)"
proof -
  have "\<And>x. x \<in> set (List.map_filter lr_upstream_id rs) \<longleftrightarrow> (\<exists>r \<in> set rs. lr_upstream_id r = Some x)" for rs
    by (auto simp: List.map_filter_def image_iff)
  note members = this
  obtain q w1 where q: "ad_query (steady_db t) w = (q, w1)" by fastforce
  note known = steady_query [OF q]
  show "aw_sent w' = aw_sent w" using assms q known by (auto simp: overriddenUpstreams_def split: option.splits if_splits)
  assume "lr_upstream_id rule = None"
  then have "ids = List.map_filter lr_upstream_id (filter (\<lambda>r. lr_event r = lr_event rule \<and> lr_enabled r) (al_rules t))"
    using assms q known by (auto simp: overriddenUpstreams_def split: option.splits)
  then show "u \<in> set ids \<longleftrightarrow> (\<exists>ar \<in> set (al_rules t). rule_pair ar = (lr_event rule, Some u) \<and> lr_enabled ar)"
    by (auto simp: members rule_pair_def)
qed

lemma observeBalance_outcome:
  assumes "observeBalance (steady_db t) rule w = (Inr obs, w')"
  obtains w1 ids where "overriddenUpstreams (steady_db t) rule w1 = (Inr ids, w')" "aw_sent w1 = aw_sent w"
    "obs = map (balance_observation rule) (filter (\<lambda>r. us_enabled (ur_upstream r)
      \<and> (case ru_upstream_id rule of Some i \<Rightarrow> ur_id r = i | None \<Rightarrow> ur_id r \<notin> set ids)) (ListUpstreamRecords t))"
proof -
  obtain q w1 where q: "ad_query (steady_db t) w = (q, w1)" by fastforce
  obtain r w2 where r: "overriddenUpstreams (steady_db t) rule w1 = (r, w2)" by fastforce
  have "q = Some t" "aw_sent w1 = aw_sent w" using steady_query [OF q] assms q by (auto simp: observeBalance_def)
  moreover obtain ids where "r = Inr ids" using assms q r by (cases r) (auto simp: observeBalance_def split: option.splits)
  ultimately show thesis using assms q r by (intro that [of w1 ids]) (simp_all add: observeBalance_def)
qed

lemma observe_ids:
  assumes "RepositoryObserve (steady_db t) (engine_rule rule) w = (Inr obs, w')" "lr_event rule \<in> upstream_events"
    and "distinct (map ur_id (al_upstreams t))" "lr_upstream_id rule \<noteq> Some 0"
  shows "distinct (map on_upstream_id obs) \<and> set (map on_upstream_id obs) = {u. watched t rule u}"
proof (cases "lr_event rule \<in> {EventLowBalance, EventBalanceUnavailable}")
  case True
  have "observeBalance (steady_db t) (engine_rule rule) w = (Inr obs, w')" using assms(1) True by (auto simp: RepositoryObserve_def)
  then obtain ids w1 where ids: "overriddenUpstreams (steady_db t) (engine_rule rule) w1 = (Inr ids, w')"
    and obs: "obs = map (balance_observation (engine_rule rule)) (filter (\<lambda>r. us_enabled (ur_upstream r)
      \<and> (case lr_upstream_id rule of Some i \<Rightarrow> ur_id r = i | None \<Rightarrow> ur_id r \<notin> set ids)) (ListUpstreamRecords t))"
    by (rule observeBalance_outcome) simp
  have "map on_upstream_id obs = map ur_id (filter (\<lambda>r. us_enabled (ur_upstream r)
      \<and> (case lr_upstream_id rule of Some i \<Rightarrow> ur_id r = i | None \<Rightarrow> ur_id r \<notin> set ids)) (ListUpstreamRecords t))"
    by (simp add: obs comp_def)
  moreover have "distinct (map ur_id (ListUpstreamRecords t))"
    using assms(3) by (simp add: ListUpstreamRecords_def distinct_map)
  moreover have "set (ListUpstreamRecords t) = set (al_upstreams t)" by (simp add: ListUpstreamRecords_def)
  ultimately show ?thesis
    using overridden_ids(2) [OF ids] by (cases "lr_upstream_id rule") (auto simp: distinct_map_filter watched_def)
next
  case False
  then have ev: "lr_event rule \<in> {EventErrorRate, EventLatency}" using assms(2) by (simp add: upstream_events_def)
  obtain start end' where obs: "obs = map (\<lambda>r. metric_observation (engine_rule rule) start end' r
      (metric_row (window_attempts start end' t) (ur_id r))) (metric_upstreams (engine_rule rule) t)"
    using assms(1) False ev
    by (auto simp: RepositoryObserve_def observeUpstreamMetrics_def Let_def split: option.splits prod.splits dest: steady_query)
  have "map on_upstream_id obs = map ur_id (metric_upstreams (engine_rule rule) t)" by (simp add: obs comp_def)
  moreover have "distinct (map ur_id (metric_upstreams (engine_rule rule) t))"
    unfolding metric_upstreams_def Let_def
    by (rule distinct_map_filter_rules) (use assms(3) in \<open>simp add: distinct_map\<close>)
  moreover have "set (map ur_id (metric_upstreams (engine_rule rule) t)) = {u. watched t rule u}"
    using assms(4) by (cases "lr_upstream_id rule") (auto simp: metric_upstreams_def Let_def watched_def rule_pair_def)
  ultimately show ?thesis by simp
qed


section \<open>One evaluation of all rules\<close>

lemma live_simps [simp]:
  "ar_observe (live_repository pq t) = RepositoryObserve (steady_db t)"
  "ar_list_rules (live_repository pq t) = RepositoryListRules (steady_db t)"
  "ar_load_state (live_repository pq t) = AlertState" "ar_save_state (live_repository pq t) = SaveAlertState"
  "ar_prune_states (live_repository pq t) = PruneAlertStates pq" "ar_notify (live_repository pq t) = Some queue_event"
  "ar_now (live_repository pq t) = read_clock"
  by (simp_all add: live_repository_def)

lemma read_clock_sent: "read_clock w = (now, w') \<Longrightarrow> aw_sent w' = aw_sent w"
  by (auto simp: read_clock_def split: list.splits)

lemma db_fault_sent: "db_fault w = (r, w') \<Longrightarrow> aw_sent w' = aw_sent w"
  by (auto simp: db_fault_def split: list.splits)

lemma observe_sent:
  assumes "RepositoryObserve (steady_db t) rule w = (r, w')"
  shows "aw_sent w' = aw_sent w"
proof -
  have clock: "ad_clock (steady_db t) = read_clock" by (simp add: steady_db_def)
  have over: "aw_sent w2 = aw_sent w1" if "overriddenUpstreams (steady_db t) rule w1 = (x, w2)" for w1 x w2
    using that by (auto simp: overriddenUpstreams_def split: option.splits prod.splits if_splits dest!: steady_query)
  show ?thesis
    using assms unfolding RepositoryObserve_def
    by (auto simp: observeBalance_def observeUpstreamMetrics_def observeClientErrors_def observeLoginFailures_def observeNewLoginIP_def
        Let_def clock split: if_splits option.splits prod.splits sum.splits dest!: steady_query read_clock_sent over)
qed

definition announced :: "Event \<Rightarrow> string \<times> int" where
  "announced e = (ev_type e, ev_upstream_id e)"

lemma alert_event_announced [simp]: "announced (alert_event rule ob pa s n now) = (ru_event rule, on_upstream_id ob)"
  by (simp add: announced_def alert_event_def Let_def)

lemma queue_event_sent:
  "queue_event e w = (r, w') \<Longrightarrow> aw_sent w' = aw_sent w @ (if r = None then [e] else [])"
  by (auto simp: queue_event_def split: list.splits option.splits)

lemma save_sent: "SaveAlertState i k s w = (r, w') \<Longrightarrow> aw_sent w' = aw_sent w"
  by (auto simp: SaveAlertState_def split: option.splits prod.splits dest: db_fault_sent)

lemma load_sent: "AlertState i k w = (r, w') \<Longrightarrow> aw_sent w' = aw_sent w"
  by (auto simp: AlertState_def split: option.splits prod.splits dest: db_fault_sent)

lemma handle_sends:
  assumes "handle (live_repository pq t) rule ob w = (err, w')"
  shows "\<exists>evs. aw_sent w' = aw_sent w @ evs \<and> subseq (map announced evs) [(ru_event rule, on_upstream_id ob)]"
proof (cases "on_key ob = []")
  case True
  then show ?thesis using assms by (auto simp: handle_def)
next
  case False
  obtain lr w1 where ld: "AlertState (ru_id rule) (on_key ob) w = (lr, w1)" by fastforce
  show ?thesis
  proof (cases lr)
    case (Inl e)
    then show ?thesis using assms False ld load_sent [OF ld] by (auto simp: handle_def)
  next
    case (Inr sf)
    obtain s found where lr: "lr = Inr (s, found)" using Inr by (cases sf) auto
    obtain now w2 where cl: "read_clock w1 = (now, w2)" by fastforce
    obtain n s1 where obs: "Observe s now (on_active ob) (on_ignore ob) (on_hold ob) (alert_policy rule ob) = (n, s1)" by fastforce
    have sent2: "aw_sent w2 = aw_sent w" using read_clock_sent [OF cl] load_sent [OF ld] by simp
    show ?thesis
    proof (cases "n = NoNotification")
      case True
      then have "aw_sent w' = aw_sent w2"
        using assms False ld lr cl obs by (auto simp: handle_def split: prod.splits dest: save_sent)
      then show ?thesis using sent2 by simp
    next
      case note': False
      let ?ev = "alert_event rule ob (is_active s) s1 n now"
      obtain nerr w3 where q: "queue_event ?ev w2 = (nerr, w3)" by fastforce
      have "aw_sent w' = aw_sent w3"
        using assms False ld lr cl obs note' q
        by (auto simp: handle_def Let_def split: prod.splits option.splits dest: save_sent)
      then show ?thesis using queue_event_sent [OF q] sent2 by (intro exI [of _ "if nerr = None then [?ev] else []"]) simp
    qed
  qed
qed

lemma handle_all_sends:
  "handle_all (live_repository pq t) rule obs w = (keys, errs, w') \<Longrightarrow>
     \<exists>evs. aw_sent w' = aw_sent w @ evs \<and> subseq (map announced evs) (map (\<lambda>ob. (ru_event rule, on_upstream_id ob)) obs)"
proof (induction obs arbitrary: w keys errs)
  case (Cons ob obs)
  obtain err w1 where h: "handle (live_repository pq t) rule ob w = (err, w1)" by fastforce
  obtain keys1 errs1 where r: "handle_all (live_repository pq t) rule obs w1 = (keys1, errs1, w')"
    using Cons.prems h by (auto split: prod.splits)
  obtain e1 where e1: "aw_sent w1 = aw_sent w @ e1" "subseq (map announced e1) [(ru_event rule, on_upstream_id ob)]"
    using handle_sends [OF h] by blast
  obtain e2 where e2: "aw_sent w' = aw_sent w1 @ e2" "subseq (map announced e2) (map (\<lambda>ob. (ru_event rule, on_upstream_id ob)) obs)"
    using Cons.IH [OF r] by blast
  show ?case
    using list_emb_append_mono [OF e1(2) e2(2)] e1(1) e2(1) by (intro exI [of _ "e1 @ e2"]) simp
qed simp

text \<open>What an evaluation of rules can announce, at most and in this order.\<close>

definition rule_announces :: "AlertTables \<Rightarrow> AlertRule \<Rightarrow> (string \<times> int) list \<Rightarrow> bool" where
  "rule_announces t rule ks \<longleftrightarrow> fst ` set ks \<subseteq> {lr_event rule}
     \<and> (lr_event rule \<in> upstream_events \<longrightarrow> distinct ks \<and> (\<forall>k \<in> set ks. lr_enabled rule \<and> watched t rule (snd k)))"

lemma prune_sent: "prune (live_repository pq t) i ks w = (errs, w') \<Longrightarrow> aw_sent w' = aw_sent w"
  by (auto simp: prune_def PruneAlertStates_def split: option.splits prod.splits dest: db_fault_sent)

lemma run_rule_sends:
  assumes "run_rules (live_repository pq t) [engine_rule rule] w = (errs, w')" "distinct (map ur_id (al_upstreams t))"
    and "lr_upstream_id rule \<noteq> Some 0"
  shows "\<exists>evs ks. aw_sent w' = aw_sent w @ evs \<and> subseq (map announced evs) ks \<and> rule_announces t rule ks"
proof (cases "lr_enabled rule")
  case False
  then have "aw_sent w' = aw_sent w" using assms(1) by (auto split: prod.splits dest: prune_sent)
  then show ?thesis by (intro exI [of _ "[]"]) (simp add: rule_announces_def)
next
  case True
  obtain r w1 where o: "RepositoryObserve (steady_db t) (engine_rule rule) w = (r, w1)" by fastforce
  show ?thesis
  proof (cases r)
    case (Inl e)
    then have "aw_sent w' = aw_sent w" using assms(1) True o observe_sent [OF o] by simp
    then show ?thesis by (intro exI [of _ "[]"]) (simp add: rule_announces_def)
  next
    case (Inr obs)
    obtain keys errs1 w2 where h: "handle_all (live_repository pq t) (engine_rule rule) obs w1 = (keys, errs1, w2)"
      using prod_cases3 by blast
    have sent: "aw_sent w' = aw_sent w2" using assms(1) True o Inr h by (auto split: prod.splits dest: prune_sent)
    have "rule_announces t rule (map (\<lambda>ob. (lr_event rule, on_upstream_id ob)) obs)"
      using observe_ids [OF o [unfolded Inr] _ assms(2,3)] True
      by (auto simp: rule_announces_def distinct_map inj_on_def)
    then show ?thesis using handle_all_sends [OF h] sent observe_sent [OF o] by auto
  qed
qed


lemma subseq_keeps_distinct: "subseq xs ys \<Longrightarrow> distinct ys \<Longrightarrow> distinct xs"
  by (induction rule: list_emb.induct) (auto dest: list_emb_set)

lemma run_rules_Cons:
  "run_rules R (rule # rules) w = (case run_rules R [rule] w of (errs1, w1) \<Rightarrow>
     case run_rules R rules w1 of (errs2, w2) \<Rightarrow> (errs1 @ errs2, w2))"
  by (simp split: prod.splits)

lemma watched_by_one:
  assumes "watched t rule u" "watched t rule' u" "lr_event rule = lr_event rule'" "lr_enabled rule" "lr_enabled rule'"
    and "rule \<in> set (al_rules t)" "rule' \<in> set (al_rules t)"
  shows "rule_pair rule = rule_pair rule'"
  using assms by (auto simp: watched_def rule_pair_def split: option.splits)

lemma run_rules_sends:
  assumes "run_rules (live_repository pq t) (map engine_rule rules) w = (errs, w')" "distinct (map ur_id (al_upstreams t))"
    and "set rules \<subseteq> set (al_rules t)" "distinct (map rule_pair rules)" "rules_ok t"
  shows "\<exists>evs ks. aw_sent w' = aw_sent w @ evs \<and> subseq (map announced evs) ks
    \<and> distinct (filter (\<lambda>k. fst k \<in> upstream_events) ks)
    \<and> (\<forall>k \<in> set ks. fst k \<in> upstream_events \<longrightarrow> (\<exists>r \<in> set rules. lr_event r = fst k \<and> lr_enabled r \<and> watched t r (snd k)))"
  using assms(1,3,4)
proof (induction rules arbitrary: w errs)
  case (Cons rule rules)
  obtain errs1 w1 where h: "run_rules (live_repository pq t) [engine_rule rule] w = (errs1, w1)" by fastforce
  obtain errs2 where r: "run_rules (live_repository pq t) (map engine_rule rules) w1 = (errs2, w')"
    using Cons.prems(1) h unfolding list.map run_rules_Cons [of _ "engine_rule rule" "map engine_rule rules"]
    by (auto split: prod.splits)
  have "lr_upstream_id rule \<noteq> Some 0" using rule_upstream(1) [OF assms(5), of rule 0] Cons.prems(2) by auto
  then obtain e1 k1 where e1: "aw_sent w1 = aw_sent w @ e1" "subseq (map announced e1) k1" "rule_announces t rule k1"
    using run_rule_sends [OF h assms(2)] by blast
  obtain e2 k2 where e2: "aw_sent w' = aw_sent w1 @ e2" "subseq (map announced e2) k2"
    "distinct (filter (\<lambda>k. fst k \<in> upstream_events) k2)"
    "\<forall>k \<in> set k2. fst k \<in> upstream_events \<longrightarrow> (\<exists>r \<in> set rules. lr_event r = fst k \<and> lr_enabled r \<and> watched t r (snd k))"
    using Cons.IH [OF r] Cons.prems(2,3) by auto
  have own: "fst k = lr_event rule" "lr_enabled rule" "watched t rule (snd k)" if "k \<in> set k1" "fst k \<in> upstream_events" for k
    using e1(3) that by (auto simp: rule_announces_def)
  have "k \<notin> set k2" if k: "k \<in> set k1" "fst k \<in> upstream_events" for k
  proof
    assume "k \<in> set k2"
    then obtain r where r: "r \<in> set rules" "lr_event r = fst k" "lr_enabled r" "watched t r (snd k)" using e2(4) k(2) by blast
    then have "rule_pair rule = rule_pair r"
      using own [OF k] Cons.prems(2) by (intro watched_by_one [of t rule "snd k" r]) auto
    then show False using r(1) Cons.prems(3) by auto
  qed
  moreover have "distinct (filter (\<lambda>k. fst k \<in> upstream_events) k1)"
    using e1(3) by (cases "lr_event rule \<in> upstream_events") (auto simp: rule_announces_def filter_empty_conv image_subset_iff)
  ultimately have "distinct (filter (\<lambda>k. fst k \<in> upstream_events) (k1 @ k2))" using e2(3) by auto
  moreover have "subseq (map announced (e1 @ e2)) (k1 @ k2)" using list_emb_append_mono [OF e1(2) e2(2)] by simp
  moreover have "\<exists>r \<in> set (rule # rules). lr_event r = fst k \<and> lr_enabled r \<and> watched t r (snd k)"
    if "k \<in> set (k1 @ k2)" "fst k \<in> upstream_events" for k
    using that own [of k] e2(4) by auto
  ultimately show ?case using e1(1) e2(1) by (intro exI [of _ "e1 @ e2"] exI [of _ "k1 @ k2"]) simp
qed (auto intro!: exI [of _ "[]"])

text \<open>
  C15: an evaluation of all rules announces each event of an upstream at most once, and only when an enabled rule watches the
  upstream; a rule of its own takes the place of the rule for all upstreams.
\<close>

theorem one_alert_per_upstream:
  assumes "RunOnce (live_repository pq t) w = (errs, w')" "rules_ok t" "distinct (map ur_id (al_upstreams t))" "aw_sent w = []"
  shows "distinct (map announced (filter (\<lambda>e. ev_type e \<in> upstream_events) (aw_sent w')))
    \<and> (\<forall>e \<in> set (aw_sent w'). ev_type e \<in> upstream_events \<longrightarrow>
         (\<exists>rule \<in> set (al_rules t). lr_event rule = ev_type e \<and> lr_enabled rule \<and> watched t rule (ev_upstream_id e)))"
proof (cases "\<exists>rules w1. RepositoryListRules (steady_db t) w = (Inr rules, w1)")
  case True
  then obtain rules w1 where l: "RepositoryListRules (steady_db t) w = (Inr rules, w1)" by blast
  let ?rules = "ListAlertRules t"
  have rules: "rules = map engine_rule ?rules" "aw_sent w1 = []"
    using l assms(4) by (auto simp: RepositoryListRules_def split: option.splits prod.splits dest!: steady_query)
  have "set ?rules = set (al_rules t)" "distinct (map rule_pair ?rules)"
    using assms(2) by (simp_all add: ListAlertRules_def rules_ok_def distinct_map)
  moreover have "run_rules (live_repository pq t) (map engine_rule ?rules) w1 = (errs, w')"
    using assms(1) l rules by (simp add: RunOnce_def)
  ultimately obtain ks where ks: "subseq (map announced (aw_sent w')) ks" "distinct (filter (\<lambda>k. fst k \<in> upstream_events) ks)"
    "\<forall>k \<in> set ks. fst k \<in> upstream_events \<longrightarrow>
      (\<exists>r \<in> set (al_rules t). lr_event r = fst k \<and> lr_enabled r \<and> watched t r (snd k))"
    using run_rules_sends [OF _ assms(3) _ _ assms(2), of pq ?rules w1 errs w'] rules(2) by auto
  have "map announced (filter (\<lambda>e. ev_type e \<in> upstream_events) es) = filter (\<lambda>k. fst k \<in> upstream_events) (map announced es)" for es
    by (simp add: filter_map comp_def announced_def)
  then have "map announced (filter (\<lambda>e. ev_type e \<in> upstream_events) (aw_sent w'))
      = filter (\<lambda>k. fst k \<in> upstream_events) (map announced (aw_sent w'))" .
  moreover have "distinct (filter (\<lambda>k. fst k \<in> upstream_events) (map announced (aw_sent w')))"
    by (rule subseq_keeps_distinct [OF subseq_filter [OF ks(1)] ks(2)])
  moreover have "announced e \<in> set ks" if "e \<in> set (aw_sent w')" for e
  proof -
    have "announced e \<in> set (map announced (aw_sent w'))" using that by simp
    then obtain k where "k \<in> set ks" "announced e = k" by (rule list_emb_set [OF ks(1)]) simp
    then show ?thesis by simp
  qed
  moreover have "\<exists>rule \<in> set (al_rules t). lr_event rule = ev_type e \<and> lr_enabled rule \<and> watched t rule (ev_upstream_id e)"
    if "announced e \<in> set ks" "ev_type e \<in> upstream_events" for e
    using bspec [OF ks(3) that(1)] that(2) by (simp add: announced_def)
  ultimately show ?thesis by simp
next
  case False
  then have "aw_sent w' = []"
    using assms(1,4) by (auto simp: RunOnce_def RepositoryListRules_def split: sum.splits prod.splits option.splits dest!: steady_query)
  then show ?thesis by simp
qed


section \<open>What an error rate says\<close>

text \<open>The attempts on an upstream that its window counts, and those of them that are held against it.\<close>

definition counted_attempts :: "AlertTables \<Rightarrow> time \<Rightarrow> time \<Rightarrow> int \<Rightarrow> (RequestLog \<times> Attempt) list" where
  "counted_attempts t start end u = filter (\<lambda>(l, a). at_upstream_id a = u) (window_attempts start end t)"

definition blamed_attempts :: "AlertTables \<Rightarrow> time \<Rightarrow> time \<Rightarrow> int \<Rightarrow> (RequestLog \<times> Attempt) list" where
  "blamed_attempts t start end u = filter (\<lambda>(l, a). AttemptFailureSQL a (rl_error_code l)) (counted_attempts t start end u)"

lemma sum_count_list: "distinct cs \<Longrightarrow> set xs \<subseteq> set cs \<Longrightarrow> (\<Sum>c\<leftarrow>cs. int (count_list xs c)) = int (length xs)"
  using sum_count_set [of xs "set cs"] by (simp add: sum_list_distinct_conv_sum_set flip: of_nat_sum)

lemma metric_row_simps:
  "metric_row (window_attempts start end t) u = (let mine = counted_attempts t start end u; failed = blamed_attempts t start end u;
      codes = map (\<lambda>(l, a). show_int (at_status_code a)) failed
    in \<lparr>mr_attempts = int (length mine),
        mr_error_rate = (if mine = [] then 0 else 100 * of_nat (length failed) / of_nat (length mine)),
        mr_latency = (if mine = [] then None else Some ((\<Sum>(l, a)\<leftarrow>mine. of_int (at_duration_ms a)) / of_nat (length mine))),
        mr_failures = int (length failed),
        mr_recovered = int (length (remdups (map (rl_request_id \<circ> fst)
          (filter (\<lambda>(l, a). 200 \<le> rl_status_code l \<and> rl_status_code l \<le> 399 \<and> rl_error_code l = []) failed)))),
        mr_status_counts = map (\<lambda>c. (c, int (count_list codes c))) (sort (remdups codes)),
        mr_failed_request_ids = take 100 (sort (remdups (map (rl_request_id \<circ> fst) failed)))\<rparr>)"
  unfolding metric_row_def counted_attempts_def blamed_attempts_def Let_def ..

text \<open>
  C16: an error-rate observation that carries evidence is truthful. Its attempts are those on its upstream among the requests of
  the window, at least five; its failures are the attempts held against the upstream, and the counts by status add up
  to them; it is active exactly when the failures reach the threshold's share of the attempts; it names only requests
  with such a failure, all of them when they are at most a hundred, and no more requests recovered than failed.
\<close>

theorem error_rate_truthful:
  assumes "RepositoryObserve (steady_db t) rule w = (Inr obs, w')" "ru_event rule = EventErrorRate"
    and "ob \<in> set obs" "on_evidence ob = Some ev"
  shows "let mine = counted_attempts t (me_window_start ev) (me_window_end ev) (on_upstream_id ob);
             failed = blamed_attempts t (me_window_start ev) (me_window_end ev) (on_upstream_id ob);
             ids = (rl_request_id \<circ> fst) ` set failed
         in me_window_start ev = me_window_end ev - windowSeconds rule * second
            \<and> me_attempts ev = int (length mine) \<and> 5 \<le> me_attempts ev \<and> me_failures ev = int (length failed)
            \<and> sum_list (map snd (me_status_counts ev)) = me_failures ev
            \<and> (on_active ob \<longleftrightarrow> threshold rule 20 * of_int (me_attempts ev) \<le> 100 * of_int (me_failures ev))
            \<and> set (me_failed_request_ids ev) \<subseteq> ids \<and> length (me_failed_request_ids ev) = min 100 (card ids)
            \<and> 0 \<le> me_recovered_requests ev \<and> me_recovered_requests ev \<le> int (card ids)"
proof -
  obtain start fin r where ob: "ob = metric_observation rule start fin r (metric_row (window_attempts start fin t) (ur_id r))"
    and window: "start = fin - windowSeconds rule * second"
    using assms(1-3)
    by (auto simp: RepositoryObserve_def observeUpstreamMetrics_def Let_def EventErrorRate_def EventLowBalance_def
        EventBalanceUnavailable_def split: option.splits prod.splits dest!: steady_query)
  define m where "m = metric_row (window_attempts start fin t) (ur_id r)"
  have enough: "\<not> mr_attempts m < 5" and not_latency: "ru_event rule \<noteq> EventLatency"
    using assms(2,4) by (auto simp: ob metric_observation_def Let_def m_def quiet_observation_def EventErrorRate_def EventLatency_def split: if_splits)
  have ev: "ev = \<lparr>me_failed_request_ids = mr_failed_request_ids m, me_window_start = start, me_window_end = fin,
      me_threshold = threshold rule 20, me_attempts = mr_attempts m, me_failures = mr_failures m,
      me_recovered_requests = mr_recovered m, me_status_counts = mr_status_counts m\<rparr>"
    and active: "on_active ob \<longleftrightarrow> threshold rule 20 \<le> mr_error_rate m" and i: "on_upstream_id ob = ur_id r"
    using assms(4) enough not_latency by (auto simp: ob metric_observation_def Let_def simp flip: m_def)
  let ?mine = "counted_attempts t start fin (ur_id r)" and ?failed = "blamed_attempts t start fin (ur_id r)"
  let ?codes = "map (\<lambda>(l, a). show_int (at_status_code a)) ?failed" and ?names = "map (rl_request_id \<circ> fst) ?failed"
  note row = metric_row_simps [of start fin t "ur_id r", folded m_def, unfolded Let_def]
  have len: "mr_attempts m = int (length ?mine)" "mr_failures m = int (length ?failed)" by (simp_all add: row)
  have "sum_list (map snd (mr_status_counts m)) = mr_failures m"
    using sum_count_list [of "sort (remdups ?codes)" ?codes] by (simp add: row comp_def)
  moreover have "threshold rule 20 \<le> mr_error_rate m \<longleftrightarrow> threshold rule 20 * of_int (mr_attempts m) \<le> 100 * of_int (mr_failures m)"
    using enough by (auto simp: row pos_le_divide_eq)
  moreover have "set (mr_failed_request_ids m) \<subseteq> set ?names"
    using set_take_subset [of 100 "sort (remdups ?names)"] by (simp add: row)
  moreover have "length (mr_failed_request_ids m) = min 100 (card (set ?names))"
    by (simp add: row length_remdups_card_conv min.commute)
  moreover have "mr_recovered m \<le> int (card (set ?names))" "0 \<le> mr_recovered m"
    by (auto simp: row length_remdups_card_conv intro!: card_mono)
  ultimately show ?thesis
    using enough window active unfolding Let_def ev i by (simp add: len image_image)
qed


section \<open>The properties at concrete inputs\<close>

text \<open>The rules that the schema inserts.\<close>

definition seeded_rule :: "int \<Rightarrow> string \<Rightarrow> rat \<Rightarrow> int \<Rightarrow> int \<Rightarrow> AlertRule" where
  "seeded_rule i event limit window cooldown = \<lparr>lr_id = i, lr_event = event, lr_upstream_id = None, lr_threshold = Some limit,
     lr_window_seconds = window, lr_cooldown_seconds = cooldown, lr_max_notifications = 3, lr_enabled = True\<rparr>"

definition seeded_rules :: "AlertRule list" where
  "seeded_rules = [seeded_rule 1 ''low_balance'' 5 300 1800, seeded_rule 2 ''balance_unavailable'' 1 900 1800,
     seeded_rule 3 ''error_rate'' 20 300 1800, seeded_rule 4 ''latency'' 30000 300 1800,
     seeded_rule 5 ''client_error_rate'' 50 300 1800, seeded_rule 6 ''login_failure'' 5 900 1800,
     seeded_rule 7 ''new_login_ip'' 1 900 86400]"

definition poor_upstream :: UpstreamRecord where
  "poor_upstream = \<lparr>ur_upstream = sample_upstream, ur_balance = empty_balance\<lparr>ba_status := ''ok'', ba_available := Some 2\<rparr>,
     ur_created_at = 0, ur_updated_at = 0\<rparr>"

definition seeded_tables :: AlertTables where
  "seeded_tables = \<lparr>al_upstreams = [poor_upstream], al_rules = seeded_rules, al_logs = [], al_keys = [], al_audit = [],
     al_next_rule = 8, al_now = hour\<rparr>"

lemma seeded_ok: "rules_ok seeded_tables"
  by (simp add: rules_ok_def seeded_tables_def seeded_rules_def seeded_rule_def rule_pair_def rule_ok_def between_def)

definition own_rule :: AlertRule where
  "own_rule = \<lparr>lr_id = 0, lr_event = ''error_rate'', lr_upstream_id = Some 7, lr_threshold = Some 50, lr_window_seconds = 600,
     lr_cooldown_seconds = 900, lr_max_notifications = 0, lr_enabled = True\<rparr>"

theorem alert_rules_stay_valid_witness:
  "\<exists>t. rule_reach seeded_tables t \<and> map lr_id (al_rules t) = [1, 2, 3, 4, 5, 6, 7, 8]
     \<and> distinct (map (\<lambda>r. (lr_event r, lr_upstream_id r)) (al_rules t))"
proof -
  define t where "t = snd (snd (createAlertRule (Some own_rule) seeded_tables))"
  have "createAlertRule (Some own_rule) seeded_tables = (fst (createAlertRule (Some own_rule) seeded_tables),
      fst (snd (createAlertRule (Some own_rule) seeded_tables)), t)"
    by (simp add: t_def)
  then have "rule_reach seeded_tables t" using rule_more [OF rule_start rule_created] by blast
  moreover have "map lr_id (al_rules t) = [1, 2, 3, 4, 5, 6, 7, 8]"
    by (simp add: t_def createAlertRule_def validAlertRule_def own_rule_def counted_rule_def CreateAlertRule_def Let_def
        seeded_tables_def seeded_rules_def seeded_rule_def poor_upstream_def sample_upstream_def ur_id_def)
  ultimately show ?thesis
    using alert_rules_stay_valid [OF _ seeded_ok, of t] by (intro exI [of _ t] conjI) simp_all
qed


text \<open>A round with the rule for low balances: the upstream is announced, once.\<close>

definition poor_rule :: AlertRule where "poor_rule = seeded_rule 1 EventLowBalance 5 300 1800"

definition poor_tables :: AlertTables where
  "poor_tables = seeded_tables\<lparr>al_rules := [poor_rule]\<rparr>"

lemma poor_ok: "rules_ok poor_tables" "distinct (map ur_id (al_upstreams poor_tables))"
  by (simp_all add: rules_ok_def poor_tables_def seeded_tables_def poor_rule_def seeded_rule_def rule_ok_def between_def)


definition calm_world :: AlertWorld where "calm_world = sample_world\<lparr>aw_queue := []\<rparr>"

lemma poor_steps:
  "RepositoryListRules (steady_db poor_tables) calm_world = (Inr [engine_rule poor_rule], calm_world)"
  "RepositoryObserve (steady_db poor_tables) (engine_rule poor_rule) calm_world
     = (Inr [balance_observation (engine_rule poor_rule) poor_upstream], calm_world)"
  by (simp_all add: RepositoryListRules_def steady_db_def db_fault_def calm_world_def sample_world_def ListAlertRules_def
      poor_tables_def seeded_tables_def RepositoryObserve_def observeBalance_def overriddenUpstreams_def ListUpstreamRecords_def
      poor_rule_def seeded_rule_def poor_upstream_def sample_upstream_def List.map_filter_def)

lemma poor_observation:
  "on_key (balance_observation (engine_rule poor_rule) poor_upstream) \<noteq> []"
  "on_active (balance_observation (engine_rule poor_rule) poor_upstream)"
  "\<not> on_ignore (balance_observation (engine_rule poor_rule) poor_upstream)"
  "\<not> on_hold (balance_observation (engine_rule poor_rule) poor_upstream)"
  "on_upstream_id (balance_observation (engine_rule poor_rule) poor_upstream) = 7"
  by (simp_all add: balance_observation_def low_balance_observation_def Let_def poor_upstream_def threshold_def poor_rule_def seeded_rule_def
      quiet_observation_def upstream_key_def sample_upstream_def ur_id_def empty_balance_def)

lemma fresh_fires: "fst (Observe fresh_incident minute True False False
    \<lparr>ip_firing_confirmations = 1, ip_recovery_confirmations = 1, ip_cooldown = 1800 * second, ip_stable_for = 30 * minute,
      ip_max_gap = 90 * second, ip_max_notifications = 3, ip_repeat = True\<rparr>) = Firing"
  by code_simp

lemma poor_policy: "alert_policy (engine_rule poor_rule)
      (balance_observation (engine_rule poor_rule) poor_upstream)
    = \<lparr>ip_firing_confirmations = 1, ip_recovery_confirmations = 1, ip_cooldown = 1800 * second, ip_stable_for = 30 * minute,
      ip_max_gap = 90 * second, ip_max_notifications = 3, ip_repeat = True\<rparr>"
  by (simp add: alert_policy_def Let_def poor_observation engine_rule_def poor_rule_def seeded_rule_def EventLowBalance_def EventErrorRate_def EventLatency_def)

lemma poor_round:
  "aw_sent (snd (RunOnce (live_repository id poor_tables) calm_world)) \<noteq> []"
proof -
  let ?rule = "engine_rule poor_rule"
  let ?ob = "balance_observation ?rule poor_upstream"
  have enabled: "lr_enabled poor_rule" by (simp add: poor_rule_def seeded_rule_def)
  obtain n s1 where o: "Observe fresh_incident minute True False False (alert_policy ?rule ?ob) = (n, s1)" by fastforce
  have n: "n = Firing" using fresh_fires o unfolding poor_policy by simp
  have w: "aw_db calm_world = []" "aw_queue calm_world = []" "aw_states calm_world = (\<lambda>_ _. None)" "aw_sent calm_world = []"
    by (simp_all add: calm_world_def sample_world_def)
  have clock: "\<exists>w1. read_clock calm_world = (minute, w1) \<and> aw_db w1 = [] \<and> aw_queue w1 = [] \<and> aw_sent w1 = []"
    by (simp add: calm_world_def sample_world_def read_clock_def)
  then obtain w1 where c: "read_clock calm_world = (minute, w1)" "aw_db w1 = []" "aw_queue w1 = []" "aw_sent w1 = []" by blast
  have "aw_sent (snd (handle (live_repository id poor_tables) ?rule ?ob calm_world)) \<noteq> []"
    using poor_observation o n c
    by (simp add: handle_def AlertState_def db_fault_def w queue_event_def Let_def SaveAlertState_def split: prod.splits option.splits)
  then show ?thesis
    by (auto simp: RunOnce_def poor_steps enabled split: prod.splits dest!: prune_sent)
qed


theorem one_alert_per_upstream_witness:
  "\<exists>errs w'. RunOnce (live_repository id poor_tables) calm_world = (errs, w') \<and> aw_sent w' \<noteq> []
     \<and> distinct (map announced (filter (\<lambda>e. ev_type e \<in> upstream_events) (aw_sent w')))"
proof -
  obtain errs w' where run: "RunOnce (live_repository id poor_tables) calm_world = (errs, w')" by fastforce
  have "aw_sent calm_world = []" by (simp add: calm_world_def sample_world_def)
  from one_alert_per_upstream [OF run poor_ok this] show ?thesis using poor_round run by auto
qed

definition failing_attempt :: Attempt where
  "failing_attempt = \<lparr>at_failure_class = ''server'', at_upstream_id = 7, at_upstream_name = ''alpha'', at_status_code = 500,
     at_error = [], at_duration_ms = 10, at_ttfb_ms = None, at_ttft_ms = None\<rparr>"

definition failing_log :: StoredLog where
  "failing_log = \<lparr>sl_entry = \<lparr>rl_request_id = ''r'', rl_api_key_id = 1, rl_group_id = None, rl_upstream_id = Some 7,
     rl_protocol = ProtocolChat, rl_model = ''m'', rl_status_code = 200, rl_duration_ms = 50, rl_ttfb_ms = None, rl_ttft_ms = None,
     rl_attempts = replicate 2 failing_attempt @ replicate 3 (failing_attempt\<lparr>at_status_code := 200\<rparr>), rl_usage = empty_usage,
     rl_cost_usd = None, rl_error_code = [], rl_client_ip = [], rl_created_at = 30 * second\<rparr>, sl_api_key = Some 1, sl_upstream = Some 7\<rparr>"

definition failing_tables :: AlertTables where
  "failing_tables = seeded_tables\<lparr>al_logs := [failing_log]\<rparr>"

definition rate_rule :: Rule where "rate_rule = engine_rule (seeded_rule 3 EventErrorRate 20 300 1800)"

theorem error_rate_truthful_witness:
  "\<exists>obs ob ev. fst (RepositoryObserve (steady_db failing_tables) rate_rule calm_world) = Inr obs \<and> ob \<in> set obs
     \<and> on_evidence ob = Some ev \<and> me_attempts ev = 5 \<and> me_failures ev = 2 \<and> on_active ob"
proof -
  let ?start = "minute - 300 * second"
  define m where "m = metric_row (window_attempts ?start minute failing_tables) 7"
  define ob where "ob = metric_observation rate_rule ?start minute poor_upstream m"
  have rule: "ru_event rate_rule = EventErrorRate" "ru_upstream_id rate_rule = None" "windowSeconds rate_rule = 300"
    "threshold rate_rule 20 = 20"
    by (simp_all add: rate_rule_def engine_rule_def seeded_rule_def windowSeconds_def threshold_def)
  have counted: "length (counted_attempts failing_tables ?start minute 7) = 5"
    "length (blamed_attempts failing_tables ?start minute 7) = 2"
    by (simp_all add: blamed_attempts_def counted_attempts_def window_attempts_def failing_tables_def seeded_tables_def failing_log_def
        failing_attempt_def AttemptFailureSQL_def round_us_def numeral_eq_Suc)
  have m: "mr_attempts m = 5" "mr_failures m = 2"
    using counted by (simp_all add: m_def metric_row_simps Let_def)
  have id: "ur_id poor_upstream = 7" by (simp add: poor_upstream_def sample_upstream_def ur_id_def)
  obtain w' where run: "RepositoryObserve (steady_db failing_tables) rate_rule calm_world = (Inr [ob], w')"
    by (simp add: RepositoryObserve_def rule EventErrorRate_def EventLowBalance_def EventBalanceUnavailable_def observeUpstreamMetrics_def
        Let_def steady_db_def read_clock_def calm_world_def sample_world_def db_fault_def metric_upstreams_def ob_def m_def
        failing_tables_def seeded_tables_def seeded_rules_def seeded_rule_def poor_upstream_def sample_upstream_def ur_id_def)
  obtain ev where ev: "on_evidence ob = Some ev" "me_window_start ev = ?start" "me_window_end ev = minute" "on_upstream_id ob = 7"
    by (simp add: ob_def metric_observation_def Let_def m rule EventErrorRate_def EventLatency_def id)
  from error_rate_truthful [OF run rule(1) _ ev(1)] have "me_attempts ev = 5 \<and> me_failures ev = 2 \<and> on_active ob"
    unfolding ev Let_def counted rule by simp
  then show ?thesis using run ev(1) by (intro exI [of _ "[ob]"] exI [of _ ob] exI [of _ ev]) simp
qed

end
