(* ===== verification/Notifiers.thy ===== *)
theory Notifiers
  imports Go_Text Probe_Parse Outbox Netguard
begin

text \<open>
  How an event is delivered, \<open>internal/ops/notifier.go\<close>: its text, the payloads of the webhook
  providers, one webhook request and the judgement of its answer, one mail, and several notifiers at once.
  Parsing a URL, JSON syntax, the network, the mail server and the Q encoding of a subject are parameters.
  Durations are below 292 years.
\<close>

section \<open>The text of an event\<close>

definition label_of :: "(string \<times> string) list \<Rightarrow> string \<Rightarrow> string" where
  "label_of labels key = (case map_of labels key of None \<Rightarrow> key | Some label \<Rightarrow> label)"

definition webhookStateLabel :: "string \<Rightarrow> string" where
  "webhookStateLabel = label_of
     [(''healthy'', utf8 [0xE6, 0xAD, 0xA3, 0xE5, 0xB8, 0xB8]),
      (''unhealthy'', utf8 [0xE5, 0xBC, 0x82, 0xE5, 0xB8, 0xB8]),
      (''success'', utf8 [0xE6, 0x88, 0x90, 0xE5, 0x8A, 0x9F]),
      (''failed'', utf8 [0xE5, 0xA4, 0xB1, 0xE8, 0xB4, 0xA5]),
      (''firing'', utf8 [0xE8, 0xA7, 0xA6, 0xE5, 0x8F, 0x91]),
      (''resolved'', utf8 [0xE5, 0xB7, 0xB2, 0xE6, 0x81, 0xA2, 0xE5, 0xA4, 0x8D]),
      (''suspended'', utf8 [0xE5, 0xB7, 0xB2, 0xE6, 0x9A, 0x82, 0xE5, 0x81, 0x9C, 0xE8, 0xB7, 0xAF, 0xE7, 0x94, 0xB1]),
      (''resumed'', utf8 [0xE5, 0xB7, 0xB2, 0xE6, 0x81, 0xA2, 0xE5, 0xA4, 0x8D, 0xE8, 0xB7, 0xAF, 0xE7, 0x94, 0xB1]),
      (''active'', utf8 [0xE5, 0x91, 0x8A, 0xE8, 0xAD, 0xA6, 0xE4, 0xB8, 0xAD]),
      (''inactive'', utf8 [0xE6, 0x9C, 0xAA, 0xE8, 0xA7, 0xA6, 0xE5, 0x8F, 0x91]),
      (''paused'', utf8 [0xE5, 0xB7, 0xB2, 0xE6, 0x9A, 0x82, 0xE5, 0x81, 0x9C]),
      (''balance_suspended'', utf8 [0xE5, 0xB7, 0xB2, 0xE6, 0x9A, 0x82, 0xE5, 0x81, 0x9C, 0xE8, 0xB7, 0xAF, 0xE7, 0x94, 0xB1]),
      (''balance_resumed'', utf8 [0xE5, 0xB7, 0xB2, 0xE6, 0x81, 0xA2, 0xE5, 0xA4, 0x8D, 0xE8, 0xB7, 0xAF, 0xE7, 0x94, 0xB1])]"

definition webhookEventLabel :: "string \<Rightarrow> string" where
  "webhookEventLabel = label_of
     [(''notification_test'', utf8 [0xE9, 0x80, 0x9A, 0xE7, 0x9F, 0xA5, 0xE6, 0xB8, 0xA0, 0xE9, 0x81, 0x93, 0xE6, 0xB5,
       0x8B, 0xE8, 0xAF, 0x95]),
      (''upstream_health'', utf8 [0xE4, 0xB8, 0x8A, 0xE6, 0xB8, 0xB8, 0xE5, 0x81, 0xA5, 0xE5, 0xBA, 0xB7, 0xE7, 0x8A,
        0xB6, 0xE6, 0x80, 0x81, 0xE5, 0x8F, 0x98, 0xE6, 0x9B, 0xB4]),
      (''low_balance'', utf8 [0xE4, 0xB8, 0x8A, 0xE6, 0xB8, 0xB8, 0xE4, 0xBD, 0x99, 0xE9, 0xA2, 0x9D, 0xE4, 0xB8, 0x8D,
        0xE8, 0xB6, 0xB3]),
      (''balance_unavailable'', utf8 [0xE4, 0xB8, 0x8A, 0xE6, 0xB8, 0xB8, 0xE4, 0xBD, 0x99, 0xE9, 0xA2, 0x9D, 0xE4,
        0xB8, 0x8D, 0xE5, 0x8F, 0xAF, 0xE7, 0x94, 0xA8]),
      (''error_rate'', utf8 [0xE9, 0x94, 0x99, 0xE8, 0xAF, 0xAF, 0xE7, 0x8E, 0x87, 0xE5, 0x91, 0x8A, 0xE8, 0xAD, 0xA6]),
      (''latency'', utf8 [0xE5, 0xBB, 0xB6, 0xE8, 0xBF, 0x9F, 0xE5, 0x91, 0x8A, 0xE8, 0xAD, 0xA6]),
      (''client_error_rate'', utf8 [0xE5, 0xAE, 0xA2, 0xE6, 0x88, 0xB7, 0xE7, 0xAB, 0xAF, 0xE9, 0x94, 0x99, 0xE8, 0xAF,
        0xAF, 0xE7, 0x8E, 0x87, 0xE5, 0x91, 0x8A, 0xE8, 0xAD, 0xA6]),
      (''login_failure'', utf8 [0xE7, 0x99, 0xBB, 0xE5, 0xBD, 0x95, 0xE5, 0xA4, 0xB1, 0xE8, 0xB4, 0xA5, 0xE5, 0x91,
        0x8A, 0xE8, 0xAD, 0xA6]),
      (''new_login_ip'', utf8 [0xE6, 0x96, 0xB0, 0x20, 0x49, 0x50, 0x20, 0xE7, 0x99, 0xBB, 0xE5, 0xBD, 0x95, 0xE5, 0x91,
        0x8A, 0xE8, 0xAD, 0xA6]),
      (''password_changed'', utf8 [0xE7, 0xAE, 0xA1, 0xE7, 0x90, 0x86, 0xE5, 0x91, 0x98, 0xE5, 0xAF, 0x86, 0xE7, 0xA0,
        0x81, 0xE5, 0x8F, 0x98, 0xE6, 0x9B, 0xB4]),
      (''upstream_balance_protection'', utf8 [0xE4, 0xBD, 0x99, 0xE9, 0xA2, 0x9D, 0xE4, 0xBF, 0x9D, 0xE6, 0x8A, 0xA4,
        0xE7, 0x8A, 0xB6, 0xE6, 0x80, 0x81, 0xE5, 0x8F, 0x98, 0xE6, 0x9B, 0xB4])]"

definition webhookEventLabelForEvent :: "Event \<Rightarrow> string" where
  "webhookEventLabelForEvent e =
     (if ev_state e = ''resolved'' \<and> ev_type e = ''low_balance'' then utf8 [0xE4, 0xB8, 0x8A, 0xE6, 0xB8, 0xB8,
       0xE4, 0xBD, 0x99, 0xE9, 0xA2, 0x9D, 0xE6, 0x81, 0xA2, 0xE5, 0xA4, 0x8D]
      else if ev_state e = ''resolved'' \<and> ev_type e = ''balance_unavailable''
      then utf8 [0xE4, 0xB8, 0x8A, 0xE6, 0xB8, 0xB8, 0xE4, 0xBD, 0x99, 0xE9, 0xA2, 0x9D, 0xE6, 0x9F, 0xA5, 0xE8, 0xAF,
        0xA2, 0xE6, 0x81, 0xA2, 0xE5, 0xA4, 0x8D]
      else webhookEventLabel (ev_type e))"

definition webhookSeverityLabel :: "Event \<Rightarrow> string" where
  "webhookSeverityLabel e =
     (if ev_state e = ''resolved'' then utf8 [0xE6, 0x81, 0xA2, 0xE5, 0xA4, 0x8D]
      else if ev_severity e \<noteq> [] then ev_severity e
      else if ev_type e \<in> {''login_failure'', ''new_login_ip'', ''password_changed''} then utf8 [0xE5, 0xAE, 0x89,
        0xE5, 0x85, 0xA8]
      else if ev_type e \<in> {''upstream_health'', ''upstream_balance_protection''} then utf8 [0xE4, 0xB8, 0xA5, 0xE9,
        0x87, 0x8D]
      else utf8 [0xE5, 0x91, 0x8A, 0xE8, 0xAD, 0xA6])"

definition localizeWebhookMessage :: "string \<Rightarrow> string" where
  "localizeWebhookMessage = label_of
     [(''administrator password was changed'', utf8 [0xE7, 0xAE, 0xA1, 0xE7, 0x90, 0x86, 0xE5, 0x91, 0x98, 0xE5, 0xAF,
       0x86, 0xE7, 0xA0, 0x81, 0xE5, 0xB7, 0xB2, 0xE4, 0xBF, 0xAE, 0xE6, 0x94, 0xB9]),
      (''no new administrator login IP'', utf8 [0xE6, 0x9C, 0xAA, 0xE5, 0x8F, 0x91, 0xE7, 0x8E, 0xB0, 0xE6, 0x96, 0xB0,
        0xE7, 0x9A, 0x84, 0xE7, 0xAE, 0xA1, 0xE7, 0x90, 0x86, 0xE5, 0x91, 0x98, 0xE7, 0x99, 0xBB, 0xE5, 0xBD, 0x95, 0x20,
        0x49, 0x50])]"

definition webhookEventMessage :: "Event \<Rightarrow> string" where
  "webhookEventMessage e =
     (if ev_type e = ''upstream_health'' \<and> ev_upstream_name e \<noteq> []
      then utf8 [0xE4, 0xB8, 0x8A, 0xE6, 0xB8, 0xB8, 0xE7, 0x8A, 0xB6, 0xE6, 0x80, 0x81, 0xE5, 0xB7, 0xB2, 0xE4, 0xBB,
        0x8E] @ webhookStateLabel (ev_previous e)
        @ utf8 [0xE5, 0x8F, 0x98, 0xE6, 0x9B, 0xB4, 0xE4, 0xB8, 0xBA] @ webhookStateLabel (ev_state e)
      else if ev_type e = ''upstream_balance_protection'' \<and> ev_upstream_name e \<noteq> []
      then utf8 [0xE4, 0xB8, 0x8A, 0xE6, 0xB8, 0xB8, 0xE4, 0xBD, 0x99, 0xE9, 0xA2, 0x9D, 0xE4, 0xBF, 0x9D, 0xE6, 0x8A,
        0xA4, 0xE7, 0x8A, 0xB6, 0xE6, 0x80, 0x81, 0xEF, 0xBC, 0x9A] @ webhookStateLabel (ev_state e)
      else localizeWebhookMessage (ev_message e))"

text \<open>\<open>d.Round(time.Second).String()\<close> of a duration that is not negative.\<close>

definition seconds_text :: "duration \<Rightarrow> string" where
  "seconds_text d =
     (let r = d mod second; s = (if r + r < second then d - r else d + (second - r)) div second; m = s div 60; h = m div 60
      in (if h > 0 then show_int h @ ''h'' else []) @ (if m > 0 then show_int (m mod 60) @ ''m'' else []) @ show_int (s
        mod 60) @ ''s'')"

definition reminder_label :: "Event \<Rightarrow> string" where
  "reminder_label e =
     (if ev_notification_number e > 1
      then (if ev_previous e = ''active'' then utf8 [0xE6, 0x8C, 0x81, 0xE7, 0xBB, 0xAD, 0xE6, 0x8F, 0x90, 0xE9, 0x86,
        0x92] else utf8 [0xE5, 0x86, 0x8D, 0xE6, 0xAC, 0xA1, 0xE8, 0xA7, 0xA6, 0xE5, 0x8F, 0x91])
      else utf8 [0xE9, 0xA6, 0x96, 0xE6, 0xAC, 0xA1, 0xE5, 0x91, 0x8A, 0xE8, 0xAD, 0xA6])"

definition webhook_lines :: "Event \<Rightarrow> string list" where
  "webhook_lines e =
     [utf8 [0xE3, 0x80, 0x90, 0x44, 0x2D, 0x41, 0x50, 0x49, 0xE3, 0x80, 0x91, 0xE9, 0x80, 0x9A, 0xE7, 0x9F, 0xA5],
      utf8 [0xE4, 0xBA, 0x8B, 0xE4, 0xBB, 0xB6, 0xEF, 0xBC, 0x9A] @ webhookEventLabelForEvent e,
      utf8 [0xE7, 0xBA, 0xA7, 0xE5, 0x88, 0xAB, 0xEF, 0xBC, 0x9A] @ webhookSeverityLabel e]
     @ (if ev_upstream_name e \<noteq> [] then [utf8 [0xE4, 0xB8, 0x8A, 0xE6, 0xB8, 0xB8, 0xEF, 0xBC, 0x9A] @
       ev_upstream_name e] else [])
     @ (if ev_count e > 1 then [utf8 [0xE6, 0x95, 0xB0, 0xE9, 0x87, 0x8F, 0xEF, 0xBC, 0x9A] @ show_int (ev_count e) @
       utf8 [0x20, 0xE6, 0x9D, 0xA1]] else [])
     @ (if ev_state e \<noteq> [] then [utf8 [0xE7, 0x8A, 0xB6, 0xE6, 0x80, 0x81, 0xEF, 0xBC, 0x9A] @ webhookStateLabel
       (ev_state e)] else [])
     @ (if ev_notification_number e > 0
        then [utf8 [0xE6, 0x8F, 0x90, 0xE9, 0x86, 0x92, 0xEF, 0xBC, 0x9A] @ reminder_label e
          @ utf8 [0x20, 0xC2, 0xB7, 0x20, 0xE7, 0xAC, 0xAC, 0x20] @ show_int (ev_notification_number e)
          @ utf8 [0x20, 0xE6, 0xAC, 0xA1]] else [])
     @ (if ev_previous e \<noteq> [] \<and> ev_notification_number e = 0
        then [utf8 [0xE4, 0xB9, 0x8B, 0xE5, 0x89, 0x8D, 0xEF, 0xBC, 0x9A] @ webhookStateLabel (ev_previous e)] else [])
     @ (case ev_active_since e of None \<Rightarrow> []
        | Some since \<Rightarrow> if ev_at e < since then []
            else [utf8 [0xE6, 0x9C, 0xAC, 0xE8, 0xBD, 0xAE, 0xE6, 0x8C, 0x81, 0xE7, 0xBB, 0xAD, 0xEF, 0xBC, 0x9A] @
              seconds_text (time_sub (ev_at e) since)])
     @ (if ev_message e \<noteq> [] then [utf8 [0xE8, 0xAF, 0xA6, 0xE6, 0x83, 0x85, 0xEF, 0xBC, 0x9A] @
       webhookEventMessage e] else [])
     @ (if is_zero_time (ev_at e) then []
        else [utf8 [0xE6, 0x97, 0xB6, 0xE9, 0x97, 0xB4, 0xEF, 0xBC, 0x9A] @ instant_text (utc8 (ev_at e)) @ '' (UTC+8)''])"

abbreviation newline :: char where "newline \<equiv> CHR 0x0A"

definition webhookEventText :: "Event \<Rightarrow> string" where
  "webhookEventText e = join_strings [newline] (webhook_lines e)"

section \<open>Markdown\<close>

definition escape_char :: "char \<Rightarrow> string" where
  "escape_char c =
     (if c \<in> {CHR 0x5C, CHR ''*'', CHR ''_'', CHR ''['', CHR '']'', CHR 0x60, CHR ''#'', CHR ''!''} then [CHR 0x5C, c]
      else if c = CHR ''<'' then ''&lt;'' else if c = CHR ''>'' then ''&gt;'' else [c])"

definition escape_text :: "string \<Rightarrow> string" where
  "escape_text s = concat (map escape_char s)"

text \<open>The two sides of the first \<open>sep\<close>.\<close>

fun cut_at :: "string \<Rightarrow> string \<Rightarrow> (string \<times> string) option" where
  "cut_at sep [] = (if sep = [] then Some ([], []) else None)"
| "cut_at sep (c # cs) = (if prefix sep (c # cs) then Some ([], drop (length sep) (c # cs))
     else case cut_at sep cs of None \<Rightarrow> None | Some (a, b) \<Rightarrow> Some (c # a, b))"

definition wide_colon :: string where "wide_colon = utf8 [0xEF, 0xBC, 0x9A]"

definition markdown_line :: "string \<Rightarrow> string" where
  "markdown_line line =
     (case cut_at wide_colon line of
        Some (a, b) \<Rightarrow> ''**'' @ escape_text a @ ''**'' @ wide_colon @ escape_text b
      | None \<Rightarrow> escape_text line)"

definition markdown_title :: "Event \<Rightarrow> string" where
  "markdown_title e = utf8 [0x23, 0x23, 0x23, 0x20, 0x44, 0x2D, 0x41, 0x50, 0x49, 0x20, 0xC2, 0xB7, 0x20] @ escape_text
    (webhookEventLabelForEvent e)"

text \<open>
  The title takes the place of the first line, and the line after it, which names the event, is left out.
\<close>

definition webhookEventMarkdown :: "Event \<Rightarrow> string" where
  "webhookEventMarkdown e =
     join_strings [newline, newline] (markdown_title e # map markdown_line (drop 2 (split_on newline (webhookEventText e))))"

section \<open>The limit of a text\<close>

definition truncated_notice :: string where
  "truncated_notice = utf8 [0x0A, 0x0A, 0xEF, 0xBC, 0x88, 0xE5, 0x86, 0x85, 0xE5, 0xAE, 0xB9, 0xE5, 0xB7, 0xB2, 0xE6,
    0x88, 0xAA, 0xE6, 0x96, 0xAD, 0xEF, 0xBC, 0x8C, 0xE8, 0xAF, 0xB7, 0xE5, 0x9C, 0xA8, 0xE7, 0xB3, 0xBB, 0xE7, 0xBB,
    0x9F, 0xE5, 0x91, 0x8A, 0xE8, 0xAD, 0xA6, 0xE5, 0x8E, 0x86, 0xE5, 0x8F, 0xB2, 0xE4, 0xB8, 0xAD, 0xE6, 0x9F, 0xA5,
    0xE7, 0x9C, 0x8B, 0xE8, 0xAF, 0xA6, 0xE6, 0x83, 0x85, 0xEF, 0xBC, 0x89]"

definition RuneStart :: "char \<Rightarrow> bool" where
  "RuneStart c \<longleftrightarrow> \<not> continuation (of_char c)"

fun rune_boundary :: "string \<Rightarrow> nat \<Rightarrow> nat" where
  "rune_boundary text 0 = 0"
| "rune_boundary text (Suc n) = (if RuneStart (text ! Suc n) then Suc n else rune_boundary text n)"

definition limitWebhookText :: "string \<Rightarrow> nat \<Rightarrow> string" where
  "limitWebhookText text max_bytes =
     (if length text \<le> max_bytes then text
      else take (rune_boundary text (max_bytes - length truncated_notice)) text @ truncated_notice)"

section \<open>Webhooks\<close>

record WebhookConfig =
  wc_url :: string
  wc_provider :: string
  wc_headers :: "(string \<times> string) list"

record WebhookRequest =
  wq_url :: string
  wq_header :: header
  wq_body :: string

datatype payload = ProviderBody json | EventBody Event

text \<open>
  The outside: host name and path of a URL, the codec of JSON, whether a request can be built, one exchange,
  and of its answer the status, the bytes of the body and how reading them ends.
\<close>

record 'w WebhookEnv =
  we_host :: "string \<Rightarrow> (string \<times> string) option"
  we_encode :: "payload \<Rightarrow> string"
  we_decode :: "string \<Rightarrow> json option"
  we_request :: "string \<Rightarrow> gw_error option"
  we_send :: "WebhookRequest \<Rightarrow> 'w \<Rightarrow> (gw_error + int \<times> string \<times> gw_error option) \<times> 'w"

definition webhookProviderFromURL :: "(string \<Rightarrow> (string \<times> string) option) \<Rightarrow> string \<Rightarrow> string" where
  "webhookProviderFromURL host_of raw =
     (case host_of (trim_space raw) of
        None \<Rightarrow> []
      | Some (hostname, path) \<Rightarrow>
          (let host = trim_suffix (to_lower hostname) ''.''
           in if has_suffix host ''.dingtalk.com'' then ''dingtalk''
              else if has_suffix host ''.feishu.cn'' \<or> has_suffix host ''.larksuite.com'' then ''feishu''
              else if host = ''qyapi.weixin.qq.com'' then ''wecom''
              else if host = ''hooks.slack.com'' then ''slack''
              else if (host = ''discord.com'' \<or> host = ''discordapp.com'') \<and> has_prefix path ''/api/webhooks/''
                then ''discord''
              else []))"

definition IsWebhookProvider :: "string \<Rightarrow> bool" where
  "IsWebhookProvider provider \<longleftrightarrow> to_lower (trim_space provider)
     \<in> {[], ''generic'', ''dingtalk'', ''feishu'', ''wecom'', ''slack'', ''discord''}"

definition dingtalk_title :: string where "dingtalk_title = utf8 [0x44, 0x2D, 0x41, 0x50, 0x49, 0x20, 0xE9, 0x80, 0x9A,
  0xE7, 0x9F, 0xA5]"

text \<open>
  Keys are in the order in which a map is marshalled; the event is marshalled with its time in UTC+8.
  Marshalling text and finite numbers does not fail. The headers of a configuration stand in the order in which
  Go visits its map.
\<close>

definition webhookPayload :: "'w WebhookEnv \<Rightarrow> string \<Rightarrow> string \<Rightarrow> Event \<Rightarrow> payload" where
  "webhookPayload env provider raw e =
     (let provider = to_lower (trim_space provider);
          provider = (if provider = [] then webhookProviderFromURL (we_host env) raw else provider);
          text = webhookEventText e
      in if provider = ''dingtalk'' then ProviderBody (JObj
             [(''markdown'', JObj [(''text'', JStr (limitWebhookText (webhookEventMarkdown e) 18000)), (''title'', JStr
               dingtalk_title)]),
              (''msgtype'', JStr ''markdown'')])
         else if provider = ''wecom'' then ProviderBody (JObj
             [(''markdown'', JObj [(''content'', JStr (limitWebhookText (webhookEventMarkdown e) 4096))]), (''msgtype'',
               JStr ''markdown'')])
         else if provider = ''feishu'' then ProviderBody (JObj [(''content'', JObj [(''text'', JStr text)]),
           (''msg_type'', JStr ''text'')])
         else if provider = ''slack'' then ProviderBody (JObj [(''text'', JStr text)])
         else if provider = ''discord'' then ProviderBody (JObj [(''content'', JStr text)])
         else EventBody e)"

definition webhook_hop_header :: "string \<Rightarrow> bool" where
  "webhook_hop_header name \<longleftrightarrow> to_lower (trim_space name) \<in> {''connection'', ''proxy-connection'',
    ''keep-alive'', ''proxy-authenticate'',
     ''proxy-authorization'', ''te'', ''trailer'', ''transfer-encoding'', ''upgrade'', ''host'', ''content-length''}"

text \<open>A JSON number is read as a \<open>float64\<close>; a number too large for one is no code.\<close>

definition webhookSuccessCode :: "json \<Rightarrow> bool \<Rightarrow> bool" where
  "webhookSuccessCode raw allow_http =
     (case raw of
        JNum s \<Rightarrow> (case parse_float s of None \<Rightarrow> True | Some x \<Rightarrow> x = 0 \<or>
          (allow_http \<and> x = 200))
      | JStr s \<Rightarrow> (let s = to_lower (trim_space s) in s = ''0'' \<or> (allow_http \<and> s = ''200'') \<or> s
        = ''ok'' \<or> s = ''success'')
      | _ \<Rightarrow> True)"

text \<open>The last entry of a key in a map.\<close>

definition map_entry :: "json_fields \<Rightarrow> string \<Rightarrow> json option" where
  "map_entry es key = map_of (rev es) key"

text \<open>Unmarshalling null into a \<open>bool\<close> leaves it false.\<close>

definition denied :: "json option \<Rightarrow> bool" where
  "denied raw = (case raw of Some (JBool b) \<Rightarrow> \<not> b | Some JNull \<Rightarrow> True | _ \<Rightarrow> False)"

definition webhookResponseRejected :: "(string \<Rightarrow> json option) \<Rightarrow> string \<Rightarrow> bool" where
  "webhookResponseRejected decode body =
     (case Option.bind (decode body) struct_of of
        None \<Rightarrow> False
      | Some es \<Rightarrow>
          if denied (map_entry es ''success'') \<or> denied (map_entry es ''ok'') then True
          else if (case map_entry es ''errcode'' of None \<Rightarrow> False | Some raw \<Rightarrow> \<not> webhookSuccessCode raw False) then True
          else (case map_entry es ''code'' of None \<Rightarrow> False | Some raw \<Rightarrow> \<not> webhookSuccessCode raw True))"

definition webhook_request :: "'w WebhookEnv \<Rightarrow> WebhookConfig \<Rightarrow> Event \<Rightarrow> WebhookRequest" where
  "webhook_request env c e = \<lparr>wq_url = wc_url c,
     wq_header = fold (\<lambda>(k, v) h. if webhook_hop_header k then h else header_set h k v) (wc_headers c)
       (header_set [] ''Content-Type'' ''application/json''),
     wq_body = we_encode env (webhookPayload env (wc_provider c) (wc_url c) e)\<rparr>"

text \<open>\<open>io.ReadAll\<close> of an \<open>io.LimitReader\<close>.\<close>

definition read_limited :: "nat \<Rightarrow> string \<Rightarrow> gw_error option \<Rightarrow> gw_error + string" where
  "read_limited limit body failure =
     (if length body \<ge> limit then Inr (take limit body)
      else case failure of Some err \<Rightarrow> Inl err | None \<Rightarrow> Inr body)"

definition webhook_answer :: "'w WebhookEnv \<Rightarrow> WebhookConfig \<Rightarrow> int \<Rightarrow> string \<Rightarrow> gw_error option \<Rightarrow> gw_error option" where
  "webhook_answer env c status body failure =
     (case read_limited 65537 body failure of
        Inl err \<Rightarrow> Some (PlainError (''read webhook response: '' @ Text (Some err) [wc_url c]))
      | Inr body \<Rightarrow>
          if length body > 65536 then Some (PlainError ''webhook response too large'')
          else if status < 200 \<or> status \<ge> 300 then Some (PlainError (''webhook returned HTTP '' @ show_int status))
          else if webhookResponseRejected (we_decode env) body then Some (PlainError ''webhook rejected request'')
          else None)"

definition webhook_exchange :: "'w WebhookEnv \<Rightarrow> WebhookConfig \<Rightarrow> Event \<Rightarrow> 'w \<Rightarrow> gw_error option \<times> 'w" where
  "webhook_exchange env c e w =
     (case we_request env (wc_url c) of
        Some err \<Rightarrow> (Some (PlainError (''build webhook request: '' @ Text (Some err) [wc_url c])), w)
      | None \<Rightarrow>
          (case we_send env (webhook_request env c e) w of
             (Inl err, w) \<Rightarrow> (Some (PlainError (''send webhook: '' @ Text (Some err) [wc_url c])), w)
           | (Inr (status, body, failure), w) \<Rightarrow> (webhook_answer env c status body failure, w)))"

text \<open>
  What is returned is the text of the error without the address and the values of the headers.
\<close>

definition WebhookNotify :: "'w WebhookEnv \<Rightarrow> WebhookConfig \<Rightarrow> Event \<Rightarrow> 'w \<Rightarrow> string option \<times> 'w" where
  "WebhookNotify env c e w =
     (case webhook_exchange env c e w of
        (None, w) \<Rightarrow> (None, w)
      | (Some err, w) \<Rightarrow> (Some (Text (Some err) (wc_url c # map snd (wc_headers c))), w))"

section \<open>Mail\<close>

record SMTPConfig =
  sm_address :: string
  sm_username :: string
  sm_password :: string
  sm_from :: string
  sm_to :: "string list"
  sm_implicit_tls :: bool

datatype smtp_action =
    SmtpDial string
  | SmtpHandshake string
  | SmtpGreeting string
  | SmtpStartTLS string
  | SmtpAuth string string string
  | SmtpMail string
  | SmtpRcpt string
  | SmtpData
  | SmtpWrite string
  | SmtpEnd
  | SmtpQuit

record 'w SmtpEnv =
  se_act :: "smtp_action \<Rightarrow> 'w \<Rightarrow> gw_error option \<times> 'w"
  se_starttls :: "'w \<Rightarrow> bool \<times> 'w"
  se_qencode :: "string \<Rightarrow> string"

text \<open>Steps until one fails.\<close>

fun steps :: "('w \<Rightarrow> gw_error option \<times> 'w) list \<Rightarrow> 'w \<Rightarrow> gw_error option \<times> 'w" where
  "steps [] w = (None, w)"
| "steps (f # fs) w = (case f w of (Some err, w) \<Rightarrow> (Some err, w) | (None, w) \<Rightarrow> steps fs w)"

definition wrapped :: "string \<Rightarrow> ('w \<Rightarrow> gw_error option \<times> 'w) \<Rightarrow> 'w \<Rightarrow> gw_error option \<times> 'w" where
  "wrapped what f w = (case f w of (Some err, w) \<Rightarrow> (Some (PlainError (what @ error_string err)), w) | (None,
    w) \<Rightarrow> (None, w))"

definition cleanHeader :: "string \<Rightarrow> string" where
  "cleanHeader = map (\<lambda>c. if c = CHR 0x0D \<or> c = newline then CHR '' '' else c)"

definition crlf :: string where "crlf = [CHR 0x0D, newline]"

definition mail_subject :: "Event \<Rightarrow> string" where
  "mail_subject e = ''[D-API] '' @ webhookEventLabelForEvent e @ utf8 [0x20, 0xC2, 0xB7, 0x20] @ webhookSeverityLabel e"

definition mail_text :: "'w SmtpEnv \<Rightarrow> SMTPConfig \<Rightarrow> Event \<Rightarrow> string" where
  "mail_text env c e =
     ''From: '' @ cleanHeader (sm_from c) @ crlf @ ''To: '' @ cleanHeader (join_strings '', '' (sm_to c)) @ crlf
     @ ''Subject: '' @ se_qencode env (cleanHeader (mail_subject e)) @ crlf @ ''MIME-Version: 1.0'' @ crlf
     @ ''Content-Type: text/plain; charset=UTF-8'' @ crlf @ crlf @ webhookEventText e @ crlf"

definition start_tls :: "'w SmtpEnv \<Rightarrow> string \<Rightarrow> 'w \<Rightarrow> gw_error option \<times> 'w" where
  "start_tls env host w = (case se_starttls env w of (offered, w) \<Rightarrow>
     if offered then wrapped ''start SMTP TLS: '' (se_act env (SmtpStartTLS host)) w else (None, w))"

definition mail_steps :: "'w SmtpEnv \<Rightarrow> SMTPConfig \<Rightarrow> Event \<Rightarrow> string \<Rightarrow> ('w \<Rightarrow> gw_error option \<times> 'w) list" where
  "mail_steps env c e host =
     [wrapped ''connect SMTP: '' (se_act env (SmtpDial (sm_address c)))]
     @ (if sm_implicit_tls c then [wrapped ''start SMTP TLS: '' (se_act env (SmtpHandshake host))] else [])
     @ [wrapped ''start SMTP: '' (se_act env (SmtpGreeting host))]
     @ (if sm_implicit_tls c then [] else [start_tls env host])
     @ (if sm_username c \<noteq> []
        then [wrapped ''authenticate SMTP: '' (se_act env (SmtpAuth (sm_username c) (sm_password c) host))] else [])
     @ [se_act env (SmtpMail (sm_from c))] @ map (\<lambda>r. se_act env (SmtpRcpt r)) (sm_to c)
     @ [se_act env SmtpData, se_act env (SmtpWrite (mail_text env c e)), se_act env SmtpEnd, se_act env SmtpQuit]"

definition SMTPNotify :: "'w SmtpEnv \<Rightarrow> SMTPConfig \<Rightarrow> Event \<Rightarrow> 'w \<Rightarrow> string option \<times> 'w" where
  "SMTPNotify env c e w =
     (case (case SplitHostPort (sm_address c) of
              None \<Rightarrow> (Some (PlainError ''invalid SMTP configuration''), w)
            | Some (host, port) \<Rightarrow>
                if sm_from c = [] \<or> sm_to c = [] then (Some (PlainError ''invalid SMTP configuration''), w)
                else steps (mail_steps env c e host) w) of
        (None, w) \<Rightarrow> (None, w)
      | (Some err, w) \<Rightarrow> (Some (Text (Some err) [sm_password c]), w))"

section \<open>Several notifiers\<close>

fun notify_each :: "(Event \<Rightarrow> 'w \<Rightarrow> string option \<times> 'w) option list \<Rightarrow> Event \<Rightarrow> 'w \<Rightarrow> string list \<times> nat \<times> 'w" where
  "notify_each [] e w = ([], 0, w)"
| "notify_each (None # ns) e w = notify_each ns e w"
| "notify_each (Some f # ns) e w =
     (case f e w of (r, w) \<Rightarrow> case notify_each ns e w of (errs, delivered, w) \<Rightarrow>
        (case r of Some err \<Rightarrow> (err # errs, delivered, w) | None \<Rightarrow> (errs, Suc delivered, w)))"

text \<open>The errors, none when a notifier has delivered.\<close>

definition MultiNotifyErrors :: "(Event \<Rightarrow> 'w \<Rightarrow> string option \<times> 'w) option list \<Rightarrow> Event \<Rightarrow> 'w \<Rightarrow> string list \<times> 'w" where
  "MultiNotifyErrors ns e w = (case notify_each ns e w of (errs, delivered, w) \<Rightarrow> (if delivered > 0 then [] else errs, w))"

end
