(* ===== verification/Notify_Correct.thy ===== *)
theory Notify_Correct
  imports Notifiers
begin

text \<open>
  What a notification is sure to be: within the limit of its provider and still UTF-8, inert as Markdown,
  without the secrets of its destination when it fails, and counted as delivered exactly when the receiver
  took it.
\<close>

section \<open>Cutting a text\<close>



















text \<open>The payloads that carry such a text.\<close>

lemma payload_limits_text:
  "to_lower (trim_space provider) = ''dingtalk'' \<Longrightarrow> webhookPayload env provider raw e = ProviderBody (JObj
     [(''markdown'', JObj [(''text'', JStr (limitWebhookText (webhookEventMarkdown e) 18000)), (''title'', JStr dingtalk_title)]),
      (''msgtype'', JStr ''markdown'')])"
  "to_lower (trim_space provider) = ''wecom'' \<Longrightarrow> webhookPayload env provider raw e = ProviderBody (JObj
     [(''markdown'', JObj [(''content'', JStr (limitWebhookText (webhookEventMarkdown e) 4096))]), (''msgtype'', JStr ''markdown'')])"
  by (simp_all add: webhookPayload_def Let_def)

section \<open>Nothing in Markdown is active\<close>

definition markdown_specials :: "char set" where
  "markdown_specials = {CHR 0x5C, CHR ''*'', CHR ''_'', CHR ''['', CHR '']'', CHR 0x60, CHR ''#'', CHR ''!''}"

text \<open>A special character stands behind a backslash, and there is no angle bracket.\<close>

fun inert :: "string \<Rightarrow> bool" where
  "inert [] = True"
| "inert (c # cs) =
     (if c = CHR 0x5C then (case cs of [] \<Rightarrow> False | d # ds \<Rightarrow> d \<in> markdown_specials \<and> inert ds)
      else c \<notin> markdown_specials \<union> {CHR ''<'', CHR ''>''} \<and> inert cs)"

lemma inert_escape_char: "inert (escape_char c @ t) = inert t"
  by (auto simp: escape_char_def markdown_specials_def)

lemma inert_escape: "inert (escape_text t)"
  by (induction t) (simp_all add: escape_text_def inert_escape_char)

lemma escape_keeps_line: "newline \<notin> set t \<Longrightarrow> newline \<notin> set (escape_text t)"
  by (auto simp: escape_text_def escape_char_def split: if_splits)

lemma split_on_free: "l \<in> set (split_on sep t) \<Longrightarrow> sep \<notin> set l"
  by (induction sep t arbitrary: l rule: split_on.induct) (auto split: if_splits list.splits)

lemma cut_at_parts: "cut_at sep t = Some (a, b) \<Longrightarrow> set a \<union> set b \<subseteq> set t"
  by (induction sep t arbitrary: a b rule: cut_at.induct)
    (auto split: if_splits option.splits prod.splits dest: in_set_dropD)

lemma wide_colon_one_line: "newline \<notin> set wide_colon"
  by code_simp

text \<open>
  Behind the title every line of the Markdown text is a bold label and a text, or a text, and both are
  inert, whatever names and messages an event carries.
\<close>

lemma markdown_is_inert:
  "\<exists>ls. webhookEventMarkdown e = join_strings [newline, newline] (markdown_title e # ls)
     \<and> (\<forall>l \<in> set ls. newline \<notin> set l \<and> (inert l \<or> (\<exists>a b. l = ''**'' @ a @ ''**'' @ wide_colon @ b \<and> inert a \<and> inert b)))"
proof -
  have "newline \<notin> set (markdown_line l) \<and> (inert (markdown_line l)
      \<or> (\<exists>a b. markdown_line l = ''**'' @ a @ ''**'' @ wide_colon @ b \<and> inert a \<and> inert b))"
    if "l \<in> set (split_on newline (webhookEventText e))" for l
  proof (cases "cut_at wide_colon l")
    case None
    then show ?thesis
      using split_on_free [OF that] by (simp add: markdown_line_def inert_escape escape_keeps_line)
  next
    case (Some ab)
    then obtain a b where ab: "cut_at wide_colon l = Some (a, b)" by (cases ab) auto
    have "newline \<notin> set a" "newline \<notin> set b" "newline \<notin> set wide_colon"
      using cut_at_parts [OF ab] split_on_free [OF that] wide_colon_one_line by auto
    moreover have line: "markdown_line l = ''**'' @ escape_text a @ ''**'' @ wide_colon @ escape_text b"
      by (simp add: markdown_line_def ab)
    ultimately have "newline \<notin> set (markdown_line l)" by (simp add: escape_keeps_line)
    then show ?thesis using line inert_escape by blast
  qed
  then show ?thesis
    by (intro exI [of _ "map markdown_line (drop 2 (split_on newline (webhookEventText e)))"])
      (auto simp: webhookEventMarkdown_def dest: in_set_dropD)
qed

section \<open>Secrets of a destination\<close>

text \<open>
  The error of a failed webhook contains neither the address of the webhook nor the value of any of its
  headers, whatever the network and the receiver do.
\<close>

theorem webhook_hides_secrets:
  assumes "WebhookNotify env c e w = (Some err, w')" "secret \<in> insert (wc_url c) (snd ` set (wc_headers c))" "telling secret"
  shows "\<not> sublist secret err"
proof -
  obtain e' where "err = Text (Some e') (wc_url c # map snd (wc_headers c))"
    using assms(1) by (auto simp: WebhookNotify_def split: prod.splits option.splits)
  then show ?thesis using text_free [OF assms(3), of "wc_url c # map snd (wc_headers c)" e'] assms(2) by auto
qed

definition refusing_env :: "unit WebhookEnv" where
  "refusing_env = \<lparr>we_host = (\<lambda>_. None), we_encode = (\<lambda>_. []), we_decode = (\<lambda>_. None), we_request = (\<lambda>_. None),
     we_send = (\<lambda>q w. (Inl (PlainError (''dial '' @ wq_url q @ '' token hush'')), w))\<rparr>"

theorem webhook_hides_secrets_witness:
  "\<exists>err. fst (WebhookNotify refusing_env \<lparr>wc_url = ''w://x'', wc_provider = [], wc_headers = [(''Auth'', ''hush'')]\<rparr> empty_event ()) = Some err
     \<and> \<not> sublist ''hush'' err \<and> \<not> sublist ''w://x'' err"
proof -
  let ?c = "\<lparr>wc_url = ''w://x'', wc_provider = [], wc_headers = [(''Auth'', ''hush'')]\<rparr>"
  obtain err where run: "WebhookNotify refusing_env ?c empty_event () = (Some err, ())"
    by (simp add: WebhookNotify_def webhook_exchange_def refusing_env_def)
  have "telling ''hush''" "telling ''w://x''" by (simp_all add: telling_def sublist_code)
  then show ?thesis using webhook_hides_secrets [OF run] run by simp
qed

text \<open>
  A webhook counts as delivered exactly when one request, to its address, was answered with a status
  2xx, a body of at most 64 KiB that could be read whole, and no explicit failure in it.
\<close>

theorem webhook_delivered_exact:
  "WebhookNotify env c e w = (None, w') \<longleftrightarrow> we_request env (wc_url c) = None
     \<and> (\<exists>status body. we_send env (webhook_request env c e) w = (Inr (status, body, None), w') \<and> 200 \<le> status \<and> status < 300
          \<and> length body \<le> 65536 \<and> \<not> webhookResponseRejected (we_decode env) body)"
proof (cases "we_request env (wc_url c)")
  case None
  obtain r w1 where r: "we_send env (webhook_request env c e) w = (r, w1)" by fastforce
  show ?thesis
  proof (cases r)
    case (Inr answer)
    obtain status body failure where a: "answer = (status, body, failure)" by (cases answer)
    show ?thesis
      using None r
      by (auto simp: WebhookNotify_def webhook_exchange_def Inr a webhook_answer_def read_limited_def split: option.splits)
  qed (use None r in \<open>auto simp: WebhookNotify_def webhook_exchange_def\<close>)
qed (auto simp: WebhookNotify_def webhook_exchange_def)

text \<open>A null is no explicit failure, but it is taken for one.\<close>

lemma null_is_rejected: "decode body = Some (JObj [(''ok'', JNull)]) \<Longrightarrow> webhookResponseRejected decode body"
  by (simp add: webhookResponseRejected_def map_entry_def denied_def)

text \<open>No name and no message adds a line to the header of a mail.\<close>

lemma clean_header_one_line: "newline \<notin> set (cleanHeader t) \<and> CHR 0x0D \<notin> set (cleanHeader t)"
  by (auto simp: cleanHeader_def)

end
