(* ===== verification/Channels.thy ===== *)
theory Channels
  imports Notifiers Upstream_Admin Proxy_Headers
begin

text \<open>
  The notification channels: \<open>validateChannel\<close> and the handlers of
  \<open>internal/httpapi/admin_notifications.go\<close>, the table of
  \<open>internal/store/dashboard.go\<close> and \<open>channels.go\<close>, and
  \<open>ChannelNotifier\<close> of \<open>internal/app/repositories.go\<close>, which reads a configuration
  again when it delivers. A configuration is JSON; \<open>decode\<close> is the JSON parser and
  \<open>parse\<close> that of URLs. Sealing of the stored configuration and
  the time stamps of a channel are left out.
\<close>

record NotificationChannel =
  nc_id :: int
  nc_name :: string
  nc_kind :: string
  nc_enabled :: bool
  nc_config :: string

section \<open>Validation\<close>

text \<open>\<open>json.Unmarshal\<close> of a raw value that may be absent.\<close>

definition raw_string :: "json option \<Rightarrow> string option" where
  "raw_string raw = (case raw of Some (JStr s) \<Rightarrow> Some s | Some JNull \<Rightarrow> Some [] | _ \<Rightarrow> None)"

definition raw_int :: "json \<Rightarrow> int option" where
  "raw_int raw = (case raw of JNum s \<Rightarrow> parse_int64 s | JNull \<Rightarrow> Some 0 | _ \<Rightarrow> None)"

definition raw_strings :: "json \<Rightarrow> string list option" where
  "raw_strings raw = (case list_of raw of None \<Rightarrow> None | Some vs \<Rightarrow> all_some (map (\<lambda>v.
    raw_string (Some v)) vs))"

text \<open>The keys of a map, and its entries with the last value of each.\<close>

definition map_entries :: "json_fields \<Rightarrow> (string \<times> json) list" where
  "map_entries es = map (\<lambda>k. (k, the (map_entry es k))) (remdups (map fst es))"

definition raw_string_map :: "json \<Rightarrow> (string \<times> string) list option" where
  "raw_string_map raw =
     (case struct_of raw of
        None \<Rightarrow> None
      | Some es \<Rightarrow> if list_all (\<lambda>(k, v). raw_string (Some v) \<noteq> None) es
          then Some (map (\<lambda>(k, v). (k, the (raw_string (Some v)))) (map_entries es)) else None)"

definition one_line :: "string \<Rightarrow> bool" where
  "one_line s \<longleftrightarrow> CHR 0x0D \<notin> set s \<and> newline \<notin> set s"

definition valid_webhook_header :: "string \<times> string \<Rightarrow> bool" where
  "valid_webhook_header = (\<lambda>(key, value).
     \<not> (trim_space key = [] \<or> length key > 128 \<or> length value > 4096 \<or> webhook_hop_header key))"

definition valid_webhook :: "(string \<Rightarrow> ParsedUrl option) \<Rightarrow> json_fields \<Rightarrow> bool" where
  "valid_webhook parse values =
     (case raw_string (map_entry values ''url'') of
        None \<Rightarrow> False
      | Some url \<Rightarrow>
          if length url > 2048 then False
          else if (case map_entry values ''provider'' of None \<Rightarrow> False
                   | Some raw \<Rightarrow> (case raw_string (Some raw) of None \<Rightarrow> True
                     | Some p \<Rightarrow> \<not> IsWebhookProvider p)) then False
          else (case parse (trim_space url) of
             None \<Rightarrow> False
           | Some u \<Rightarrow>
               if pu_user u \<or> pu_host u = [] \<or> (pu_scheme u \<noteq> ''http'' \<and> pu_scheme u \<noteq> ''https'') then False
               else if ValidateURL parse url \<noteq> None then False
               else (case map_entry values ''headers'' of
                  None \<Rightarrow> True
                | Some raw \<Rightarrow>
                    (case raw_string_map raw of
                       None \<Rightarrow> False
                     | Some hs \<Rightarrow> length hs \<le> 32 \<and> list_all valid_webhook_header hs))))"

definition valid_recipients :: "json \<Rightarrow> bool" where
  "valid_recipients raw =
     (case raw_string (Some raw) of
        Some recipient \<Rightarrow> \<not> (trim_space recipient = [] \<or> length recipient > 4096 \<or> \<not> one_line recipient)
      | None \<Rightarrow>
          (case raw_strings raw of
             None \<Rightarrow> False
           | Some rs \<Rightarrow> rs \<noteq> [] \<and> length rs \<le> 100
               \<and> list_all (\<lambda>r. \<not> (trim_space r = [] \<or> length r > 320 \<or> \<not> one_line r)) rs))"

definition valid_email :: "json_fields \<Rightarrow> bool" where
  "valid_email values =
     (let host = (case raw_string (map_entry values ''smtp_host'') of None \<Rightarrow> [] | Some s \<Rightarrow> s);
          address = (case raw_string (map_entry values ''address'') of None \<Rightarrow> [] | Some s \<Rightarrow> s)
      in if length (trim_space host) > 253 \<or> length (trim_space address) > 512 then False
         else case (case map_entry values ''smtp_port'' of None \<Rightarrow> Some 587 | Some raw \<Rightarrow> raw_int raw) of
           None \<Rightarrow> False
         | Some port \<Rightarrow>
             if map_entry values ''smtp_port'' \<noteq> None \<and> (port < 1 \<or> port > 65535) then False
             else if (if trim_space address \<noteq> [] then ValidateAddress address \<noteq> None
                      else trim_space host = [] \<or> ValidateAddress (JoinHostPort (trim_space host) (show_int port)) \<noteq> None) then False
             else if \<exists>key \<in> {''username'', ''password'', ''from''}.
                 (case map_entry values key of None \<Rightarrow> False
                  | Some raw \<Rightarrow> (case raw_string (Some raw) of None \<Rightarrow> True | Some s \<Rightarrow> length s > 1024)) then False
             else (case map_entry values ''to'' of None \<Rightarrow> False | Some raw \<Rightarrow> valid_recipients raw))"

definition validateChannel ::
  "(string \<Rightarrow> json option) \<Rightarrow> (string \<Rightarrow> ParsedUrl option) \<Rightarrow> NotificationChannel \<Rightarrow> bool" where
  "validateChannel decode parse c =
     (let name = trim_space (nc_name c)
      in if name = [] \<or> rune_count name > 200 then False
         else if nc_kind c \<noteq> ''email'' \<and> nc_kind c \<noteq> ''webhook'' then False
         else if nc_config c = [] \<or> length (nc_config c) > 65536 then False
         else case decode (nc_config c) of
           Some (JObj values) \<Rightarrow>
             if length (remdups (map fst values)) > 16 then False
             else if nc_kind c = ''webhook'' then valid_webhook parse values else valid_email values
         | _ \<Rightarrow> False)"

section \<open>Reading a configuration to deliver\<close>

datatype channel_notifier = WebhookChannel WebhookConfig | EmailChannel SMTPConfig

text \<open>A map field of a struct: entries of further objects are added, null clears it.\<close>

fun string_map_from :: "json_fields \<Rightarrow> json list \<Rightarrow> json_fields option" where
  "string_map_from acc [] = Some acc"
| "string_map_from acc (JNull # vs) = string_map_from [] vs"
| "string_map_from acc (JObj es # vs) =
     (if list_all (\<lambda>(k, v). raw_string (Some v) \<noteq> None) es then string_map_from (acc @ es) vs else None)"
| "string_map_from acc (_ # vs) = None"

definition string_map_field :: "string \<Rightarrow> json_fields \<Rightarrow> (string \<times> string) list option" where
  "string_map_field name es =
     map_option (\<lambda>hs. map (\<lambda>(k, v). (k, the (raw_string (Some v)))) (map_entries hs)) (string_map_from
       [] (matching name es))"

definition webhook_config :: "json_fields \<Rightarrow> WebhookConfig option" where
  "webhook_config es =
     (case (string_field ''url'' es, string_field ''provider'' es, string_map_field ''headers'' es) of
        (Some url, Some provider, Some headers) \<Rightarrow> Some \<lparr>wc_url = url, wc_provider = provider,
          wc_headers = headers\<rparr>
      | _ \<Rightarrow> None)"

record email_fields =
  ef_address :: string
  ef_host :: string
  ef_port :: int
  ef_username :: string
  ef_password :: string
  ef_from :: string
  ef_to :: "json option"
  ef_implicit_tls :: bool

definition email_fields_of :: "json_fields \<Rightarrow> email_fields option" where
  "email_fields_of es =
     (case (string_field ''address'' es, string_field ''smtp_host'' es, value_field int_of 0 ''smtp_port'' es,
            string_field ''username'' es, string_field ''password'' es, string_field ''from'' es,
            value_field bool_of False ''implicit_tls'' es) of
        (Some address, Some host, Some port, Some username, Some password, Some from_address, Some tls) \<Rightarrow>
          Some \<lparr>ef_address = address, ef_host = host, ef_port = port, ef_username = username, ef_password = password,
                ef_from = from_address, ef_to = raw_field ''to'' es, ef_implicit_tls = tls\<rparr>
      | _ \<Rightarrow> None)"

text \<open>
  The error of an array with other things than strings is dropped; such an element stays empty.
\<close>

definition recipients_of :: "json option \<Rightarrow> string list" where
  "recipients_of raw =
     (case raw of
        Some (JArr vs) \<Rightarrow> map (\<lambda>v. case v of JStr s \<Rightarrow> s | _ \<Rightarrow> []) vs
      | _ \<Rightarrow> (case raw_string raw of None \<Rightarrow> []
              | Some s \<Rightarrow> filter (\<lambda>r. r \<noteq> []) (map trim_space (split_on (CHR '','') s))))"

definition email_config :: "json_fields \<Rightarrow> SMTPConfig option" where
  "email_config es =
     (case email_fields_of es of
        None \<Rightarrow> None
      | Some f \<Rightarrow>
          (let address = (if ef_address f = [] \<and> ef_host f \<noteq> [] then JoinHostPort (ef_host f) (show_int (ef_port f))
                 else ef_address f);
               recipients = recipients_of (ef_to f);
               sender = (if ef_from f = [] then ef_username f else ef_from f);
               sender = (if sender = [] \<and> recipients \<noteq> [] then hd recipients else sender)
           in if address = [] \<or> sender = [] \<or> recipients = [] then None
              else Some \<lparr>sm_address = address, sm_username = ef_username f, sm_password = ef_password f,
                         sm_from = sender, sm_to = recipients, sm_implicit_tls = ef_implicit_tls f\<rparr>))"

definition notifierForChannel :: "(string \<Rightarrow> json option) \<Rightarrow> NotificationChannel \<Rightarrow> string + channel_notifier" where
  "notifierForChannel decode c =
     (if nc_kind c = ''webhook'' then
        (case Option.bind (Option.bind (decode (nc_config c)) struct_of) webhook_config of
           None \<Rightarrow> Inl ''invalid webhook configuration''
         | Some w \<Rightarrow> if trim_space (wc_url w) = [] then Inl ''invalid webhook configuration'' else Inr (WebhookChannel w))
      else if nc_kind c = ''email'' then
        (case Option.bind (Option.bind (decode (nc_config c)) struct_of) email_config of
           None \<Rightarrow> Inl ''invalid email configuration''
         | Some m \<Rightarrow> Inr (EmailChannel m))
      else Inl (''unsupported notification channel kind '' @ [CHR 0x22] @ nc_kind c @ [CHR 0x22]))"

section \<open>Delivering\<close>

record ChannelTable =
  ct_rows :: "NotificationChannel list"
  ct_next :: int

definition ListChannels :: "ChannelTable \<Rightarrow> NotificationChannel list" where
  "ListChannels t = sort_key nc_id (ct_rows t)"

definition ChannelByID :: "int \<Rightarrow> ChannelTable \<Rightarrow> store_error + NotificationChannel" where
  "ChannelByID i t = (case find (\<lambda>c. nc_id c = i) (ct_rows t) of None \<Rightarrow> Inl ErrNotFound | Some c \<Rightarrow> Inr c)"

definition CreateChannel :: "NotificationChannel \<Rightarrow> ChannelTable \<Rightarrow> (store_error + int) \<times> ChannelTable" where
  "CreateChannel c t =
     (let i = ct_next t
      in if nc_name c \<in> nc_name ` set (ct_rows t) then (Inl SqlUniqueViolation, t\<lparr>ct_next := i + 1\<rparr>)
         else (Inr i, t\<lparr>ct_rows := ct_rows t @ [c\<lparr>nc_id := i\<rparr>], ct_next := i + 1\<rparr>))"

text \<open>The outside of both kinds of delivery.\<close>

record 'w DeliveryEnv =
  dv_decode :: "string \<Rightarrow> json option"
  dv_webhook :: "'w WebhookEnv"
  dv_mail :: "'w SmtpEnv"

definition channel_delivery :: "'w DeliveryEnv \<Rightarrow> channel_notifier \<Rightarrow> Event \<Rightarrow> 'w \<Rightarrow> string option \<times> 'w" where
  "channel_delivery env n =
     (case n of WebhookChannel c \<Rightarrow> WebhookNotify (dv_webhook env) c | EmailChannel c \<Rightarrow> SMTPNotify (dv_mail env) c)"

text \<open>
  All enabled channels, or the text of the error of listing them; the errors, of configurations first.
\<close>

definition NotifyChannels :: "'w DeliveryEnv \<Rightarrow> string + NotificationChannel list \<Rightarrow> Event \<Rightarrow> 'w \<Rightarrow> string list \<times> 'w" where
  "NotifyChannels env listed e w =
     (case listed of
        Inl err \<Rightarrow> ([err], w)
      | Inr channels \<Rightarrow>
          (let read = map (\<lambda>c. (nc_id c, notifierForChannel (dv_decode env) c)) (filter nc_enabled channels);
               broken = concat (map (\<lambda>(i, r). case r of Inl err \<Rightarrow> [''channel '' @ show_int i @ '': '' @ err]
                 | Inr n \<Rightarrow> []) read);
               working = concat (map (\<lambda>(i, r). case r of Inl err \<Rightarrow> []
                 | Inr n \<Rightarrow> [Some (channel_delivery env n)]) read)
           in case MultiNotifyErrors working e w of (errs, w) \<Rightarrow> (broken @ errs, w)))"

text \<open>
  One channel, or the error of reading it with its text; a channel that is gone or disabled is done.
\<close>

definition NotifyChannel :: "'w DeliveryEnv \<Rightarrow> (store_error \<times> string) + NotificationChannel \<Rightarrow> Event \<Rightarrow> 'w \<Rightarrow> string option \<times> 'w" where
  "NotifyChannel env found e w =
     (case found of
        Inl (err, told) \<Rightarrow> if err = ErrNotFound then (None, w) else (Some told, w)
      | Inr c \<Rightarrow>
          if \<not> nc_enabled c then (None, w)
          else case notifierForChannel (dv_decode env) c of
            Inl err \<Rightarrow> (Some err, w)
          | Inr n \<Rightarrow> channel_delivery env n e w)"

section \<open>The handlers\<close>

definition createChannel ::
  "(string \<Rightarrow> json option) \<Rightarrow> (string \<Rightarrow> ParsedUrl option) \<Rightarrow> NotificationChannel option \<Rightarrow> ChannelTable
   \<Rightarrow> reply \<times> (string \<times> int) option \<times> ChannelTable" where
  "createChannel decode parse input t =
     (case input of
        None \<Rightarrow> ((400, ''invalid_request''), None, t)
      | Some c \<Rightarrow>
          if \<not> validateChannel decode parse c then ((400, ''invalid_channel''), None, t)
          else case CreateChannel c t of
            (Inl e, t) \<Rightarrow> (writeStoreError e, None, t)
          | (Inr i, t) \<Rightarrow> ((201, []), Some (''channel.create'', i), t))"

definition test_event :: "time \<Rightarrow> Event" where
  "test_event now = empty_event\<lparr>ev_type := ''notification_test'', ev_state := ''success'',
     ev_message := utf8 [0x44, 0x2D, 0x41, 0x50, 0x49, 0x20, 0x57, 0x65, 0x62, 0x68, 0x6F, 0x6F, 0x6B, 0x20, 0xE8, 0xBF,
       0x9E, 0xE9, 0x80, 0x9A, 0xE6, 0x80, 0xA7, 0xE6, 0xB5, 0x8B, 0xE8, 0xAF, 0x95], ev_at := now\<rparr>"

definition testChannel ::
  "(string \<Rightarrow> ParsedUrl option) \<Rightarrow> 'w DeliveryEnv \<Rightarrow> string \<Rightarrow> ChannelTable \<Rightarrow> time \<Rightarrow> 'w
   \<Rightarrow> reply \<times> (string \<times> int) option \<times> 'w" where
  "testChannel parse env path t now w =
     (case pathID path of
        None \<Rightarrow> ((400, ''invalid_id''), None, w)
      | Some i \<Rightarrow>
          (case ChannelByID i t of
             Inl e \<Rightarrow> (writeStoreError e, None, w)
           | Inr c \<Rightarrow>
               if nc_kind c \<noteq> ''webhook'' then ((400, ''unsupported_channel_test''), None, w)
               else if \<not> validateChannel (dv_decode env) parse c then ((400, ''invalid_channel''), None, w)
               else (case Option.bind (Option.bind (dv_decode env (nc_config c)) struct_of) webhook_config of
                  None \<Rightarrow> ((400, ''invalid_channel''), None, w)
                | Some config \<Rightarrow>
                    if trim_space (wc_url config) = [] then ((400, ''invalid_channel''), None, w)
                    else (case WebhookNotify (dv_webhook env) config (test_event now) w of
                       (Some err, w) \<Rightarrow> ((502, ''channel_test_failed''), None, w)
                     | (None, w) \<Rightarrow> ((200, []), Some (''channel.test'', i), w)))))"

definition deleteChannel :: "string \<Rightarrow> OutboxDB \<Rightarrow> reply \<times> (string \<times> int) option \<times> OutboxDB" where
  "deleteChannel path db =
     (case pathID path of
        None \<Rightarrow> ((400, ''invalid_id''), None, db)
      | Some i \<Rightarrow>
          (case DeleteChannel i db of
             (False, db) \<Rightarrow> (writeStoreError ErrNotFound, None, db)
           | (True, db) \<Rightarrow> ((204, []), Some (''channel.delete'', i), db)))"

end
