(* ===== verification/Spec2Isabelle.thy ===== *)
theory Spec2Isabelle
  imports Gateway_Resources Alert_Engine Rate_Limiter Usage_Store Pricing Health_Store
    Access_Store Safe_Error Stream_Relay Proxy_Guarantees Outbox_Worker Netguard Monitor
    Proxy_Headers Probe_Correct Today_Correct Upstream_Admin Alert_Correct Notify_Correct Channels
begin

text \<open>
  D-API is a gateway in front of providers of language models. Clients hold a key of the gateway; a
  request of theirs (\<open>internal/gateway\<close>) is authenticated, admitted against concurrency, rate and memory
  limits, and tried on the upstreams of the key's group in order of priority until one of them answers;
  the answer is relayed, as a stream or whole, and one log entry is recorded. The store
  (\<open>internal/store\<close>, PostgreSQL) keeps upstreams, groups, keys, prices, logs and their aggregates;
  \<open>internal/ops\<close>, \<open>internal/alerts\<close> and \<open>internal/app\<close> probe the upstreams, watch balances and error rates
  and send notifications; \<open>internal/httpapi\<close> is the administration interface over the store.

  \<^bold>\<open>Conventions.\<close> A Go struct is a record with a field of the same meaning, an enumeration a datatype, a
  duration or an instant an integer of nanoseconds, a machine integer an \<open>int\<close> with its wrap-around
  (\<open>wrap64\<close>) written out where values are summed, a string a list of bytes. Errors are values of option
  and sum types. A table of the database is a list of rows; a statement is a function on the tables and
  a transaction that fails leaves them as they were. Mutexes make the operations atomic; concurrent
  behaviour is a list of events, one per critical section, in any order. What is not code of this
  repository (the JSON codec, the URL parser, SHA-256, the network, the clock, the database driver) is a
  parameter of the definitions.

  \<^bold>\<open>Theories.\<close>
  \<^item> \<open>Prelude\<close>: time, 64-bit integers, UTF-8 and string functions, shared lemmas. \<open>Core_Types\<close>:
    \<open>internal/core/types.go\<close>.
  \<^item> \<open>Gateway_Resources\<close>: \<open>gateway/limits.go\<close> and \<open>resources.go\<close>, the admission gate and the memory budgets
    (two interpretations of the locale \<open>admission\<close>), the response buffer, the limits. \<open>Rate_Limiter\<close>: the
    fixed-window limiter against the history it stands for.
  \<^item> \<open>Transport\<close>: \<open>gateway/transport.go\<close>, headers, outgoing requests, body rewriting, HTTP clients.
    \<open>JSON_Values\<close> and \<open>SSE_Parser\<close>: how \<open>encoding/json\<close> fills structs, \<open>gateway/usage.go\<close>. \<open>Stream_Relay\<close>:
    \<open>gateway/stream.go\<close>. \<open>Netguard\<close>: \<open>netguard/netguard.go\<close>, which addresses may be dialled. \<open>Safe_Error\<close>: \<open>safeerr/errors.go\<close>. \<open>Recorder\<close>: \<open>gateway/recorder.go\<close>.
  \<^item> \<open>Effects\<close>: weakest preconditions for the state monad. \<open>Gateway_State\<close>, \<open>Proxy\<close>, \<open>Proxy_Correct\<close>,
    \<open>Proxy_Guarantees\<close>: \<open>gateway/handler.go\<close>, one request from authentication to its log entry.
  \<^item> \<open>Caches\<close>: \<open>store/cache.go\<close> and \<open>load_gate.go\<close>. \<open>Pricing\<close>: prices, their cache and costs in
    \<open>store/pricing.go\<close>. \<open>Usage_Store\<close>: \<open>store/log_batch.go\<close> and the writing half of \<open>logs.go\<close>.
  \<^item> \<open>Store_Tables\<close>, \<open>Health_Store\<close>: \<open>store/upstreams.go\<close> and \<open>health_notifications.go\<close>. \<open>Access_Store\<close>:
    \<open>store/groups.go\<close>, \<open>apikeys.go\<close>, \<open>auth/auth.go\<close> and the handlers of \<open>httpapi/admin_access.go\<close>.
  \<^item> \<open>Outbox\<close>, \<open>Outbox_Worker\<close>: \<open>store/notifications.go\<close> and \<open>app/notifications.go\<close>, the leases of the
    notification outbox under any interleaving of workers, and the rounds of one worker.
  \<^item> \<open>Monitor\<close>: \<open>ops/monitor.go\<close>, the adapters of \<open>app/repositories.go\<close> and the cooldown of
    \<open>ops/notifier.go\<close>; both loops on the pending notices as a step relation.
  \<^item> \<open>Probe_Parse\<close>, \<open>Probe\<close>, \<open>Model_Probe\<close>: \<open>ops/probe.go\<close>, \<open>probe_cache.go\<close> and \<open>newapi_today.go\<close>, in the
    state monad over an outside world that answers requests; \<open>Probe_Correct\<close> and \<open>Today_Correct\<close> say where
    credentials go and what the figures mean.
  \<^item> \<open>Login_Limiter\<close>, \<open>Admin_Auth\<close>, \<open>Proxy_Headers\<close>: \<open>store/admin.go\<close> and the sign-in half of \<open>httpapi/admin.go\<close>;
    requests interleave as a step relation.
  \<^item> \<open>Upstream_Admin\<close>: \<open>httpapi/admin_upstreams.go\<close>, what administrators may store as an upstream, with changes
    that interleave between reading a row and writing it.
  \<^item> \<open>Incident\<close>, \<open>Ops_Event\<close>, \<open>Alert_Engine\<close>: \<open>ops/incident.go\<close>, \<open>alerts/engine.go\<close>, \<open>store/alerts.go\<close>.
    \<open>Go_Text\<close>: numbers and instants as text. \<open>Alert_Observe\<close>: what the rules watch, \<open>app/alerts_repository.go\<close>, and the
    handlers of rules; \<open>Alert_Correct\<close>: which rule watches which upstream, and what the evidence of an alert says.

  \<^item> \<open>Notifiers\<close>, \<open>Notify_Correct\<close>: the rest of \<open>ops/notifier.go\<close>, texts, webhooks and mail. \<open>Channels\<close>: validation,
    storage and delivery of notification channels, \<open>httpapi/admin_notifications.go\<close>, \<open>store/dashboard.go\<close> and the
    channel notifier of \<open>app/repositories.go\<close>.

  \<^bold>\<open>What is shown.\<close>
  \<^item> Limits and memory: the gate, the rate limiter and the response buffer admit and count exactly; every path of a
    request gives back what it took, a refused request gets its one status, and an attempt that fails leaves nothing
    with the client.
  \<^item> Accounting: the batch path and the single path of the log leave the same tables when neither fails and the
    zone of the session is a whole number of hours off; an entry given to the recorder is in exactly one place at
    every moment; the two ways of computing a cost agree but for one kind of log.
  \<^item> Caches and access: cached routes, keys and prices are never older than the last change; administrators keep
    keys, groups and members consistent.
  \<^item> Health, balance and alerts: circuits, suspensions and notices change exactly at their thresholds; cooldown and
    budget of an incident hold for every policy that has a stability window or never recovers; the engine computes
    exactly what the state machine says, with the outbox accepting or refusing.
  \<^item> Delivery: leases fence all four reports of a worker, rounds drain the outbox, the monitor loses no transition.
  \<^item> Security: credentials of clients and upstreams stay where they belong, secrets do not show in errors, blocked
    addresses are not dialled, sessions know the current password, guesses one after the other are limited.

  \<^bold>\<open>Bounds.\<close> No definition uses fuel. The loops over pages, batches and retries recurse on their input or on the
  number of rounds the code itself allows; reading loops run over a finite list of events, of which the last one ends
  the loop.

  \<^bold>\<open>Not modelled.\<close> The dashboard, log and usage reports and the read-only views (SQL that only reads), the
  cleanup jobs, schema migration and connection set-up, the remaining handlers of \<open>httpapi\<close>, static files,
  the encryption of stored secrets, configuration and \<open>cmd/dapi\<close>. Time spent
  waiting is modelled only as the order of events.
\<close>

end
